(* ===== verification/Prelude.thy ===== *)
theory Prelude
  imports Main "HOL-Library.Word"
begin

text \<open>
  Shared vocabulary of the development: machine integers, the result type of fallible
  code, Rust's string helpers as the sources use them, and the generic list lemmas that
  the component theories rely on.

  A Rust \<^verbatim>\<open>String\<close> is the list of its UTF-8 bytes (\<^typ>\<open>string\<close>). Every place of the sources
  that iterates over the characters of a string compares them with ASCII characters only,
  and no byte of a multi-byte UTF-8 sequence is an ASCII byte, so the byte-wise functions
  below take the same branches.
\<close>

named_theorems result_simps \<open>equations of the result combinators\<close>
named_theorems result_errs \<open>where an error of a result combinator comes from\<close>

type_synonym u8 = "8 word"
type_synonym u32 = "32 word"
type_synonym u64 = "64 word"

unbundle bit_operations_syntax

text \<open>The cast \<^verbatim>\<open>as i64\<close> of a \<^verbatim>\<open>u64\<close>.\<close>

definition u64_as_i64 :: "nat \<Rightarrow> int" where
  "u64_as_i64 n = (if n < 2 ^ 63 then int n else int n - 2 ^ 64)"

section \<open>Results\<close>

text \<open>
  \<^verbatim>\<open>Result<T, E>\<close> is the sum \<^typ>\<open>'e + 'a\<close> with \<^const>\<open>Inl\<close> the error. \<open>bind_res\<close> is the
  \<^verbatim>\<open>?\<close> operator and \<open>map_err\<close> the method of that name.
\<close>

definition bind_res :: "'e + 'a \<Rightarrow> ('a \<Rightarrow> 'e + 'b) \<Rightarrow> 'e + 'b" where
  "bind_res r f = (case r of Inl e \<Rightarrow> Inl e | Inr x \<Rightarrow> f x)"

definition map_err :: "('e \<Rightarrow> 'f) \<Rightarrow> 'e + 'a \<Rightarrow> 'f + 'a" where
  "map_err g r = (case r of Inl e \<Rightarrow> Inl (g e) | Inr x \<Rightarrow> Inr x)"

definition ok_or :: "'e \<Rightarrow> 'a option \<Rightarrow> 'e + 'a" where
  "ok_or e x = (case x of None \<Rightarrow> Inl e | Some y \<Rightarrow> Inr y)"

lemma bind_res_simps [simp, result_simps]:
  "bind_res (Inl e) f = Inl e" "bind_res (Inr x) f = f x"
  by (simp_all add: bind_res_def)

lemma map_err_simps [simp, result_simps]:
  "map_err g (Inl e) = Inl (g e)" "map_err g (Inr x) = Inr x"
  by (simp_all add: map_err_def)

lemma ok_or_simps [simp, result_simps]:
  "ok_or e None = Inl e" "ok_or e (Some x) = Inr x"
  by (simp_all add: ok_or_def)

lemma bind_res_eq_Inr [result_simps]:
  "bind_res r f = Inr y \<longleftrightarrow> (\<exists>x. r = Inr x \<and> f x = Inr y)"
  by (cases r) auto

lemma map_err_eq_Inr [result_simps]: "map_err g r = Inr y \<longleftrightarrow> r = Inr y"
  by (cases r) auto

lemma ok_or_eq_Inr [result_simps]: "ok_or e x = Inr y \<longleftrightarrow> x = Some y"
  by (cases x) auto

lemma bind_res_eq_Inl [result_errs]:
  "bind_res r f = Inl e \<longleftrightarrow> r = Inl e \<or> (\<exists>x. r = Inr x \<and> f x = Inl e)"
  by (cases r) auto

lemma map_err_eq_Inl [result_errs]: "map_err g r = Inl e \<longleftrightarrow> (\<exists>d. r = Inl d \<and> e = g d)"
  by (cases r) auto

lemma ok_or_eq_Inl [result_errs]: "ok_or d x = Inl e \<longleftrightarrow> x = None \<and> e = d"
  by (cases x) auto

text \<open>\<^verbatim>\<open>iter().map(f).collect::<Result<Vec<_>, _>>()\<close>: the first error, or all the values.\<close>

fun collect_res :: "('a \<Rightarrow> 'e + 'b) \<Rightarrow> 'a list \<Rightarrow> 'e + 'b list" where
  "collect_res f [] = Inr []"
| "collect_res f (x # xs) = bind_res (f x) (\<lambda>y. bind_res (collect_res f xs) (\<lambda>ys. Inr (y # ys)))"

lemma collect_res_Inr_map:
  "(\<And>x. x \<in> set xs \<Longrightarrow> f x = Inr (g x)) \<Longrightarrow> collect_res f xs = Inr (map g xs)"
  by (induction xs) auto

lemma collect_res_map: "collect_res f (map g xs) = collect_res (\<lambda>x. f (g x)) xs"
  by (induction xs) auto

lemma collect_res_Inr_iff:
  "collect_res f xs = Inr ys \<longleftrightarrow> list_all2 (\<lambda>x y. f x = Inr y) xs ys"
  by (induction xs arbitrary: ys) (auto simp: result_simps list_all2_Cons1)

lemma collect_res_Inl_iff:
  "(\<exists>e. collect_res f xs = Inl e) \<longleftrightarrow> (\<exists>x \<in> set xs. \<exists>e. f x = Inl e)"
proof (induction xs)
  case (Cons a xs)
  then show ?case by (cases "f a"; cases "collect_res f xs") auto
qed simp

lemma collect_res_first_error:
  "(\<And>u. u \<in> set us \<Longrightarrow> \<exists>y. f u = Inr y) \<Longrightarrow> f x = Inl e \<Longrightarrow> collect_res f (us @ x # vs) = Inl e"
  by (induction us) (auto, force)

section \<open>Chunks\<close>

text \<open>
  Cutting a list into blocks of \<open>k\<close> elements: \<open>full_chunks\<close> are the complete blocks,
  \<open>chunk_rest\<close> what is left behind them, and \<open>chunk_pad\<close> all blocks with the last one filled
  up with \<open>p\<close>.
\<close>

function full_chunks :: "nat \<Rightarrow> 'a list \<Rightarrow> 'a list list" where
  "full_chunks k xs =
     (if 0 < k \<and> k \<le> length xs then take k xs # full_chunks k (drop k xs) else [])"
  by pat_completeness auto
termination by (relation "measure (length \<circ> snd)") auto

function chunk_rest :: "nat \<Rightarrow> 'a list \<Rightarrow> 'a list" where
  "chunk_rest k xs = (if 0 < k \<and> k \<le> length xs then chunk_rest k (drop k xs) else xs)"
  by pat_completeness auto
termination by (relation "measure (length \<circ> snd)") auto

declare full_chunks.simps [simp del] chunk_rest.simps [simp del]

definition chunk_pad :: "nat \<Rightarrow> 'a \<Rightarrow> 'a list \<Rightarrow> 'a list list" where
  "chunk_pad k p xs =
     (let r = chunk_rest k xs
      in full_chunks k xs @ (if r = [] then [] else [r @ replicate (k - length r) p]))"

lemma chunks_short [simp]:
  "length xs < k \<Longrightarrow> full_chunks k xs = []"
  "length xs < k \<Longrightarrow> chunk_rest k xs = xs"
  by (simp_all add: full_chunks.simps chunk_rest.simps)

lemma chunks_block:
  assumes "0 < k" "length us = k"
  shows "full_chunks k (us @ xs) = us # full_chunks k xs"
    and "chunk_rest k (us @ xs) = chunk_rest k xs"
  using assms by (simp_all add: full_chunks.simps [of k "us @ xs"] chunk_rest.simps [of k "us @ xs"])

lemma concat_full_chunks: "concat (full_chunks k xs) @ chunk_rest k xs = xs"
proof (induction k xs rule: full_chunks.induct)
  case (1 k xs)
  then show ?case by (subst full_chunks.simps, subst chunk_rest.simps) auto
qed

lemma length_chunk_rest: "0 < k \<Longrightarrow> length (chunk_rest k xs) = length xs mod k"
proof (induction k xs rule: chunk_rest.induct)
  case (1 k xs)
  then show ?case by (subst chunk_rest.simps) (auto simp: le_mod_geq)
qed

lemma length_chunk_rest_less [simp]: "0 < k \<Longrightarrow> length (chunk_rest k xs) < k"
  by (simp add: length_chunk_rest)

lemma length_full_chunks: "0 < k \<Longrightarrow> length (full_chunks k xs) = length xs div k"
proof (induction k xs rule: full_chunks.induct)
  case (1 k xs)
  then show ?case by (subst full_chunks.simps) (auto simp: le_div_geq)
qed

lemma full_chunks_length: "c \<in> set (full_chunks k xs) \<Longrightarrow> length c = k"
proof (induction k xs rule: full_chunks.induct)
  case (1 k xs)
  then show ?case by (subst (asm) (2) full_chunks.simps) (auto split: if_splits)
qed

lemma full_chunks_append:
  "0 < k \<Longrightarrow> full_chunks k (xs @ ys) = full_chunks k xs @ full_chunks k (chunk_rest k xs @ ys)"
proof (induction k xs rule: full_chunks.induct)
  case (1 k xs)
  show ?case
  proof (cases "k \<le> length xs")
    case True
    have "full_chunks k (take k xs @ (drop k xs @ ys)) = take k xs # full_chunks k (drop k xs @ ys)"
      using True 1 by (subst chunks_block) auto
    with True 1 show ?thesis
      by (simp add: full_chunks.simps [of k xs] chunk_rest.simps [of k xs] del: append_take_drop_id)
        (simp flip: append_assoc)
  qed simp
qed

lemma chunk_rest_append:
  "0 < k \<Longrightarrow> chunk_rest k (xs @ ys) = chunk_rest k (chunk_rest k xs @ ys)"
proof (induction k xs rule: full_chunks.induct)
  case (1 k xs)
  show ?case
  proof (cases "k \<le> length xs")
    case True
    have "chunk_rest k (take k xs @ (drop k xs @ ys)) = chunk_rest k (drop k xs @ ys)"
      using True 1 by (subst chunks_block) auto
    with True 1 show ?thesis
      by (simp add: chunk_rest.simps [of k xs] del: append_take_drop_id) (simp flip: append_assoc)
  qed simp
qed

lemma chunk_pad_append:
  "0 < k \<Longrightarrow> chunk_pad k p (xs @ ys) = full_chunks k xs @ chunk_pad k p (chunk_rest k xs @ ys)"
  by (simp add: chunk_pad_def Let_def full_chunks_append [of k xs ys] chunk_rest_append [of k xs ys])

lemma full_chunks_concat:
  "0 < k \<Longrightarrow> (\<forall>c \<in> set cs. length c = k) \<Longrightarrow> length r < k \<Longrightarrow> full_chunks k (concat cs @ r) = cs"
  by (induction cs) (auto simp: chunks_block)

lemma concat_chunk_pad:
  assumes "0 < k"
  shows "\<exists>n < k. concat (chunk_pad k p xs) = xs @ replicate n p"
proof (cases "chunk_rest k xs = []")
  case True
  then have "concat (chunk_pad k p xs) = xs @ replicate 0 p"
    using concat_full_chunks [of k xs] by (simp add: chunk_pad_def)
  with assms show ?thesis by blast
next
  case False
  let ?n = "k - length (chunk_rest k xs)"
  have "concat (chunk_pad k p xs) = xs @ replicate ?n p"
    using False concat_full_chunks [of k xs] by (simp add: chunk_pad_def Let_def)
  moreover have "?n < k" using False assms by simp
  ultimately show ?thesis by blast
qed

lemma chunk_pad_lengths: "0 < k \<Longrightarrow> c \<in> set (chunk_pad k p xs) \<Longrightarrow> length c = k"
  using length_chunk_rest_less [of k xs]
  by (auto simp: chunk_pad_def Let_def dest: full_chunks_length split: if_splits
      simp del: length_chunk_rest_less)

lemma length_chunk_pad:
  assumes "0 < k"
  shows "length (chunk_pad k p xs) = (length xs + k - 1) div k"
proof -
  let ?q = "length xs div k" and ?r = "length xs mod k"
  have len: "length xs = k * ?q + ?r" by simp
  have r: "chunk_rest k xs = [] \<longleftrightarrow> ?r = 0"
    by (metis assms length_0_conv length_chunk_rest)
  have "?r < k" using assms by simp
  show ?thesis
  proof (cases "?r = 0")
    case True
    then have "length xs + k - 1 = k * ?q + (k - 1)" using len assms by simp
    then have "(length xs + k - 1) div k = ?q"
      using assms by (metis add.right_neutral diff_less div_less div_mult_self4 less_numeral_extra(1)
          nat_neq_iff not_less_zero)
    with True r show ?thesis by (simp add: chunk_pad_def Let_def length_full_chunks assms)
  next
    case False
    then have "length xs + k - 1 = k * Suc ?q + (?r - 1)" using len assms by simp
    then have "(length xs + k - 1) div k = Suc ?q"
      using \<open>?r < k\<close> assms
      by (metis add.right_neutral div_less div_mult_self4 less_imp_diff_less nat_neq_iff not_less_zero)
    with False r show ?thesis by (simp add: chunk_pad_def Let_def length_full_chunks assms)
  qed
qed

section \<open>Bit strings\<close>

text \<open>
  \<open>bits_be n v\<close> are the \<open>n\<close> low bits of \<open>v\<close>, most significant first; \<open>bits_val\<close> reads such
  a list back as a number.
\<close>

fun bits_be :: "nat \<Rightarrow> 'a::semiring_bit_operations \<Rightarrow> bool list" where
  "bits_be 0 v = []"
| "bits_be (Suc n) v = bit v n # bits_be n v"

fun bits_val :: "bool list \<Rightarrow> nat" where
  "bits_val [] = 0"
| "bits_val (b # bs) = of_bool b * 2 ^ length bs + bits_val bs"

lemma length_bits_be [simp]: "length (bits_be n v) = n"
  by (induction n) auto

lemma bits_be_cong: "(\<And>i. i < n \<Longrightarrow> bit v i = bit w i) \<Longrightarrow> bits_be n v = bits_be n w"
  by (induction n) auto

lemma bits_be_split: "bits_be (m + n) v = bits_be m (drop_bit n v) @ bits_be n v"
  by (induction m) (auto simp: bit_drop_bit_eq add.commute)

lemma bits_val_less: "bits_val bs < 2 ^ length bs"
  by (induction bs) auto

lemma bits_val_bits_be: "bits_val (bits_be n (v :: nat)) = take_bit n v"
  by (induction n) (auto simp: take_bit_Suc_from_most)

lemma bits_be_unat: "n \<le> LENGTH('a) \<Longrightarrow> bits_be n (unat (w :: 'a::len word)) = bits_be n w"
  by (rule bits_be_cong) (simp add: bit_unsigned_iff)

lemma bits_val_bits_be_word:
  "n \<le> LENGTH('a) \<Longrightarrow> bits_val (bits_be n (w :: 'a::len word)) = unat (take_bit n w)"
  by (simp add: bits_be_unat [symmetric] bits_val_bits_be unsigned_take_bit_eq)

lemma take_bit_word_small: "unat (w :: 'a::len word) < 2 ^ n \<Longrightarrow> take_bit n w = w"
  by (simp add: word_unat_eq_iff unsigned_take_bit_eq take_bit_nat_eq_self)

lemma bits_val_inj: "length bs = length cs \<Longrightarrow> bits_val bs = bits_val cs \<longleftrightarrow> bs = cs"
proof (induction bs cs rule: list_induct2)
  case (Cons b bs c cs)
  then show ?case
    using bits_val_less [of bs] bits_val_less [of cs] by (cases b; cases c) auto
qed simp

lemma bits_be_bits_val [simp]: "bits_be (length bs) (bits_val bs) = bs"
proof -
  have "bits_val (bits_be (length bs) (bits_val bs)) = bits_val bs"
    by (simp add: bits_val_bits_be take_bit_nat_eq_self bits_val_less)
  then show ?thesis by (simp add: bits_val_inj)
qed

section \<open>Strings\<close>

text \<open>\<^verbatim>\<open>str::as_bytes\<close> and its inverse \<^verbatim>\<open>String::from_utf8_unchecked\<close>.\<close>

definition as_bytes :: "string \<Rightarrow> u8 list" where
  "as_bytes s = map of_char s"

definition from_bytes :: "u8 list \<Rightarrow> string" where
  "from_bytes bs = map (\<lambda>b. char_of (unat b)) bs"

lemma length_as_bytes [simp]: "length (as_bytes s) = length s"
  by (simp add: as_bytes_def)

lemma unat_u8_less: "unat (b :: u8) < 256"
proof -
  have "unat b < 2 ^ LENGTH(8)" by (rule unsigned_less)
  then show ?thesis by simp
qed

lemma unat_of_char: "unat (of_char c :: u8) = of_char c"
proof -
  have "unat (of_char c :: u8) = unat (of_nat (of_char c) :: u8)"
    by (simp only: of_nat_of_char)
  also have "\<dots> = of_char c mod 256"
    by (simp only: unat_of_nat) simp
  finally show ?thesis by simp
qed

lemma from_as_bytes [simp]: "from_bytes (as_bytes s) = s"
  by (induction s) (simp_all add: from_bytes_def as_bytes_def unat_of_char)

lemma as_from_bytes [simp]: "as_bytes (from_bytes bs) = bs"
proof (induction bs)
  case (Cons b bs)
  have "of_char (char_of (unat b) :: char) = (of_nat (of_char (char_of (unat b))) :: u8)"
    by (simp only: of_nat_of_char)
  also have "\<dots> = of_nat (unat b mod 256)" by (simp only: of_char_of)
  also have "\<dots> = b" using unat_u8_less [of b] by simp
  finally show ?case using Cons by (simp add: as_bytes_def from_bytes_def)
qed (simp add: as_bytes_def from_bytes_def)

lemma as_bytes_append: "as_bytes (s @ t) = as_bytes s @ as_bytes t"
  by (simp add: as_bytes_def)

text \<open>Decimal output of an unsigned integer (\<^verbatim>\<open>Display\<close>) and its reading (\<^verbatim>\<open>str::parse\<close>).\<close>

definition digit_char :: "nat \<Rightarrow> char" where
  "digit_char d = char_of (48 + d)"

fun dec_nat :: "nat \<Rightarrow> string" where
  "dec_nat n = (if n < 10 then [digit_char n] else dec_nat (n div 10) @ [digit_char (n mod 10)])"

declare dec_nat.simps [simp del]

definition is_ascii_digit :: "char \<Rightarrow> bool" where
  "is_ascii_digit c \<longleftrightarrow> (48 :: nat) \<le> of_char c \<and> of_char c \<le> (57 :: nat)"

definition digits_val :: "nat \<Rightarrow> string \<Rightarrow> nat" where
  "digits_val a s = foldl (\<lambda>acc c. acc * 10 + (of_char c - 48)) a s"

lemma digit_char_simps [simp]:
  "d < 10 \<Longrightarrow> is_ascii_digit (digit_char d)"
  "d < 10 \<Longrightarrow> of_char (digit_char d) = 48 + (d :: nat)"
  by (simp_all add: digit_char_def is_ascii_digit_def)

lemma dec_nat_digits: "set (dec_nat n) \<subseteq> Collect is_ascii_digit"
proof (induction n rule: dec_nat.induct)
  case (1 n)
  then show ?case by (subst dec_nat.simps) auto
qed

lemma dec_nat_nonempty [simp]: "dec_nat n \<noteq> []"
  by (subst dec_nat.simps) simp

lemma digits_val_dec_nat: "digits_val 0 (dec_nat n) = n"
proof (induction n rule: dec_nat.induct)
  case (1 n)
  then show ?case by (subst dec_nat.simps) (simp add: digits_val_def)
qed

lemma dec_nat_inj: "dec_nat m = dec_nat n \<longleftrightarrow> m = n"
  by (metis digits_val_dec_nat)

end
