(* ===== verification/Errors.thy ===== *)
theory Errors
  imports Prelude
begin

text \<open>
  The framework's error type (\<^verbatim>\<open>src/src/error\<close>) and the enumerations that feed it: \<^verbatim>\<open>HttpError\<close>,
  \<^verbatim>\<open>JwtError\<close> and \<^verbatim>\<open>DnsError\<close>. \<^verbatim>\<open>Error\<close> is a record whose \<open>source\<close> is the boxed cause; the sources box a
  \<^verbatim>\<open>JwtError\<close>, a \<^verbatim>\<open>DnsError\<close> or an error of a third-party library, kept as its message.
\<close>

section \<open>JSON values\<close>

text \<open>
  The shape of \<^verbatim>\<open>serde_json::Value\<close>, with the part of its interface the sources use.
  A number is an integer or, with a fraction or an exponent, its source text; \<^verbatim>\<open>as_u64\<close>
  succeeds on the integers of its range only. An object is the list of
  its entries; serde's map keeps one entry per key.
\<close>

datatype json = JNull | JBool bool | JNumber int | JFloat string | JString string
  | JArray "json list" | JObject "(string \<times> json) list"

fun json_get :: "json \<Rightarrow> string \<Rightarrow> json option" where
  "json_get (JObject es) k = map_of es k"
| "json_get _ k = None"

fun json_as_u64 :: "json \<Rightarrow> nat option" where
  "json_as_u64 (JNumber n) = (if 0 \<le> n \<and> n < 2 ^ 64 then Some (nat n) else None)"
| "json_as_u64 _ = None"

fun json_as_str :: "json \<Rightarrow> string option" where
  "json_as_str (JString s) = Some s"
| "json_as_str _ = None"

text \<open>\<^verbatim>\<open>map.insert(key, value)\<close> and \<^verbatim>\<open>value[key] = v\<close>: replace the entry of the key or add one.\<close>

fun entries_insert :: "string \<Rightarrow> json \<Rightarrow> (string \<times> json) list \<Rightarrow> (string \<times> json) list" where
  "entries_insert k v [] = [(k, v)]"
| "entries_insert k v ((a, b) # es) =
     (if a = k then (k, v) # es else (a, b) # entries_insert k v es)"

lemma map_of_entries_insert [simp]: "map_of (entries_insert k v es) = (map_of es)(k \<mapsto> v)"
  by (induction es) auto

lemma keys_entries_insert: "fst ` set (entries_insert k v es) = insert k (fst ` set es)"
proof (induction es)
  case (Cons e es)
  then show ?case by (cases e) auto
qed simp

lemma distinct_entries_insert:
  "distinct (map fst es) \<Longrightarrow> distinct (map fst (entries_insert k v es))"
proof (induction es)
  case (Cons e es)
  obtain a b where e: "e = (a, b)" by (cases e)
  have "a \<noteq> k \<Longrightarrow> a \<notin> fst ` set (entries_insert k v es)"
    using Cons.prems e by (simp add: keys_entries_insert)
  then show ?case using Cons e by auto
qed simp

section \<open>JwtError\<close>

datatype jwt_error =
    MissingToken | InvalidHeader | MalformedToken | DeserializationFailed
  | InvalidSignature | Expired | NotYetValid | InvalidIssuer | InvalidAudience
  | AlgorithmMismatch | SigningFailed | SerializationFailed

fun jwt_error_code :: "jwt_error \<Rightarrow> string" where
  "jwt_error_code MissingToken = ''jwt:missing_token''"
| "jwt_error_code InvalidHeader = ''jwt:invalid_header''"
| "jwt_error_code MalformedToken = ''jwt:malformed_token''"
| "jwt_error_code DeserializationFailed = ''jwt:deserialization_failed''"
| "jwt_error_code InvalidSignature = ''jwt:invalid_signature''"
| "jwt_error_code Expired = ''jwt:expired''"
| "jwt_error_code NotYetValid = ''jwt:not_yet_valid''"
| "jwt_error_code InvalidIssuer = ''jwt:invalid_issuer''"
| "jwt_error_code InvalidAudience = ''jwt:invalid_audience''"
| "jwt_error_code AlgorithmMismatch = ''jwt:algorithm_mismatch''"
| "jwt_error_code SigningFailed = ''jwt:signing_failed''"
| "jwt_error_code SerializationFailed = ''jwt:serialization_failed''"

section \<open>DnsError\<close>

datatype dns_error = DnsTimeout | DnsServerFailure | DnsRefused | DnsMalformed | DnsNetworkError | DnsInvalidInput

fun dns_error_code :: "dns_error \<Rightarrow> string" where
  "dns_error_code DnsTimeout = ''dns:timeout''"
| "dns_error_code DnsServerFailure = ''dns:server_failure''"
| "dns_error_code DnsRefused = ''dns:refused''"
| "dns_error_code DnsMalformed = ''dns:malformed''"
| "dns_error_code DnsNetworkError = ''dns:network_error''"
| "dns_error_code DnsInvalidInput = ''dns:invalid_input''"

section \<open>Error\<close>

datatype error_source = SrcJwt jwt_error | SrcDns dns_error | SrcOther string

record error =
  err_status :: nat
  err_message :: string
  err_source :: "error_source option"
  err_code :: "string option"
  err_locale_key :: "string option"
  err_details :: "json option"
  err_lagged :: bool

type_synonym 'a result = "error + 'a"

definition error_new :: "nat \<Rightarrow> string \<Rightarrow> error" where
  "error_new status message =
     \<lparr>err_status = status, err_message = message, err_source = None, err_code = None,
      err_locale_key = None, err_details = None, err_lagged = False\<rparr>"

definition error_with_source :: "nat \<Rightarrow> string \<Rightarrow> error_source \<Rightarrow> error" where
  "error_with_source status message source =
     \<lparr>err_status = status, err_message = message, err_source = Some source, err_code = None,
      err_locale_key = None, err_details = None, err_lagged = False\<rparr>"

definition error_localized :: "nat \<Rightarrow> string \<Rightarrow> error" where
  "error_localized status key =
     \<lparr>err_status = status, err_message = key, err_source = None, err_code = None,
      err_locale_key = Some key, err_details = None, err_lagged = False\<rparr>"

definition with_details :: "json \<Rightarrow> error \<Rightarrow> error" where
  "with_details d e = e\<lparr>err_details := Some d\<rparr>"

definition chain :: "error_source \<Rightarrow> error \<Rightarrow> error" where
  "chain src e = e\<lparr>err_source := Some src\<rparr>"

definition with_code :: "string \<Rightarrow> error \<Rightarrow> error" where
  "with_code c e = e\<lparr>err_code := Some c\<rparr>"

definition with_locale_key :: "string \<Rightarrow> error \<Rightarrow> error" where
  "with_locale_key k e = e\<lparr>err_locale_key := Some k\<rparr>"

definition bad_request :: "string \<Rightarrow> error" where
  "bad_request msg = error_new 400 msg"

definition unauthorized :: "string \<Rightarrow> error" where
  "unauthorized msg = error_new 401 msg"

definition forbidden :: "string \<Rightarrow> error" where
  "forbidden msg = error_new 403 msg"

definition not_found :: "string \<Rightarrow> error" where
  "not_found msg = error_new 404 msg"

definition conflict :: "string \<Rightarrow> error" where
  "conflict msg = error_new 409 msg"

definition payload_too_large :: "string \<Rightarrow> error" where
  "payload_too_large msg = error_new 413 msg"

definition unprocessable_entity :: "string \<Rightarrow> error" where
  "unprocessable_entity msg = error_new 422 msg"

definition too_many_requests :: "string \<Rightarrow> error" where
  "too_many_requests msg = error_new 429 msg"

definition internal :: "string \<Rightarrow> error" where
  "internal msg = error_new 500 msg"

definition bad_gateway :: "string \<Rightarrow> error" where
  "bad_gateway msg = error_new 502 msg"

definition gateway_timeout :: "string \<Rightarrow> error" where
  "gateway_timeout msg = error_new 504 msg"

definition lagged :: "nat \<Rightarrow> error" where
  "lagged skipped =
     (error_new 500 (''SSE subscriber lagged, skipped '' @ dec_nat skipped @ '' messages''))
       \<lparr>err_lagged := True\<rparr>"

lemmas error_ctor_defs = bad_request_def unauthorized_def forbidden_def not_found_def
  conflict_def payload_too_large_def unprocessable_entity_def too_many_requests_def
  internal_def bad_gateway_def gateway_timeout_def error_new_def

text \<open>\<^verbatim>\<open>impl Clone\<close>: every field but the source, which cannot be cloned.\<close>

definition error_clone :: "error \<Rightarrow> error" where
  "error_clone e =
     \<lparr>err_status = err_status e, err_message = err_message e, err_source = None,
      err_code = err_code e, err_locale_key = err_locale_key e,
      err_details = err_details e, err_lagged = err_lagged e\<rparr>"

text \<open>
  The JSON body and the response of \<^verbatim>\<open>IntoResponse\<close>: the status, the body and the copy of the
  error that is left in the response extensions.
\<close>

definition render_error_body :: "nat \<Rightarrow> string \<Rightarrow> json option \<Rightarrow> json" where
  "render_error_body status message details =
     (let fields = [(''status'', JNumber (int status)), (''message'', JString message)]
      in JObject [(''error'', JObject (case details of
             None \<Rightarrow> fields
           | Some d \<Rightarrow> entries_insert ''details'' d fields))])"

record error_response =
  resp_status :: nat
  resp_body :: json
  resp_error :: "error option"

definition into_response :: "error \<Rightarrow> error_response" where
  "into_response e =
     (let status = err_status e; message = err_message e; details = err_details e;
          body = render_error_body status message details;
          ext_error = \<lparr>err_status = status, err_message = message, err_source = None,
             err_code = err_code e, err_locale_key = err_locale_key e,
             err_details = details, err_lagged = err_lagged e\<rparr>
      in \<lparr>resp_status = status, resp_body = body, resp_error = Some ext_error\<rparr>)"

section \<open>HttpError\<close>

datatype http_error = BadRequest | Unauthorized | Forbidden | NotFound | MethodNotAllowed
  | Conflict | Gone | UnprocessableEntity | TooManyRequests | PayloadTooLarge
  | InternalServerError | BadGateway | ServiceUnavailable | GatewayTimeout

fun status_code :: "http_error \<Rightarrow> nat" where
  "status_code BadRequest = 400"
| "status_code Unauthorized = 401"
| "status_code Forbidden = 403"
| "status_code NotFound = 404"
| "status_code MethodNotAllowed = 405"
| "status_code Conflict = 409"
| "status_code Gone = 410"
| "status_code UnprocessableEntity = 422"
| "status_code TooManyRequests = 429"
| "status_code PayloadTooLarge = 413"
| "status_code InternalServerError = 500"
| "status_code BadGateway = 502"
| "status_code ServiceUnavailable = 503"
| "status_code GatewayTimeout = 504"

fun http_error_message :: "http_error \<Rightarrow> string" where
  "http_error_message BadRequest = ''Bad Request''"
| "http_error_message Unauthorized = ''Unauthorized''"
| "http_error_message Forbidden = ''Forbidden''"
| "http_error_message NotFound = ''Not Found''"
| "http_error_message MethodNotAllowed = ''Method Not Allowed''"
| "http_error_message Conflict = ''Conflict''"
| "http_error_message Gone = ''Gone''"
| "http_error_message UnprocessableEntity = ''Unprocessable Entity''"
| "http_error_message TooManyRequests = ''Too Many Requests''"
| "http_error_message PayloadTooLarge = ''Payload Too Large''"
| "http_error_message InternalServerError = ''Internal Server Error''"
| "http_error_message BadGateway = ''Bad Gateway''"
| "http_error_message ServiceUnavailable = ''Service Unavailable''"
| "http_error_message GatewayTimeout = ''Gateway Timeout''"

definition from_http_error :: "http_error \<Rightarrow> error" where
  "from_http_error h = error_new (status_code h) (http_error_message h)"

section \<open>Properties\<close>

lemma jwt_error_code_inj: "jwt_error_code a = jwt_error_code b \<longleftrightarrow> a = b"
  by (cases a; cases b) simp_all

lemma status_code_inj: "status_code a = status_code b \<longleftrightarrow> a = b"
  by (cases a; cases b) simp_all

lemma render_error_body_lookup:
  "json_get (render_error_body s m d) ''error'' = Some obj \<Longrightarrow>
     json_get obj ''status'' = Some (JNumber (int s)) \<and>
     json_get obj ''message'' = Some (JString m) \<and>
     json_get obj ''details'' = d"
  by (cases d) (auto simp: render_error_body_def Let_def)

end
