(* ===== verification/Encoding.thy ===== *)
theory Encoding
  imports Errors
begin

text \<open>
  \<^verbatim>\<open>src/src/encoding\<close>: lowercase hexadecimal, RFC 4648 base32 and base64url without padding.
  The encoders and decoders are the bit-buffer loops of the sources on their machine words
  (a \<^typ>\<open>u64\<close> buffer for base32, a \<^typ>\<open>u32\<close> buffer for base64url). The locale \<open>bit_codec\<close> is
  the contract of RFC 4648: an encoder cuts the bit string of its input into groups of \<open>k\<close>
  bits, a decoder concatenates the groups and reads whole bytes. Both codecs are proved to
  meet it, and round trip, lengths and error behaviour are proved once from the contract.
\<close>

section \<open>Hexadecimal\<close>

definition HEX_TABLE :: string where
  "HEX_TABLE = ''0123456789abcdef''"

fun hex_encode :: "u8 list \<Rightarrow> string" where
  "hex_encode [] = []"
| "hex_encode (b # bytes) =
     HEX_TABLE ! unat (drop_bit 4 b) # HEX_TABLE ! unat (b AND 0x0f) # hex_encode bytes"

text \<open>\<^verbatim>\<open>Sha256::digest\<close> is a parameter: the function of the sha2 crate.\<close>

definition hex_sha256 :: "(u8 list \<Rightarrow> u8 list) \<Rightarrow> u8 list \<Rightarrow> string" where
  "hex_sha256 digest data = hex_encode (digest data)"

section \<open>Base32\<close>

definition ALPHABET32 :: string where
  "ALPHABET32 = ''ABCDEFGHIJKLMNOPQRSTUVWXYZ234567''"

fun base32_drain :: "u64 \<Rightarrow> nat \<Rightarrow> string \<Rightarrow> nat \<times> string" where
  "base32_drain buffer bits_left result =
     (if 5 \<le> bits_left
      then let bits_left' = bits_left - 5;
               idx = unat (drop_bit bits_left' buffer AND 0x1F)
           in base32_drain buffer bits_left' (result @ [ALPHABET32 ! idx])
      else (bits_left, result))"

fun base32_encode_loop :: "u8 list \<Rightarrow> u64 \<Rightarrow> nat \<Rightarrow> string \<Rightarrow> u64 \<times> nat \<times> string" where
  "base32_encode_loop [] buffer bits_left result = (buffer, bits_left, result)"
| "base32_encode_loop (byte # bytes) buffer bits_left result =
     (let buffer' = push_bit 8 buffer OR ucast byte;
          (bits_left', result') = base32_drain buffer' (bits_left + 8) result
      in base32_encode_loop bytes buffer' bits_left' result')"

definition base32_encode :: "u8 list \<Rightarrow> string" where
  "base32_encode bytes =
     (if bytes = [] then []
      else let (buffer, bits_left, result) = base32_encode_loop bytes 0 0 []
           in if 0 < bits_left
              then let idx = unat (push_bit (5 - bits_left) buffer AND 0x1F)
                   in result @ [ALPHABET32 ! idx]
              else result)"

definition to_ascii_uppercase :: "char \<Rightarrow> char" where
  "to_ascii_uppercase ch =
     (let c = of_char ch :: nat in if 97 \<le> c \<and> c \<le> 122 then char_of (c - 32) else ch)"

definition base32_decode_char :: "char \<Rightarrow> u8 result" where
  "base32_decode_char ch =
     (let c = of_char ch :: u8
      in if 65 \<le> c \<and> c \<le> 90 then Inr (c - 65)
         else if 50 \<le> c \<and> c \<le> 55 then Inr (c - 50 + 26)
         else Inl (bad_request (''invalid base32 character: '' @ [CHR 0x27, ch, CHR 0x27])))"

fun base32_decode_loop :: "string \<Rightarrow> u64 \<Rightarrow> nat \<Rightarrow> u8 list \<Rightarrow> u8 list result" where
  "base32_decode_loop [] buffer bits_left result = Inr result"
| "base32_decode_loop (ch # chars) buffer bits_left result =
     bind_res (base32_decode_char (to_ascii_uppercase ch)) (\<lambda>val.
       let buffer' = push_bit 5 buffer OR ucast val; bits_left' = bits_left + 5
       in if 8 \<le> bits_left'
          then base32_decode_loop chars buffer' (bits_left' - 8)
                 (result @ [ucast (drop_bit (bits_left' - 8) buffer')])
          else base32_decode_loop chars buffer' bits_left' result)"

definition base32_decode :: "string \<Rightarrow> u8 list result" where
  "base32_decode encoded = (if encoded = [] then Inr [] else base32_decode_loop encoded 0 0 [])"

section \<open>Base64url\<close>

definition ALPHABET64 :: string where
  "ALPHABET64 = ''ABCDEFGHIJKLMNOPQRSTUVWXYZabcdefghijklmnopqrstuvwxyz0123456789-_''"

fun base64url_drain :: "u32 \<Rightarrow> nat \<Rightarrow> string \<Rightarrow> nat \<times> string" where
  "base64url_drain buffer bits_left result =
     (if 6 \<le> bits_left
      then let bits_left' = bits_left - 6;
               idx = unat (drop_bit bits_left' buffer AND 0x3F)
           in base64url_drain buffer bits_left' (result @ [ALPHABET64 ! idx])
      else (bits_left, result))"

fun base64url_encode_loop :: "u8 list \<Rightarrow> u32 \<Rightarrow> nat \<Rightarrow> string \<Rightarrow> u32 \<times> nat \<times> string" where
  "base64url_encode_loop [] buffer bits_left result = (buffer, bits_left, result)"
| "base64url_encode_loop (byte # bytes) buffer bits_left result =
     (let buffer' = push_bit 8 buffer OR ucast byte;
          (bits_left', result') = base64url_drain buffer' (bits_left + 8) result
      in base64url_encode_loop bytes buffer' bits_left' result')"

definition base64url_encode :: "u8 list \<Rightarrow> string" where
  "base64url_encode bytes =
     (if bytes = [] then []
      else let (buffer, bits_left, result) = base64url_encode_loop bytes 0 0 []
           in if 0 < bits_left
              then let idx = unat (push_bit (6 - bits_left) buffer AND 0x3F)
                   in result @ [ALPHABET64 ! idx]
              else result)"

definition base64url_decode_char :: "char \<Rightarrow> u8 result" where
  "base64url_decode_char ch =
     (let c = of_char ch :: u8
      in if 65 \<le> c \<and> c \<le> 90 then Inr (c - 65)
         else if 97 \<le> c \<and> c \<le> 122 then Inr (c - 97 + 26)
         else if 48 \<le> c \<and> c \<le> 57 then Inr (c - 48 + 52)
         else if ch = CHR ''-'' then Inr 62
         else if ch = CHR ''_'' then Inr 63
         else Inl (bad_request (''invalid base64url character: '' @ [CHR 0x27, ch, CHR 0x27])))"

fun base64url_decode_loop :: "string \<Rightarrow> u32 \<Rightarrow> nat \<Rightarrow> u8 list \<Rightarrow> u8 list result" where
  "base64url_decode_loop [] buffer bits_left result = Inr result"
| "base64url_decode_loop (ch # chars) buffer bits_left result =
     bind_res (base64url_decode_char ch) (\<lambda>val.
       let buffer' = push_bit 6 buffer OR ucast val; bits_left' = bits_left + 6
       in if 8 \<le> bits_left'
          then base64url_decode_loop chars buffer' (bits_left' - 8)
                 (result @ [ucast (drop_bit (bits_left' - 8) buffer')])
          else base64url_decode_loop chars buffer' bits_left' result)"

definition base64url_decode :: "string \<Rightarrow> u8 list result" where
  "base64url_decode encoded =
     (if encoded = [] then Inr [] else base64url_decode_loop encoded 0 0 [])"

declare base32_drain.simps [simp del] base64url_drain.simps [simp del]

lemma length_ALPHABET32: "length ALPHABET32 = 32" and length_ALPHABET64: "length ALPHABET64 = 64"
  by (simp_all add: ALPHABET32_def ALPHABET64_def)

section \<open>The contract\<close>

text \<open>The bit string of a byte sequence, and the bytes a sequence of \<open>k\<close>-bit values carries.\<close>

definition bytes_bits :: "u8 list \<Rightarrow> bool list" where
  "bytes_bits bs = concat (map (bits_be 8) bs)"

definition symbols_bytes :: "nat \<Rightarrow> u8 list \<Rightarrow> u8 list" where
  "symbols_bytes k vs =
     map (\<lambda>c. of_nat (bits_val c)) (full_chunks 8 (concat (map (bits_be k) vs)))"

lemma length_bytes_bits [simp]: "length (bytes_bits bs) = 8 * length bs"
  by (induction bs) (simp_all add: bytes_bits_def)

lemma of_nat_bits_val_byte: "of_nat (bits_val (bits_be 8 (b :: u8))) = b"
  by (simp add: bits_val_bits_be_word take_bit_word_eq_self)

locale bit_codec =
  fixes k :: nat
    and enc_char :: "nat \<Rightarrow> char"
    and dec_char :: "char \<Rightarrow> 'e + u8"
    and encode :: "u8 list \<Rightarrow> string"
    and decode :: "string \<Rightarrow> 'e + u8 list"
  assumes k_bounds: "0 < k" "k \<le> 8"
    and dec_enc_char: "v < 2 ^ k \<Longrightarrow> dec_char (enc_char v) = Inr (of_nat v)"
    and encode_groups:
      "encode bs = map (\<lambda>c. enc_char (bits_val c)) (chunk_pad k False (bytes_bits bs))"
    and decode_groups:
      "decode s = bind_res (collect_res dec_char s) (\<lambda>vs. Inr (symbols_bytes k vs))"
begin

lemma group_less: "length c = k \<Longrightarrow> bits_val c < 2 ^ k"
  using bits_val_less [of c] by simp

lemma bits_be_of_nat_group:
  assumes "length c = k"
  shows "bits_be k (of_nat (bits_val c) :: u8) = c"
proof -
  have "bits_be k (of_nat (bits_val c) :: u8) = bits_be k (bits_val c)"
    using k_bounds by (intro bits_be_cong) (simp add: bit_of_nat_iff)
  with assms show ?thesis by (metis bits_be_bits_val)
qed

lemma group_lengths: "c \<in> set (chunk_pad k False bits) \<Longrightarrow> length c = k"
  using k_bounds(1) by (rule chunk_pad_lengths)

lemma decode_encode: "decode (encode bs) = Inr bs"
proof -
  let ?cs = "chunk_pad k False (bytes_bits bs)"
  have vals: "collect_res dec_char (encode bs) = Inr (map (\<lambda>c. of_nat (bits_val c)) ?cs)"
    unfolding encode_groups collect_res_map
    by (intro collect_res_Inr_map dec_enc_char group_less group_lengths)
  have bits: "concat (map (bits_be k) (map (\<lambda>c. of_nat (bits_val c) :: u8) ?cs)) = concat ?cs"
    unfolding map_map o_def
    by (intro arg_cong [where f = concat] map_idI bits_be_of_nat_group group_lengths)
  obtain n where "n < k" and pad: "concat ?cs = bytes_bits bs @ replicate n False"
    using concat_chunk_pad [OF k_bounds(1), of False "bytes_bits bs"] by (elim exE conjE)
  have "full_chunks 8 (concat (map (bits_be 8) bs) @ replicate n False) = map (bits_be 8) bs"
    using \<open>n < k\<close> k_bounds(2) by (intro full_chunks_concat) auto
  then have "full_chunks 8 (concat ?cs) = map (bits_be 8) bs"
    unfolding pad by (simp only: bytes_bits_def)
  then have "symbols_bytes k (map (\<lambda>c. of_nat (bits_val c)) ?cs) = bs"
    unfolding symbols_bytes_def bits by (simp add: map_idI of_nat_bits_val_byte)
  with vals show ?thesis by (simp add: decode_groups)
qed

lemma length_encode: "length (encode bs) = (8 * length bs + k - 1) div k"
  using k_bounds by (simp add: encode_groups length_chunk_pad)

lemma encode_inj: "encode bs = encode cs \<longleftrightarrow> bs = cs"
  by (metis decode_encode Inr_inject)

lemma encode_chars: "ch \<in> set (encode bs) \<Longrightarrow> \<exists>v < 2 ^ k. ch = enc_char v"
  by (auto simp: encode_groups dest: group_lengths intro: group_less)

lemma decode_fails_iff: "(\<exists>e. decode s = Inl e) \<longleftrightarrow> (\<exists>ch \<in> set s. \<exists>e. dec_char ch = Inl e)"
  unfolding collect_res_Inl_iff [symmetric] decode_groups
  by (cases "collect_res dec_char s") auto

lemma length_decode: "decode s = Inr bs \<Longrightarrow> length bs = k * length s div 8"
proof -
  assume "decode s = Inr bs"
  then obtain vs where vs: "collect_res dec_char s = Inr vs" and bs: "bs = symbols_bytes k vs"
    by (auto simp: decode_groups result_simps)
  have "length (concat (map (bits_be k) vs)) = k * length vs"
    by (induction vs) simp_all
  moreover have "length vs = length s"
    using vs by (auto simp: collect_res_Inr_iff dest: list_all2_lengthD)
  ultimately show ?thesis by (simp add: bs symbols_bytes_def length_full_chunks)
qed

end

section \<open>The loops meet the contract\<close>

text \<open>
  The two encoders and decoders differ in the group size, the alphabet and the buffer's width.
  The lemmas below are about the loop over any such choice; each codec is an instance.
\<close>

lemma bits_be_push:
  fixes b :: "'a::len word" and v :: u8
  assumes "m + n \<le> LENGTH('a)" "take_bit n v = v"
  shows "bits_be (m + n) (push_bit n b OR ucast v) = bits_be m b @ bits_be n v"
proof -
  have v: "\<not> bit v i" if "n \<le> i" for i
    using assms(2) that by (metis bit_take_bit_iff not_le)
  have "bits_be m (drop_bit n (push_bit n b OR ucast v)) = bits_be m b"
    using assms v
    by (intro bits_be_cong) (auto simp: bit_simps bit_drop_bit_eq bit_or_iff bit_push_bit_iff bit_ucast_iff)
  moreover have "bits_be n (push_bit n b OR ucast v) = bits_be n v"
    using assms
    by (intro bits_be_cong) (auto simp: bit_or_iff bit_push_bit_iff bit_ucast_iff)
  ultimately show ?thesis by (simp add: bits_be_split)
qed

lemma bits_be_shift_up:
  fixes b :: "'a::len word"
  assumes "m \<le> k" "k \<le> LENGTH('a)"
  shows "bits_be k (push_bit (k - m) b) = bits_be m b @ replicate (k - m) False"
proof -
  have "bits_be k (push_bit (k - m) b)
      = bits_be m (drop_bit (k - m) (push_bit (k - m) b)) @ bits_be (k - m) (push_bit (k - m) b)"
    using assms bits_be_split [of m "k - m" "push_bit (k - m) b"] by simp
  moreover have "bits_be m (drop_bit (k - m) (push_bit (k - m) b)) = bits_be m b"
    using assms by (intro bits_be_cong) (auto simp: bit_drop_bit_eq bit_push_bit_iff)
  moreover have "bits_be n (push_bit n b) = replicate n False" for n
  proof -
    have "bits_be n (push_bit n b) = bits_be n (0 :: 'a word)"
      by (intro bits_be_cong) (auto simp: bit_push_bit_iff)
    moreover have "bits_be n (0 :: 'a word) = replicate n False" by (induction n) auto
    ultimately show ?thesis by simp
  qed
  ultimately show ?thesis by simp
qed

fun drain_gen :: "nat \<Rightarrow> (nat \<Rightarrow> char) \<Rightarrow> 'a::len word \<Rightarrow> nat \<Rightarrow> string \<Rightarrow> nat \<times> string" where
  "drain_gen k enc b m res =
     (if 0 < k \<and> k \<le> m
      then drain_gen k enc b (m - k) (res @ [enc (unat (take_bit k (drop_bit (m - k) b)))])
      else (m, res))"

declare drain_gen.simps [simp del]

lemma drain_gen_spec:
  fixes b :: "'a::len word"
  assumes "0 < k" "m \<le> LENGTH('a)"
  shows "\<exists>m'. drain_gen k enc b m res
             = (m', res @ map (\<lambda>c. enc (bits_val c)) (full_chunks k (bits_be m b))) \<and>
           m' < k \<and> bits_be m' b = chunk_rest k (bits_be m b)"
  using assms
proof (induction k enc b m res rule: drain_gen.induct)
  case (1 k enc b m res)
  show ?case
  proof (cases "k \<le> m")
    case True
    have split: "bits_be m b = bits_be k (drop_bit (m - k) b) @ bits_be (m - k) b"
      using True bits_be_split [of k "m - k" b] by simp
    have "k \<le> LENGTH('a)" using True "1.prems" by simp
    then have "bits_val (bits_be k (drop_bit (m - k) b)) = unat (take_bit k (drop_bit (m - k) b))"
      by (rule bits_val_bits_be_word)
    then show ?thesis
      using True 1 by (subst drain_gen.simps) (auto simp: split chunks_block)
  next
    case False
    then show ?thesis by (subst drain_gen.simps) simp
  qed
qed

fun encode_loop_gen ::
  "nat \<Rightarrow> (nat \<Rightarrow> char) \<Rightarrow> u8 list \<Rightarrow> 'a::len word \<Rightarrow> nat \<Rightarrow> string \<Rightarrow> 'a word \<times> nat \<times> string" where
  "encode_loop_gen k enc [] b m res = (b, m, res)"
| "encode_loop_gen k enc (x # xs) b m res =
     (let b' = push_bit 8 b OR ucast x; (m', res') = drain_gen k enc b' (m + 8) res
      in encode_loop_gen k enc xs b' m' res')"

definition encode_gen :: "nat \<Rightarrow> (nat \<Rightarrow> char) \<Rightarrow> 'a::len word \<Rightarrow> u8 list \<Rightarrow> string" where
  "encode_gen k enc b0 xs =
     (let (b, m, res) = encode_loop_gen k enc xs b0 0 []
      in if 0 < m then res @ [enc (unat (take_bit k (push_bit (k - m) b)))] else res)"

lemma encode_loop_gen_spec:
  fixes b :: "'a::len word"
  assumes "0 < k" "k + 8 \<le> LENGTH('a)" "m < k"
  shows "\<exists>b' m'. encode_loop_gen k enc xs b m res
              = (b', m', res @ map (\<lambda>c. enc (bits_val c)) (full_chunks k (bits_be m b @ bytes_bits xs))) \<and>
            m' < k \<and> bits_be m' b' = chunk_rest k (bits_be m b @ bytes_bits xs)"
  using assms
proof (induction xs arbitrary: b m res)
  case Nil
  then show ?case by (simp add: bytes_bits_def)
next
  case (Cons x xs)
  let ?b = "push_bit 8 b OR ucast x"
  have push: "bits_be (m + 8) ?b = bits_be m b @ bits_be 8 x"
    using Cons.prems by (intro bits_be_push) (simp_all add: take_bit_word_eq_self)
  obtain m' where d: "drain_gen k enc ?b (m + 8) res
      = (m', res @ map (\<lambda>c. enc (bits_val c)) (full_chunks k (bits_be m b @ bits_be 8 x)))"
    and m': "m' < k" and rest: "bits_be m' ?b = chunk_rest k (bits_be m b @ bits_be 8 x)"
    using drain_gen_spec [of k "m + 8" enc ?b res] Cons.prems unfolding push by auto
  have bits: "bits_be m b @ bytes_bits (x # xs) = (bits_be m b @ bits_be 8 x) @ bytes_bits xs"
    by (simp add: bytes_bits_def)
  show ?case
    unfolding bits full_chunks_append [OF Cons.prems(1), of "bits_be m b @ bits_be 8 x"]
      chunk_rest_append [OF Cons.prems(1), of "bits_be m b @ bits_be 8 x"]
    using Cons.IH [of m' ?b "res @ map (\<lambda>c. enc (bits_val c))
        (full_chunks k (bits_be m b @ bits_be 8 x))"] Cons.prems m'
    by (simp add: d rest)
qed

lemma encode_gen_groups:
  fixes b :: "'a::len word"
  assumes "0 < k" "k + 8 \<le> LENGTH('a)"
  shows "encode_gen k enc b xs = map (\<lambda>c. enc (bits_val c)) (chunk_pad k False (bytes_bits xs))"
proof -
  obtain b' m' where
    loop: "encode_loop_gen k enc xs b 0 []
       = (b', m', map (\<lambda>c. enc (bits_val c)) (full_chunks k (bytes_bits xs)))"
    and m': "m' < k" and rest: "bits_be m' b' = chunk_rest k (bytes_bits xs)"
    using encode_loop_gen_spec [OF assms, of 0 enc xs b "[]"] assms by auto
  have "unat (take_bit k (push_bit (k - m') b')) = bits_val (bits_be m' b' @ replicate (k - m') False)"
    using assms m' bits_val_bits_be_word [of k "push_bit (k - m') b'"]
    by (simp add: bits_be_shift_up)
  moreover have "chunk_rest k (bytes_bits xs) = [] \<longleftrightarrow> m' = 0"
    using rest by (metis length_bits_be length_0_conv)
  moreover have "length (chunk_rest k (bytes_bits xs)) = m'"
    using rest by (metis length_bits_be)
  ultimately show ?thesis
    by (simp add: encode_gen_def loop chunk_pad_def Let_def rest)
qed

fun decode_gen ::
  "nat \<Rightarrow> (char \<Rightarrow> 'e + u8) \<Rightarrow> string \<Rightarrow> 'a::len word \<Rightarrow> nat \<Rightarrow> u8 list \<Rightarrow> 'e + u8 list" where
  "decode_gen k dec [] b m res = Inr res"
| "decode_gen k dec (ch # chs) b m res =
     bind_res (dec ch) (\<lambda>v.
       let b' = push_bit k b OR ucast v; m' = m + k
       in if 8 \<le> m' then decode_gen k dec chs b' (m' - 8) (res @ [ucast (drop_bit (m' - 8) b')])
          else decode_gen k dec chs b' m' res)"

lemma ucast_drop_bit_byte:
  fixes b :: "'a::len word"
  assumes "8 \<le> LENGTH('a)"
  shows "(ucast (drop_bit n b) :: u8) = of_nat (bits_val (bits_be 8 (drop_bit n b)))"
  using assms
  by (simp add: bits_val_bits_be_word unsigned_take_bit_eq)
    (rule bit_eqI, simp add: bit_simps)

lemma decode_gen_spec:
  fixes b :: "'a::len word"
  assumes "0 < k" "k \<le> 8" "k + 8 \<le> LENGTH('a)" "m < 8"
    and "\<And>ch v. dec ch = Inr v \<Longrightarrow> take_bit k v = v"
  shows "decode_gen k dec s b m res = bind_res (collect_res dec s) (\<lambda>vs. Inr (res @
           map (\<lambda>c. of_nat (bits_val c)) (full_chunks 8 (bits_be m b @ concat (map (bits_be k) vs)))))"
  using assms
proof (induction s arbitrary: b m res)
  case Nil
  then show ?case by simp
next
  case (Cons ch chs)
  show ?case
  proof (cases "dec ch")
    case (Inr v)
    define b' where "b' = push_bit k b OR ucast v"
    have push: "bits_be (m + k) b' = bits_be m b @ bits_be k v"
      using Cons.prems Inr unfolding b'_def by (intro bits_be_push) auto
    have step: "decode_gen k dec (ch # chs) b m res =
        (if 8 \<le> m + k
         then decode_gen k dec chs b' (m + k - 8) (res @ [ucast (drop_bit (m + k - 8) b')])
         else decode_gen k dec chs b' (m + k) res)"
      using Inr unfolding b'_def by (simp add: Let_def)
    show ?thesis
    proof (cases "8 \<le> m + k")
      case True
      let ?n = "m + k - 8"
      have "bits_be (8 + ?n) b' = bits_be 8 (drop_bit ?n b') @ bits_be ?n b'"
        by (rule bits_be_split)
      then have split: "bits_be m b @ bits_be k v = bits_be 8 (drop_bit ?n b') @ bits_be ?n b'"
        using True push by simp
      have byte: "(ucast (drop_bit ?n b') :: u8) = of_nat (bits_val (bits_be 8 (drop_bit ?n b')))"
        using Cons.prems by (intro ucast_drop_bit_byte) simp
      have "full_chunks 8 (bits_be m b @ bits_be k v @ r)
          = bits_be 8 (drop_bit ?n b') # full_chunks 8 (bits_be ?n b' @ r)" for r
        using split by (simp flip: append_assoc) (simp add: chunks_block)
      then show ?thesis
        unfolding step byte using True Inr Cons.prems Cons.IH [of ?n b']
        by (cases "collect_res dec chs") simp_all
    next
      case False
      then show ?thesis
        unfolding step using Inr Cons.prems Cons.IH [of "m + k" b'] push
        by (cases "collect_res dec chs") simp_all
    qed
  qed simp
qed

lemma decode_gen_groups:
  fixes b :: "'a::len word"
  assumes "0 < k" "k \<le> 8" "k + 8 \<le> LENGTH('a)"
    and "\<And>ch v. dec ch = Inr v \<Longrightarrow> take_bit k v = v"
  shows "decode_gen k dec s b 0 [] = bind_res (collect_res dec s) (\<lambda>vs. Inr (symbols_bytes k vs))"
  using decode_gen_spec [of k 0 dec s b "[]"] assms by (simp add: symbols_bytes_def)

text \<open>Base32 is the loop at five bits in a 64-bit buffer.\<close>

lemma base32_drain_gen: "base32_drain b m res = drain_gen 5 ((!) ALPHABET32) b m res"
proof (induction b m res rule: base32_drain.induct)
  case (1 b m res)
  then show ?case
    by (subst base32_drain.simps, subst drain_gen.simps)
      (simp add: take_bit_eq_mask mask_eq_exp_minus_1 Let_def)
qed

lemma base32_encode_loop_gen:
  "base32_encode_loop xs b m res = encode_loop_gen 5 ((!) ALPHABET32) xs b m res"
  by (induction xs arbitrary: b m res) (simp_all add: base32_drain_gen Let_def split: prod.splits)

lemma base32_encode_gen: "base32_encode xs = encode_gen 5 ((!) ALPHABET32) (0 :: u64) xs"
  by (auto simp: base32_encode_def encode_gen_def base32_encode_loop_gen Let_def
      take_bit_eq_mask mask_eq_exp_minus_1 split: prod.splits)

lemma base32_decode_gen:
  "base32_decode s = decode_gen 5 (\<lambda>ch. base32_decode_char (to_ascii_uppercase ch)) s (0 :: u64) 0 []"
proof -
  have "base32_decode_loop s b m res
      = decode_gen 5 (\<lambda>ch. base32_decode_char (to_ascii_uppercase ch)) s b m res" for b m res
    by (induction s arbitrary: b m res) (simp_all add: Let_def cong: if_cong)
  then show ?thesis by (simp add: base32_decode_def)
qed

lemma base32_char_table: "map (\<lambda>c. base32_decode_char (to_ascii_uppercase c)) ALPHABET32 = map (\<lambda>v. Inr (of_nat v)) [0..<32]"
  by (simp add: ALPHABET32_def base32_decode_char_def to_ascii_uppercase_def upt_rec Let_def)

lemma base32_dec_enc_char:
  assumes "v < 32"
  shows "base32_decode_char (to_ascii_uppercase (ALPHABET32 ! v)) = Inr (of_nat v)"
proof -
  have "map (\<lambda>c. base32_decode_char (to_ascii_uppercase c)) ALPHABET32 ! v = map (\<lambda>v. Inr (of_nat v)) [0..<32] ! v"
    by (simp only: base32_char_table)
  with assms show ?thesis by (simp add: nth_map length_ALPHABET32)
qed

lemma base32_decode_char_less: "base32_decode_char ch = Inr v \<Longrightarrow> unat v < 32"
  by (auto simp: base32_decode_char_def Let_def split: if_splits) unat_arith+

lemma base32_decode_char_range: "base32_decode_char ch = Inr v \<Longrightarrow> take_bit 5 v = v"
  by (rule take_bit_word_small) (simp add: base32_decode_char_less)

interpretation b32: bit_codec 5 "(!) ALPHABET32"
  "\<lambda>ch. base32_decode_char (to_ascii_uppercase ch)" base32_encode base32_decode
proof
  show "base32_encode bs = map (\<lambda>c. ALPHABET32 ! bits_val c) (chunk_pad 5 False (bytes_bits bs))" for bs
    by (simp add: base32_encode_gen encode_gen_groups)
  show "base32_decode s = bind_res (collect_res (\<lambda>ch. base32_decode_char (to_ascii_uppercase ch)) s)
      (\<lambda>vs. Inr (symbols_bytes 5 vs))" for s
    unfolding base32_decode_gen
    by (rule decode_gen_groups) (auto intro: base32_decode_char_range)
qed (simp_all add: base32_dec_enc_char)

text \<open>Base64url is the loop at six bits in a 32-bit buffer.\<close>

lemma base64url_drain_gen: "base64url_drain b m res = drain_gen 6 ((!) ALPHABET64) b m res"
proof (induction b m res rule: base64url_drain.induct)
  case (1 b m res)
  then show ?case
    by (subst base64url_drain.simps, subst drain_gen.simps)
      (simp add: take_bit_eq_mask mask_eq_exp_minus_1 Let_def)
qed

lemma base64url_encode_loop_gen:
  "base64url_encode_loop xs b m res = encode_loop_gen 6 ((!) ALPHABET64) xs b m res"
  by (induction xs arbitrary: b m res) (simp_all add: base64url_drain_gen Let_def split: prod.splits)

lemma base64url_encode_gen: "base64url_encode xs = encode_gen 6 ((!) ALPHABET64) (0 :: u32) xs"
  by (auto simp: base64url_encode_def encode_gen_def base64url_encode_loop_gen Let_def
      take_bit_eq_mask mask_eq_exp_minus_1 split: prod.splits)

lemma base64url_decode_gen:
  "base64url_decode s = decode_gen 6 base64url_decode_char s (0 :: u32) 0 []"
proof -
  have "base64url_decode_loop s b m res = decode_gen 6 base64url_decode_char s b m res" for b m res
    by (induction s arbitrary: b m res) (simp_all add: Let_def cong: if_cong)
  then show ?thesis by (simp add: base64url_decode_def)
qed

lemma base64url_char_table: "map base64url_decode_char ALPHABET64 = map (\<lambda>v. Inr (of_nat v)) [0..<64]"
  by (simp add: ALPHABET64_def base64url_decode_char_def to_ascii_uppercase_def upt_rec Let_def)

lemma base64url_dec_enc_char:
  assumes "v < 64"
  shows "base64url_decode_char (ALPHABET64 ! v) = Inr (of_nat v)"
proof -
  have "map base64url_decode_char ALPHABET64 ! v = map (\<lambda>v. Inr (of_nat v)) [0..<64] ! v"
    by (simp only: base64url_char_table)
  with assms show ?thesis by (simp add: nth_map length_ALPHABET64)
qed

lemma base64url_decode_char_less: "base64url_decode_char ch = Inr v \<Longrightarrow> unat v < 64"
  by (auto simp: base64url_decode_char_def Let_def split: if_splits) unat_arith+

lemma base64url_decode_char_range: "base64url_decode_char ch = Inr v \<Longrightarrow> take_bit 6 v = v"
  by (rule take_bit_word_small) (simp add: base64url_decode_char_less)

interpretation b64: bit_codec 6 "(!) ALPHABET64" base64url_decode_char base64url_encode base64url_decode
proof
  show "base64url_encode bs = map (\<lambda>c. ALPHABET64 ! bits_val c) (chunk_pad 6 False (bytes_bits bs))" for bs
    by (simp add: base64url_encode_gen encode_gen_groups)
  show "base64url_decode s = bind_res (collect_res base64url_decode_char s)
      (\<lambda>vs. Inr (symbols_bytes 6 vs))" for s
    unfolding base64url_decode_gen
    by (rule decode_gen_groups) (auto intro: base64url_decode_char_range)
qed (simp_all add: base64url_dec_enc_char)

section \<open>Hexadecimal digits\<close>

lemma length_HEX_TABLE: "length HEX_TABLE = 16"
  by (simp add: HEX_TABLE_def)

lemma length_hex_encode [simp]: "length (hex_encode bs) = 2 * length bs"
  by (induction bs) simp_all

lemma nibble_bounds: "unat (drop_bit 4 b) < 16" "unat (b AND 15) < 16" for b :: u8
proof -
  have "drop_bit 4 (unat b) < 16"
    using unat_u8_less [of b] by (simp add: drop_bit_eq_div)
  then show "unat (drop_bit 4 b) < 16" by (simp only: unat_drop_bit_eq)
  have "take_bit 4 (unat b) < 16" using take_bit_nat_less_exp [of 4 "unat b"] by simp
  then have "unat (take_bit 4 b) < 16" by (simp only: unsigned_take_bit_eq)
  then show "unat (b AND 15) < 16" by (simp add: take_bit_eq_mask mask_eq_exp_minus_1)
qed

lemma nibbles_join: "push_bit 4 (drop_bit 4 b) OR (b AND 15) = b" for b :: u8
proof -
  have "push_bit 4 (drop_bit 4 b) OR take_bit 4 b = b"
    by (rule bit_eqI) (auto simp: bit_simps)
  then show ?thesis by (simp add: take_bit_eq_mask mask_eq_exp_minus_1)
qed

lemma hex_table_chars: "set (hex_encode bs) \<subseteq> set HEX_TABLE"
proof (induction bs)
  case (Cons b bs)
  then show ?case
    using nibble_bounds [of b] by (simp add: length_HEX_TABLE)
qed simp

section \<open>Properties\<close>

lemma base64url_char_ok:
  "(\<exists>e. base64url_decode_char ch = Inl e) \<longleftrightarrow> ch \<notin> set ALPHABET64"
proof -
  have "\<forall>c \<in> set Enum.enum. (case base64url_decode_char c of Inl _ \<Rightarrow> True | Inr _ \<Rightarrow> False)
      = (c \<notin> set ALPHABET64)"
    by code_simp
  then show ?thesis
    by (metis Inl_Inr_False UNIV_I enum_UNIV sum.case_eq_if sum.collapse(1) sum.disc(1))
qed

text \<open>Base32 round trip: decoding what \<^verbatim>\<open>base32::encode\<close> produced gives the bytes back, for
  every input, although the 64-bit buffer overflows on inputs of more than eight bytes; the
  output has one character for every five bits, rounded up.\<close>

theorem base32_roundtrip:
  "base32_decode (base32_encode bs) = Inr bs \<and> length (base32_encode bs) = (8 * length bs + 4) div 5"
  using b32.decode_encode [of bs] b32.length_encode [of bs] by simp

text \<open>C5. Base64url round trip: decoding what \<^verbatim>\<open>base64url::encode\<close> produced gives the bytes back,
  for every input and the 32-bit buffer that overflows on inputs of more than four bytes; the
  output has one character for every six bits, rounded up.\<close>

theorem base64url_roundtrip:
  "base64url_decode (base64url_encode bs) = Inr bs \<and>
   length (base64url_encode bs) = (8 * length bs + 5) div 6"
  using b64.decode_encode [of bs] b64.length_encode [of bs] by simp

text \<open>Base64url decoding fails exactly on the strings with a character outside the URL-safe
  alphabet, and what it accepts decodes to six bits per character, an incomplete last byte
  dropped.\<close>

theorem base64url_decode_total:
  "(if set s \<subseteq> set ALPHABET64
    then \<exists>bs. base64url_decode s = Inr bs \<and> length bs = 6 * length s div 8
    else \<exists>e. base64url_decode s = Inl e)"
proof -
  have fails: "(\<exists>e. base64url_decode s = Inl e) \<longleftrightarrow> \<not> set s \<subseteq> set ALPHABET64"
    unfolding b64.decode_fails_iff base64url_char_ok by blast
  show ?thesis
  proof (cases "base64url_decode s")
    case (Inr bs)
    with fails b64.length_decode [OF Inr] show ?thesis by auto
  qed (use fails in auto)
qed

end
