(* ===== verification/Lru_Cache.thy ===== *)
theory Lru_Cache
  imports Errors "HOL-Library.AList"
begin

text \<open>
  \<^verbatim>\<open>src/src/cache/lru.rs\<close>: the fixed-capacity LRU cache. The hash map is an association list
  without duplicate keys, the deque of keys a list with the least recently used key first.
  The cache refines a list of entries in recency order (\<open>lru_entries\<close>); the locale
  \<open>recency_cache\<close> states that refinement as the contract its clients rely on.
\<close>

section \<open>The cache\<close>

record ('k, 'v) lru =
  lru_map :: "('k \<times> 'v) list"
  lru_order :: "'k list"
  lru_capacity :: nat

definition lru_new :: "nat \<Rightarrow> ('k, 'v) lru" where
  "lru_new capacity = \<lparr>lru_map = [], lru_order = [], lru_capacity = capacity\<rparr>"

text \<open>\<^verbatim>\<open>position\<close> followed by \<^verbatim>\<open>remove\<close> deletes the first occurrence of the key.\<close>

definition lru_get :: "'k \<Rightarrow> ('k, 'v) lru \<Rightarrow> 'v option \<times> ('k, 'v) lru" where
  "lru_get key c =
     (case map_of (lru_map c) key of
        Some v \<Rightarrow> (Some v, c\<lparr>lru_order := remove1 key (lru_order c) @ [key]\<rparr>)
      | None \<Rightarrow> (None, c))"

definition lru_put :: "'k \<Rightarrow> 'v \<Rightarrow> ('k, 'v) lru \<Rightarrow> ('k, 'v) lru" where
  "lru_put key value c =
     (let c1 =
        (if map_of (lru_map c) key \<noteq> None
         then c\<lparr>lru_order := remove1 key (lru_order c)\<rparr>
         else if lru_capacity c \<le> length (lru_map c)
         then (case lru_order c of
                 [] \<Rightarrow> c
               | evicted # rest \<Rightarrow>
                   c\<lparr>lru_order := rest, lru_map := AList.delete evicted (lru_map c)\<rparr>)
         else c)
      in c1\<lparr>lru_map := AList.update key value (lru_map c1), lru_order := lru_order c1 @ [key]\<rparr>)"

section \<open>Invariant and recency order\<close>

definition lru_inv :: "('k, 'v) lru \<Rightarrow> bool" where
  "lru_inv c \<longleftrightarrow> distinct (map fst (lru_map c)) \<and> distinct (lru_order c) \<and>
     set (lru_order c) = fst ` set (lru_map c) \<and>
     length (lru_order c) \<le> lru_capacity c \<and> 0 < lru_capacity c"

definition lru_entries :: "('k, 'v) lru \<Rightarrow> ('k \<times> 'v) list" where
  "lru_entries c = map (\<lambda>k. (k, the (map_of (lru_map c) k))) (lru_order c)"

text \<open>The specification: operations on the list of entries, oldest first.\<close>

definition recency_get :: "'k \<Rightarrow> ('k \<times> 'v) list \<Rightarrow> ('k \<times> 'v) list" where
  "recency_get k es =
     (case map_of es k of None \<Rightarrow> es | Some v \<Rightarrow> filter (\<lambda>e. fst e \<noteq> k) es @ [(k, v)])"

definition recency_put :: "nat \<Rightarrow> 'k \<Rightarrow> 'v \<Rightarrow> ('k \<times> 'v) list \<Rightarrow> ('k \<times> 'v) list" where
  "recency_put cap k v es =
     (if k \<in> fst ` set es then filter (\<lambda>e. fst e \<noteq> k) es
      else if cap \<le> length es then tl es else es) @ [(k, v)]"

lemma filter_map_keys:
  "filter (\<lambda>e. fst e \<noteq> k) (map (\<lambda>k. (k, f k)) ks) = map (\<lambda>k. (k, f k)) (filter (\<lambda>k'. k' \<noteq> k) ks)"
  by (induction ks) auto

lemma map_of_keys: "map_of (map (\<lambda>k. (k, f k)) ks) k = (if k \<in> set ks then Some (f k) else None)"
  by (induction ks) auto

lemma lru_length_order: "lru_inv c \<Longrightarrow> length (lru_order c) = length (lru_map c)"
  unfolding lru_inv_def by (metis distinct_card length_map list.set_map)

lemma lru_keys_iff: "lru_inv c \<Longrightarrow> k \<in> set (lru_order c) \<longleftrightarrow> map_of (lru_map c) k \<noteq> None"
  by (simp add: lru_inv_def map_of_eq_None_iff)

lemma map_of_lru_entries:
  assumes "lru_inv c"
  shows "map_of (lru_entries c) = map_of (lru_map c)"
proof
  fix k
  show "map_of (lru_entries c) k = map_of (lru_map c) k"
    using lru_keys_iff [OF assms, of k] by (auto simp: lru_entries_def map_of_keys)
qed

lemma lru_inv_new: "0 < n \<Longrightarrow> lru_inv (lru_new n)"
  by (simp add: lru_inv_def lru_new_def)

lemma remove1_filter: "distinct xs \<Longrightarrow> remove1 k xs = filter (\<lambda>x. x \<noteq> k) xs"
  by (induction xs) (auto intro: filter_True [symmetric])

lemma lru_entries_keys: "map fst (lru_entries c) = lru_order c"
  by (simp add: lru_entries_def map_idI o_def)

lemma lru_inv_get: "lru_inv c \<Longrightarrow> lru_inv (snd (lru_get k c))"
proof (cases "map_of (lru_map c) k")
  case (Some v)
  assume inv: "lru_inv c"
  then have "k \<in> set (lru_order c)" using Some by (simp add: lru_keys_iff)
  with inv Some show ?thesis
    by (auto simp: lru_get_def lru_inv_def length_remove1)
qed (simp add: lru_get_def)

lemma lru_entries_get:
  assumes "lru_inv c"
  shows "lru_entries (snd (lru_get k c)) = recency_get k (lru_entries c)"
proof (cases "map_of (lru_map c) k")
  case None
  with assms show ?thesis by (simp add: lru_get_def recency_get_def map_of_lru_entries)
next
  case (Some v)
  have d: "distinct (lru_order c)" using assms by (simp add: lru_inv_def)
  from Some show ?thesis
    unfolding recency_get_def map_of_lru_entries [OF assms]
    by (simp add: lru_get_def lru_entries_def filter_map_keys remove1_filter [OF d])
qed

lemma lru_get_fst: "lru_inv c \<Longrightarrow> fst (lru_get k c) = map_of (lru_entries c) k"
  by (simp add: lru_get_def map_of_lru_entries split: option.splits)

lemma lru_capacity_unchanged [simp]:
  "lru_capacity (snd (lru_get k c)) = lru_capacity c" "lru_capacity (lru_put k v c) = lru_capacity c"
  by (simp_all add: lru_get_def lru_put_def Let_def split: option.splits list.splits)

text \<open>The three branches of \<^verbatim>\<open>put\<close>, as the map and the order they leave behind.\<close>

lemma lru_put_shape:
  assumes "lru_inv c"
  shows "\<exists>m ks. lru_put k v c = c\<lparr>lru_map := AList.update k v m, lru_order := ks @ [k]\<rparr> \<and>
     ks = map fst (if k \<in> fst ` set (lru_entries c) then filter (\<lambda>e. fst e \<noteq> k) (lru_entries c)
       else if lru_capacity c \<le> length (lru_entries c) then tl (lru_entries c) else lru_entries c) \<and>
     (\<forall>x. x \<noteq> k \<longrightarrow> map_of m x = (if x \<in> set ks then map_of (lru_map c) x else None)) \<and>
     distinct (map fst m) \<and> fst ` set m \<union> {k} = set ks \<union> {k} \<and> k \<notin> set ks \<and> distinct ks \<and>
     length ks < lru_capacity c"
proof -
  have d: "distinct (lru_order c)" "distinct (map fst (lru_map c))"
    and eq: "set (lru_order c) = fst ` set (lru_map c)"
    and cap: "length (lru_order c) \<le> lru_capacity c" "0 < lru_capacity c"
    using assms by (simp_all add: lru_inv_def)
  have keys: "fst ` set (lru_entries c) = set (lru_order c)"
    by (metis lru_entries_keys list.set_map)
  have len: "length (lru_entries c) = length (lru_map c)"
    using lru_length_order [OF assms] by (metis lru_entries_keys length_map)
  have mo: "map_of (lru_map c) x = None \<longleftrightarrow> x \<notin> set (lru_order c)" for x
    using lru_keys_iff [OF assms, of x] by simp
  consider (hit) "k \<in> set (lru_order c)"
    | (full) "k \<notin> set (lru_order c)" "lru_capacity c \<le> length (lru_map c)"
    | (room) "k \<notin> set (lru_order c)" "length (lru_map c) < lru_capacity c"
    by linarith
  then show ?thesis
  proof cases
    case hit
    have filt: "map fst (filter (\<lambda>e. fst e \<noteq> k) (lru_entries c)) = filter (\<lambda>x. x \<noteq> k) (lru_order c)"
      by (simp add: lru_entries_def filter_map_keys o_def)
    have "length (filter (\<lambda>x. x \<noteq> k) (lru_order c)) < length (lru_order c)"
      using hit by (simp add: length_filter_less)
    then show ?thesis
      using hit d eq cap mo [of k] mo filt
      by (intro exI [of _ "lru_map c"] exI [of _ "filter (\<lambda>x. x \<noteq> k) (lru_order c)"])
        (auto simp: lru_put_def Let_def keys remove1_filter)
  next
    case full
    then obtain a ks where ord: "lru_order c = a # ks"
      using cap lru_length_order [OF assms] by (cases "lru_order c") auto
    have "tl (lru_entries c) = map (\<lambda>k. (k, the (map_of (lru_map c) k))) ks"
      by (simp add: lru_entries_def ord)
    then have tl: "map fst (tl (lru_entries c)) = ks" by (simp add: o_def)
    have del: "fst ` set (AList.delete a (lru_map c)) = set ks"
    proof -
      have "fst ` set (AList.delete a (lru_map c)) = fst ` set (lru_map c) - {a}"
        by (auto simp: AList.delete_eq)
      with eq d ord show ?thesis by auto
    qed
    show ?thesis
      using full d cap mo tl del ord
      by (intro exI [of _ "AList.delete a (lru_map c)"] exI [of _ ks])
        (auto simp: lru_put_def Let_def keys len delete_conv' distinct_delete)
  next
    case room
    then show ?thesis
      using d eq cap mo lru_length_order [OF assms] lru_entries_keys [of c]
      by (intro exI [of _ "lru_map c"] exI [of _ "lru_order c"])
        (auto simp: lru_put_def Let_def keys len)
  qed
qed

lemma lru_inv_put:
  assumes "lru_inv c"
  shows "lru_inv (lru_put k v c)"
proof -
  obtain m ks where put: "lru_put k v c = c\<lparr>lru_map := AList.update k v m, lru_order := ks @ [k]\<rparr>"
    and m: "distinct (map fst m)" and keys: "fst ` set m \<union> {k} = set ks \<union> {k}"
    and ks: "k \<notin> set ks" "distinct ks" "length ks < lru_capacity c"
    using lru_put_shape [OF assms, of k v] by blast
  have "fst ` set (AList.update k v m) = set ks \<union> {k}"
    using keys by (simp add: dom_update)
  with put m ks assms show ?thesis by (simp add: lru_inv_def distinct_update)
qed

lemma lru_entries_put:
  assumes "lru_inv c"
  shows "lru_entries (lru_put k v c) = recency_put (lru_capacity c) k v (lru_entries c)"
proof -
  let ?es = "if k \<in> fst ` set (lru_entries c) then filter (\<lambda>e. fst e \<noteq> k) (lru_entries c)
       else if lru_capacity c \<le> length (lru_entries c) then tl (lru_entries c) else lru_entries c"
  obtain m ks where put: "lru_put k v c = c\<lparr>lru_map := AList.update k v m, lru_order := ks @ [k]\<rparr>"
    and ks: "ks = map fst ?es"
    and m: "\<And>x. x \<noteq> k \<Longrightarrow> map_of m x = (if x \<in> set ks then map_of (lru_map c) x else None)"
    and "k \<notin> set ks"
    using lru_put_shape [OF assms, of k v] by blast
  then have "map (\<lambda>x. (x, the (map_of (AList.update k v m) x))) ks
      = map (\<lambda>x. (x, the (map_of (lru_map c) x))) ks"
    by (auto simp: update_conv')
  also have "\<dots> = map (\<lambda>e. (fst e, the (map_of (lru_map c) (fst e)))) ?es"
    by (simp add: ks)
  also have "\<dots> = ?es"
  proof (rule map_idI)
    fix e assume "e \<in> set ?es"
    then have "e \<in> set (lru_entries c)"
      by (cases "lru_entries c") (auto split: if_splits)
    then show "(fst e, the (map_of (lru_map c) (fst e))) = e"
      by (auto simp: lru_entries_def)
  qed
  finally show ?thesis
    by (simp add: put lru_entries_def [of "lru_put k v c"] recency_put_def update_conv' lru_entries_def)
qed

section \<open>Retention in the recency order\<close>

datatype ('k, 'v) cache_op = GetOp 'k | PutOp 'k 'v

fun op_key :: "('k, 'v) cache_op \<Rightarrow> 'k" where
  "op_key (GetOp k) = k"
| "op_key (PutOp k v) = k"

fun recency_step :: "nat \<Rightarrow> ('k, 'v) cache_op \<Rightarrow> ('k \<times> 'v) list \<Rightarrow> ('k \<times> 'v) list" where
  "recency_step cap (GetOp k) es = recency_get k es"
| "recency_step cap (PutOp k v) es = recency_put cap k v es"

text \<open>
  \<open>protected T k v es\<close>: the entry of \<open>k\<close> is present and everything used after it has a key in
  \<open>T\<close>. As long as \<open>T\<close> is smaller than the capacity the entry cannot reach the front of a full
  cache.
\<close>

definition protected :: "'k set \<Rightarrow> 'k \<Rightarrow> 'v \<Rightarrow> ('k \<times> 'v) list \<Rightarrow> bool" where
  "protected T k v es \<longleftrightarrow> distinct (map fst es) \<and>
     (\<exists>pre post. es = pre @ (k, v) # post \<and> fst ` set post \<subseteq> T)"

lemma protectedI:
  "es = pre @ (k, v) # post \<Longrightarrow> distinct (map fst es) \<Longrightarrow> fst ` set post \<subseteq> T \<Longrightarrow> protected T k v es"
  unfolding protected_def by blast

lemma protectedE:
  assumes "protected T k v es"
  obtains pre post where "es = pre @ (k, v) # post" "fst ` set post \<subseteq> T" "distinct (map fst es)"
  using assms unfolding protected_def by blast

lemma protected_lookup: "protected T k v es \<Longrightarrow> map_of es k = Some v"
  by (auto simp: protected_def map_add_def map_of_eq_None_iff)

lemma protected_move_to_back:
  assumes "protected T k v es" "x \<noteq> k" "x \<in> T"
  shows "protected T k v (filter (\<lambda>e. fst e \<noteq> x) es @ [(x, w)])"
proof -
  obtain pre post where es: "es = pre @ (k, v) # post" and post: "fst ` set post \<subseteq> T"
    and d: "distinct (map fst es)"
    using assms(1) by (rule protectedE)
  let ?f = "filter (\<lambda>e. fst e \<noteq> x)"
  have "?f es @ [(x, w)] = ?f pre @ (k, v) # (?f post @ [(x, w)])"
    using es assms(2) by simp
  moreover have "fst ` set (?f post @ [(x, w)]) \<subseteq> T" using post assms(3) by auto
  moreover have "distinct (map fst (?f es @ [(x, w)]))"
    using d by (auto simp: distinct_map_filter)
  ultimately show ?thesis by (intro protectedI)
qed

lemma protected_evict:
  assumes "protected T k v es" "x \<noteq> k" "x \<in> T" "x \<notin> fst ` set es" "cap \<le> length es"
    and "finite T" "card T < cap"
  shows "protected T k v (tl es @ [(x, w)])"
proof -
  obtain pre post where es: "es = pre @ (k, v) # post" and post: "fst ` set post \<subseteq> T"
    and d: "distinct (map fst es)"
    using assms(1) by (rule protectedE)
  have "distinct (x # map fst post)" using assms(4) d es by auto
  from distinct_card [OF this] have "card (insert x (fst ` set post)) = Suc (length post)" by simp
  moreover have "card (insert x (fst ` set post)) \<le> card T"
    using post assms(3,6) by (intro card_mono) auto
  ultimately have "pre \<noteq> []" using es assms(5,7) by auto
  then obtain e pre' where pre: "pre = e # pre'" by (cases pre) auto
  then have "tl es @ [(x, w)] = pre' @ (k, v) # (post @ [(x, w)])" using es by simp
  moreover have "distinct (map fst (tl es @ [(x, w)]))"
    using d assms(4) es pre by auto
  ultimately show ?thesis
    by (rule protectedI) (use post assms(3) in auto)
qed

lemma protected_append_new:
  assumes "protected T k v es" "x \<in> T" "x \<notin> fst ` set es"
  shows "protected T k v (es @ [(x, w)])"
proof -
  obtain pre post where es: "es = pre @ (k, v) # post" and post: "fst ` set post \<subseteq> T"
    and d: "distinct (map fst es)"
    using assms(1) by (rule protectedE)
  show ?thesis
    by (rule protectedI [of _ pre k v "post @ [(x, w)]"]) (use es post d assms in auto)
qed

lemma protected_step:
  assumes "protected T k v es" "op_key op \<in> T" "k \<notin> T" "finite T" "card T < cap"
  shows "protected T k v (recency_step cap op es)"
proof (cases op)
  case (GetOp x)
  then show ?thesis
    using assms protected_move_to_back [of T k v es x]
    by (auto simp: recency_get_def split: option.splits)
next
  case (PutOp x w)
  then show ?thesis
    using assms protected_move_to_back [of T k v es x w] protected_evict [of T k v es x cap w]
      protected_append_new [of T k v es x w]
    by (auto simp: recency_put_def)
qed

section \<open>The contract\<close>

locale recency_cache =
  fixes get :: "'k \<Rightarrow> 'c \<Rightarrow> 'v option \<times> 'c"
    and put :: "'k \<Rightarrow> 'v \<Rightarrow> 'c \<Rightarrow> 'c"
    and entries :: "'c \<Rightarrow> ('k \<times> 'v) list"
    and invar :: "'c \<Rightarrow> bool"
    and cap :: "'c \<Rightarrow> nat"
  assumes invar_get: "invar c \<Longrightarrow> invar (snd (get k c))"
    and invar_put: "invar c \<Longrightarrow> invar (put k v c)"
    and get_value: "invar c \<Longrightarrow> fst (get k c) = map_of (entries c) k"
    and entries_get: "invar c \<Longrightarrow> entries (snd (get k c)) = recency_get k (entries c)"
    and entries_put: "invar c \<Longrightarrow> entries (put k v c) = recency_put (cap c) k v (entries c)"
    and cap_get: "cap (snd (get k c)) = cap c"
    and cap_put: "cap (put k v c) = cap c"
    and bounded: "invar c \<Longrightarrow> distinct (map fst (entries c)) \<and> length (entries c) \<le> cap c \<and> 0 < cap c"
begin

fun step :: "('k, 'v) cache_op \<Rightarrow> 'c \<Rightarrow> 'c" where
  "step (GetOp k) c = snd (get k c)"
| "step (PutOp k v) c = put k v c"

lemma invar_step: "invar c \<Longrightarrow> invar (step op c)"
  by (cases op) (simp_all add: invar_get invar_put)

lemma cap_step [simp]: "cap (step op c) = cap c"
  by (cases op) (simp_all add: cap_get cap_put)

lemma entries_step: "invar c \<Longrightarrow> entries (step op c) = recency_step (cap c) op (entries c)"
  by (cases op) (simp_all add: entries_get entries_put)

lemma invar_run: "invar c \<Longrightarrow> invar (fold step ops c)"
  by (induction ops arbitrary: c) (simp_all add: invar_step)

lemma protected_run:
  "invar c \<Longrightarrow> protected T k v (entries c) \<Longrightarrow> (\<And>op. op \<in> set ops \<Longrightarrow> op_key op \<in> T) \<Longrightarrow>
   k \<notin> T \<Longrightarrow> finite T \<Longrightarrow> card T < cap c \<Longrightarrow>
   protected T k v (entries (fold step ops c))"
proof (induction ops arbitrary: c)
  case (Cons op ops)
  have "protected T k v (entries (step op c))"
    unfolding entries_step [OF Cons.prems(1)] using Cons.prems by (intro protected_step) auto
  then show ?case
    using Cons.IH [of "step op c"] Cons.prems invar_step [of c op] by simp
qed simp

text \<open>An entry just written is found again and is the newest one.\<close>

lemma get_put: "invar c \<Longrightarrow> fst (get k (put k v c)) = Some v"
proof -
  assume c: "invar c"
  have "(k, v) \<in> set (entries (put k v c))" by (simp add: entries_put [OF c] recency_put_def)
  moreover have "distinct (map fst (entries (put k v c)))" using bounded [OF invar_put [OF c]] by blast
  ultimately show ?thesis using c by (simp add: get_value invar_put)
qed

text \<open>
  A written entry stays until \<open>cap\<close> other keys have been used: operations on fewer keys than
  that, in any order and number, leave it in the cache.
\<close>

lemma retained:
  assumes "invar c" "k \<notin> op_key ` set ops" "card (op_key ` set ops) < cap c"
  shows "fst (get k (fold step ops (put k v c))) = Some v"
proof -
  have "protected (op_key ` set ops) k v (entries (put k v c))"
  proof -
    obtain pre where pre: "entries (put k v c) = pre @ (k, v) # []"
      by (simp add: entries_put [OF assms(1)] recency_put_def)
    with bounded [OF invar_put [OF assms(1)], of k v] show ?thesis by (intro protectedI) auto
  qed
  then have "protected (op_key ` set ops) k v (entries (fold step ops (put k v c)))"
    using protected_run [of "put k v c" "op_key ` set ops" k v ops] assms
    by (simp add: invar_put cap_put)
  then have "map_of (entries (fold step ops (put k v c))) k = Some v"
    by (rule protected_lookup)
  with assms(1) show ?thesis by (simp add: get_value invar_run invar_put)
qed

text \<open>A write does not invent entries for other keys.\<close>

lemma get_put_other:
  assumes "invar c" "k' \<noteq> k" "fst (get k' (put k v c)) = Some w"
  shows "fst (get k' c) = Some w"
proof -
  have d: "distinct (map fst (entries c))" using bounded [OF assms(1)] by blast
  have "(k', w) \<in> set (entries (put k v c))"
    using assms by (auto simp: get_value invar_put dest: map_of_SomeD)
  then have "(k', w) \<in> set (entries c)"
    using assms(1,2)
    by (cases "entries c") (auto simp: entries_put recency_put_def split: if_splits)
  with d assms(1) show ?thesis by (simp add: get_value)
qed

lemma get_other:
  assumes "invar c"
  shows "fst (get k' (snd (get k c))) = fst (get k' c)"
proof -
  have d: "distinct (map fst (entries c))" using bounded [OF assms] by blast
  have "map_of (recency_get k (entries c)) k' = map_of (entries c) k'"
  proof (cases "map_of (entries c) k")
    case (Some v)
    have "map_of (filter (\<lambda>e. fst e \<noteq> k) es) k' = (if k' = k then None else map_of es k')"
      for es :: "('k \<times> 'v) list"
      by (induction es) auto
    with Some show ?thesis by (auto simp: recency_get_def map_add_def split: option.splits)
  qed (simp add: recency_get_def)
  with assms show ?thesis by (simp add: get_value invar_get entries_get)
qed

end

interpretation lru: recency_cache lru_get lru_put lru_entries lru_inv lru_capacity
proof
  fix c :: "('a, 'b) lru"
  assume "lru_inv c"
  moreover have "length (lru_entries c) = length (lru_order c)" by (metis lru_entries_keys length_map)
  ultimately show "distinct (map fst (lru_entries c)) \<and> length (lru_entries c) \<le> lru_capacity c \<and>
      0 < lru_capacity c"
    by (simp add: lru_entries_keys lru_inv_def)
qed (simp_all add: lru_inv_get lru_inv_put lru_get_fst lru_entries_get lru_entries_put)

text \<open>A sequence of cache calls.\<close>

fun lru_run :: "('k, 'v) cache_op list \<Rightarrow> ('k, 'v) lru \<Rightarrow> ('k, 'v) lru" where
  "lru_run [] c = c"
| "lru_run (GetOp k # ops) c = lru_run ops (snd (lru_get k c))"
| "lru_run (PutOp k v # ops) c = lru_run ops (lru_put k v c)"

lemma lru_run_fold: "lru_run ops c = fold lru.step ops c"
  by (induction ops c rule: lru_run.induct) simp_all

section \<open>Properties\<close>

text \<open>C4. The LRU cache keeps what it must: an entry just written is still returned after any
  sequence of gets and puts on other keys, as long as those use fewer distinct keys than the
  capacity, whatever their number and order.\<close>

theorem lru_retains:
  assumes "lru_inv c" "k \<notin> op_key ` set ops" "card (op_key ` set ops) < lru_capacity c"
  shows "fst (lru_get k (lru_run ops (lru_put k v c))) = Some v"
  unfolding lru_run_fold using assms by (rule lru.retained)

theorem lru_retains_witness:
  "fst (lru_get (1::nat) (lru_run [PutOp 2 CHR ''b'', GetOp 2, PutOp 2 CHR ''c'']
     (lru_put 1 CHR ''a'' (lru_new 2)))) = Some CHR ''a''"
proof (rule lru_retains)
  show "lru_inv (lru_new 2 :: (nat, char) lru)" by (simp add: lru_inv_new)
qed (simp_all add: lru_new_def)

text \<open>From an empty cache of positive capacity every sequence of calls keeps the map and the
  recency deque in step: no key twice, the same keys in both, never more entries than the
  capacity.\<close>

theorem lru_run_inv:
  assumes "0 < cap"
  shows "lru_inv (lru_run ops (lru_new cap :: ('k, 'v) lru)) \<and>
    length (lru_map (lru_run ops (lru_new cap :: ('k, 'v) lru))) \<le> cap"
proof -
  let ?c = "lru_run ops (lru_new cap :: ('k, 'v) lru)"
  have inv: "lru_inv ?c" unfolding lru_run_fold using assms by (intro lru.invar_run lru_inv_new)
  have "lru_capacity (lru_run ops c) = lru_capacity c" for c :: "('k, 'v) lru"
    unfolding lru_run_fold by (induction ops arbitrary: c) simp_all
  then have "lru_capacity ?c = cap" by (simp add: lru_new_def)
  moreover have "length (lru_order ?c) \<le> lru_capacity ?c" using inv by (simp add: lru_inv_def)
  ultimately show ?thesis using inv lru_length_order [OF inv] by simp
qed

theorem lru_run_inv_witness:
  "lru_inv (lru_run [PutOp (1::nat) True, PutOp 2 False, PutOp 3 True] (lru_new 2)) \<and>
   length (lru_map (lru_run [PutOp (1::nat) True, PutOp 2 False, PutOp 3 True] (lru_new 2))) \<le> 2"
  by (rule lru_run_inv) simp

end
