(* ===== verification/Template_Cache.thy ===== *)
theory Template_Cache
  imports Lru_Cache
begin

text \<open>
  \<^verbatim>\<open>src/src/email/source.rs\<close> and \<^verbatim>\<open>src/src/email/cache.rs\<close>: email template sources and the
  LRU-cached wrapper. The file system is a parameter, the partial function from paths to file
  contents. \<^verbatim>\<open>CachedSource::load\<close> takes the cache lock twice, so two calls can interleave
  between the lookup and the store; the step relation \<open>load_step\<close> has one step per critical
  section and any number of threads.
\<close>

section \<open>FileSource\<close>

text \<open>A path is the list of its components.\<close>

definition file_source_load ::
  "(string list \<rightharpoonup> string) \<Rightarrow> string list \<Rightarrow> string \<Rightarrow> string \<Rightarrow> string \<Rightarrow> string result" where
  "file_source_load fs path name locale default_locale =
     (let filename = name @ ''.md'';
          missing = Inl (not_found (''email template '' @ [CHR 0x27] @ name @ [CHR 0x27] @
                      '' not found for locale '' @ [CHR 0x27] @ locale @ [CHR 0x27]));
          fallback = (case fs (path @ [filename]) of Some content \<Rightarrow> Inr content | None \<Rightarrow> missing)
      in case fs (path @ [locale, filename]) of
           Some content \<Rightarrow> Inr content
         | None \<Rightarrow>
             if locale \<noteq> default_locale
             then (case fs (path @ [default_locale, filename]) of
                     Some content \<Rightarrow> Inr content
                   | None \<Rightarrow> fallback)
             else fallback)"

section \<open>CachedSource\<close>

type_synonym template_key = "string \<times> string \<times> string"
type_synonym template_source = "string \<Rightarrow> string \<Rightarrow> string \<Rightarrow> string result"

record cached_source =
  cs_inner :: template_source
  cs_cache :: "(template_key, string) lru"

definition cached_source_new :: "template_source \<Rightarrow> nat \<Rightarrow> cached_source" where
  "cached_source_new inner capacity =
     (let cap = (if capacity = 0 then 1 else capacity)
      in \<lparr>cs_inner = inner, cs_cache = lru_new cap\<rparr>)"

text \<open>One call with no other thread between its two critical sections.\<close>

definition cached_source_load ::
  "cached_source \<Rightarrow> string \<Rightarrow> string \<Rightarrow> string \<Rightarrow> string result \<times> cached_source" where
  "cached_source_load s name locale default_locale =
     (let key = (name, locale, default_locale);
          (cached, cache1) = lru_get key (cs_cache s)
      in case cached of
           Some content \<Rightarrow> (Inr content, s\<lparr>cs_cache := cache1\<rparr>)
         | None \<Rightarrow>
             (case cs_inner s name locale default_locale of
                Inl e \<Rightarrow> (Inl e, s\<lparr>cs_cache := cache1\<rparr>)
              | Inr content \<Rightarrow> (Inr content, s\<lparr>cs_cache := lru_put key content cache1\<rparr>)))"

section \<open>Interleaved calls\<close>

text \<open>
  A thread is idle, between its two critical sections with the content it read from the inner
  source, or done with a result.
\<close>

datatype load_pc = LIdle | LLoaded template_key string | LDone template_key "string result"

record load_state =
  ls_source :: cached_source
  ls_pc :: "nat \<Rightarrow> load_pc"

inductive load_step :: "load_state \<Rightarrow> load_state \<Rightarrow> bool" where
  hit: "ls_pc s t = LIdle \<Longrightarrow> key = (name, locale, default_locale) \<Longrightarrow>
     lru_get key (cs_cache (ls_source s)) = (Some content, cache1) \<Longrightarrow>
     load_step s (s\<lparr>ls_source := (ls_source s)\<lparr>cs_cache := cache1\<rparr>,
                    ls_pc := (ls_pc s)(t := LDone key (Inr content))\<rparr>)"
| miss: "ls_pc s t = LIdle \<Longrightarrow> key = (name, locale, default_locale) \<Longrightarrow>
     lru_get key (cs_cache (ls_source s)) = (None, cache1) \<Longrightarrow>
     cs_inner (ls_source s) name locale default_locale = Inr content \<Longrightarrow>
     load_step s (s\<lparr>ls_source := (ls_source s)\<lparr>cs_cache := cache1\<rparr>,
                    ls_pc := (ls_pc s)(t := LLoaded key content)\<rparr>)"
| fail: "ls_pc s t = LIdle \<Longrightarrow> key = (name, locale, default_locale) \<Longrightarrow>
     lru_get key (cs_cache (ls_source s)) = (None, cache1) \<Longrightarrow>
     cs_inner (ls_source s) name locale default_locale = Inl e \<Longrightarrow>
     load_step s (s\<lparr>ls_source := (ls_source s)\<lparr>cs_cache := cache1\<rparr>,
                    ls_pc := (ls_pc s)(t := LDone key (Inl e))\<rparr>)"
| store: "ls_pc s t = LLoaded key content \<Longrightarrow>
     load_step s (s\<lparr>ls_source := (ls_source s)\<lparr>cs_cache := lru_put key content (cs_cache (ls_source s))\<rparr>,
                    ls_pc := (ls_pc s)(t := LDone key (Inr content))\<rparr>)"
| return: "ls_pc s t = LDone key r \<Longrightarrow> load_step s (s\<lparr>ls_pc := (ls_pc s)(t := LIdle)\<rparr>)"

definition load_start :: "template_source \<Rightarrow> nat \<Rightarrow> load_state" where
  "load_start inner capacity = \<lparr>ls_source = cached_source_new inner capacity, ls_pc = (\<lambda>_. LIdle)\<rparr>"

inductive load_reachable :: "template_source \<Rightarrow> nat \<Rightarrow> load_state \<Rightarrow> bool" for inner capacity where
  start: "load_reachable inner capacity (load_start inner capacity)"
| step: "load_reachable inner capacity s \<Longrightarrow> load_step s s' \<Longrightarrow> load_reachable inner capacity s'"

section \<open>Coherence\<close>

definition source_at :: "template_source \<Rightarrow> template_key \<Rightarrow> string result" where
  "source_at inner key = (case key of (n, l, d) \<Rightarrow> inner n l d)"

definition coherent :: "template_source \<Rightarrow> (template_key, string) lru \<Rightarrow> bool" where
  "coherent inner c \<longleftrightarrow> lru_inv c \<and>
     (\<forall>key content. fst (lru_get key c) = Some content \<longrightarrow> source_at inner key = Inr content)"

lemma coherent_new: "coherent inner (cs_cache (cached_source_new inner n))"
  by (simp add: coherent_def cached_source_new_def lru_inv_new Let_def) (simp add: lru_get_def lru_new_def)

lemma coherent_get: "coherent inner c \<Longrightarrow> coherent inner (snd (lru_get key c))"
  by (simp add: coherent_def lru.invar_get lru.get_other)

lemma coherent_put:
  "coherent inner c \<Longrightarrow> source_at inner key = Inr content \<Longrightarrow> coherent inner (lru_put key content c)"
  unfolding coherent_def
  by (metis lru.invar_put lru.get_put lru.get_put_other option.inject)

lemma coherent_value: "coherent inner c \<Longrightarrow> lru_get key c = (Some v, c') \<Longrightarrow> source_at inner key = Inr v"
  by (metis coherent_def fst_conv)

fun pc_ok :: "template_source \<Rightarrow> load_pc \<Rightarrow> bool" where
  "pc_ok inner LIdle = True"
| "pc_ok inner (LLoaded key content) = (source_at inner key = Inr content)"
| "pc_ok inner (LDone key r) = (source_at inner key = r)"

definition load_inv :: "template_source \<Rightarrow> load_state \<Rightarrow> bool" where
  "load_inv inner s \<longleftrightarrow> cs_inner (ls_source s) = inner \<and> coherent inner (cs_cache (ls_source s)) \<and>
     (\<forall>t. pc_ok inner (ls_pc s t))"

lemma load_inv_step: "load_step s s' \<Longrightarrow> load_inv inner s \<Longrightarrow> load_inv inner s'"
proof (induction rule: load_step.induct)
  case (hit s t key n l d content cache1)
  then show ?case
    using coherent_get [of inner "cs_cache (ls_source s)" key]
      coherent_value [of inner "cs_cache (ls_source s)" key content cache1]
    by (auto simp: load_inv_def)
next
  case (miss s t key n l d cache1 content)
  then show ?case
    using coherent_get [of inner "cs_cache (ls_source s)" key] by (auto simp: load_inv_def source_at_def)
next
  case (fail s t key n l d cache1 e)
  then show ?case
    using coherent_get [of inner "cs_cache (ls_source s)" key] by (auto simp: load_inv_def source_at_def)
next
  case (store s t key content)
  then have "source_at inner key = Inr content" by (metis load_inv_def pc_ok.simps(2))
  with store show ?case by (auto simp: load_inv_def coherent_put)
qed (auto simp: load_inv_def)

lemma load_reachable_inv: "load_reachable inner n s \<Longrightarrow> load_inv inner s"
proof (induction rule: load_reachable.induct)
  case start
  show ?case
    by (simp add: load_inv_def load_start_def coherent_new) (simp add: cached_source_new_def Let_def)
qed (rule load_inv_step)

section \<open>Properties\<close>

text \<open>C3. Caching is invisible: however calls of \<^verbatim>\<open>CachedSource::load\<close> interleave on any number of
  threads, and whatever the capacity (zero included), every finished call returns what the inner
  source returns for its name, locale and default locale, content or error.\<close>

theorem cached_load_transparent:
  assumes "load_reachable inner capacity s" "ls_pc s t = LDone (name, locale, default_locale) r"
  shows "inner name locale default_locale = r"
  using load_reachable_inv [OF assms(1)] assms(2)
  by (auto simp: load_inv_def source_at_def dest!: spec [of _ t])

definition demo_source :: template_source where
  "demo_source n l d = (if l = ''en'' then Inr n else Inl (not_found n))"

theorem cached_load_transparent_witness:
  "demo_source ''hi'' ''en'' ''en'' = Inr ''hi''"
proof -
  let ?k = "(''hi'', ''en'', ''en'')"
  let ?s0 = "load_start demo_source 0"
  let ?s1 = "?s0\<lparr>ls_source := (ls_source ?s0)\<lparr>cs_cache := cs_cache (ls_source ?s0)\<rparr>,
    ls_pc := (ls_pc ?s0)(7 := LLoaded ?k ''hi'')\<rparr>"
  let ?s2 = "?s1\<lparr>ls_source := (ls_source ?s1)\<lparr>cs_cache := lru_put ?k ''hi'' (cs_cache (ls_source ?s1))\<rparr>,
    ls_pc := (ls_pc ?s1)(7 := LDone ?k (Inr ''hi''))\<rparr>"
  have "load_step ?s0 ?s1"
    by (rule load_step.miss [OF _ refl])
      (simp_all add: load_start_def cached_source_new_def lru_get_def lru_new_def demo_source_def)
  moreover have "load_step ?s1 ?s2" by (rule load_step.store) simp
  ultimately have "load_reachable demo_source 0 ?s2"
    using load_reachable.intros by blast
  then show ?thesis by (rule cached_load_transparent [where t = 7]) simp
qed

text \<open>The fallback chain of \<^verbatim>\<open>FileSource::load\<close>: a template is missing exactly when none of the
  exact-locale, default-locale and locale-free files exists; otherwise the content is that of the
  first of them that exists, in this order.\<close>

theorem file_source_fallback:
  "file_source_load fs path name locale default_locale =
     (case find (\<lambda>f. fs f \<noteq> None)
        [path @ [locale, name @ ''.md''], path @ [default_locale, name @ ''.md''], path @ [name @ ''.md'']] of
        Some f \<Rightarrow> Inr (the (fs f))
      | None \<Rightarrow> Inl (not_found (''email template '' @ [CHR 0x27] @ name @ [CHR 0x27] @
                  '' not found for locale '' @ [CHR 0x27] @ locale @ [CHR 0x27])))"
  by (auto simp: file_source_load_def Let_def split: option.splits)

end
