(* ===== verification/Database.thy ===== *)
theory Database
  imports Errors
begin

text \<open>
  The database interface (\<^verbatim>\<open>src/src/db/error.rs\<close>, \<^verbatim>\<open>src/src/db/conn.rs\<close>). The engine itself is
  libsql: a table is the list of its rows and a statement a function on that list, written in
  each component from the SQL text it sends. Any statement can fail; \<open>db_faults\<close> lists, for the
  statements to come, the failure the engine reports (\<open>None\<close>: the statement runs), so every
  error path of the callers is reachable by a choice of that list.
\<close>

section \<open>Errors of the engine\<close>

datatype libsql_error =
    SqliteFailure int string
  | QueryReturnedNoRows
  | NullValue
  | ConnectionFailed string
  | InvalidColumnIndex
  | InvalidColumnType
  | LibsqlOther string

definition error_from_libsql :: "libsql_error \<Rightarrow> error" where
  "error_from_libsql err =
     (case err of
        SqliteFailure code msg \<Rightarrow>
          if code = 2067 \<or> code = 1555 then chain (SrcOther msg) (conflict ''record already exists'')
          else if code = 787 then chain (SrcOther msg) (bad_request ''foreign key violation'')
          else chain (SrcOther msg) (internal (''database error: '' @ msg))
      | QueryReturnedNoRows \<Rightarrow> not_found ''record not found''
      | NullValue \<Rightarrow> bad_request ''unexpected null value''
      | ConnectionFailed msg \<Rightarrow> internal (''database connection failed: '' @ msg)
      | InvalidColumnIndex \<Rightarrow> internal ''invalid column index''
      | InvalidColumnType \<Rightarrow> internal ''invalid column type''
      | LibsqlOther msg \<Rightarrow> chain (SrcOther msg) (internal ''database error''))"

section \<open>Statements\<close>

record 'r db =
  db_rows :: "'r list"
  db_faults :: "libsql_error option list"

type_synonym ('r, 'a) dbm = "'r db \<Rightarrow> 'a result \<times> 'r db"

definition next_fault :: "'r db \<Rightarrow> libsql_error option" where
  "next_fault db = (case db_faults db of [] \<Rightarrow> None | f # _ \<Rightarrow> f)"

definition pop_fault :: "'r db \<Rightarrow> 'r db" where
  "pop_fault db = db\<lparr>db_faults := tl (db_faults db)\<rparr>"

definition execute_raw ::
  "('r list \<Rightarrow> libsql_error + nat \<times> 'r list) \<Rightarrow> 'r db \<Rightarrow> (libsql_error + nat) \<times> 'r db" where
  "execute_raw stmt db =
     (case next_fault db of
        Some e \<Rightarrow> (Inl e, pop_fault db)
      | None \<Rightarrow>
          (case stmt (db_rows db) of
             Inl e \<Rightarrow> (Inl e, pop_fault db)
           | Inr (n, rows) \<Rightarrow> (Inr n, (pop_fault db)\<lparr>db_rows := rows\<rparr>)))"

definition query_raw :: "('r list \<Rightarrow> 'a list) \<Rightarrow> 'r db \<Rightarrow> (libsql_error + 'a list) \<times> 'r db" where
  "query_raw sel db =
     (case next_fault db of
        Some e \<Rightarrow> (Inl e, pop_fault db)
      | None \<Rightarrow> (Inr (sel (db_rows db)), pop_fault db))"

text \<open>\<^verbatim>\<open>INSERT\<close> checks the table's constraints; \<^verbatim>\<open>UPDATE\<close> and \<^verbatim>\<open>DELETE\<close> count the rows they touch.\<close>

definition sql_insert ::
  "('r list \<Rightarrow> libsql_error option) \<Rightarrow> 'r \<Rightarrow> 'r list \<Rightarrow> libsql_error + nat \<times> 'r list" where
  "sql_insert check row rows =
     (case check (rows @ [row]) of Some e \<Rightarrow> Inl e | None \<Rightarrow> Inr (1, rows @ [row]))"

definition sql_update ::
  "('r list \<Rightarrow> libsql_error option) \<Rightarrow> ('r \<Rightarrow> bool) \<Rightarrow> ('r \<Rightarrow> 'r) \<Rightarrow> 'r list \<Rightarrow> libsql_error + nat \<times> 'r list" where
  "sql_update check p f rows =
     (let rows' = map (\<lambda>r. if p r then f r else r) rows
      in case check rows' of Some e \<Rightarrow> Inl e | None \<Rightarrow> Inr (length (filter p rows), rows'))"

definition sql_delete :: "('r \<Rightarrow> bool) \<Rightarrow> 'r list \<Rightarrow> libsql_error + nat \<times> 'r list" where
  "sql_delete p rows = Inr (length (filter p rows), filter (\<lambda>r. \<not> p r) rows)"

text \<open>\<^verbatim>\<open>SELECT id ... ORDER BY key ASC LIMIT n\<close>; rows with equal keys come in table order.\<close>

definition sql_first_ids :: "('r \<Rightarrow> bool) \<Rightarrow> ('r \<Rightarrow> int) \<Rightarrow> ('r \<Rightarrow> string) \<Rightarrow> nat \<Rightarrow> 'r list \<Rightarrow> string list" where
  "sql_first_ids p key idc n rows = map idc (take n (sort_key key (filter p rows)))"

section \<open>The query helpers\<close>

definition query_optional :: "('w \<Rightarrow> 'a result) \<Rightarrow> ('r list \<Rightarrow> 'w list) \<Rightarrow> ('r, 'a option) dbm" where
  "query_optional from_row sel db =
     (case query_raw sel db of
        (Inl e, db') \<Rightarrow> (Inl (error_from_libsql e), db')
      | (Inr [], db') \<Rightarrow> (Inr None, db')
      | (Inr (row # _), db') \<Rightarrow> (bind_res (from_row row) (\<lambda>x. Inr (Some x)), db'))"

definition query_one :: "('w \<Rightarrow> 'a result) \<Rightarrow> ('r list \<Rightarrow> 'w list) \<Rightarrow> ('r, 'a) dbm" where
  "query_one from_row sel db =
     (case query_raw sel db of
        (Inl e, db') \<Rightarrow> (Inl (error_from_libsql e), db')
      | (Inr [], db') \<Rightarrow> (Inl (not_found ''record not found''), db')
      | (Inr (row # _), db') \<Rightarrow> (from_row row, db'))"

definition query_all :: "('w \<Rightarrow> 'a result) \<Rightarrow> ('r list \<Rightarrow> 'w list) \<Rightarrow> ('r, 'a list) dbm" where
  "query_all from_row sel db =
     (case query_raw sel db of
        (Inl e, db') \<Rightarrow> (Inl (error_from_libsql e), db')
      | (Inr rows, db') \<Rightarrow> (collect_res from_row rows, db'))"

text \<open>
  The variants that map each row with a closure. The closure takes the place of \<^verbatim>\<open>T::from_row\<close>;
  the bodies are otherwise the same.
\<close>

definition query_one_map :: "('w \<Rightarrow> 'a result) \<Rightarrow> ('r list \<Rightarrow> 'w list) \<Rightarrow> ('r, 'a) dbm" where
  "query_one_map f sel db =
     (case query_raw sel db of
        (Inl e, db') \<Rightarrow> (Inl (error_from_libsql e), db')
      | (Inr [], db') \<Rightarrow> (Inl (not_found ''record not found''), db')
      | (Inr (row # _), db') \<Rightarrow> (f row, db'))"

definition query_optional_map :: "('w \<Rightarrow> 'a result) \<Rightarrow> ('r list \<Rightarrow> 'w list) \<Rightarrow> ('r, 'a option) dbm" where
  "query_optional_map f sel db =
     (case query_raw sel db of
        (Inl e, db') \<Rightarrow> (Inl (error_from_libsql e), db')
      | (Inr [], db') \<Rightarrow> (Inr None, db')
      | (Inr (row # _), db') \<Rightarrow> (bind_res (f row) (\<lambda>x. Inr (Some x)), db'))"

definition query_all_map :: "('w \<Rightarrow> 'a result) \<Rightarrow> ('r list \<Rightarrow> 'w list) \<Rightarrow> ('r, 'a list) dbm" where
  "query_all_map f sel db =
     (case query_raw sel db of
        (Inl e, db') \<Rightarrow> (Inl (error_from_libsql e), db')
      | (Inr rows, db') \<Rightarrow> (collect_res f rows, db'))"

section \<open>Sequencing\<close>

text \<open>\<open>db_bind\<close> is \<^verbatim>\<open>.await?\<close>: an error returns at once with the database as it is by then.\<close>

definition db_bind :: "('r, 'a) dbm \<Rightarrow> ('a \<Rightarrow> ('r, 'b) dbm) \<Rightarrow> ('r, 'b) dbm" where
  "db_bind m f db = (case m db of (Inl e, db') \<Rightarrow> (Inl e, db') | (Inr x, db') \<Rightarrow> f x db')"

definition db_lift :: "'a result \<Rightarrow> ('r, 'a) dbm" where
  "db_lift r db = (r, db)"

definition db_execute ::
  "(libsql_error \<Rightarrow> error) \<Rightarrow> ('r list \<Rightarrow> libsql_error + nat \<times> 'r list) \<Rightarrow> ('r, nat) dbm" where
  "db_execute g stmt db = (case execute_raw stmt db of (r, db') \<Rightarrow> (map_err g r, db'))"

text \<open>
  \<^verbatim>\<open>.map_err(|e| Error::internal(format!("ctx: {e}")))\<close>. How libsql displays its errors is not
  modelled: only the text an error carries is kept.
\<close>

fun libsql_text :: "libsql_error \<Rightarrow> string" where
  "libsql_text (SqliteFailure c m) = m"
| "libsql_text (ConnectionFailed m) = m"
| "libsql_text (LibsqlOther m) = m"
| "libsql_text _ = []"

definition internal_ctx :: "string \<Rightarrow> libsql_error \<Rightarrow> error" where
  "internal_ctx ctx e = internal (ctx @ '': '' @ libsql_text e)"

section \<open>Lemmas\<close>

definition healthy :: "'r db \<Rightarrow> bool" where
  "healthy db \<longleftrightarrow> list_all (\<lambda>f. f = None) (db_faults db)"

lemma healthy_next [simp]: "healthy db \<Longrightarrow> next_fault db = None"
  by (cases "db_faults db") (auto simp: healthy_def next_fault_def)

lemma healthy_pop [simp]: "healthy db \<Longrightarrow> healthy (pop_fault db)"
  by (cases "db_faults db") (auto simp: healthy_def pop_fault_def)

lemma healthy_rows [simp]: "healthy (db\<lparr>db_rows := rs\<rparr>) = healthy db"
  by (simp add: healthy_def)

lemma pop_fault_rows [simp]: "db_rows (pop_fault db) = db_rows db"
  by (simp add: pop_fault_def)

lemma db_bind_Inr: "m db = (Inr x, db') \<Longrightarrow> db_bind m f db = f x db'"
  by (simp add: db_bind_def)

lemma db_bind_Inl: "m db = (Inl e, db') \<Longrightarrow> db_bind m f db = (Inl e, db')"
  by (simp add: db_bind_def)

lemma db_bind_eq_Inr:
  "db_bind m f db = (Inr y, db'') \<longleftrightarrow> (\<exists>x db'. m db = (Inr x, db') \<and> f x db' = (Inr y, db''))"
  by (cases "m db"; cases "fst (m db)") (auto simp: db_bind_def)

lemma db_lift_simps [simp]: "db_lift r db = (r, db)"
  by (simp add: db_lift_def)

lemma db_bind_lift [simp]:
  "db_bind (db_lift (Inr x)) f db = f x db" "db_bind (db_lift (Inl e)) f db = (Inl e, db)"
  by (simp_all add: db_bind_def)

lemma db_lift_eq: "db_bind (db_lift r) f db = (Inr y, db') \<longleftrightarrow> (\<exists>x. r = Inr x \<and> f x db = (Inr y, db'))"
  by (cases r) simp_all

lemma query_raw_rows: "db_rows (snd (query_raw sel db)) = db_rows db"
  by (simp add: query_raw_def split: option.split)

lemma query_optional_rows [simp]: "db_rows (snd (query_optional fr sel db)) = db_rows db"
  using query_raw_rows [of sel db]
  by (auto simp: query_optional_def split: prod.splits sum.splits list.splits)

lemma query_all_rows [simp]: "db_rows (snd (query_all fr sel db)) = db_rows db"
  using query_raw_rows [of sel db]
  by (auto simp: query_all_def split: prod.splits sum.splits)

lemma query_optional_Inr:
  assumes "query_optional fr sel db = (Inr res, db')"
  shows "db_rows db' = db_rows db \<and>
     (case sel (db_rows db) of [] \<Rightarrow> res = None | w # _ \<Rightarrow> \<exists>x. fr w = Inr x \<and> res = Some x)"
  using assms query_optional_rows [of fr sel db]
  by (auto simp: query_optional_def query_raw_def result_simps
      split: option.splits list.splits)

lemma query_optional_healthy:
  "healthy db \<Longrightarrow> query_optional fr sel db =
     (case sel (db_rows db) of [] \<Rightarrow> (Inr None, pop_fault db)
      | w # _ \<Rightarrow> (bind_res (fr w) (\<lambda>x. Inr (Some x)), pop_fault db))"
  by (simp add: query_optional_def query_raw_def split: list.splits)

lemma query_all_healthy:
  "healthy db \<Longrightarrow> query_all fr sel db = (collect_res fr (sel (db_rows db)), pop_fault db)"
  by (simp add: query_all_def query_raw_def)

lemma db_execute_Inr:
  assumes "db_execute g stmt db = (Inr n, db')"
  shows "stmt (db_rows db) = Inr (n, db_rows db')"
  using assms by (auto simp: db_execute_def execute_raw_def result_simps split: prod.splits option.splits sum.splits)

text \<open>A failed statement leaves the rows as they were.\<close>

lemma db_execute_Inl:
  assumes "db_execute g stmt db = (Inl e, db')"
  shows "db_rows db' = db_rows db"
  using assms by (auto simp: db_execute_def execute_raw_def split: prod.splits option.splits sum.splits)

lemma db_execute_healthy:
  "healthy db \<Longrightarrow> db_execute g stmt db =
     (case stmt (db_rows db) of Inl e \<Rightarrow> (Inl (g e), pop_fault db)
      | Inr (n, rows) \<Rightarrow> (Inr n, (pop_fault db)\<lparr>db_rows := rows\<rparr>))"
  by (simp add: db_execute_def execute_raw_def split: sum.splits prod.splits)

lemma sql_delete_eq [simp]: "sql_delete p rows = Inr (n, rows') \<longleftrightarrow>
    n = length (filter p rows) \<and> rows' = filter (\<lambda>r. \<not> p r) rows"
  by (auto simp: sql_delete_def)

lemma sql_update_Inr:
  "sql_update check p f rows = Inr (n, rows') \<longleftrightarrow>
    n = length (filter p rows) \<and> rows' = map (\<lambda>r. if p r then f r else r) rows \<and> check rows' = None"
  by (auto simp: sql_update_def Let_def split: option.splits)

lemma sql_insert_Inr:
  "sql_insert check row rows = Inr (n, rows') \<longleftrightarrow>
    n = 1 \<and> rows' = rows @ [row] \<and> check rows' = None"
  by (auto simp: sql_insert_def split: option.splits)

text \<open>What a statement can do to the rows: nothing, or what the statement computes.\<close>

lemma execute_raw_rows:
  assumes "P (db_rows db)" "\<And>n rows'. stmt (db_rows db) = Inr (n, rows') \<Longrightarrow> P rows'"
  shows "P (db_rows (snd (execute_raw stmt db)))"
  using assms by (auto simp: execute_raw_def split: option.splits sum.splits)

lemma execute_raw_Inr: "execute_raw stmt db = (Inr n, db') \<Longrightarrow> stmt (db_rows db) = Inr (n, db_rows db')"
  by (auto simp: execute_raw_def split: option.splits sum.splits)

lemma execute_raw_Inl: "execute_raw stmt db = (Inl e, db') \<Longrightarrow> db_rows db' = db_rows db"
  by (auto simp: execute_raw_def split: option.splits sum.splits)

lemma db_execute_rows:
  assumes "P (db_rows db)" "\<And>n rows'. stmt (db_rows db) = Inr (n, rows') \<Longrightarrow> P rows'"
  shows "P (db_rows (snd (db_execute g stmt db)))"
  using assms by (auto simp: db_execute_def execute_raw_def split: prod.splits option.splits sum.splits)

lemma db_bind_rows:
  assumes "P (db_rows (snd (m db)))" "\<And>x db'. m db = (Inr x, db') \<Longrightarrow> P (db_rows db') \<Longrightarrow> P (db_rows (snd (f x db')))"
  shows "P (db_rows (snd (db_bind m f db)))"
  using assms by (auto simp: db_bind_def split: prod.splits sum.splits)

lemma db_execute_unit_Inr:
  "db_bind (db_execute g stmt) (\<lambda>_. db_lift (Inr y)) db = (Inr x, db') \<longleftrightarrow>
     y = x \<and> (\<exists>n. db_execute g stmt db = (Inr n, db'))"
  by (auto simp: db_bind_eq_Inr)

end
