(* ===== verification/Session_Store.thy ===== *)
theory Session_Store
  imports Encoding Database "HOL-Library.Multiset"
begin

text \<open>
  \<^verbatim>\<open>src/src/auth/session/token.rs\<close> and \<^verbatim>\<open>src/src/auth/session/store.rs\<close>: session tokens and the
  table \<^verbatim>\<open>authenticated_sessions\<close>. Instants are integers counting nanoseconds. The time columns
  hold what chrono's \<^verbatim>\<open>to_rfc3339\<close> prints for a UTC instant; their text order is the order of the
  instants and parsing gives the instant back, so a row keeps the instant itself. The \<open>data\<close>
  column is \<open>None\<close> when its text is not JSON. Every call of \<^verbatim>\<open>Utc::now()\<close>,
  \<^verbatim>\<open>crate::id::ulid()\<close> and \<^verbatim>\<open>SessionToken::generate()\<close> is an argument, and \<open>digest\<close> is the
  SHA-256 function of the sha2 crate.
\<close>

section \<open>SessionToken\<close>

datatype session_token = SessionToken (token_bytes: "u8 list")

definition hex_digit :: "u8 \<Rightarrow> u8 option" where
  "hex_digit b =
     (if 48 \<le> b \<and> b \<le> 57 then Some (b - 48)
      else if 97 \<le> b \<and> b \<le> 102 then Some (b - 97 + 10)
      else if 65 \<le> b \<and> b \<le> 70 then Some (b - 65 + 10)
      else None)"

text \<open>The loop over \<^verbatim>\<open>chunks(2)\<close>; the last chunk is complete because the length is even.\<close>

fun from_hex_loop :: "u8 list \<Rightarrow> string + u8 list" where
  "from_hex_loop (c0 # c1 # cs) =
     (case hex_digit c0 of
        None \<Rightarrow> Inl ''invalid hex character''
      | Some hi \<Rightarrow>
          (case hex_digit c1 of
             None \<Rightarrow> Inl ''invalid hex character''
           | Some lo \<Rightarrow> bind_res (from_hex_loop cs) (\<lambda>bs. Inr ((push_bit 4 hi OR lo) # bs))))"
| "from_hex_loop _ = Inr []"

definition from_hex :: "string \<Rightarrow> string + session_token" where
  "from_hex s =
     (if length s \<noteq> 64 then Inl ''token must be 64 hex characters''
      else bind_res (from_hex_loop (as_bytes s)) (\<lambda>bs. Inr (SessionToken bs)))"

definition as_hex :: "session_token \<Rightarrow> string" where
  "as_hex t = hex_encode (token_bytes t)"

definition token_hash :: "(u8 list \<Rightarrow> u8 list) \<Rightarrow> session_token \<Rightarrow> string" where
  "token_hash digest t = hex_sha256 digest (token_bytes t)"

definition expose :: "session_token \<Rightarrow> string" where
  "expose t = as_hex t"

definition from_raw :: "string \<Rightarrow> session_token option" where
  "from_raw s = (case from_hex s of Inl _ \<Rightarrow> None | Inr t \<Rightarrow> Some t)"

text \<open>\<^verbatim>\<open>impl Display\<close>: the token is redacted.\<close>

definition token_display :: "session_token \<Rightarrow> string" where
  "token_display t = ''****''"

definition wf_token :: "session_token \<Rightarrow> bool" where
  "wf_token t \<longleftrightarrow> length (token_bytes t) = 32"

section \<open>ClientInfo and configuration\<close>

record client_info =
  ci_ip :: "string option"
  ci_user_agent :: "string option"
  ci_device_name :: "string option"
  ci_device_type :: "string option"
  ci_fingerprint :: "string option"

record cookie_config =
  cc_secret :: string
  cc_secure :: bool
  cc_http_only :: bool
  cc_same_site :: string

record sessions_config =
  session_ttl_secs :: nat
  cookie_name :: string
  validate_fingerprint :: bool
  touch_interval_secs :: nat
  max_sessions_per_user :: nat
  cookie_attrs :: cookie_config

definition cookie_config_default :: cookie_config where
  "cookie_config_default =
     \<lparr>cc_secret = [], cc_secure = True, cc_http_only = True, cc_same_site = ''lax''\<rparr>"

definition sessions_config_default :: sessions_config where
  "sessions_config_default =
     \<lparr>session_ttl_secs = 2592000, cookie_name = ''_session'', validate_fingerprint = True,
      touch_interval_secs = 300, max_sessions_per_user = 10, cookie_attrs = cookie_config_default\<rparr>"

text \<open>\<^verbatim>\<open>deserialize_nonzero_usize\<close>: the check on \<^verbatim>\<open>max_sessions_per_user\<close> when a config is read.\<close>

definition deserialize_nonzero_usize :: "nat \<Rightarrow> string + nat" where
  "deserialize_nonzero_usize value =
     (if value = 0
      then Inl ''max_sessions_per_user must be > 0; setting it to 0 would lock out all users''
      else Inr value)"

section \<open>The table\<close>

record session_row =
  row_id :: string
  row_token_hash :: string
  row_user_id :: string
  row_ip_address :: string
  row_user_agent :: string
  row_device_name :: string
  row_device_type :: string
  row_fingerprint :: string
  row_data :: "json option"
  row_created_at :: int
  row_last_active_at :: int
  row_expires_at :: int

record session_data =
  sd_id :: string
  sd_user_id :: string
  sd_ip_address :: string
  sd_user_agent :: string
  sd_device_name :: string
  sd_device_type :: string
  sd_fingerprint :: string
  sd_data :: json
  sd_created_at :: int
  sd_last_active_at :: int
  sd_expires_at :: int

type_synonym session_db = "session_row db"

definition seconds :: "nat \<Rightarrow> int" where
  "seconds n = int n * 1000000000"

text \<open>\<^verbatim>\<open>id TEXT PRIMARY KEY\<close> and \<^verbatim>\<open>session_token_hash TEXT NOT NULL UNIQUE\<close>.\<close>

definition session_check :: "session_row list \<Rightarrow> libsql_error option" where
  "session_check rows =
     (if \<not> distinct (map row_id rows)
      then Some (SqliteFailure 1555 ''UNIQUE constraint failed: authenticated_sessions.id'')
      else if \<not> distinct (map row_token_hash rows)
      then Some (SqliteFailure 2067 ''UNIQUE constraint failed: authenticated_sessions.session_token_hash'')
      else None)"

definition row_to_session_data :: "session_row \<Rightarrow> session_data result" where
  "row_to_session_data row =
     (case row_data row of
        None \<Rightarrow> Inl (internal ''deserialize session data'')
      | Some d \<Rightarrow> Inr
          \<lparr>sd_id = row_id row, sd_user_id = row_user_id row, sd_ip_address = row_ip_address row,
           sd_user_agent = row_user_agent row, sd_device_name = row_device_name row,
           sd_device_type = row_device_type row, sd_fingerprint = row_fingerprint row,
           sd_data = d, sd_created_at = row_created_at row,
           sd_last_active_at = row_last_active_at row, sd_expires_at = row_expires_at row\<rparr>)"

text \<open>
  \<^verbatim>\<open>src/src/auth/session/data.rs\<close>: the session as handlers see it, and its extractors. \<open>ext\<close> is the
  \<^verbatim>\<open>Session\<close> among the request's extensions.
\<close>

record session =
  s_id :: string
  s_user_id :: string
  s_ip_address :: string
  s_user_agent :: string
  s_device_name :: string
  s_device_type :: string
  s_fingerprint :: string
  s_data :: json
  s_created_at :: int
  s_last_active_at :: int
  s_expires_at :: int

definition session_from :: "session_data \<Rightarrow> session" where
  "session_from raw =
     \<lparr>s_id = sd_id raw, s_user_id = sd_user_id raw, s_ip_address = sd_ip_address raw,
      s_user_agent = sd_user_agent raw, s_device_name = sd_device_name raw,
      s_device_type = sd_device_type raw, s_fingerprint = sd_fingerprint raw, s_data = sd_data raw,
      s_created_at = sd_created_at raw, s_last_active_at = sd_last_active_at raw,
      s_expires_at = sd_expires_at raw\<rparr>"

definition session_from_parts :: "session option \<Rightarrow> session result" where
  "session_from_parts ext =
     ok_or (with_code ''auth:session_not_found'' (unauthorized ''unauthorized'')) ext"

definition session_from_parts_optional :: "session option \<Rightarrow> session option result" where
  "session_from_parts_optional ext = Inr ext"

section \<open>SessionStore\<close>

definition read_by_token_hash :: "string \<Rightarrow> int \<Rightarrow> (session_row, session_data option) dbm" where
  "read_by_token_hash hash now =
     query_optional row_to_session_data
       (filter (\<lambda>r. row_token_hash r = hash \<and> now < row_expires_at r))"

definition read_by_token ::
  "(u8 list \<Rightarrow> u8 list) \<Rightarrow> session_token \<Rightarrow> int \<Rightarrow> (session_row, session_data option) dbm" where
  "read_by_token digest token now =
     (let hash = token_hash digest token
      in query_optional row_to_session_data
           (filter (\<lambda>r. row_token_hash r = hash \<and> now < row_expires_at r)))"

definition read :: "string \<Rightarrow> (session_row, session_data option) dbm" where
  "read sid = query_optional row_to_session_data (filter (\<lambda>r. row_id r = sid))"

definition list_for_user :: "string \<Rightarrow> int \<Rightarrow> (session_row, session_data list) dbm" where
  "list_for_user user now =
     query_all row_to_session_data
       (\<lambda>rows. sort_key (\<lambda>r. - row_last_active_at r)
                 (filter (\<lambda>r. row_user_id r = user \<and> now < row_expires_at r) rows))"

text \<open>The eviction statement of \<^verbatim>\<open>create\<close>.\<close>

definition trim_excess :: "string \<Rightarrow> int \<Rightarrow> nat \<Rightarrow> session_row list \<Rightarrow> libsql_error + nat \<times> session_row list" where
  "trim_excess user now max_n rows =
     (let active = (\<lambda>r. row_user_id r = user \<and> now < row_expires_at r);
          limit = length (filter active rows) - max_n;
          ids = sql_first_ids active row_last_active_at row_id limit rows
      in sql_delete (\<lambda>r. row_id r \<in> set ids) rows)"

definition create ::
  "(u8 list \<Rightarrow> u8 list) \<Rightarrow> sessions_config \<Rightarrow> string \<Rightarrow> session_token \<Rightarrow> int \<Rightarrow>
   client_info \<Rightarrow> string \<Rightarrow> json option \<Rightarrow> (session_row, session_data \<times> session_token) dbm" where
  "create digest config new_id token now info user data =
     (let hash = token_hash digest token;
          expires_at = now + seconds (session_ttl_secs config);
          data_json = (case data of Some d \<Rightarrow> d | None \<Rightarrow> JObject []);
          or_empty = (\<lambda>x. case x of Some s \<Rightarrow> s | None \<Rightarrow> []);
          ip_address = or_empty (ci_ip info);
          user_agent = or_empty (ci_user_agent info);
          device_name = or_empty (ci_device_name info);
          device_type = or_empty (ci_device_type info);
          fingerprint = or_empty (ci_fingerprint info)
      in db_bind
           (db_execute (internal_ctx ''insert session'') (sql_insert session_check
              \<lparr>row_id = new_id, row_token_hash = hash, row_user_id = user,
               row_ip_address = ip_address, row_user_agent = user_agent,
               row_device_name = device_name, row_device_type = device_type,
               row_fingerprint = fingerprint, row_data = Some data_json,
               row_created_at = now, row_last_active_at = now, row_expires_at = expires_at\<rparr>))
           (\<lambda>_. db_bind
              (db_execute (internal_ctx ''evict excess sessions'')
                 (trim_excess user now (max_sessions_per_user config)))
              (\<lambda>_. db_lift (Inr
                 (\<lparr>sd_id = new_id, sd_user_id = user, sd_ip_address = ip_address,
                   sd_user_agent = user_agent, sd_device_name = device_name,
                   sd_device_type = device_type, sd_fingerprint = fingerprint,
                   sd_data = data_json, sd_created_at = now, sd_last_active_at = now,
                   sd_expires_at = expires_at\<rparr>, token)))))"

definition destroy :: "string \<Rightarrow> (session_row, unit) dbm" where
  "destroy sid =
     db_bind (db_execute (internal_ctx ''destroy session'') (sql_delete (\<lambda>r. row_id r = sid)))
       (\<lambda>_. db_lift (Inr ()))"

definition destroy_all_for_user :: "string \<Rightarrow> (session_row, unit) dbm" where
  "destroy_all_for_user user =
     db_bind (db_execute (internal_ctx ''destroy all sessions for user'')
                (sql_delete (\<lambda>r. row_user_id r = user)))
       (\<lambda>_. db_lift (Inr ()))"

definition destroy_all_except :: "string \<Rightarrow> string \<Rightarrow> (session_row, unit) dbm" where
  "destroy_all_except user keep_id =
     db_bind (db_execute (internal_ctx ''destroy all except'')
                (sql_delete (\<lambda>r. row_user_id r = user \<and> row_id r \<noteq> keep_id)))
       (\<lambda>_. db_lift (Inr ()))"

definition rotate_token_to ::
  "(u8 list \<Rightarrow> u8 list) \<Rightarrow> string \<Rightarrow> session_token \<Rightarrow> int \<Rightarrow> (session_row, unit) dbm" where
  "rotate_token_to digest sid new_token now =
     (let new_hash = token_hash digest new_token
      in db_bind (db_execute (internal_ctx ''rotate token to'')
                    (sql_update session_check (\<lambda>r. row_id r = sid)
                       (\<lambda>r. r\<lparr>row_token_hash := new_hash, row_last_active_at := now\<rparr>)))
           (\<lambda>_. db_lift (Inr ())))"

definition rotate_token ::
  "(u8 list \<Rightarrow> u8 list) \<Rightarrow> string \<Rightarrow> session_token \<Rightarrow> int \<Rightarrow> (session_row, session_token) dbm" where
  "rotate_token digest sid new_token now =
     (let new_hash = token_hash digest new_token
      in db_bind (db_execute (internal_ctx ''rotate token'')
                    (sql_update session_check (\<lambda>r. row_id r = sid)
                       (\<lambda>r. r\<lparr>row_token_hash := new_hash, row_last_active_at := now\<rparr>)))
           (\<lambda>_. db_lift (Inr new_token)))"

definition flush :: "string \<Rightarrow> json \<Rightarrow> int \<Rightarrow> int \<Rightarrow> (session_row, unit) dbm" where
  "flush sid data now expires_at =
     db_bind (db_execute (internal_ctx ''flush session'')
                (sql_update session_check (\<lambda>r. row_id r = sid)
                   (\<lambda>r. r\<lparr>row_data := Some data, row_last_active_at := now,
                          row_expires_at := expires_at\<rparr>)))
       (\<lambda>_. db_lift (Inr ()))"

definition touch :: "string \<Rightarrow> int \<Rightarrow> int \<Rightarrow> (session_row, unit) dbm" where
  "touch sid now expires_at =
     db_bind (db_execute (internal_ctx ''touch session'')
                (sql_update session_check (\<lambda>r. row_id r = sid)
                   (\<lambda>r. r\<lparr>row_last_active_at := now, row_expires_at := expires_at\<rparr>)))
       (\<lambda>_. db_lift (Inr ()))"

definition cleanup_expired :: "int \<Rightarrow> (session_row, nat) dbm" where
  "cleanup_expired now = db_execute error_from_libsql (sql_delete (\<lambda>r. row_expires_at r < now))"

section \<open>Tokens\<close>

lemma hex_digit_table: "map hex_digit (as_bytes HEX_TABLE) = map (\<lambda>v. Some (of_nat v)) [0..<16]"
  by (simp add: HEX_TABLE_def as_bytes_def hex_digit_def upt_rec)

lemma hex_digit_HEX_TABLE:
  assumes "v < 16"
  shows "hex_digit (of_char (HEX_TABLE ! v)) = Some (of_nat v)"
proof -
  have "map hex_digit (as_bytes HEX_TABLE) ! v = map (\<lambda>v. Some (of_nat v)) [0..<16] ! v"
    by (simp only: hex_digit_table)
  with assms show ?thesis by (simp add: as_bytes_def length_HEX_TABLE)
qed

lemma from_hex_loop_hex_encode: "from_hex_loop (as_bytes (hex_encode bs)) = Inr bs"
proof (induction bs)
  case (Cons b bs)
  then show ?case
    using nibble_bounds [of b] nibbles_join [of b]
    by (simp add: as_bytes_def hex_digit_HEX_TABLE)
qed (simp add: as_bytes_def)

lemma from_hex_as_hex: "wf_token t \<Longrightarrow> from_hex (as_hex t) = Inr t"
  by (cases t) (simp add: from_hex_def as_hex_def from_hex_loop_hex_encode wf_token_def)

lemma from_raw_expose: "wf_token t \<Longrightarrow> from_raw (expose t) = Some t"
  by (simp add: from_raw_def expose_def from_hex_as_hex)

lemma as_hex_inj: "wf_token t \<Longrightarrow> wf_token u \<Longrightarrow> as_hex t = as_hex u \<longleftrightarrow> t = u"
  by (metis from_hex_as_hex Inr_inject)

lemma from_hex_loop_length: "from_hex_loop cs = Inr bs \<Longrightarrow> length bs = length cs div 2"
  by (induction cs arbitrary: bs rule: from_hex_loop.induct)
    (auto simp: result_simps split: option.splits)

lemma from_hex_wf: "from_hex s = Inr t \<Longrightarrow> wf_token t"
  by (auto simp: from_hex_def wf_token_def result_simps dest!: from_hex_loop_length split: if_splits)

section \<open>Invariant\<close>

definition store_inv :: "session_row list \<Rightarrow> bool" where
  "store_inv rows \<longleftrightarrow> distinct (map row_id rows) \<and> distinct (map row_token_hash rows)"

lemma session_check_None [simp]: "session_check rows = None \<longleftrightarrow> store_inv rows"
  by (simp add: session_check_def store_inv_def)

lemma store_inv_filter: "store_inv rows \<Longrightarrow> store_inv (filter p rows)"
  by (simp add: store_inv_def distinct_map_filter)

definition active_for :: "string \<Rightarrow> int \<Rightarrow> session_row \<Rightarrow> bool" where
  "active_for user now r \<longleftrightarrow> row_user_id r = user \<and> now < row_expires_at r"

section \<open>Eviction\<close>

text \<open>Deleting the rows whose key is among the first \<open>n\<close> of a sorted list leaves the rest.\<close>

lemma mset_filter_not_first:
  assumes "distinct (map f xs)"
  shows "mset (filter (\<lambda>r. f r \<notin> f ` set (take n (sort_key k xs))) xs) = mset (drop n (sort_key k xs))"
proof -
  let ?s = "sort_key k xs"
  let ?p = "\<lambda>r. f r \<notin> f ` set (take n ?s)"
  have "mset (map f ?s) = mset (map f xs)" by simp
  then have d: "distinct (map f (take n ?s @ drop n ?s))"
    using assms mset_eq_imp_distinct_iff by (metis append_take_drop_id)
  then have disj: "f ` set (take n ?s) \<inter> f ` set (drop n ?s) = {}"
    by (simp only: map_append distinct_append set_map)
  have "mset (filter ?p xs) = mset (filter ?p ?s)" by simp
  also have "filter ?p ?s = filter ?p (take n ?s) @ filter ?p (drop n ?s)"
    by (metis append_take_drop_id filter_append)
  also have "filter ?p (take n ?s) = []" by (simp add: filter_empty_conv)
  also have "filter ?p (drop n ?s) = drop n ?s" using disj by (auto simp: filter_id_conv)
  finally show ?thesis by simp
qed

lemma trim_excess_eq:
  fixes user now max_n rows
  defines "sorted_active \<equiv> sort_key row_last_active_at (filter (active_for user now) rows)"
    and "n \<equiv> length (filter (active_for user now) rows) - max_n"
  shows "trim_excess user now max_n rows =
     sql_delete (\<lambda>r. row_id r \<in> row_id ` set (take n sorted_active)) rows"
proof -
  have "active_for user now = (\<lambda>r. row_user_id r = user \<and> now < row_expires_at r)"
    by (simp add: active_for_def fun_eq_iff)
  then show ?thesis
    by (simp add: trim_excess_def sorted_active_def n_def sql_first_ids_def Let_def)
qed

lemma trim_excess_rows:
  assumes "distinct (map row_id rows)" "trim_excess user now max_n rows = Inr (m, rows')"
  shows "length (filter (active_for user now) rows')
           = min max_n (length (filter (active_for user now) rows))"
    and "r \<in> set rows \<Longrightarrow> r \<notin> set rows' \<Longrightarrow> active_for user now r \<and>
           (\<forall>q \<in> set rows'. active_for user now q \<longrightarrow> row_last_active_at r \<le> row_last_active_at q)"
    and "set rows' \<subseteq> set rows"
proof -
  let ?act = "filter (active_for user now) rows"
  let ?n = "length ?act - max_n"
  let ?s = "sort_key row_last_active_at ?act"
  have rows': "rows' = filter (\<lambda>r. row_id r \<notin> row_id ` set (take ?n ?s)) rows"
    using assms(2) by (simp add: trim_excess_eq)
  then show "set rows' \<subseteq> set rows" by auto
  have act': "filter (active_for user now) rows' = filter (\<lambda>r. row_id r \<notin> row_id ` set (take ?n ?s)) ?act"
    unfolding rows' by (simp add: conj_commute)
  have m: "mset (filter (active_for user now) rows') = mset (drop ?n ?s)"
    unfolding act' by (rule mset_filter_not_first) (simp add: assms(1) distinct_map_filter)
  have "length (filter (active_for user now) rows') = length (drop ?n ?s)"
    using m mset_eq_length by blast
  then show "length (filter (active_for user now) rows') = min max_n (length ?act)" by simp
  show "active_for user now r \<and>
      (\<forall>q \<in> set rows'. active_for user now q \<longrightarrow> row_last_active_at r \<le> row_last_active_at q)"
    if r: "r \<in> set rows" "r \<notin> set rows'"
  proof -
    obtain r' where r': "r' \<in> set (take ?n ?s)" "row_id r = row_id r'"
      using r rows' by auto
    then have "r' \<in> set ?act" by (metis in_set_takeD set_sort)
    then have "r = r'"
      using assms(1) r(1) r'(2) by (auto simp: distinct_map inj_on_def)
    have "sorted (map row_last_active_at (take ?n ?s @ drop ?n ?s))"
      unfolding append_take_drop_id by (rule sorted_sort_key)
    then have le: "\<forall>x \<in> set (take ?n ?s). \<forall>y \<in> set (drop ?n ?s).
        row_last_active_at x \<le> row_last_active_at y"
      unfolding map_append sorted_append set_map by blast
    have "q \<in> set (drop ?n ?s)" if "q \<in> set rows'" "active_for user now q" for q
      using mset_eq_setD [OF m] that by auto
    with le r' \<open>r = r'\<close> \<open>r' \<in> set ?act\<close> show ?thesis by auto
  qed
qed

section \<open>What the operations do to the rows\<close>

definition new_session_row ::
  "(u8 list \<Rightarrow> u8 list) \<Rightarrow> sessions_config \<Rightarrow> string \<Rightarrow> session_token \<Rightarrow> int \<Rightarrow>
   client_info \<Rightarrow> string \<Rightarrow> json option \<Rightarrow> session_row" where
  "new_session_row digest config new_id token now info user data =
     \<lparr>row_id = new_id, row_token_hash = token_hash digest token, row_user_id = user,
      row_ip_address = case_option [] id (ci_ip info),
      row_user_agent = case_option [] id (ci_user_agent info),
      row_device_name = case_option [] id (ci_device_name info),
      row_device_type = case_option [] id (ci_device_type info),
      row_fingerprint = case_option [] id (ci_fingerprint info),
      row_data = Some (case_option (JObject []) id data),
      row_created_at = now, row_last_active_at = now,
      row_expires_at = now + seconds (session_ttl_secs config)\<rparr>"

lemma new_session_row_simps [simp]:
  "row_id (new_session_row dg cfg i t now info u d) = i"
  "row_token_hash (new_session_row dg cfg i t now info u d) = token_hash dg t"
  "row_user_id (new_session_row dg cfg i t now info u d) = u"
  "row_last_active_at (new_session_row dg cfg i t now info u d) = now"
  "row_expires_at (new_session_row dg cfg i t now info u d) = now + seconds (session_ttl_secs cfg)"
  by (simp_all add: new_session_row_def)

lemma create_unfold:
  "create dg cfg i t now info u d =
     db_bind (db_execute (internal_ctx ''insert session'')
        (sql_insert session_check (new_session_row dg cfg i t now info u d)))
       (\<lambda>_. db_bind (db_execute (internal_ctx ''evict excess sessions'')
           (trim_excess u now (max_sessions_per_user cfg)))
          (\<lambda>_. db_lift (bind_res (row_to_session_data (new_session_row dg cfg i t now info u d))
             (\<lambda>sd. Inr (sd, t)))))"
  by (simp add: create_def new_session_row_def row_to_session_data_def Let_def id_def
      cong: option.case_cong)

lemma create_Inr:
  assumes "create dg cfg i t now info u d db = (Inr (sd, tok), db')"
  shows "tok = t \<and> store_inv (db_rows db @ [new_session_row dg cfg i t now info u d]) \<and>
     row_to_session_data (new_session_row dg cfg i t now info u d) = Inr sd \<and>
     (\<exists>n. trim_excess u now (max_sessions_per_user cfg)
        (db_rows db @ [new_session_row dg cfg i t now info u d]) = Inr (n, db_rows db'))"
  using assms
  by (auto simp: create_unfold db_bind_eq_Inr result_simps sql_insert_Inr dest!: db_execute_Inr)

lemma trim_excess_Inr:
  "trim_excess u now n rows = Inr (m, rows') \<Longrightarrow> \<exists>p. rows' = filter p rows"
  by (auto simp: trim_excess_eq)

text \<open>All the operations that write, as one type.\<close>

datatype store_op =
    CreateOp string session_token int client_info string "json option"
  | DestroyOp string
  | DestroyAllOp string
  | DestroyExceptOp string string
  | RotateToOp string session_token int
  | RotateOp string session_token int
  | FlushOp string json int int
  | TouchOp string int int
  | CleanupOp int

fun store_exec :: "(u8 list \<Rightarrow> u8 list) \<Rightarrow> sessions_config \<Rightarrow> store_op \<Rightarrow> session_db \<Rightarrow> session_db" where
  "store_exec dg cfg (CreateOp i t now info u d) db = snd (create dg cfg i t now info u d db)"
| "store_exec dg cfg (DestroyOp i) db = snd (destroy i db)"
| "store_exec dg cfg (DestroyAllOp u) db = snd (destroy_all_for_user u db)"
| "store_exec dg cfg (DestroyExceptOp u i) db = snd (destroy_all_except u i db)"
| "store_exec dg cfg (RotateToOp i t now) db = snd (rotate_token_to dg i t now db)"
| "store_exec dg cfg (RotateOp i t now) db = snd (rotate_token dg i t now db)"
| "store_exec dg cfg (FlushOp i d now e) db = snd (flush i d now e db)"
| "store_exec dg cfg (TouchOp i now e) db = snd (touch i now e db)"
| "store_exec dg cfg (CleanupOp now) db = snd (cleanup_expired now db)"

lemma store_inv_create:
  assumes "store_inv (db_rows db)"
  shows "store_inv (db_rows (snd (create dg cfg i t now info u d db)))"
  unfolding create_unfold
proof (rule db_bind_rows, goal_cases)
  case 1
  show ?case using assms by (rule db_execute_rows) (auto simp: sql_insert_Inr)
next
  case (2 x db')
  show ?case
  proof (rule db_bind_rows)
    show "store_inv (db_rows (snd (db_execute (internal_ctx ''evict excess sessions'')
        (trim_excess u now (max_sessions_per_user cfg)) db')))"
      using 2(2) by (rule db_execute_rows) (auto dest!: trim_excess_Inr intro: 2(2) store_inv_filter)
  qed simp
qed

lemma store_inv_stmt:
  assumes "store_inv (db_rows db)"
    "\<And>n rows'. stmt (db_rows db) = Inr (n, rows') \<Longrightarrow> store_inv rows'"
  shows "store_inv (db_rows (snd (db_execute g stmt db)))"
    and "store_inv (db_rows (snd (db_bind (db_execute g stmt) (\<lambda>_. db_lift (Inr y)) db)))"
proof -
  show exec: "store_inv (db_rows (snd (db_execute g stmt db)))"
    by (rule db_execute_rows [where P = store_inv]) (fact assms)+
  show "store_inv (db_rows (snd (db_bind (db_execute g stmt) (\<lambda>_. db_lift (Inr y)) db)))"
    by (rule db_bind_rows [where P = store_inv]) (simp_all add: exec)
qed

lemma store_inv_exec:
  assumes "store_inv (db_rows db)"
  shows "store_inv (db_rows (store_exec dg cfg op db))"
proof (cases op)
  case (CreateOp i t now info u d)
  then show ?thesis using assms by (simp add: store_inv_create)
next
  case (DestroyOp i)
  show ?thesis unfolding DestroyOp store_exec.simps destroy_def
    by (rule store_inv_stmt(2)) (auto simp: assms store_inv_filter)
next
  case (DestroyAllOp u)
  show ?thesis unfolding DestroyAllOp store_exec.simps destroy_all_for_user_def
    by (rule store_inv_stmt(2)) (auto simp: assms store_inv_filter)
next
  case (DestroyExceptOp u i)
  show ?thesis unfolding DestroyExceptOp store_exec.simps destroy_all_except_def
    by (rule store_inv_stmt(2)) (use assms store_inv_filter in simp_all)
next
  case (RotateToOp i t now)
  show ?thesis unfolding RotateToOp store_exec.simps rotate_token_to_def Let_def
    by (rule store_inv_stmt(2)) (simp_all add: assms sql_update_Inr)
next
  case (RotateOp i t now)
  show ?thesis unfolding RotateOp store_exec.simps rotate_token_def Let_def
    by (rule store_inv_stmt(2)) (simp_all add: assms sql_update_Inr)
next
  case (FlushOp i d now e)
  show ?thesis unfolding FlushOp store_exec.simps flush_def
    by (rule store_inv_stmt(2)) (simp_all add: assms sql_update_Inr)
next
  case (TouchOp i now e)
  show ?thesis unfolding TouchOp store_exec.simps touch_def
    by (rule store_inv_stmt(2)) (simp_all add: assms sql_update_Inr)
next
  case (CleanupOp now)
  show ?thesis unfolding CleanupOp store_exec.simps cleanup_expired_def
    by (rule store_inv_stmt(1)) (auto simp: assms store_inv_filter)
qed

section \<open>Reading back\<close>

text \<open>The row a token hash selects at an instant.\<close>

definition lookup_hash :: "string \<Rightarrow> int \<Rightarrow> session_row list \<Rightarrow> session_row option" where
  "lookup_hash h now rows = find (\<lambda>r. row_token_hash r = h \<and> now < row_expires_at r) rows"

lemma lookup_hash_Some:
  "store_inv rows \<Longrightarrow> lookup_hash h now rows = Some r \<longleftrightarrow>
     r \<in> set rows \<and> row_token_hash r = h \<and> now < row_expires_at r"
proof (induction rows)
  case (Cons q rows)
  then have "store_inv rows" "row_token_hash q \<notin> row_token_hash ` set rows"
    by (auto simp: store_inv_def)
  with Cons.IH show ?case by (auto simp: lookup_hash_def)
qed (simp add: lookup_hash_def)

lemma lookup_hash_None:
  "lookup_hash h now rows = None \<longleftrightarrow> (\<forall>r \<in> set rows. row_token_hash r = h \<longrightarrow> row_expires_at r \<le> now)"
  by (auto simp: lookup_hash_def find_None_iff)

text \<open>Two tables select the same row when they hold the same candidates.\<close>

lemma lookup_hash_cong:
  assumes "store_inv rows" "store_inv rows'"
    "\<And>q. row_token_hash q = h \<Longrightarrow> now < row_expires_at q \<Longrightarrow> q \<in> set rows \<longleftrightarrow> q \<in> set rows'"
  shows "lookup_hash h now rows = lookup_hash h now rows'"
proof (cases "lookup_hash h now rows'")
  case None
  then have "lookup_hash h now rows = None"
    using assms(3) unfolding lookup_hash_None by (meson not_le)
  with None show ?thesis by simp
next
  case (Some q)
  then have "lookup_hash h now rows = Some q"
    using assms(3) unfolding lookup_hash_Some [OF assms(1)] lookup_hash_Some [OF assms(2)] by blast
  with Some show ?thesis by simp
qed

lemma case_filter_find:
  "(case filter p xs of [] \<Rightarrow> a | x # _ \<Rightarrow> f x) = (case find p xs of None \<Rightarrow> a | Some x \<Rightarrow> f x)"
  by (induction xs) auto

lemma read_by_token_hash_healthy:
  "healthy db \<Longrightarrow> read_by_token_hash h now db =
     ((case lookup_hash h now (db_rows db) of
         None \<Rightarrow> Inr None
       | Some r \<Rightarrow> bind_res (row_to_session_data r) (\<lambda>x. Inr (Some x))), pop_fault db)"
  unfolding read_by_token_hash_def lookup_hash_def
  by (simp add: query_optional_healthy case_filter_find split: option.split)

lemma read_by_token_eq: "read_by_token dg t now = read_by_token_hash (token_hash dg t) now"
  by (simp add: read_by_token_def read_by_token_hash_def Let_def)

lemma read_by_token_hash_Inr:
  assumes "read_by_token_hash h now db = (Inr res, db')"
  shows "db_rows db' = db_rows db \<and>
    (case lookup_hash h now (db_rows db) of
       None \<Rightarrow> res = None
     | Some r \<Rightarrow> \<exists>x. row_to_session_data r = Inr x \<and> res = Some x)"
  using query_optional_Inr [OF assms [unfolded read_by_token_hash_def]]
  unfolding lookup_hash_def case_filter_find .

text \<open>What a successful \<open>rotate_token_to\<close> and \<open>rotate_token\<close> leave behind.\<close>

definition rotated_rows :: "string \<Rightarrow> string \<Rightarrow> int \<Rightarrow> session_row list \<Rightarrow> session_row list" where
  "rotated_rows sid h now =
     map (\<lambda>r. if row_id r = sid then r\<lparr>row_token_hash := h, row_last_active_at := now\<rparr> else r)"

lemma rotate_Inr:
  "rotate_token_to dg sid t now db = (Inr u, db') \<Longrightarrow>
     db_rows db' = rotated_rows sid (token_hash dg t) now (db_rows db) \<and> store_inv (db_rows db')"
  "rotate_token dg sid t now db = (Inr t', db') \<Longrightarrow> t' = t \<and>
     db_rows db' = rotated_rows sid (token_hash dg t) now (db_rows db) \<and> store_inv (db_rows db')"
  by (auto simp: rotate_token_to_def rotate_token_def Let_def db_bind_eq_Inr sql_update_Inr
      rotated_rows_def dest!: db_execute_Inr)

lemma rotated_lookup:
  assumes "store_inv rows" "store_inv (rotated_rows (row_id r) h' t rows)"
    "lookup_hash h now rows = Some r" "h \<noteq> h'"
  shows "lookup_hash h later (rotated_rows (row_id r) h' t rows) = None"
    and "lookup_hash h' now (rotated_rows (row_id r) h' t rows)
           = Some (r\<lparr>row_token_hash := h', row_last_active_at := t\<rparr>)"
    and "k \<noteq> h \<Longrightarrow> k \<noteq> h' \<Longrightarrow> lookup_hash k later (rotated_rows (row_id r) h' t rows) = lookup_hash k later rows"
proof -
  let ?rows' = "rotated_rows (row_id r) h' t rows"
  have r: "r \<in> set rows" "row_token_hash r = h" "now < row_expires_at r"
    using assms(1,3) by (auto simp: lookup_hash_Some)
  have uniq: "q = r" if "q \<in> set rows" "row_id q = row_id r \<or> row_token_hash q = h" for q
    using assms(1) r that by (auto simp: store_inv_def distinct_map inj_on_def)
  let ?r' = "r\<lparr>row_token_hash := h', row_last_active_at := t\<rparr>"
  have in': "q \<in> set ?rows' \<longleftrightarrow> q = ?r' \<or> q \<in> set rows \<and> q \<noteq> r" for q
  proof
    assume "q \<in> set ?rows'"
    then obtain p where p: "p \<in> set rows"
        "q = (if row_id p = row_id r then p\<lparr>row_token_hash := h', row_last_active_at := t\<rparr> else p)"
      by (auto simp: rotated_rows_def)
    show "q = ?r' \<or> q \<in> set rows \<and> q \<noteq> r"
    proof (cases "row_id p = row_id r")
      case True
      then have "p = r" using uniq p(1) by blast
      with p(2) show ?thesis by simp
    next
      case False
      with p show ?thesis by auto
    qed
  next
    assume "q = ?r' \<or> q \<in> set rows \<and> q \<noteq> r"
    then show "q \<in> set ?rows'"
    proof
      assume "q = ?r'"
      with r(1) show ?thesis by (force simp: rotated_rows_def)
    next
      assume q: "q \<in> set rows \<and> q \<noteq> r"
      then have "row_id q \<noteq> row_id r" using uniq by blast
      with q show ?thesis by (force simp: rotated_rows_def)
    qed
  qed
  have h': "row_token_hash ?r' = h'" "row_expires_at ?r' = row_expires_at r" by simp_all
  show "lookup_hash h later ?rows' = None"
    unfolding lookup_hash_None Ball_def in' using h' uniq assms(4) by blast
  show "lookup_hash h' now ?rows' = Some ?r'"
    unfolding lookup_hash_Some [OF assms(2)] in' using h' r by simp
  show "lookup_hash k later ?rows' = lookup_hash k later rows" if k: "k \<noteq> h" "k \<noteq> h'"
  proof (rule lookup_hash_cong [OF assms(2,1)])
    fix q :: session_row
    assume "row_token_hash q = k"
    then have "q \<noteq> ?r'" "q \<noteq> r" using k h' r by auto
    then show "q \<in> set ?rows' \<longleftrightarrow> q \<in> set rows" unfolding in' by blast
  qed
qed

lemma lookup_hash_filter:
  "store_inv rows \<Longrightarrow> lookup_hash h now (filter p rows) =
     (case lookup_hash h now rows of Some r \<Rightarrow> if p r then Some r else None | None \<Rightarrow> None)"
proof (cases "lookup_hash h now rows")
  case None
  then have "lookup_hash h now (filter p rows) = None" by (auto simp: lookup_hash_None)
  with None show ?thesis by simp
next
  case (Some r)
  assume inv: "store_inv rows"
  have r: "r \<in> set rows" "row_token_hash r = h" "now < row_expires_at r"
    using Some inv by (simp_all add: lookup_hash_Some)
  have "q = r" if "q \<in> set rows" "row_token_hash q = h" for q
    using inv r that by (auto simp: store_inv_def distinct_map inj_on_def)
  then have "lookup_hash h now (filter p rows) = None" if "\<not> p r"
    using that unfolding lookup_hash_None by (metis mem_Collect_eq set_filter)
  moreover have "lookup_hash h now (filter p rows) = Some r" if "p r"
    using that r unfolding lookup_hash_Some [OF store_inv_filter [OF inv]] by simp
  ultimately show ?thesis using Some by simp
qed

section \<open>Revocation\<close>

text \<open>
  The contract the session services rely on for revocation: an operation leaves in the table no
  token hash that was not there, except those of the tokens it issues.
\<close>

locale token_table =
  fixes hashes :: "'s \<Rightarrow> string set"
    and step :: "'op \<Rightarrow> 's \<Rightarrow> 's"
    and issued :: "'op \<Rightarrow> string set"
  assumes step_hashes: "hashes (step op s) \<subseteq> hashes s \<union> issued op"
begin

lemma run_hashes: "hashes (fold step ops s) \<subseteq> hashes s \<union> (\<Union>op \<in> set ops. issued op)"
proof (induction ops arbitrary: s)
  case (Cons op ops)
  then show ?case using step_hashes [of op s] by fastforce
qed simp

lemma stays_revoked: "h \<notin> hashes s \<Longrightarrow> (\<And>op. op \<in> set ops \<Longrightarrow> h \<notin> issued op) \<Longrightarrow> h \<notin> hashes (fold step ops s)"
  using run_hashes [of ops s] by blast

end

fun issued_hashes :: "(u8 list \<Rightarrow> u8 list) \<Rightarrow> store_op \<Rightarrow> string set" where
  "issued_hashes dg (CreateOp i t now info u d) = {token_hash dg t}"
| "issued_hashes dg (RotateToOp i t now) = {token_hash dg t}"
| "issued_hashes dg (RotateOp i t now) = {token_hash dg t}"
| "issued_hashes dg _ = {}"

definition table_hashes :: "session_db \<Rightarrow> string set" where
  "table_hashes db = row_token_hash ` set (db_rows db)"

lemma hashes_stmt:
  assumes "\<And>n rows'. stmt (db_rows db) = Inr (n, rows') \<Longrightarrow> row_token_hash ` set rows' \<subseteq> table_hashes db \<union> H"
  shows "table_hashes (snd (db_execute g stmt db)) \<subseteq> table_hashes db \<union> H"
    and "table_hashes (snd (db_bind (db_execute g stmt) (\<lambda>_. db_lift (Inr y)) db)) \<subseteq> table_hashes db \<union> H"
proof -
  let ?P = "\<lambda>rows. row_token_hash ` set rows \<subseteq> table_hashes db \<union> H"
  have exec: "?P (db_rows (snd (db_execute g stmt db)))"
    by (rule db_execute_rows [where P = ?P]) (use assms in \<open>auto simp: table_hashes_def\<close>)
  then show "table_hashes (snd (db_execute g stmt db)) \<subseteq> table_hashes db \<union> H"
    by (simp add: table_hashes_def)
  have "?P (db_rows (snd (db_bind (db_execute g stmt) (\<lambda>_. db_lift (Inr y)) db)))"
    by (rule db_bind_rows [where P = ?P]) (simp_all add: exec)
  then show "table_hashes (snd (db_bind (db_execute g stmt) (\<lambda>_. db_lift (Inr y)) db)) \<subseteq> table_hashes db \<union> H"
    by (simp add: table_hashes_def)
qed

lemma hashes_create:
  "table_hashes (snd (create dg cfg i t now info u d db)) \<subseteq> table_hashes db \<union> {token_hash dg t}"
  unfolding create_unfold table_hashes_def
proof (rule db_bind_rows [where P = "\<lambda>rows. row_token_hash ` set rows \<subseteq> row_token_hash ` set (db_rows db) \<union> {token_hash dg t}"], goal_cases)
  case 1
  show ?case by (rule db_execute_rows) (auto simp: sql_insert_Inr)
next
  case (2 x db')
  show ?case
  proof (rule db_bind_rows [where P = "\<lambda>rows. row_token_hash ` set rows \<subseteq> row_token_hash ` set (db_rows db) \<union> {token_hash dg t}"], goal_cases)
    case 1
    show ?case
    proof (rule db_execute_rows)
      fix n rows'
      assume "trim_excess u now (max_sessions_per_user cfg) (db_rows db') = Inr (n, rows')"
      then have "set rows' \<subseteq> set (db_rows db')" using trim_excess_Inr by fastforce
      then show "row_token_hash ` set rows' \<subseteq> row_token_hash ` set (db_rows db) \<union> {token_hash dg t}"
        using 2(2) by blast
    qed (use 2(2) in simp)
  qed simp
qed

interpretation sessions: token_table table_hashes "store_exec dg cfg" "issued_hashes dg" for dg cfg
proof
  fix op db
  have upd: "row_token_hash ` set rows' \<subseteq> table_hashes db \<union> H"
    if "sql_update session_check p f (db_rows db) = Inr (n, rows')" "\<And>r. row_token_hash (f r) \<in> insert (row_token_hash r) H"
    for p f n rows' H
    using that by (fastforce simp: sql_update_Inr table_hashes_def split: if_splits)
  have del: "row_token_hash ` set rows' \<subseteq> table_hashes db \<union> H"
    if "sql_delete p (db_rows db) = Inr (n, rows')" for p n rows' H
    using that by (auto simp: table_hashes_def)
  show "table_hashes (store_exec dg cfg op db) \<subseteq> table_hashes db \<union> issued_hashes dg op"
    by (cases op)
      (simp_all only: store_exec.simps issued_hashes.simps hashes_create destroy_def destroy_all_for_user_def
        destroy_all_except_def rotate_token_to_def rotate_token_def flush_def touch_def cleanup_expired_def Let_def,
       ((rule hashes_stmt, erule del) | (rule hashes_stmt, erule upd, simp))+)
qed

section \<open>Properties\<close>

text \<open>A created session survives its own eviction pass when the user's other sessions are older.\<close>

lemma create_keeps_new:
  assumes "create dg cfg i t now info u d db = (Inr (sd, tok), db')"
    "0 < session_ttl_secs cfg" "0 < max_sessions_per_user cfg"
    "\<And>r. r \<in> set (db_rows db) \<Longrightarrow> row_user_id r = u \<Longrightarrow> row_last_active_at r < now"
  shows "new_session_row dg cfg i t now info u d \<in> set (db_rows db')"
proof (rule ccontr)
  let ?r = "new_session_row dg cfg i t now info u d"
  let ?rows = "db_rows db @ [?r]"
  assume out: "?r \<notin> set (db_rows db')"
  obtain n where inv: "store_inv ?rows"
    and trim: "trim_excess u now (max_sessions_per_user cfg) ?rows = Inr (n, db_rows db')"
    using create_Inr [OF assms(1)] by blast
  have dist: "distinct (map row_id ?rows)" using inv unfolding store_inv_def by blast
  have act: "active_for u now ?r" using assms(2) by (simp add: active_for_def seconds_def)
  then have "filter (active_for u now) ?rows \<noteq> []" by simp
  then have "filter (active_for u now) (db_rows db') \<noteq> []"
    using trim_excess_rows(1) [OF dist trim] assms(3) by (metis length_0_conv min_def neq0_conv)
  then obtain q where q: "q \<in> set (db_rows db')" "active_for u now q"
    by (metis filter_empty_conv)
  have "?r \<in> set ?rows" by simp
  then have "now \<le> row_last_active_at q"
    using trim_excess_rows(2) [OF dist trim _ out] q by auto
  moreover have "q \<in> set (db_rows db)"
    using trim_excess_rows(3) [OF dist trim] q(1) out by auto
  ultimately show False using assms(4) [of q] q(2) by (simp add: active_for_def)
qed

lemma create_lookup:
  assumes "create dg cfg i t now info u d db = (Inr (sd, tok), db')"
    "0 < session_ttl_secs cfg" "0 < max_sessions_per_user cfg"
    "\<And>r. r \<in> set (db_rows db) \<Longrightarrow> row_user_id r = u \<Longrightarrow> row_last_active_at r < now"
    "later < now + seconds (session_ttl_secs cfg)"
  shows "lookup_hash (token_hash dg t) later (db_rows db') = Some (new_session_row dg cfg i t now info u d)"
    and "row_to_session_data (new_session_row dg cfg i t now info u d) = Inr sd" and "tok = t"
proof -
  obtain n where inv: "store_inv (db_rows db @ [new_session_row dg cfg i t now info u d])"
    and trim: "trim_excess u now (max_sessions_per_user cfg)
        (db_rows db @ [new_session_row dg cfg i t now info u d]) = Inr (n, db_rows db')"
    using create_Inr [OF assms(1)] by blast
  have "store_inv (db_rows db')" using trim_excess_Inr [OF trim] inv store_inv_filter by metis
  then show "lookup_hash (token_hash dg t) later (db_rows db') = Some (new_session_row dg cfg i t now info u d)"
    using create_keeps_new [OF assms(1-4)] assms(5) by (simp add: lookup_hash_Some)
  show "row_to_session_data (new_session_row dg cfg i t now info u d) = Inr sd" "tok = t"
    using create_Inr [OF assms(1)] by blast+
qed

definition demo_config :: sessions_config where
  "demo_config =
     \<lparr>session_ttl_secs = 60, cookie_name = ''_session'', validate_fingerprint = True,
      touch_interval_secs = 30, max_sessions_per_user = 1, cookie_attrs = cookie_config_default\<rparr>"

definition demo_client :: client_info where
  "demo_client = \<lparr>ci_ip = Some ''10.0.0.1'', ci_user_agent = Some ''curl'', ci_device_name = None,
     ci_device_type = None, ci_fingerprint = Some ''f1''\<rparr>"

definition demo_old :: session_row where
  "demo_old = new_session_row id demo_config ''s0'' (SessionToken [1]) 5 demo_client ''u'' None"

definition demo_db :: session_db where
  "demo_db = \<lparr>db_rows = [demo_old], db_faults = []\<rparr>"

lemmas demo_defs = demo_db_def demo_old_def demo_config_def demo_client_def
  cookie_config_default_def new_session_row_def

definition demo_new :: session_row where
  "demo_new = new_session_row id demo_config ''s1'' (SessionToken [2]) 9 demo_client ''u'' None"

definition demo_session :: session_data where
  "demo_session =
     \<lparr>sd_id = ''s1'', sd_user_id = ''u'', sd_ip_address = ''10.0.0.1'', sd_user_agent = ''curl'',
      sd_device_name = [], sd_device_type = [], sd_fingerprint = ''f1'', sd_data = JObject [],
      sd_created_at = 9, sd_last_active_at = 9, sd_expires_at = 60000000009\<rparr>"

definition demo_db1 :: session_db where
  "demo_db1 = \<lparr>db_rows = [demo_new], db_faults = []\<rparr>"

lemma demo_create:
  "create id demo_config ''s1'' (SessionToken [2]) 9 demo_client ''u'' None demo_db =
     (Inr (demo_session, SessionToken [2]), demo_db1)"
  unfolding demo_defs demo_session_def demo_new_def demo_db1_def by code_simp

lemma demo_invs: "store_inv (db_rows demo_db)" "store_inv (db_rows demo_db1)" "healthy demo_db" "healthy demo_db1"
  by code_simp+



text \<open>Login evicts least-recently-active sessions only: a row that a successful \<^verbatim>\<open>create\<close> removed
  was a live session of the same user, and every live session of that user that is still there
  was active no earlier. The rows of all other users, and the expired ones, stay.\<close>

theorem create_evicts_oldest:
  assumes "create dg cfg i t now info u d db = (Inr (sd, tok), db')"
    and "r \<in> set (db_rows db)" "r \<notin> set (db_rows db')"
  shows "active_for u now r \<and> (\<forall>q \<in> set (db_rows db'). active_for u now q \<longrightarrow>
     row_last_active_at r \<le> row_last_active_at q)"
proof -
  have "r \<in> set (db_rows db @ [new_session_row dg cfg i t now info u d])" using assms(2) by simp
  then show ?thesis
    using create_Inr [OF assms(1)] trim_excess_rows(2) assms(3) by (metis store_inv_def)
qed

theorem create_evicts_oldest_witness:
  "active_for ''u'' 9 demo_old \<and> row_last_active_at demo_old \<le> row_last_active_at demo_new"
proof -
  have r: "demo_old \<in> set (db_rows demo_db)" "demo_old \<notin> set (db_rows demo_db1)"
    "demo_new \<in> set (db_rows demo_db1)" "active_for ''u'' 9 demo_new" by code_simp+
  show ?thesis using create_evicts_oldest [OF demo_create r(1,2)] r(3,4) by blast
qed

text \<open>The token a successful login hands out opens that session: with a positive lifetime and a
  positive maximum, and when the user's other sessions were last active before now, looking the
  token up at any instant before the expiry gives the session data \<^verbatim>\<open>create\<close> returned.\<close>

theorem create_then_read:
  assumes "create dg cfg i t now info u d db = (Inr (sd, tok), db')" "healthy db'"
    "0 < session_ttl_secs cfg" "0 < max_sessions_per_user cfg"
    "\<And>r. r \<in> set (db_rows db) \<Longrightarrow> row_user_id r = u \<Longrightarrow> row_last_active_at r < now"
    and "later < now + seconds (session_ttl_secs cfg)"
  shows "read_by_token dg tok later db' = (Inr (Some sd), pop_fault db')"
  using create_lookup [OF assms(1,3-6)] assms(2) by (simp add: read_by_token_eq read_by_token_hash_healthy)

theorem create_then_read_witness:
  "read_by_token id (SessionToken [2]) 59 demo_db1 = (Inr (Some demo_session), pop_fault demo_db1)"
proof (rule create_then_read [OF demo_create])
  show "row_last_active_at r < 9" if "r \<in> set (db_rows demo_db)" for r
    using that by (simp add: demo_defs)
qed (simp_all add: demo_invs demo_config_def seconds_def)

text \<open>C2. Rotation replaces the token: after a successful \<^verbatim>\<open>rotate_token_to\<close> of a live session the old
  token opens nothing at any instant, the new one opens the same session, and a token whose hash
  is neither of the two opens what it opened before.\<close>

theorem rotate_replaces_token:
  assumes "store_inv (db_rows db)" "lookup_hash (token_hash dg old) now (db_rows db) = Some r"
    "rotate_token_to dg (row_id r) new t db = (Inr (), db')" "healthy db'"
    "token_hash dg old \<noteq> token_hash dg new"
  shows "fst (read_by_token dg old later db') = Inr None \<and>
     fst (read_by_token dg new now db') =
       bind_res (row_to_session_data (r\<lparr>row_last_active_at := t\<rparr>)) (\<lambda>x. Inr (Some x)) \<and>
     (token_hash dg k \<noteq> token_hash dg old \<longrightarrow> token_hash dg k \<noteq> token_hash dg new \<longrightarrow>
        lookup_hash (token_hash dg k) later (db_rows db') = lookup_hash (token_hash dg k) later (db_rows db))"
proof -
  have rows: "db_rows db' = rotated_rows (row_id r) (token_hash dg new) t (db_rows db)"
    and inv: "store_inv (rotated_rows (row_id r) (token_hash dg new) t (db_rows db))"
    using rotate_Inr(1) [OF assms(3)] by metis+
  note look = rotated_lookup [OF assms(1) inv assms(2,5)]
  have "row_to_session_data (r\<lparr>row_token_hash := h, row_last_active_at := t\<rparr>)
      = row_to_session_data (r\<lparr>row_last_active_at := t\<rparr>)" for h
    by (simp add: row_to_session_data_def split: option.split)
  with look show ?thesis
    using assms(4) by (simp add: read_by_token_eq read_by_token_hash_healthy rows)
qed

theorem rotate_replaces_token_witness:
  "fst (read_by_token id (SessionToken [2]) 20 (snd (rotate_token_to id ''s1'' (SessionToken [3]) 12 demo_db1)))
     = Inr None"
proof -
  have r: "lookup_hash (token_hash id (SessionToken [2])) 10 (db_rows demo_db1) = Some demo_new"
    "rotate_token_to id (row_id demo_new) (SessionToken [3]) 12 demo_db1 =
       (Inr (), snd (rotate_token_to id ''s1'' (SessionToken [3]) 12 demo_db1))"
    "healthy (snd (rotate_token_to id ''s1'' (SessionToken [3]) 12 demo_db1))"
    "token_hash id (SessionToken [2]) \<noteq> token_hash id (SessionToken [3])"
    by code_simp+
  show ?thesis using rotate_replaces_token [OF demo_invs(2) r] by blast
qed

text \<open>C6. Revocation is final: a token whose hash is not in the table (it was destroyed, rotated away,
  evicted or cleaned up) opens no session ever again, whatever sequence of store operations
  follows, failing ones included, unless one of them issues a token with the same hash.\<close>

theorem revoked_stays_revoked:
  assumes "token_hash dg t \<notin> table_hashes db"
    "\<And>op. op \<in> set ops \<Longrightarrow> token_hash dg t \<notin> issued_hashes dg op"
    "read_by_token dg t now (fold (store_exec dg cfg) ops db) = (Inr res, db')"
  shows "res = None"
proof -
  have "token_hash dg t \<notin> table_hashes (fold (store_exec dg cfg) ops db)"
    using assms(1,2) by (rule sessions.stays_revoked)
  then have "lookup_hash (token_hash dg t) now (db_rows (fold (store_exec dg cfg) ops db)) = None"
    unfolding lookup_hash_None table_hashes_def by (metis image_eqI)
  with read_by_token_hash_Inr [OF assms(3) [unfolded read_by_token_eq]] show ?thesis by simp
qed

theorem revoked_stays_revoked_witness:
  "fst (read_by_token id (SessionToken [9]) 10
     (fold (store_exec id demo_config) [TouchOp ''s1'' 12 99, CleanupOp 3] demo_db1)) \<noteq> Inr (Some demo_session)"
proof -
  let ?r = "read_by_token id (SessionToken [9]) 10
     (fold (store_exec id demo_config) [TouchOp ''s1'' 12 99, CleanupOp 3] demo_db1)"
  have "token_hash id (SessionToken [9]) \<notin> table_hashes demo_db1" by code_simp
  moreover have "token_hash id (SessionToken [9]) \<notin> issued_hashes id op"
    if "op \<in> set [TouchOp ''s1'' 12 99, CleanupOp 3]" for op
    using that by auto
  ultimately show ?thesis
    using revoked_stays_revoked [where dg = id and t = "SessionToken [9]" and db = demo_db1
      and ops = "[TouchOp ''s1'' 12 99, CleanupOp 3]" and now = 10 and cfg = demo_config]
    by (metis eq_fst_iff option.distinct(1))
qed

text \<open>Cleaning up never ends a live session: deleting the expired rows at some instant does not
  change what any token opens at that instant or later.\<close>

theorem cleanup_keeps_live:
  assumes "store_inv (db_rows db)" "cleanup_expired now db = (Inr n, db')" "now \<le> later"
  shows "lookup_hash h later (db_rows db') = lookup_hash h later (db_rows db)"
proof -
  have rows: "db_rows db' = filter (\<lambda>r. \<not> row_expires_at r < now) (db_rows db)"
    using assms(2) by (auto simp: cleanup_expired_def dest: db_execute_Inr)
  show ?thesis
  proof (cases "lookup_hash h later (db_rows db)")
    case (Some r)
    then have "\<not> row_expires_at r < now" using assms(1,3) by (simp add: lookup_hash_Some)
    with Some show ?thesis by (simp add: rows lookup_hash_filter [OF assms(1)])
  qed (simp add: rows lookup_hash_filter [OF assms(1)])
qed

theorem cleanup_keeps_live_witness:
  "lookup_hash (token_hash id (SessionToken [2])) 30 (db_rows (snd (cleanup_expired 20 demo_db1))) = Some demo_new"
proof -
  have c: "cleanup_expired 20 demo_db1 = (Inr 0, snd (cleanup_expired 20 demo_db1))"
    "lookup_hash (token_hash id (SessionToken [2])) 30 (db_rows demo_db1) = Some demo_new"
    by code_simp+
  show ?thesis using cleanup_keeps_live [OF demo_invs(2) c(1), of 30] c(2) by simp
qed

end
