(* ===== verification/Http.thy ===== *)
theory Http
  imports Errors
begin

text \<open>
  The parts of an HTTP request the framework reads, and the string functions of Rust's standard
  library it reads them with. A header map is the list of its entries under lower-case names, in
  order; \<^verbatim>\<open>HeaderMap::get\<close> folds the case of its argument and gives the first entry. A header value
  converts to a \<^verbatim>\<open>&str\<close> only when it consists of visible ASCII characters, spaces and tabs, so the
  trimming functions need to know ASCII white space only.
\<close>

section \<open>Strings\<close>

definition to_ascii_lowercase :: "char \<Rightarrow> char" where
  "to_ascii_lowercase ch =
     (let c = of_char ch :: nat in if 65 \<le> c \<and> c \<le> 90 then char_of (c + 32) else ch)"

definition eq_ignore_ascii_case :: "string \<Rightarrow> string \<Rightarrow> bool" where
  "eq_ignore_ascii_case s t \<longleftrightarrow> map to_ascii_lowercase s = map to_ascii_lowercase t"

definition is_whitespace :: "char \<Rightarrow> bool" where
  "is_whitespace c \<longleftrightarrow> of_char c \<in> {9, 10, 11, 12, 13, 32 :: nat}"

definition trim_start :: "string \<Rightarrow> string" where
  "trim_start s = dropWhile is_whitespace s"

definition trim_end :: "string \<Rightarrow> string" where
  "trim_end s = rev (dropWhile is_whitespace (rev s))"

definition trim :: "string \<Rightarrow> string" where
  "trim s = trim_end (trim_start s)"

text \<open>\<^verbatim>\<open>split_once(c)\<close>, \<^verbatim>\<open>splitn(n, c)\<close> and \<^verbatim>\<open>split(c)\<close>.\<close>

definition split_once :: "char \<Rightarrow> string \<Rightarrow> (string \<times> string) option" where
  "split_once c s =
     (case dropWhile (\<lambda>x. x \<noteq> c) s of
        [] \<Rightarrow> None
      | _ # rest \<Rightarrow> Some (takeWhile (\<lambda>x. x \<noteq> c) s, rest))"

fun splitn :: "nat \<Rightarrow> char \<Rightarrow> string \<Rightarrow> string list" where
  "splitn 0 c s = []"
| "splitn (Suc 0) c s = [s]"
| "splitn (Suc (Suc n)) c s =
     (case split_once c s of None \<Rightarrow> [s] | Some (piece, rest) \<Rightarrow> piece # splitn (Suc n) c rest)"

function split_on :: "char \<Rightarrow> string \<Rightarrow> string list" where
  "split_on c s =
     (case split_once c s of None \<Rightarrow> [s] | Some (piece, rest) \<Rightarrow> piece # split_on c rest)"
  by pat_completeness auto
termination
proof (relation "measure (length \<circ> snd)")
  fix c s p piece rest
  assume p: "split_once c s = Some p" "(piece, rest) = p"
  then obtain x where "dropWhile (\<lambda>x. x \<noteq> c) s = x # rest"
    by (auto simp: split_once_def split: list.splits)
  then have "length (dropWhile (\<lambda>x. x \<noteq> c) s) = Suc (length rest)" by simp
  moreover have "length (dropWhile (\<lambda>x. x \<noteq> c) s) \<le> length s" by (rule length_dropWhile_le)
  ultimately show "((c, rest), (c, s)) \<in> measure (length \<circ> snd)" by simp
qed simp

declare split_on.simps [simp del]

definition strip_prefix :: "string \<Rightarrow> string \<Rightarrow> string option" where
  "strip_prefix p s = (if take (length p) s = p then Some (drop (length p) s) else None)"

section \<open>Request parts\<close>

record parts =
  p_headers :: "(string \<times> string) list"
  p_query :: "string option"

definition header_get :: "parts \<Rightarrow> string \<Rightarrow> string option" where
  "header_get parts name = map_of (p_headers parts) (map to_ascii_lowercase name)"

definition visible_ascii :: "char \<Rightarrow> bool" where
  "visible_ascii c \<longleftrightarrow> (let n = of_char c :: nat in n = 9 \<or> 32 \<le> n \<and> n < 127)"

text \<open>What \<^verbatim>\<open>HeaderValue::from_str\<close> accepts: tabs and all bytes from 32 on but 127.\<close>

definition header_value_byte :: "char \<Rightarrow> bool" where
  "header_value_byte c = (let b = (of_char c :: nat) in b = 9 \<or> 32 \<le> b \<and> b \<noteq> 127)"

text \<open>\<^verbatim>\<open>HeaderValue::to_str().ok()\<close>.\<close>

definition header_to_str :: "string \<Rightarrow> string option" where
  "header_to_str v = (if list_all visible_ascii v then Some v else None)"

definition header_str :: "parts \<Rightarrow> string \<Rightarrow> string option" where
  "header_str parts name = Option.bind (header_get parts name) header_to_str"

section \<open>Lemmas\<close>

lemma split_once_None: "split_once c s = None \<longleftrightarrow> c \<notin> set s"
proof -
  have iff: "dropWhile (\<lambda>x. x \<noteq> c) s = [] \<longleftrightarrow> c \<notin> set s" by (auto simp: dropWhile_eq_Nil_conv)
  show ?thesis
  proof (cases "dropWhile (\<lambda>x. x \<noteq> c) s")
    case Nil
    with iff show ?thesis unfolding split_once_def Nil by simp
  next
    case (Cons x xs)
    with iff show ?thesis unfolding split_once_def Cons by simp
  qed
qed

lemma split_once_append [simp]: "c \<notin> set s \<Longrightarrow> split_once c (s @ c # t) = Some (s, t)"
proof -
  assume "c \<notin> set s"
  then have "dropWhile (\<lambda>x. x \<noteq> c) (s @ c # t) = c # t" "takeWhile (\<lambda>x. x \<noteq> c) (s @ c # t) = s"
    by (induction s) auto
  then show ?thesis by (simp add: split_once_def)
qed

lemma split_once_Some: "split_once c s = Some (a, b) \<longleftrightarrow> s = a @ c # b \<and> c \<notin> set a"
proof
  assume *: "split_once c s = Some (a, b)"
  then obtain x where x: "dropWhile (\<lambda>x. x \<noteq> c) s = x # b" and a: "a = takeWhile (\<lambda>x. x \<noteq> c) s"
    by (auto simp: split_once_def split: list.splits)
  have "x = c" using hd_dropWhile [of "\<lambda>x. x \<noteq> c" s] x by simp
  moreover have "s = takeWhile (\<lambda>x. x \<noteq> c) s @ dropWhile (\<lambda>x. x \<noteq> c) s" by simp
  moreover have "c \<notin> set (takeWhile (\<lambda>x. x \<noteq> c) s)" by (auto dest: set_takeWhileD)
  ultimately show "s = a @ c # b \<and> c \<notin> set a" using x a by simp
next
  assume "s = a @ c # b \<and> c \<notin> set a"
  then show "split_once c s = Some (a, b)" using split_once_append by blast
qed

lemma splitn_short: "c \<notin> set s \<Longrightarrow> splitn (Suc n) c s = [s]"
  by (cases n) (simp_all add: split_once_None [THEN iffD2])

lemma splitn_append: "c \<notin> set s \<Longrightarrow> splitn (Suc (Suc n)) c (s @ c # t) = s # splitn (Suc n) c t"
  by simp

lemma splitn_three:
  "splitn 4 c s = [x, y, z] \<longleftrightarrow>
     s = x @ c # y @ c # z \<and> c \<notin> set x \<and> c \<notin> set y \<and> c \<notin> set z"
proof -
  have pieces: "splitn 4 c s = (case split_once c s of None \<Rightarrow> [s] | Some (a, r) \<Rightarrow> a #
      (case split_once c r of None \<Rightarrow> [r] | Some (b, r2) \<Rightarrow> b #
        (case split_once c r2 of None \<Rightarrow> [r2] | Some (d, r3) \<Rightarrow> [d, r3])))"
    by (simp add: numeral_eq_Suc cong: option.case_cong)
  show ?thesis
  proof
    assume "splitn 4 c s = [x, y, z]"
    then show "s = x @ c # y @ c # z \<and> c \<notin> set x \<and> c \<notin> set y \<and> c \<notin> set z"
      unfolding pieces by (auto simp: split_once_None split_once_Some split: option.splits)
  next
    assume "s = x @ c # y @ c # z \<and> c \<notin> set x \<and> c \<notin> set y \<and> c \<notin> set z"
    moreover have "c \<notin> set z \<Longrightarrow> split_once c z = None" by (simp add: split_once_None)
    ultimately show "splitn 4 c s = [x, y, z]" unfolding pieces by simp
  qed
qed

end
