(* ===== verification/Jwt.thy ===== *)
theory Jwt
  imports Encoding Http
begin

text \<open>
  \<^verbatim>\<open>src/src/auth/session/jwt\<close>: claims, signers, the encoder and the decoder. Seconds since the
  epoch and durations are \<^verbatim>\<open>u64\<close> values, kept as naturals with \<open>u64_add\<close> for their addition.
  The functions of serde_json that read and write JSON text (\<open>parse\<close>, \<open>to_vec\<close>) and the HMAC
  function of the hmac crate are parameters. The locale \<open>token_scheme\<close> is the contract between
  a signer and its verifier; HMAC-SHA256 is its instance.
\<close>

text \<open>Addition on \<^verbatim>\<open>u64\<close> with the wrap-around of a release build.\<close>

definition u64_add :: "nat \<Rightarrow> nat \<Rightarrow> nat" where
  "u64_add a b = (a + b) mod 2 ^ 64"

section \<open>Claims\<close>

record claims =
  cl_iss :: "string option"
  cl_sub :: "string option"
  cl_aud :: "string option"
  cl_exp :: "nat option"
  cl_nbf :: "nat option"
  cl_iat :: "nat option"
  cl_jti :: "string option"

definition claims_new :: claims where
  "claims_new = \<lparr>cl_iss = None, cl_sub = None, cl_aud = None, cl_exp = None, cl_nbf = None,
     cl_iat = None, cl_jti = None\<rparr>"

definition with_iss :: "string \<Rightarrow> claims \<Rightarrow> claims" where
  "with_iss iss c = c\<lparr>cl_iss := Some iss\<rparr>"

definition with_sub :: "string \<Rightarrow> claims \<Rightarrow> claims" where
  "with_sub sub c = c\<lparr>cl_sub := Some sub\<rparr>"

definition with_aud :: "string \<Rightarrow> claims \<Rightarrow> claims" where
  "with_aud aud c = c\<lparr>cl_aud := Some aud\<rparr>"

definition with_exp :: "nat \<Rightarrow> claims \<Rightarrow> claims" where
  "with_exp exp c = c\<lparr>cl_exp := Some exp\<rparr>"

definition with_exp_in :: "nat \<Rightarrow> nat \<Rightarrow> claims \<Rightarrow> claims" where
  "with_exp_in now duration c = c\<lparr>cl_exp := Some (u64_add now duration)\<rparr>"

definition with_nbf :: "nat \<Rightarrow> claims \<Rightarrow> claims" where
  "with_nbf nbf c = c\<lparr>cl_nbf := Some nbf\<rparr>"

definition with_iat_now :: "nat \<Rightarrow> claims \<Rightarrow> claims" where
  "with_iat_now now c = c\<lparr>cl_iat := Some now\<rparr>"

definition with_jti :: "string \<Rightarrow> claims \<Rightarrow> claims" where
  "with_jti jti c = c\<lparr>cl_jti := Some jti\<rparr>"

definition is_expired :: "nat \<Rightarrow> claims \<Rightarrow> bool" where
  "is_expired now c = (case cl_exp c of Some exp \<Rightarrow> exp < now | None \<Rightarrow> False)"

definition is_not_yet_valid :: "nat \<Rightarrow> claims \<Rightarrow> bool" where
  "is_not_yet_valid now c = (case cl_nbf c of Some nbf \<Rightarrow> now < nbf | None \<Rightarrow> False)"

lemmas claims_defs = claims_new_def with_iss_def with_sub_def with_aud_def with_exp_def
  with_exp_in_def with_nbf_def with_iat_now_def with_jti_def

text \<open>
  The derived \<^verbatim>\<open>Serialize\<close>: the fields in order, those that are \<^verbatim>\<open>None\<close> skipped. The derived
  \<^verbatim>\<open>Deserialize\<close> on an object: a field that is absent or null is \<^verbatim>\<open>None\<close>, one of the wrong type
  is an error, other entries are ignored. (A payload that is not an object is rejected before
  it gets here, for want of an \<open>exp\<close> entry.)
\<close>

definition opt_entry :: "string \<Rightarrow> ('a \<Rightarrow> json) \<Rightarrow> 'a option \<Rightarrow> (string \<times> json) list" where
  "opt_entry k f x = (case x of None \<Rightarrow> [] | Some v \<Rightarrow> [(k, f v)])"

definition claims_entries :: "claims \<Rightarrow> (string \<times> json) list" where
  "claims_entries c =
     opt_entry ''iss'' JString (cl_iss c) @ opt_entry ''sub'' JString (cl_sub c) @
     opt_entry ''aud'' JString (cl_aud c) @ opt_entry ''exp'' (\<lambda>n. JNumber (int n)) (cl_exp c) @
     opt_entry ''nbf'' (\<lambda>n. JNumber (int n)) (cl_nbf c) @ opt_entry ''iat'' (\<lambda>n. JNumber (int n)) (cl_iat c) @
     opt_entry ''jti'' JString (cl_jti c)"

definition claims_to_value :: "claims \<Rightarrow> json" where
  "claims_to_value c = JObject (claims_entries c)"

definition opt_field :: "json \<Rightarrow> string \<Rightarrow> (json \<Rightarrow> 'a option) \<Rightarrow> 'a option option" where
  "opt_field v k f =
     (case json_get v k of
        None \<Rightarrow> Some None
      | Some JNull \<Rightarrow> Some None
      | Some x \<Rightarrow> (case f x of None \<Rightarrow> None | Some y \<Rightarrow> Some (Some y)))"

definition claims_from_value :: "json \<Rightarrow> claims option" where
  "claims_from_value v =
     Option.bind (opt_field v ''iss'' json_as_str) (\<lambda>iss.
     Option.bind (opt_field v ''sub'' json_as_str) (\<lambda>sub.
     Option.bind (opt_field v ''aud'' json_as_str) (\<lambda>aud.
     Option.bind (opt_field v ''exp'' json_as_u64) (\<lambda>exp.
     Option.bind (opt_field v ''nbf'' json_as_u64) (\<lambda>nbf.
     Option.bind (opt_field v ''iat'' json_as_u64) (\<lambda>iat.
     Option.bind (opt_field v ''jti'' json_as_str) (\<lambda>jti.
       Some \<lparr>cl_iss = iss, cl_sub = sub, cl_aud = aud, cl_exp = exp, cl_nbf = nbf,
             cl_iat = iat, cl_jti = jti\<rparr>)))))))"

section \<open>Validation and signers\<close>

record validation_config =
  leeway :: nat
  require_issuer :: "string option"
  require_audience :: "string option"

definition validation_default :: validation_config where
  "validation_default = \<lparr>leeway = 0, require_issuer = None, require_audience = None\<rparr>"

definition with_audience :: "string \<Rightarrow> validation_config \<Rightarrow> validation_config" where
  "with_audience aud v = v\<lparr>require_audience := Some aud\<rparr>"

definition with_issuer :: "string \<Rightarrow> validation_config \<Rightarrow> validation_config" where
  "with_issuer iss v = v\<lparr>require_issuer := Some iss\<rparr>"

record token_verifier =
  tv_verify :: "u8 list \<Rightarrow> u8 list \<Rightarrow> unit result"
  tv_algorithm_name :: string

record token_signer = token_verifier +
  ts_sign :: "u8 list \<Rightarrow> u8 list result"

definition hmac_verify ::
  "(u8 list \<Rightarrow> u8 list \<Rightarrow> u8 list) \<Rightarrow> u8 list \<Rightarrow> u8 list \<Rightarrow> u8 list \<Rightarrow> unit result" where
  "hmac_verify hmac secret header_payload signature =
     (if hmac secret header_payload = signature then Inr ()
      else Inl (with_code (jwt_error_code InvalidSignature)
             (chain (SrcJwt InvalidSignature) (unauthorized ''unauthorized''))))"

definition hmac_sign ::
  "(u8 list \<Rightarrow> u8 list \<Rightarrow> u8 list) \<Rightarrow> u8 list \<Rightarrow> u8 list \<Rightarrow> u8 list result" where
  "hmac_sign hmac secret header_payload = Inr (hmac secret header_payload)"

definition hmac_signer_new :: "(u8 list \<Rightarrow> u8 list \<Rightarrow> u8 list) \<Rightarrow> u8 list \<Rightarrow> token_signer" where
  "hmac_signer_new hmac secret =
     \<lparr>tv_verify = hmac_verify hmac secret, tv_algorithm_name = ''HS256'',
      ts_sign = hmac_sign hmac secret\<rparr>"

section \<open>JwtEncoder\<close>

datatype token_source_config =
    SrcBearer | SrcCookie string | SrcHeader string | SrcQuery string | SrcBody string

record jwt_sessions_config =
  signing_secret :: string
  issuer :: "string option"
  access_ttl_secs :: nat
  refresh_ttl_secs :: nat
  max_per_user :: nat
  jwt_touch_interval_secs :: nat
  stateful_validation :: bool
  access_source :: token_source_config
  refresh_source :: token_source_config

definition jwt_sessions_config_default :: jwt_sessions_config where
  "jwt_sessions_config_default =
     \<lparr>signing_secret = [], issuer = None, access_ttl_secs = 900, refresh_ttl_secs = 2592000,
      max_per_user = 20, jwt_touch_interval_secs = 300, stateful_validation = True,
      access_source = SrcBearer, refresh_source = SrcBody ''refresh_token''\<rparr>"

definition jwt_sessions_config_new :: "string \<Rightarrow> jwt_sessions_config" where
  "jwt_sessions_config_new secret = jwt_sessions_config_default\<lparr>signing_secret := secret\<rparr>"

record jwt_encoder =
  enc_signer :: token_signer
  enc_default_expiry :: "nat option"
  enc_validation :: validation_config

definition encoder_from_config :: "(u8 list \<Rightarrow> u8 list \<Rightarrow> u8 list) \<Rightarrow> jwt_sessions_config \<Rightarrow> jwt_encoder" where
  "encoder_from_config hmac config =
     \<lparr>enc_signer = hmac_signer_new hmac (as_bytes (signing_secret config)),
      enc_default_expiry = Some (access_ttl_secs config),
      enc_validation = \<lparr>leeway = 0, require_issuer = issuer config, require_audience = None\<rparr>\<rparr>"

definition serialization_failed :: "string \<Rightarrow> error" where
  "serialization_failed msg =
     with_code (jwt_error_code SerializationFailed) (chain (SrcJwt SerializationFailed) (internal msg))"

definition jwt_header :: "string \<Rightarrow> string" where
  "jwt_header alg = ''{\"alg\":\"'' @ alg @ ''\",\"typ\":\"JWT\"}''"

text \<open>
  \<^verbatim>\<open>JwtEncoder::encode\<close> for the claim types that serialise to a JSON object, which is what
  \<^verbatim>\<open>value["exp"] = ...\<close> needs: \<open>to_entries\<close> gives the entries of \<^verbatim>\<open>serde_json::to_value\<close>.
\<close>

definition jwt_encode ::
  "(json \<Rightarrow> u8 list option) \<Rightarrow> ('a \<Rightarrow> (string \<times> json) list option) \<Rightarrow> jwt_encoder \<Rightarrow> nat \<Rightarrow> 'a \<Rightarrow> string result" where
  "jwt_encode to_vec to_entries enc now claims =
     bind_res
       (case enc_default_expiry enc of
          Some default_exp \<Rightarrow>
            bind_res (ok_or (serialization_failed ''failed to serialize token'') (to_entries claims)) (\<lambda>es.
              ok_or (serialization_failed ''unauthorized'')
                (to_vec (JObject (if map_of es ''exp'' = None
                   then entries_insert ''exp'' (JNumber (int (u64_add now default_exp))) es else es))))
        | None \<Rightarrow>
            ok_or (serialization_failed ''unauthorized'')
              (Option.bind (to_entries claims) (\<lambda>es. to_vec (JObject es))))
       (\<lambda>claims_json.
          let alg = tv_algorithm_name (enc_signer enc);
              header_b64 = base64url_encode (as_bytes (jwt_header alg));
              payload_b64 = base64url_encode claims_json;
              header_payload = header_b64 @ ''.'' @ payload_b64
          in bind_res (ts_sign (enc_signer enc) (as_bytes header_payload)) (\<lambda>signature.
               Inr (header_payload @ ''.'' @ base64url_encode signature)))"

section \<open>JwtDecoder\<close>

definition jwt_err :: "jwt_error \<Rightarrow> error" where
  "jwt_err kind =
     with_code (jwt_error_code kind) (chain (SrcJwt kind)
       ((if kind = SigningFailed \<or> kind = SerializationFailed then internal else unauthorized) ''unauthorized''))"

definition auth_err :: "string \<Rightarrow> error" where
  "auth_err code = with_code code (unauthorized ''unauthorized'')"

record jwt_decoder =
  dec_verifier :: token_verifier
  dec_validation :: validation_config

definition decoder_new :: "token_verifier \<Rightarrow> validation_config \<Rightarrow> jwt_decoder" where
  "decoder_new verifier validation = \<lparr>dec_verifier = verifier, dec_validation = validation\<rparr>"

definition decoder_from_config :: "(u8 list \<Rightarrow> u8 list \<Rightarrow> u8 list) \<Rightarrow> jwt_sessions_config \<Rightarrow> jwt_decoder" where
  "decoder_from_config hmac config =
     \<lparr>dec_verifier = token_verifier.truncate (hmac_signer_new hmac (as_bytes (signing_secret config))),
      dec_validation = \<lparr>leeway = 0, require_issuer = issuer config, require_audience = None\<rparr>\<rparr>"

definition decoder_from_encoder :: "jwt_encoder \<Rightarrow> jwt_decoder" where
  "decoder_from_encoder enc =
     \<lparr>dec_verifier = token_verifier.truncate (enc_signer enc), dec_validation = enc_validation enc\<rparr>"

text \<open>The time, issuer and audience checks on a verified payload, in the order of the source.\<close>

definition check_claims :: "validation_config \<Rightarrow> nat \<Rightarrow> json \<Rightarrow> unit result" where
  "check_claims validation now payload =
     bind_res (ok_or (jwt_err Expired) (Option.bind (json_get payload ''exp'') json_as_u64)) (\<lambda>exp.
       if u64_add exp (leeway validation) < now then Inl (jwt_err Expired)
       else if (case Option.bind (json_get payload ''nbf'') json_as_u64 of
                  Some nbf \<Rightarrow> u64_add now (leeway validation) < nbf | None \<Rightarrow> False)
       then Inl (jwt_err NotYetValid)
       else if (case require_issuer validation of
                  Some required \<Rightarrow> Option.bind (json_get payload ''iss'') json_as_str \<noteq> Some required
                | None \<Rightarrow> False)
       then Inl (jwt_err InvalidIssuer)
       else if (case require_audience validation of
                  Some required \<Rightarrow> Option.bind (json_get payload ''aud'') json_as_str \<noteq> Some required
                | None \<Rightarrow> False)
       then Inl (jwt_err InvalidAudience)
       else Inr ())"

definition jwt_decode ::
  "(u8 list \<Rightarrow> json option) \<Rightarrow> (json \<Rightarrow> 'a option) \<Rightarrow> jwt_decoder \<Rightarrow> nat \<Rightarrow> string \<Rightarrow> 'a result" where
  "jwt_decode parse from_value dec now token =
     (case splitn 4 CHR ''.'' token of
        [header_b64, payload_b64, signature_b64] \<Rightarrow>
          bind_res (map_err (\<lambda>_. jwt_err InvalidHeader) (base64url_decode header_b64)) (\<lambda>header_bytes.
          bind_res (ok_or (jwt_err InvalidHeader) (parse header_bytes)) (\<lambda>header.
          bind_res (ok_or (jwt_err InvalidHeader) (Option.bind (json_get header ''alg'') json_as_str)) (\<lambda>alg.
          if alg \<noteq> tv_algorithm_name (dec_verifier dec) then Inl (jwt_err AlgorithmMismatch)
          else
          bind_res (map_err (\<lambda>_. jwt_err MalformedToken) (base64url_decode signature_b64)) (\<lambda>signature.
          bind_res (tv_verify (dec_verifier dec) (as_bytes (header_b64 @ ''.'' @ payload_b64)) signature) (\<lambda>_.
          bind_res (map_err (\<lambda>_. jwt_err MalformedToken) (base64url_decode payload_b64)) (\<lambda>payload_bytes.
          bind_res (ok_or (jwt_err DeserializationFailed) (parse payload_bytes)) (\<lambda>payload.
          bind_res (check_claims (dec_validation dec) now payload) (\<lambda>_.
          ok_or (jwt_err DeserializationFailed) (from_value payload)))))))))
      | _ \<Rightarrow> Inl (jwt_err MalformedToken))"

section \<open>Claims as JSON\<close>

definition u64_opt :: "nat option \<Rightarrow> bool" where
  "u64_opt x = (case x of None \<Rightarrow> True | Some n \<Rightarrow> n < 2 ^ 64)"

definition claims_wf :: "claims \<Rightarrow> bool" where
  "claims_wf c \<longleftrightarrow> u64_opt (cl_exp c) \<and> u64_opt (cl_nbf c) \<and> u64_opt (cl_iat c)"

lemma opt_entry_get [simp]:
  "map_of (opt_entry k f x @ es) k' = (if k' = k \<and> x \<noteq> None then Some (f (the x)) else map_of es k')"
  "map_of (opt_entry k f x) k' = (if k' = k \<and> x \<noteq> None then Some (f (the x)) else None)"
  by (auto simp: opt_entry_def split: option.splits)

lemma json_get_claims:
  "json_get (claims_to_value c) ''iss'' = map_option JString (cl_iss c)"
  "json_get (claims_to_value c) ''sub'' = map_option JString (cl_sub c)"
  "json_get (claims_to_value c) ''aud'' = map_option JString (cl_aud c)"
  "json_get (claims_to_value c) ''exp'' = map_option (\<lambda>n. JNumber (int n)) (cl_exp c)"
  "json_get (claims_to_value c) ''nbf'' = map_option (\<lambda>n. JNumber (int n)) (cl_nbf c)"
  "json_get (claims_to_value c) ''iat'' = map_option (\<lambda>n. JNumber (int n)) (cl_iat c)"
  "json_get (claims_to_value c) ''jti'' = map_option JString (cl_jti c)"
  unfolding claims_to_value_def claims_entries_def json_get.simps opt_entry_get
  by (simp_all add: option.map_sel map_option_case split: option.split)

lemma opt_field_str: "json_get v k = map_option JString x \<Longrightarrow> opt_field v k json_as_str = Some x"
  by (cases x) (simp_all add: opt_field_def)

lemma opt_field_u64:
  "json_get v k = map_option (\<lambda>n. JNumber (int n)) x \<Longrightarrow> u64_opt x \<Longrightarrow> opt_field v k json_as_u64 = Some x"
  by (cases x) (simp_all add: opt_field_def u64_opt_def)

lemma claims_from_to_value:
  assumes "claims_wf c" "json_get v = json_get (claims_to_value c)"
  shows "claims_from_value v = Some c"
  using assms
  by (simp add: claims_from_value_def claims_wf_def opt_field_str opt_field_u64 json_get_claims)

section \<open>Tokens\<close>

lemma base64url_no_dot: "CHR ''.'' \<notin> set (base64url_encode bs)"
proof
  assume "CHR ''.'' \<in> set (base64url_encode bs)"
  then obtain v where v: "v < 2 ^ 6" "CHR ''.'' = ALPHABET64 ! v" using b64.encode_chars by blast
  then have "CHR ''.'' \<in> set ALPHABET64" using nth_mem [of v ALPHABET64] by (simp add: length_ALPHABET64)
  then show False by (simp add: ALPHABET64_def)
qed

text \<open>An encoded token travels in a header unchanged.\<close>

lemma base64url_chars: "set (base64url_encode bs) \<subseteq> set ALPHABET64"
proof
  fix ch
  assume "ch \<in> set (base64url_encode bs)"
  then obtain v where "v < 64" "ch = ALPHABET64 ! v" using b64.encode_chars by force
  then show "ch \<in> set ALPHABET64" by (simp add: length_ALPHABET64)
qed

lemma ALPHABET64_header: "list_all (\<lambda>c. visible_ascii c \<and> \<not> is_whitespace c) (CHR ''.'' # ALPHABET64)"
  by (simp add: ALPHABET64_def visible_ascii_def is_whitespace_def Let_def)

lemma jwt_encode_header_safe:
  assumes "jwt_encode to_vec to_entries enc now c = Inr token"
  shows "token \<noteq> []" "list_all visible_ascii token" "trim_start token = token"
proof -
  obtain a b d where t: "token = base64url_encode a @ ''.'' @ base64url_encode b @ ''.'' @ base64url_encode d"
    using assms by (auto simp: jwt_encode_def Let_def result_simps)
  then show "token \<noteq> []" by simp
  have "set token \<subseteq> set (CHR ''.'' # ALPHABET64)" using t base64url_chars by auto
  then have chars: "\<forall>c \<in> set token. visible_ascii c \<and> \<not> is_whitespace c"
    using ALPHABET64_header unfolding list_all_iff by blast
  then show "list_all visible_ascii token" by (simp add: list_all_iff)
  have "\<not> is_whitespace (hd token)" using chars \<open>token \<noteq> []\<close> by simp
  then show "trim_start token = token"
    using \<open>token \<noteq> []\<close> by (cases token) (simp_all add: trim_start_def)
qed

text \<open>What the decoder does with a token of three parts.\<close>

lemma jwt_decode_parts:
  fixes hb pb sg :: "u8 list"
  defines "h \<equiv> base64url_encode hb" and "p \<equiv> base64url_encode pb"
  shows "jwt_decode parse fv dec now (h @ ''.'' @ p @ ''.'' @ base64url_encode sg) =
     bind_res (ok_or (jwt_err InvalidHeader) (parse hb)) (\<lambda>header.
     bind_res (ok_or (jwt_err InvalidHeader) (Option.bind (json_get header ''alg'') json_as_str)) (\<lambda>alg.
     if alg \<noteq> tv_algorithm_name (dec_verifier dec) then Inl (jwt_err AlgorithmMismatch)
     else bind_res (tv_verify (dec_verifier dec) (as_bytes (h @ ''.'' @ p)) sg) (\<lambda>_.
     bind_res (ok_or (jwt_err DeserializationFailed) (parse pb)) (\<lambda>payload.
     bind_res (check_claims (dec_validation dec) now payload) (\<lambda>_.
     ok_or (jwt_err DeserializationFailed) (fv payload))))))"
proof -
  have "splitn 4 CHR ''.'' (h @ ''.'' @ p @ ''.'' @ base64url_encode sg) = [h, p, base64url_encode sg]"
    unfolding splitn_three h_def p_def by (simp add: base64url_no_dot)
  then show ?thesis
    unfolding jwt_decode_def h_def p_def by (simp add: b64.decode_encode cong: if_cong)
qed

text \<open>A decoded token was signed, names the algorithm and passed the claim checks.\<close>

lemma jwt_decode_Inr:
  assumes "jwt_decode parse fv dec now token = Inr x"
  obtains h p s hb header sg pb payload where
    "token = h @ ''.'' @ p @ ''.'' @ s"
    "base64url_decode h = Inr hb" "parse hb = Some header"
    "Option.bind (json_get header ''alg'') json_as_str = Some (tv_algorithm_name (dec_verifier dec))"
    "base64url_decode s = Inr sg" "tv_verify (dec_verifier dec) (as_bytes (h @ ''.'' @ p)) sg = Inr ()"
    "base64url_decode p = Inr pb" "parse pb = Some payload"
    "check_claims (dec_validation dec) now payload = Inr ()" "fv payload = Some x"
proof -
  obtain h p s where split: "splitn 4 CHR ''.'' token = [h, p, s]"
    using assms by (auto simp: jwt_decode_def split: list.splits)
  then have "token = h @ ''.'' @ p @ ''.'' @ s" by (simp add: splitn_three)
  with assms split that show thesis
    by (auto simp: jwt_decode_def result_simps split: if_splits)
qed

text \<open>The clock decides whether a token is accepted, never what it decodes to.\<close>

lemma jwt_decode_time:
  assumes "jwt_decode parse fv dec now token = Inr x" "jwt_decode parse fv dec now' token = Inr y"
  shows "x = y"
proof -
  obtain h p s where split: "splitn 4 CHR ''.'' token = [h, p, s]"
    using assms by (auto simp: jwt_decode_def split: list.splits)
  with assms show ?thesis by (auto simp: jwt_decode_def result_simps split: if_splits)
qed

lemma check_claims_Inr:
  "check_claims v now payload = Inr () \<longleftrightarrow>
     (\<exists>exp. Option.bind (json_get payload ''exp'') json_as_u64 = Some exp \<and> now \<le> u64_add exp (leeway v)) \<and>
     (\<forall>nbf. Option.bind (json_get payload ''nbf'') json_as_u64 = Some nbf \<longrightarrow> nbf \<le> u64_add now (leeway v)) \<and>
     (\<forall>iss. require_issuer v = Some iss \<longrightarrow> Option.bind (json_get payload ''iss'') json_as_str = Some iss) \<and>
     (\<forall>aud. require_audience v = Some aud \<longrightarrow> Option.bind (json_get payload ''aud'') json_as_str = Some aud)"
  unfolding check_claims_def
  by (auto simp: result_simps not_less split: if_splits option.splits)

text \<open>The contract between a signer and its verifier, and what it gives for whole tokens.\<close>

locale token_scheme =
  fixes signer :: token_signer
  assumes sign_verify: "ts_sign signer m = Inr s \<Longrightarrow> tv_verify signer m s = Inr ()"
begin

lemma verify_truncate: "ts_sign signer m = Inr s \<Longrightarrow> tv_verify (token_verifier.truncate signer) m s = Inr ()"
  by (simp add: token_verifier.defs sign_verify)

text \<open>
  A token the encoder produced is accepted exactly as its payload deserves: only the claim checks
  and the final deserialisation are left. \<open>header\<close> and \<open>payload\<close> are what serde_json reads back.
\<close>

lemma decode_encode:
  assumes enc: "enc_signer enc = signer" "enc_default_expiry enc = Some d" "to_entries c = Some es"
    and token: "jwt_encode to_vec to_entries enc now c = Inr token"
    and dec: "dec_verifier dec = token_verifier.truncate signer"
    and header: "parse (as_bytes (jwt_header (tv_algorithm_name signer))) = Some header"
      "json_get header ''alg'' = Some (JString (tv_algorithm_name signer))"
    and payload: "to_vec (JObject (if map_of es ''exp'' = None
        then entries_insert ''exp'' (JNumber (int (u64_add now d))) es else es)) = Some pb"
      "parse pb = Some payload"
  shows "jwt_decode parse fv dec now' token =
     bind_res (check_claims (dec_validation dec) now' payload) (\<lambda>_.
       ok_or (jwt_err DeserializationFailed) (fv payload))"
proof -
  let ?h = "base64url_encode (as_bytes (jwt_header (tv_algorithm_name signer)))"
  obtain sg where sg: "ts_sign signer (as_bytes (?h @ ''.'' @ base64url_encode pb)) = Inr sg"
    and tok: "token = ?h @ ''.'' @ base64url_encode pb @ ''.'' @ base64url_encode sg"
    using token enc payload(1) by (auto simp: jwt_encode_def result_simps Let_def)
  have "tv_algorithm_name (dec_verifier dec) = tv_algorithm_name signer"
    by (simp add: dec token_verifier.defs)
  then show ?thesis
    unfolding tok jwt_decode_parts using header payload(2) verify_truncate [OF sg] by (simp add: dec)
qed

end

interpretation hs256: token_scheme "hmac_signer_new hmac secret" for hmac secret
  by unfold_locales (auto simp: hmac_signer_new_def hmac_sign_def hmac_verify_def)

section \<open>Properties\<close>

text \<open>The claims with the expiry the encoder fills in.\<close>

definition filled_claims :: "nat \<Rightarrow> nat \<Rightarrow> claims \<Rightarrow> claims" where
  "filled_claims now ttl c = c\<lparr>cl_exp := Some (case cl_exp c of Some e \<Rightarrow> e | None \<Rightarrow> u64_add now ttl)\<rparr>"

lemma claims_entries_exp: "map_of (claims_entries c) ''exp'' = map_option (\<lambda>n. JNumber (int n)) (cl_exp c)"
  using json_get_claims(4) [of c] by (simp add: claims_to_value_def)

lemma filled_entries:
  "json_get (JObject (if map_of (claims_entries c) ''exp'' = None
      then entries_insert ''exp'' (JNumber (int (u64_add now d))) (claims_entries c) else claims_entries c))
   = json_get (claims_to_value (filled_claims now d c))"
proof
  fix k
  show "json_get (JObject (if map_of (claims_entries c) ''exp'' = None
      then entries_insert ''exp'' (JNumber (int (u64_add now d))) (claims_entries c) else claims_entries c)) k
   = json_get (claims_to_value (filled_claims now d c)) k"
    by (cases "cl_exp c")
      (simp_all add: claims_to_value_def claims_entries_def filled_claims_def del: map_of_append)
qed

lemma json_strs [simp]:
  "Option.bind (map_option JString x) json_as_str = x"
  "u64_opt y \<Longrightarrow> Option.bind (map_option (\<lambda>n. JNumber (int n)) y) json_as_u64 = y"
  by (cases x, simp_all) (cases y, simp_all add: u64_opt_def)

text \<open>The claim checks of a decoder, said of the claims instead of their JSON.\<close>

lemma check_claims_claims:
  assumes "json_get payload = json_get (claims_to_value c)" "claims_wf c"
  shows "check_claims v now payload = Inr () \<longleftrightarrow>
     (\<exists>exp. cl_exp c = Some exp \<and> now \<le> u64_add exp (leeway v)) \<and>
     (\<forall>nbf. cl_nbf c = Some nbf \<longrightarrow> nbf \<le> u64_add now (leeway v)) \<and>
     (\<forall>iss. require_issuer v = Some iss \<longrightarrow> cl_iss c = Some iss) \<and>
     (\<forall>aud. require_audience v = Some aud \<longrightarrow> cl_aud c = Some aud)"
  using assms(2) unfolding check_claims_Inr assms(1) json_get_claims claims_wf_def by simp

lemma config_roundtrip:
  assumes "jwt_encode to_vec (\<lambda>c. Some (claims_entries c)) (encoder_from_config hmac cfg) now c = Inr token"
    and "parse (as_bytes (jwt_header ''HS256'')) = Some header"
      "json_get header ''alg'' = Some (JString ''HS256'')"
    and "\<And>v bs. to_vec v = Some bs \<Longrightarrow> \<exists>w. parse bs = Some w \<and> json_get w = json_get v"
    and "claims_wf (filled_claims now (access_ttl_secs cfg) c)" "now' < 2 ^ 64"
    and "cl_exp (filled_claims now (access_ttl_secs cfg) c) = Some exp" "now' \<le> exp"
    and "\<And>nbf. cl_nbf c = Some nbf \<Longrightarrow> nbf \<le> now'"
    and "\<And>iss. issuer cfg = Some iss \<Longrightarrow> cl_iss c = Some iss"
  shows "jwt_decode parse claims_from_value (decoder_from_config hmac cfg) now' token =
     Inr (filled_claims now (access_ttl_secs cfg) c)"
proof -
  let ?c = "filled_claims now (access_ttl_secs cfg) c"
  let ?v = "JObject (if map_of (claims_entries c) ''exp'' = None
      then entries_insert ''exp'' (JNumber (int (u64_add now (access_ttl_secs cfg)))) (claims_entries c)
      else claims_entries c)"
  obtain bs where bs: "to_vec ?v = Some bs"
    using assms(1) by (auto simp: jwt_encode_def encoder_from_config_def result_simps)
  obtain w where w: "parse bs = Some w" "json_get w = json_get ?v" using assms(4) [OF bs] by blast
  have get: "json_get w = json_get (claims_to_value ?c)" using w(2) filled_entries by simp
  have "jwt_decode parse claims_from_value (decoder_from_config hmac cfg) now' token =
      bind_res (check_claims (dec_validation (decoder_from_config hmac cfg)) now' w) (\<lambda>_.
        ok_or (jwt_err DeserializationFailed) (claims_from_value w))"
    by (rule hs256.decode_encode [where enc = "encoder_from_config hmac cfg" and hmac = hmac
          and secret = "as_bytes (signing_secret cfg)" and c = c and es = "claims_entries c"
          and to_entries = "\<lambda>c. Some (claims_entries c)" and d = "access_ttl_secs cfg"
          and to_vec = to_vec and parse = parse and now = now,
          OF _ _ _ assms(1) _ _ _ bs w(1)])
      (use assms(2,3) in \<open>simp_all add: encoder_from_config_def decoder_from_config_def hmac_signer_new_def\<close>)
  moreover have "check_claims (dec_validation (decoder_from_config hmac cfg)) now' w = Inr ()"
    unfolding check_claims_claims [OF get assms(5)]
    using assms(5-10) by (auto simp: decoder_from_config_def filled_claims_def u64_add_def claims_wf_def u64_opt_def)
  moreover have "claims_from_value w = Some ?c" using claims_from_to_value assms(5) get by blast
  ultimately show ?thesis by simp
qed

definition demo_claims :: claims where
  "demo_claims = with_sub ''u'' claims_new"

definition demo_jwt_config :: jwt_sessions_config where
  "demo_jwt_config = jwt_sessions_config_new ''k''"

text \<open>A stand-in for JSON text that can carry the values of one example.\<close>

definition demo_payload :: json where
  "demo_payload = claims_to_value (filled_claims 100 900 demo_claims)"

definition demo_to_vec :: "json \<Rightarrow> u8 list option" where
  "demo_to_vec v = (if v = demo_payload then Some [7] else None)"

definition demo_parse :: "u8 list \<Rightarrow> json option" where
  "demo_parse bs =
     (if bs = [7] then Some demo_payload
      else if bs = as_bytes (jwt_header ''HS256'') then Some (JObject [(''alg'', JString ''HS256'')])
      else None)"

definition demo_token :: string where
  "demo_token = projr (jwt_encode demo_to_vec (\<lambda>c. Some (claims_entries c))
     (encoder_from_config (\<lambda>k m. k @ m) demo_jwt_config) 100 demo_claims)"

lemma demo_jwt_config_simps:
  "access_ttl_secs demo_jwt_config = 900" "issuer demo_jwt_config = None"
  by (simp_all add: demo_jwt_config_def jwt_sessions_config_new_def jwt_sessions_config_default_def)

lemma demo_encode:
  "jwt_encode demo_to_vec (\<lambda>c. Some (claims_entries c))
     (encoder_from_config (\<lambda>k m. k @ m) demo_jwt_config) 100 demo_claims = Inr demo_token"
proof -
  have "demo_payload = JObject (entries_insert ''exp'' (JNumber 1000) (claims_entries demo_claims))"
    by (simp add: demo_payload_def claims_to_value_def claims_entries_def filled_claims_def
        demo_claims_def claims_defs opt_entry_def u64_add_def)
  moreover have "map_of (claims_entries demo_claims) ''exp'' = None"
    by (simp add: claims_entries_exp demo_claims_def claims_defs)
  ultimately show ?thesis
    by (simp add: demo_token_def jwt_encode_def encoder_from_config_def demo_jwt_config_simps
        demo_to_vec_def hmac_signer_new_def hmac_sign_def Let_def u64_add_def)
qed

lemma demo_json:
  "demo_parse (as_bytes (jwt_header ''HS256'')) = Some (JObject [(''alg'', JString ''HS256'')])"
  "demo_to_vec v = Some bs \<Longrightarrow> \<exists>w. demo_parse bs = Some w \<and> json_get w = json_get v"
  by (simp add: demo_parse_def jwt_header_def as_bytes_def)
    (auto simp: demo_to_vec_def demo_parse_def split: if_splits)

lemmas demo_claim_simps = demo_jwt_config_simps filled_claims_def demo_claims_def claims_defs
  u64_add_def claims_wf_def u64_opt_def

lemma demo_decode:
  "jwt_decode demo_parse claims_from_value (decoder_from_config (\<lambda>k m. k @ m) demo_jwt_config) 1000 demo_token
     = Inr (filled_claims 100 900 demo_claims)"
  using config_roundtrip [where parse = demo_parse and to_vec = demo_to_vec and now' = 1000 and exp = 1000,
      OF demo_encode demo_json(1) _ demo_json(2)]
  by (simp add: demo_claim_simps)

text \<open>C11. JWT round trip: a token minted from claims by the encoder of a configuration decodes, with
  the decoder of the same configuration and while it is valid, to those claims with the default
  expiry filled in when they had none. \<open>to_vec\<close> and \<open>parse\<close> are serde_json's functions on JSON
  text; reading back what was written gives the same entries.\<close>

theorem jwt_roundtrip:
  assumes "jwt_encode to_vec (\<lambda>c. Some (claims_entries c)) (encoder_from_config hmac cfg) now c = Inr token"
    and "parse (as_bytes (jwt_header ''HS256'')) = Some header"
      "json_get header ''alg'' = Some (JString ''HS256'')"
    and "\<And>v bs. to_vec v = Some bs \<Longrightarrow> \<exists>w. parse bs = Some w \<and> json_get w = json_get v"
    and "claims_wf (filled_claims now (access_ttl_secs cfg) c)" "now' < 2 ^ 64"
    and "cl_exp (filled_claims now (access_ttl_secs cfg) c) = Some exp" "now' \<le> exp"
    and "\<And>nbf. cl_nbf c = Some nbf \<Longrightarrow> nbf \<le> now'"
    and "\<And>iss. issuer cfg = Some iss \<Longrightarrow> cl_iss c = Some iss"
  shows "jwt_decode parse claims_from_value (decoder_from_config hmac cfg) now' token =
     Inr (filled_claims now (access_ttl_secs cfg) c)"
  using assms by (rule config_roundtrip)

theorem jwt_roundtrip_witness:
  "jwt_decode demo_parse claims_from_value (decoder_from_config (\<lambda>k m. k @ m) demo_jwt_config) 900 demo_token
     = Inr (filled_claims 100 900 demo_claims)"
  using jwt_roundtrip [where parse = demo_parse and to_vec = demo_to_vec and now' = 900 and exp = 1000,
      OF demo_encode demo_json(1) _ demo_json(2)]
  by (simp add: demo_claim_simps)

lemma config_authentic:
  assumes "jwt_decode parse from_value (decoder_from_config hmac cfg) now token = Inr x" "now < 2 ^ 64"
  shows "\<exists>h p s pb payload exp. token = h @ ''.'' @ p @ ''.'' @ s \<and>
     base64url_decode s = Inr (hmac (as_bytes (signing_secret cfg)) (as_bytes (h @ ''.'' @ p))) \<and>
     base64url_decode p = Inr pb \<and> parse pb = Some payload \<and> from_value payload = Some x \<and>
     json_get payload ''exp'' = Some (JNumber (int exp)) \<and> now \<le> exp \<and>
     (\<forall>nbf. Option.bind (json_get payload ''nbf'') json_as_u64 = Some nbf \<longrightarrow> nbf \<le> now) \<and>
     (\<forall>iss. issuer cfg = Some iss \<longrightarrow> Option.bind (json_get payload ''iss'') json_as_str = Some iss)"
proof -
  have exp: "j = JNumber (int e)" "u64_add e 0 = e" if "json_as_u64 j = Some e" for j e
    using that by (cases j; auto simp: u64_add_def split: if_splits)+
  from assms(1) show ?thesis
  proof (rule jwt_decode_Inr)
    fix h p s hb header sg pb payload
    assume *: "token = h @ ''.'' @ p @ ''.'' @ s" "base64url_decode s = Inr sg"
      "tv_verify (dec_verifier (decoder_from_config hmac cfg)) (as_bytes (h @ ''.'' @ p)) sg = Inr ()"
      "base64url_decode p = Inr pb" "parse pb = Some payload"
      "check_claims (dec_validation (decoder_from_config hmac cfg)) now payload = Inr ()"
      "from_value payload = Some x"
    have "sg = hmac (as_bytes (signing_secret cfg)) (as_bytes (h @ ''.'' @ p))"
      using *(3) by (simp add: decoder_from_config_def hmac_signer_new_def hmac_verify_def
          token_verifier.defs split: if_splits)
    moreover obtain j e where j: "json_get payload ''exp'' = Some j" "json_as_u64 j = Some e" "now \<le> u64_add e 0"
      using *(6) unfolding check_claims_Inr by (auto simp: decoder_from_config_def bind_eq_Some_conv)
    moreover have "(\<forall>nbf. Option.bind (json_get payload ''nbf'') json_as_u64 = Some nbf \<longrightarrow> nbf \<le> u64_add now 0) \<and>
       (\<forall>iss. issuer cfg = Some iss \<longrightarrow> Option.bind (json_get payload ''iss'') json_as_str = Some iss)"
      using *(6) unfolding check_claims_Inr by (simp add: decoder_from_config_def)
    moreover have "u64_add now 0 = now" using assms(2) by (simp add: u64_add_def)
    ultimately show ?thesis
      using *(1,2,4,5,7) exp [OF j(2)]
      by (intro exI [of _ h] exI [of _ p] exI [of _ s] exI [of _ pb] exI [of _ payload] exI [of _ e]) simp
  qed
qed

lemma claims_from_value_exp:
  assumes "claims_from_value v = Some c" "json_get v ''exp'' = Some (JNumber (int e))"
  shows "cl_exp c = Some e"
  using assms by (auto simp: claims_from_value_def bind_eq_Some_conv opt_field_def split: if_splits)

lemma decode_config_authentic:
  assumes "jwt_decode parse claims_from_value (decoder_from_config hmac cfg) now token = Inr c" "now < 2 ^ 64"
  shows "\<exists>h p s exp. token = h @ ''.'' @ p @ ''.'' @ s \<and>
     base64url_decode s = Inr (hmac (as_bytes (signing_secret cfg)) (as_bytes (h @ ''.'' @ p))) \<and>
     cl_exp c = Some exp \<and> now \<le> exp"
  using config_authentic [OF assms] claims_from_value_exp by metis



text \<open>C12. Every failure of the decoder is the same 401 \<^verbatim>\<open>unauthorized\<close> to the client: the cause, a
  \<^verbatim>\<open>JwtError\<close>, shows only in the error's source and in its code, and it is never one of the two
  internal failures.\<close>

theorem jwt_decode_errors:
  assumes "jwt_decode parse from_value (decoder_from_config hmac cfg) now token = Inl e"
  shows "\<exists>k. e = jwt_err k \<and> err_status e = 401 \<and> err_message e = ''unauthorized'' \<and>
     err_code e = Some (jwt_error_code k) \<and> err_source e = Some (SrcJwt k)"
proof -
  have verify: "\<exists>k. e = jwt_err k \<and> k \<noteq> SigningFailed \<and> k \<noteq> SerializationFailed"
    if "tv_verify (dec_verifier (decoder_from_config hmac cfg)) m sg = Inl e" for m sg
    using that by (intro exI [of _ InvalidSignature])
      (simp add: decoder_from_config_def hmac_signer_new_def hmac_verify_def token_verifier.defs
        jwt_err_def split: if_splits)
  have claims: "e = jwt_err Expired \<or> e = jwt_err NotYetValid \<or> e = jwt_err InvalidIssuer \<or> e = jwt_err InvalidAudience"
    if "check_claims v now payload = Inl e" for v payload
    using that by (auto simp: check_claims_def result_errs split: if_splits)
  have "\<exists>k. e = jwt_err k \<and> k \<noteq> SigningFailed \<and> k \<noteq> SerializationFailed"
  proof (cases "\<exists>h p s. splitn 4 CHR ''.'' token = [h, p, s]")
    case True
    with assms show ?thesis
      by (auto simp: jwt_decode_def result_errs split: if_splits dest!: verify claims)
  next
    case False
    with assms have "e = jwt_err MalformedToken" by (auto simp: jwt_decode_def split: list.splits)
    then show ?thesis by blast
  qed
  then obtain k where k: "e = jwt_err k" "k \<noteq> SigningFailed" "k \<noteq> SerializationFailed" by blast
  show ?thesis
    by (rule exI [of _ k]) (use k in \<open>simp add: jwt_err_def with_code_def chain_def error_ctor_defs\<close>)
qed

theorem jwt_decode_errors_witness:
  "err_status (projl (jwt_decode demo_parse claims_from_value
      (decoder_from_config (\<lambda>k m. k @ m) demo_jwt_config) 1000 ''a.b'')) = 401"
proof -
  have bad: "jwt_decode demo_parse claims_from_value (decoder_from_config (\<lambda>k m. k @ m) demo_jwt_config) 1000 ''a.b''
      = Inl (jwt_err MalformedToken)"
    by (simp add: jwt_decode_def numeral_eq_Suc split_once_def)
  then show ?thesis using jwt_decode_errors [OF bad] by auto
qed

end
