(* ===== verification/Jwt_Session.thy ===== *)
theory Jwt_Session
  imports Jwt Session_Store
begin

text \<open>
  \<^verbatim>\<open>src/src/auth/session/jwt\<close>: token sources, the session service, the tower middleware and the
  \<^verbatim>\<open>JwtSession\<close> extractor. The service works on the session table of \<open>Session_Store\<close>; a token's
  \<^verbatim>\<open>jti\<close> is the hexadecimal session token. The functions of other crates are the fields of
  \<open>jwt_env\<close>. A call reads the wall clock more than once: \<open>now\<close> is the store's instant, \<open>now_s\<close>
  the decoder's second, \<open>t\<close> the instant of a rotation, and \<open>clk i\<close> the \<open>i\<close>-th second \<^verbatim>\<open>mint_pair\<close> reads.
\<close>

record jwt_env =
  env_digest :: "u8 list \<Rightarrow> u8 list"
  env_hmac :: "u8 list \<Rightarrow> u8 list \<Rightarrow> u8 list"
  env_to_vec :: "json \<Rightarrow> u8 list option"
  env_parse :: "u8 list \<Rightarrow> json option"

section \<open>Token sources\<close>

type_synonym token_source = "parts \<Rightarrow> string option"

definition bearer_token :: "string \<Rightarrow> string option" where
  "bearer_token value =
     Option.bind (split_once CHR '' '' value) (\<lambda>(scheme, rest).
       if eq_ignore_ascii_case scheme ''Bearer'' then Some (trim_start rest) else None)"

definition bearer_source :: token_source where
  "bearer_source parts =
     Option.bind (header_str parts ''authorization'') (\<lambda>value.
     Option.bind (split_once CHR '' '' value) (\<lambda>(scheme, rest).
       if \<not> eq_ignore_ascii_case scheme ''Bearer'' then None
       else let token = trim_start rest in if token = [] then None else Some token))"

fun query_lookup :: "string \<Rightarrow> string list \<Rightarrow> string option" where
  "query_lookup name [] = None"
| "query_lookup name (pair # pairs) =
     (case split_once CHR ''='' pair of
        Some (key, value) \<Rightarrow> if key = name \<and> value \<noteq> [] then Some value else query_lookup name pairs
      | None \<Rightarrow> query_lookup name pairs)"

fun cookie_lookup :: "string \<Rightarrow> string list \<Rightarrow> string option" where
  "cookie_lookup name [] = None"
| "cookie_lookup name (cookie # cookies) =
     (case split_once CHR ''='' (trim cookie) of
        Some (cname, value) \<Rightarrow>
          if trim cname = name \<and> value \<noteq> [] then Some (trim value) else cookie_lookup name cookies
      | None \<Rightarrow> cookie_lookup name cookies)"

definition extract_query :: "string \<Rightarrow> token_source" where
  "extract_query name parts =
     Option.bind (p_query parts) (\<lambda>query. query_lookup name (split_on CHR ''&'' query))"

definition extract_cookie :: "string \<Rightarrow> token_source" where
  "extract_cookie name parts =
     Option.bind (header_str parts ''cookie'') (\<lambda>h. cookie_lookup name (split_on CHR '';'' h))"

definition extract_header :: "string \<Rightarrow> token_source" where
  "extract_header name parts =
     Option.bind (header_str parts name) (\<lambda>value. if value = [] then None else Some value)"

fun build_source :: "token_source_config \<Rightarrow> token_source" where
  "build_source SrcBearer = bearer_source"
| "build_source (SrcCookie name) = extract_cookie name"
| "build_source (SrcHeader name) = extract_header name"
| "build_source (SrcQuery name) = extract_query name"
| "build_source (SrcBody field) = bearer_source"

text \<open>The \<^verbatim>\<open>Bearer\<close> extractor, and the extractors of \<^verbatim>\<open>Claims\<close>.\<close>

definition bearer_from_parts :: "parts \<Rightarrow> string result" where
  "bearer_from_parts parts =
     (let missing = with_code (jwt_error_code MissingToken)
            (chain (SrcJwt MissingToken) (unauthorized ''unauthorized''))
      in bind_res (ok_or missing (header_str parts ''authorization'')) (\<lambda>header.
         bind_res (ok_or missing (bearer_token header)) (\<lambda>token.
         if token = [] then Inl missing else Inr token)))"

definition claims_from_parts :: "claims option \<Rightarrow> claims result" where
  "claims_from_parts ext = ok_or (unauthorized ''unauthorized'') ext"

definition claims_from_parts_optional :: "claims option \<Rightarrow> claims option result" where
  "claims_from_parts_optional ext = Inr ext"

section \<open>JwtSessionService\<close>

record token_pair =
  access_token :: string
  refresh_token :: string
  access_expires_at :: nat
  refresh_expires_at :: nat

record jwt_service =
  svc_store :: sessions_config
  svc_encoder :: jwt_encoder
  svc_decoder :: jwt_decoder
  svc_config :: jwt_sessions_config

definition jwt_service_new :: "jwt_env \<Rightarrow> jwt_sessions_config \<Rightarrow> jwt_service result" where
  "jwt_service_new env config =
     (if signing_secret config = [] then Inl (internal ''jwt: signing_secret must be set'')
      else Inr
        \<lparr>svc_store = \<lparr>session_ttl_secs = refresh_ttl_secs config, cookie_name = [],
            validate_fingerprint = False, touch_interval_secs = jwt_touch_interval_secs config,
            max_sessions_per_user = max (max_per_user config) 1, cookie_attrs = cookie_config_default\<rparr>,
         svc_encoder = encoder_from_config (env_hmac env) config,
         svc_decoder = decoder_from_config (env_hmac env) config,
         svc_config = config\<rparr>)"

definition encode_claims :: "jwt_env \<Rightarrow> jwt_service \<Rightarrow> nat \<Rightarrow> claims \<Rightarrow> string result" where
  "encode_claims env svc now_s c =
     jwt_encode (env_to_vec env) (\<lambda>c. Some (claims_entries c)) (svc_encoder svc) now_s c"

definition decode_claims :: "jwt_env \<Rightarrow> jwt_service \<Rightarrow> nat \<Rightarrow> string \<Rightarrow> claims result" where
  "decode_claims env svc now_s token =
     jwt_decode (env_parse env) claims_from_value (svc_decoder svc) now_s token"

definition mint_claims :: "string option \<Rightarrow> string \<Rightarrow> string \<Rightarrow> string \<Rightarrow> nat \<Rightarrow> nat \<Rightarrow> claims" where
  "mint_claims iss user aud jti exp iat =
     (let c = with_iat_now iat (with_exp exp (with_jti jti (with_aud aud (with_sub user claims_new))))
      in case iss of Some i \<Rightarrow> with_iss i c | None \<Rightarrow> c)"

definition mint_pair :: "jwt_env \<Rightarrow> jwt_service \<Rightarrow> (nat \<Rightarrow> nat) \<Rightarrow> string \<Rightarrow> string \<Rightarrow> token_pair result" where
  "mint_pair env svc clk user_id jti =
     (let now = clk 0;
          config = svc_config svc;
          access_exp = u64_add now (access_ttl_secs config);
          refresh_exp = u64_add now (refresh_ttl_secs config);
          access = mint_claims (issuer config) user_id ''access'' jti access_exp (clk 1);
          refresh = mint_claims (issuer config) user_id ''refresh'' jti refresh_exp (clk 2)
      in bind_res (encode_claims env svc (clk 3) access) (\<lambda>access_jwt.
         bind_res (encode_claims env svc (clk 4) refresh) (\<lambda>refresh_jwt.
           Inr \<lparr>access_token = access_jwt, refresh_token = refresh_jwt,
                access_expires_at = access_exp, refresh_expires_at = refresh_exp\<rparr>)))"

definition authenticate ::
  "jwt_env \<Rightarrow> jwt_service \<Rightarrow> string \<Rightarrow> session_token \<Rightarrow> int \<Rightarrow> (nat \<Rightarrow> nat) \<Rightarrow> string \<Rightarrow> client_info \<Rightarrow>
   (session_row, token_pair) dbm" where
  "authenticate env svc new_id new_token now clk user_id info =
     db_bind (create (env_digest env) (svc_store svc) new_id new_token now info user_id None)
       (\<lambda>(raw, token). db_lift (mint_pair env svc clk (sd_user_id raw) (expose token)))"

definition session_not_found :: error where
  "session_not_found = with_code ''auth:session_not_found'' (unauthorized ''unauthorized'')"

definition aud_mismatch :: error where
  "aud_mismatch = with_code ''auth:aud_mismatch'' (unauthorized ''unauthorized'')"

definition jwt_rotate ::
  "jwt_env \<Rightarrow> jwt_service \<Rightarrow> session_token \<Rightarrow> int \<Rightarrow> int \<Rightarrow> nat \<Rightarrow> (nat \<Rightarrow> nat) \<Rightarrow> string \<Rightarrow> (session_row, token_pair) dbm" where
  "jwt_rotate env svc new_token now t now_s clk token =
     db_bind (db_lift (decode_claims env svc now_s token)) (\<lambda>claims.
     if cl_aud claims \<noteq> Some ''refresh'' then db_lift (Inl aud_mismatch) else
     db_bind (db_lift (ok_or session_not_found (cl_jti claims))) (\<lambda>jti.
     db_bind (db_lift (ok_or session_not_found (from_raw jti))) (\<lambda>old_token.
     db_bind (read_by_token_hash (token_hash (env_digest env) old_token) now) (\<lambda>found.
     db_bind (db_lift (ok_or session_not_found found)) (\<lambda>raw.
     db_bind (rotate_token_to (env_digest env) (sd_id raw) new_token t) (\<lambda>_.
     db_lift (mint_pair env svc clk (sd_user_id raw) (expose new_token))))))))"

definition jwt_logout :: "jwt_env \<Rightarrow> jwt_service \<Rightarrow> int \<Rightarrow> nat \<Rightarrow> string \<Rightarrow> (session_row, unit) dbm" where
  "jwt_logout env svc now now_s token =
     db_bind (db_lift (decode_claims env svc now_s token)) (\<lambda>claims.
     if cl_aud claims \<noteq> Some ''access'' then db_lift (Inl aud_mismatch) else
     db_bind (db_lift (ok_or session_not_found (cl_jti claims))) (\<lambda>jti.
     db_bind (db_lift (ok_or session_not_found (from_raw jti))) (\<lambda>session_token.
     db_bind (read_by_token_hash (token_hash (env_digest env) session_token) now) (\<lambda>found.
     case found of Some raw \<Rightarrow> destroy (sd_id raw) | None \<Rightarrow> db_lift (Inr ())))))"

definition jwt_list :: "string \<Rightarrow> int \<Rightarrow> (session_row, session list) dbm" where
  "jwt_list user_id now =
     db_bind (list_for_user user_id now) (\<lambda>raws. db_lift (Inr (map session_from raws)))"

definition jwt_revoke :: "string \<Rightarrow> string \<Rightarrow> (session_row, unit) dbm" where
  "jwt_revoke user_id sid =
     (let missing = with_code ''auth:session_not_found'' (not_found ''session not found'')
      in db_bind (read sid) (\<lambda>found.
         db_bind (db_lift (ok_or missing found)) (\<lambda>row.
         if sd_user_id row \<noteq> user_id then db_lift (Inl missing) else destroy sid)))"

definition jwt_revoke_all :: "string \<Rightarrow> (session_row, unit) dbm" where
  "jwt_revoke_all user_id = destroy_all_for_user user_id"

definition jwt_revoke_all_except :: "string \<Rightarrow> string \<Rightarrow> (session_row, unit) dbm" where
  "jwt_revoke_all_except user_id keep_id = destroy_all_except user_id keep_id"

definition jwt_cleanup_expired :: "int \<Rightarrow> (session_row, nat) dbm" where
  "jwt_cleanup_expired now = cleanup_expired now"

section \<open>JwtLayer\<close>

record jwt_layer =
  layer_decoder :: jwt_decoder
  layer_sources :: "token_source list"
  layer_service :: "jwt_service option"

definition jwt_layer_new :: "jwt_decoder \<Rightarrow> jwt_layer" where
  "jwt_layer_new decoder =
     \<lparr>layer_decoder = decoder, layer_sources = [bearer_source], layer_service = None\<rparr>"

definition jwt_layer_from_service :: "jwt_service \<Rightarrow> jwt_layer" where
  "jwt_layer_from_service svc =
     \<lparr>layer_decoder = svc_decoder svc, layer_sources = [bearer_source], layer_service = Some svc\<rparr>"

definition with_sources :: "token_source list \<Rightarrow> jwt_layer \<Rightarrow> jwt_layer" where
  "with_sources sources l = l\<lparr>layer_sources := sources\<rparr>"

fun find_map :: "('a \<Rightarrow> 'b option) \<Rightarrow> 'a list \<Rightarrow> 'b option" where
  "find_map f [] = None"
| "find_map f (x # xs) = (case f x of Some y \<Rightarrow> Some y | None \<Rightarrow> find_map f xs)"

text \<open>
  One call of the middleware: \<open>Inl\<close> is the response it sends itself, \<open>Inr\<close> the extensions with
  which it calls the inner service (whose response it returns unchanged).
\<close>

definition jwt_layer_call ::
  "jwt_env \<Rightarrow> jwt_layer \<Rightarrow> int \<Rightarrow> nat \<Rightarrow> parts \<Rightarrow> session_db \<Rightarrow>
   (error_response + session option \<times> claims) \<times> session_db" where
  "jwt_layer_call env layer now now_s parts db =
     (case find_map (\<lambda>s. s parts) (layer_sources layer) of
        None \<Rightarrow> (Inl (into_response (jwt_err MissingToken)), db)
      | Some token \<Rightarrow>
          (case jwt_decode (env_parse env) claims_from_value (layer_decoder layer) now_s token of
             Inl e \<Rightarrow> (Inl (into_response e), db)
           | Inr claims \<Rightarrow>
               (case layer_service layer of
                  None \<Rightarrow> (Inr (None, claims), db)
                | Some svc \<Rightarrow>
                    if cl_aud claims \<noteq> Some ''access''
                    then (Inl (into_response (auth_err ''auth:aud_mismatch'')), db)
                    else if stateful_validation (svc_config svc)
                    then (case Option.bind (cl_jti claims) from_raw of
                            None \<Rightarrow> (Inl (into_response (auth_err ''auth:session_not_found'')), db)
                          | Some token \<Rightarrow>
                              (case read_by_token_hash (token_hash (env_digest env) token) now db of
                                 (Inl e, db') \<Rightarrow> (Inl (into_response e), db')
                               | (Inr None, db') \<Rightarrow>
                                   (Inl (into_response (auth_err ''auth:session_not_found'')), db')
                               | (Inr (Some raw), db') \<Rightarrow> (Inr (Some (session_from raw), claims), db')))
                    else (Inr (None, claims), db))))"

section \<open>JwtSession\<close>

record jwt_session =
  jse_service :: jwt_service
  jse_parts :: parts
  jse_session :: "session option"
  jse_body_refresh :: "string option"

text \<open>\<open>body\<close> is the request body, \<open>None\<close> when reading it fails; \<^verbatim>\<open>to_bytes\<close> also fails over 1 MiB.\<close>

definition jwt_session_from_request ::
  "jwt_env \<Rightarrow> jwt_service \<Rightarrow> parts \<Rightarrow> session option \<Rightarrow> u8 list option \<Rightarrow> jwt_session result" where
  "jwt_session_from_request env svc parts ext body =
     (let body_refresh =
        (case refresh_source (svc_config svc) of
           SrcBody field \<Rightarrow>
             (case body of
                Some bytes \<Rightarrow>
                  if length bytes \<le> 1024 * 1024
                  then (case env_parse env bytes of
                          Some v \<Rightarrow> Option.bind (json_get v field) json_as_str
                        | None \<Rightarrow> None)
                  else None
              | None \<Rightarrow> None)
         | _ \<Rightarrow> None)
      in Inr \<lparr>jse_service = svc, jse_parts = parts, jse_session = ext, jse_body_refresh = body_refresh\<rparr>)"

definition jwt_session_current :: "jwt_session \<Rightarrow> session option" where
  "jwt_session_current js = jse_session js"

definition find_access_token :: "jwt_session \<Rightarrow> string result" where
  "find_access_token js =
     (let parts = jse_parts js;
          missing = with_code ''auth:access_missing'' (unauthorized ''unauthorized'')
      in case access_source (svc_config (jse_service js)) of
           SrcBearer \<Rightarrow> ok_or missing (Option.bind (header_str parts ''authorization'') bearer_token)
         | SrcCookie name \<Rightarrow>
             ok_or missing (cookie_lookup name (split_on CHR '';''
               (case header_str parts ''cookie'' of Some h \<Rightarrow> h | None \<Rightarrow> [])))
         | SrcHeader name \<Rightarrow>
             ok_or missing (Option.bind (header_str parts name) (\<lambda>s. if s = [] then None else Some s))
         | SrcQuery name \<Rightarrow>
             ok_or missing (query_lookup name (split_on CHR ''&''
               (case p_query parts of Some q \<Rightarrow> q | None \<Rightarrow> [])))
         | SrcBody field \<Rightarrow> Inl (internal ''access_source=Body is not supported''))"

definition find_refresh_token :: "jwt_session \<Rightarrow> string result" where
  "find_refresh_token js =
     (let parts = jse_parts js;
          missing = with_code ''auth:refresh_missing'' (unauthorized ''unauthorized'')
      in case jse_body_refresh js of
           Some t \<Rightarrow> Inr t
         | None \<Rightarrow>
             (case refresh_source (svc_config (jse_service js)) of
                SrcBody field \<Rightarrow>
                  Inl (with_code ''auth:refresh_missing'' (bad_request ''refresh token missing''))
              | SrcBearer \<Rightarrow> find_access_token js
              | SrcCookie name \<Rightarrow>
                  ok_or missing (cookie_lookup name (split_on CHR '';''
                    (case header_str parts ''cookie'' of Some h \<Rightarrow> h | None \<Rightarrow> [])))
              | SrcHeader name \<Rightarrow>
                  ok_or missing (Option.bind (header_str parts name) (\<lambda>s. if s = [] then None else Some s))
              | SrcQuery name \<Rightarrow>
                  ok_or missing (query_lookup name (split_on CHR ''&''
                    (case p_query parts of Some q \<Rightarrow> q | None \<Rightarrow> [])))))"

definition jwt_session_authenticate ::
  "jwt_env \<Rightarrow> jwt_session \<Rightarrow> string \<Rightarrow> session_token \<Rightarrow> int \<Rightarrow> (nat \<Rightarrow> nat) \<Rightarrow> string \<Rightarrow> client_info \<Rightarrow>
   (session_row, token_pair) dbm" where
  "jwt_session_authenticate env js new_id new_token now clk user_id info =
     authenticate env (jse_service js) new_id new_token now clk user_id info"

definition jwt_session_rotate ::
  "jwt_env \<Rightarrow> jwt_session \<Rightarrow> session_token \<Rightarrow> int \<Rightarrow> int \<Rightarrow> nat \<Rightarrow> (nat \<Rightarrow> nat) \<Rightarrow> (session_row, token_pair) dbm" where
  "jwt_session_rotate env js new_token now t now_s clk =
     db_bind (db_lift (find_refresh_token js)) (\<lambda>token.
       jwt_rotate env (jse_service js) new_token now t now_s clk token)"

definition jwt_session_logout :: "jwt_env \<Rightarrow> jwt_session \<Rightarrow> int \<Rightarrow> nat \<Rightarrow> (session_row, unit) dbm" where
  "jwt_session_logout env js now now_s =
     db_bind (db_lift (find_access_token js)) (\<lambda>token.
       jwt_logout env (jse_service js) now now_s token)"

section \<open>Inversion\<close>

lemma jwt_rotate_Inr:
  assumes "jwt_rotate env svc new now t now_s clk token db = (Inr pair, db')"
  obtains c jti old r x where
    "decode_claims env svc now_s token = Inr c" "cl_aud c = Some ''refresh''"
    "cl_jti c = Some jti" "from_raw jti = Some old"
    "lookup_hash (token_hash (env_digest env) old) now (db_rows db) = Some r"
    "row_to_session_data r = Inr x"
    "db_rows db' = rotated_rows (row_id r) (token_hash (env_digest env) new) t (db_rows db)"
    "store_inv (db_rows db')" "mint_pair env svc clk (row_user_id r) (expose new) = Inr pair"
proof -
  obtain c jti old x db1 db2 where c: "decode_claims env svc now_s token = Inr c" "cl_aud c = Some ''refresh''"
      "cl_jti c = Some jti" "from_raw jti = Some old"
    and rd: "read_by_token_hash (token_hash (env_digest env) old) now db = (Inr (Some x), db1)"
    and rot: "rotate_token_to (env_digest env) (sd_id x) new t db1 = (Inr (), db2)"
    and mint: "mint_pair env svc clk (sd_user_id x) (expose new) = Inr pair" "db' = db2"
    using assms
    by (auto simp: jwt_rotate_def db_lift_eq db_bind_eq_Inr ok_or_eq_Inr split: if_splits)
  obtain r where r: "lookup_hash (token_hash (env_digest env) old) now (db_rows db) = Some r"
      "row_to_session_data r = Inr x" "db_rows db1 = db_rows db"
    using read_by_token_hash_Inr [OF rd] by (auto split: option.splits)
  have x: "sd_id x = row_id r" "sd_user_id x = row_user_id r"
    using r(2) by (auto simp: row_to_session_data_def split: option.splits)
  show thesis
    using that [OF c r(1,2)] rotate_Inr(1) [OF rot] r(3) mint x by metis
qed

lemma rotated_hashes:
  assumes "store_inv rows" "store_inv (rotated_rows (row_id r) h' t rows)"
    "lookup_hash h now rows = Some r" "h \<noteq> h'"
  shows "h \<notin> row_token_hash ` set (rotated_rows (row_id r) h' t rows)"
proof
  assume "h \<in> row_token_hash ` set (rotated_rows (row_id r) h' t rows)"
  then obtain q where "q \<in> set (rotated_rows (row_id r) h' t rows)" "row_token_hash q = h" by blast
  with rotated_lookup(1) [OF assms, of "row_expires_at q - 1"] show False
    unfolding lookup_hash_None by fastforce
qed

section \<open>Minted tokens\<close>

text \<open>
  What is assumed of serde_json: the header text reads back as an object with its \<open>alg\<close> entry,
  and a value written as text reads back with the same entries.
\<close>

definition serde_json_ok :: "jwt_env \<Rightarrow> bool" where
  "serde_json_ok env \<longleftrightarrow>
     (\<exists>header. env_parse env (as_bytes (jwt_header ''HS256'')) = Some header \<and>
        json_get header ''alg'' = Some (JString ''HS256'')) \<and>
     (\<forall>v bs. env_to_vec env v = Some bs \<longrightarrow> (\<exists>w. env_parse env bs = Some w \<and> json_get w = json_get v))"

lemma mint_claims_simps [simp]:
  "cl_iss (mint_claims iss u a j e n) = iss" "cl_sub (mint_claims iss u a j e n) = Some u"
  "cl_aud (mint_claims iss u a j e n) = Some a" "cl_jti (mint_claims iss u a j e n) = Some j"
  "cl_exp (mint_claims iss u a j e n) = Some e" "cl_nbf (mint_claims iss u a j e n) = None"
  "cl_iat (mint_claims iss u a j e n) = Some n"
  by (cases iss; simp add: mint_claims_def claims_defs)+

lemma filled_mint [simp]: "filled_claims now d (mint_claims iss u a j e n) = mint_claims iss u a j e n"
  by (cases iss) (simp_all add: filled_claims_def mint_claims_def claims_defs)

lemma service_new_simps:
  assumes "jwt_service_new env cfg = Inr svc"
  shows "svc_encoder svc = encoder_from_config (env_hmac env) cfg"
    "svc_decoder svc = decoder_from_config (env_hmac env) cfg" "svc_config svc = cfg"
    "session_ttl_secs (svc_store svc) = refresh_ttl_secs cfg" "0 < max_sessions_per_user (svc_store svc)"
  using assms by (auto simp: jwt_service_new_def split: if_splits)

lemma decode_minted:
  assumes "jwt_service_new env cfg = Inr svc" "serde_json_ok env"
    and "encode_claims env svc n (mint_claims (issuer cfg) u a j e i) = Inr token"
    and "now_s \<le> e" "e < 2 ^ 64" "i < 2 ^ 64"
  shows "decode_claims env svc now_s token = Inr (mint_claims (issuer cfg) u a j e i)"
proof -
  obtain header where h: "env_parse env (as_bytes (jwt_header ''HS256'')) = Some header"
      "json_get header ''alg'' = Some (JString ''HS256'')"
    using assms(2) unfolding serde_json_ok_def by blast
  have rt: "\<exists>w. env_parse env bs = Some w \<and> json_get w = json_get v" if "env_to_vec env v = Some bs" for v bs
    using assms(2) that unfolding serde_json_ok_def by blast
  have enc: "jwt_encode (env_to_vec env) (\<lambda>c. Some (claims_entries c)) (encoder_from_config (env_hmac env) cfg)
      n (mint_claims (issuer cfg) u a j e i) = Inr token"
    using assms(3) service_new_simps(1) [OF assms(1)] by (simp add: encode_claims_def)
  show ?thesis
    using config_roundtrip [where parse = "env_parse env" and to_vec = "env_to_vec env" and exp = e
        and now' = now_s, OF enc h rt] assms(4-6) service_new_simps(2) [OF assms(1)]
    by (simp add: decode_claims_def claims_wf_def u64_opt_def)
qed

lemma bearer_request:
  assumes "encode_claims env svc n c = Inr token" "p_headers parts = [(''authorization'', ''Bearer '' @ token)]"
  shows "bearer_source parts = Some token"
proof -
  note safe = jwt_encode_header_safe [OF assms(1) [unfolded encode_claims_def]]
  have "header_str parts ''authorization'' = Some (''Bearer '' @ token)"
    using safe(2) assms(2)
    by (simp add: header_str_def header_get_def header_to_str_def to_ascii_lowercase_def visible_ascii_def)
  moreover have "split_once CHR '' '' (''Bearer '' @ token) = Some (''Bearer'', token)"
    using split_once_append [of "CHR '' ''" "''Bearer''" token] by simp
  ultimately show ?thesis
    using safe(1,3) by (simp add: bearer_source_def eq_ignore_ascii_case_def)
qed

lemma mint_pair_Inr:
  assumes "mint_pair env svc clk u jti = Inr pair"
  shows "encode_claims env svc (clk 3) (mint_claims (issuer (svc_config svc)) u ''access'' jti
      (u64_add (clk 0) (access_ttl_secs (svc_config svc))) (clk 1)) = Inr (access_token pair)"
    and "encode_claims env svc (clk 4) (mint_claims (issuer (svc_config svc)) u ''refresh'' jti
      (u64_add (clk 0) (refresh_ttl_secs (svc_config svc))) (clk 2)) = Inr (refresh_token pair)"
    and "access_expires_at pair = u64_add (clk 0) (access_ttl_secs (svc_config svc))"
    and "refresh_expires_at pair = u64_add (clk 0) (refresh_ttl_secs (svc_config svc))"
  using assms by (auto simp: mint_pair_def Let_def result_simps)

lemma jwt_layer_call_decoded:
  assumes "stateful_validation (svc_config svc)"
    "bearer_source parts = Some token" "decode_claims env svc now_s token = Inr c"
  shows "jwt_layer_call env (jwt_layer_from_service svc) now now_s parts db =
      (if cl_aud c \<noteq> Some ''access'' then (Inl (into_response (auth_err ''auth:aud_mismatch'')), db)
       else (case Option.bind (cl_jti c) from_raw of
           Some t \<Rightarrow> (case read_by_token_hash (token_hash (env_digest env) t) now db of
              (Inr (Some raw), db') \<Rightarrow> (Inr (Some (session_from raw), c), db')
            | (Inr None, db') \<Rightarrow> (Inl (into_response (auth_err ''auth:session_not_found'')), db')
            | (Inl e, db') \<Rightarrow> (Inl (into_response e), db'))
         | None \<Rightarrow> (Inl (into_response (auth_err ''auth:session_not_found'')), db)))"
  using assms
  by (simp add: jwt_layer_call_def jwt_layer_from_service_def decode_claims_def split: option.split prod.split sum.split)

section \<open>An example service\<close>

text \<open>
  One service with concrete parameters, to evaluate the theorems on: the digest is the identity,
  the MAC concatenates key and message, and JSON text is an index into a table of four payloads.
\<close>

definition ex_config :: jwt_sessions_config where
  "ex_config = (jwt_sessions_config_new ''k'')\<lparr>refresh_ttl_secs := 3600\<rparr>"

definition ex_token :: "u8 \<Rightarrow> session_token" where
  "ex_token b = SessionToken (replicate 32 b)"

definition ex_claims :: "string \<Rightarrow> u8 \<Rightarrow> nat \<Rightarrow> claims" where
  "ex_claims aud b exp = mint_claims None ''u'' aud (expose (ex_token b)) exp 100"

definition ex_payloads :: "json list" where
  "ex_payloads = map claims_to_value
     [ex_claims ''access'' 1 1000, ex_claims ''refresh'' 1 3700,
      ex_claims ''access'' 2 1000, ex_claims ''refresh'' 2 3700]"

definition ex_env :: jwt_env where
  "ex_env = \<lparr>env_digest = id, env_hmac = (@),
     env_to_vec = (\<lambda>v. if v \<in> set ex_payloads
        then Some [of_nat (length (takeWhile (\<lambda>x. x \<noteq> v) ex_payloads))] else None),
     env_parse = (\<lambda>bs. case bs of
        [b] \<Rightarrow> if unat b < length ex_payloads then Some (ex_payloads ! unat b) else None
      | _ \<Rightarrow> if bs = as_bytes (jwt_header ''HS256'') then Some (JObject [(''alg'', JString ''HS256'')]) else None)\<rparr>"

definition ex_service :: jwt_service where
  "ex_service = projr (jwt_service_new ex_env ex_config)"

definition ex_db :: session_db where
  "ex_db = \<lparr>db_rows = [], db_faults = []\<rparr>"

definition ex_row :: session_row where
  "ex_row = new_session_row id (svc_store ex_service) ''s1'' (ex_token 1) 5 demo_client ''u'' None"

definition ex_db1 :: session_db where
  "ex_db1 = \<lparr>db_rows = [ex_row], db_faults = []\<rparr>"

definition ex_pair :: "u8 \<Rightarrow> token_pair" where
  "ex_pair b = projr (mint_pair ex_env ex_service (\<lambda>_. 100) ''u'' (expose (ex_token b)))"

lemma ex_service_new: "jwt_service_new ex_env ex_config = Inr ex_service"
  by (simp add: ex_service_def jwt_service_new_def ex_config_def jwt_sessions_config_new_def)

lemmas ex_svc = service_new_simps [OF ex_service_new]

lemma ex_config_simps [simp]:
  "issuer ex_config = None" "stateful_validation ex_config" "access_ttl_secs ex_config = 900"
  "refresh_ttl_secs ex_config = 3600"
  by (simp_all add: ex_config_def jwt_sessions_config_new_def jwt_sessions_config_default_def)

lemma ex_digest [simp]: "env_digest ex_env = id"
  by (simp add: ex_env_def)

lemma ex_token_wf [simp]: "wf_token (ex_token b)"
  by (simp add: wf_token_def ex_token_def)

lemma ex_token_raw [simp]: "from_raw (expose (ex_token b)) = Some (ex_token b)"
  by (simp add: from_raw_expose)

lemma ex_hashes: "token_hash id (ex_token 1) \<noteq> token_hash id (ex_token 2)"
  unfolding ex_token_def by code_simp

lemma ex_json: "serde_json_ok ex_env"
  unfolding serde_json_ok_def
proof (intro conjI allI impI)
  show "\<exists>header. env_parse ex_env (as_bytes (jwt_header ''HS256'')) = Some header \<and>
      json_get header ''alg'' = Some (JString ''HS256'')"
    by (simp add: ex_env_def jwt_header_def as_bytes_def)
  fix v bs
  assume v: "env_to_vec ex_env v = Some bs"
  then have mem: "v \<in> set ex_payloads" by (simp add: ex_env_def split: if_splits)
  let ?i = "length (takeWhile (\<lambda>x. x \<noteq> v) ex_payloads)"
  have "v \<in> set xs \<Longrightarrow> length (takeWhile (\<lambda>x. x \<noteq> v) xs) < length xs" for xs by (induction xs) auto
  then have i: "?i < length ex_payloads" using mem by blast
  moreover have "length ex_payloads = 4" by (simp add: ex_payloads_def)
  ultimately have "unat (of_nat ?i :: u8) = ?i" by (simp add: unat_of_nat take_bit_nat_eq_self)
  moreover have "ex_payloads ! ?i = v" using i nth_length_takeWhile by blast
  moreover have "bs = [of_nat ?i]" using v mem by (simp add: ex_env_def)
  ultimately have "env_parse ex_env bs = Some v" using i by (simp add: ex_env_def)
  then show "\<exists>w. env_parse ex_env bs = Some w \<and> json_get w = json_get v" by blast
qed

lemma ex_encode:
  assumes "aud \<in> {''access'', ''refresh''}" "b \<in> {1, 2}" "exp = (if aud = ''access'' then 1000 else 3700)"
  shows "\<exists>t. encode_claims ex_env ex_service n (ex_claims aud b exp) = Inr t"
proof -
  have "claims_to_value (ex_claims aud b exp) \<in> set ex_payloads"
    using assms by (auto simp: ex_payloads_def)
  then have "\<exists>bs. env_to_vec ex_env (JObject (claims_entries (ex_claims aud b exp))) = Some bs"
    by (simp add: ex_env_def claims_to_value_def)
  then obtain bs where bs: "env_to_vec ex_env (JObject (claims_entries (ex_claims aud b exp))) = Some bs" ..
  have "map_of (claims_entries (ex_claims aud b exp)) ''exp'' = Some (JNumber (int exp))"
    by (simp add: claims_entries_exp ex_claims_def)
  then show ?thesis
    using bs by (simp add: encode_claims_def jwt_encode_def ex_svc encoder_from_config_def Let_def
        hmac_signer_new_def hmac_sign_def)
qed

lemma ex_mint: "b \<in> {1, 2} \<Longrightarrow> mint_pair ex_env ex_service (\<lambda>_. 100) ''u'' (expose (ex_token b)) = Inr (ex_pair b)"
  using ex_encode [of "''access''" b 1000 100] ex_encode [of "''refresh''" b 3700 100]
  by (auto simp: ex_pair_def mint_pair_def Let_def ex_svc u64_add_def ex_claims_def)

lemma ex_expiries: "b \<in> {1, 2} \<Longrightarrow> access_expires_at (ex_pair b) = 1000 \<and> refresh_expires_at (ex_pair b) = 3700"
  using mint_pair_Inr(3,4) [OF ex_mint, of b] by (simp add: ex_svc u64_add_def)

lemma ex_decode:
  assumes "now_s \<le> 1000"
  shows "decode_claims ex_env ex_service now_s (access_token (ex_pair 1)) = Inr (ex_claims ''access'' 1 1000)"
    "decode_claims ex_env ex_service now_s (refresh_token (ex_pair 1)) = Inr (ex_claims ''refresh'' 1 3700)"
  using mint_pair_Inr(1,2) [OF ex_mint, of 1] assms
    decode_minted [OF ex_service_new ex_json, where token = "access_token (ex_pair 1)" and e = 1000 and i = 100 and now_s = now_s]
    decode_minted [OF ex_service_new ex_json, where token = "refresh_token (ex_pair 1)" and e = 3700 and i = 100 and now_s = now_s]
  by (simp_all add: ex_claims_def ex_svc u64_add_def)

lemma ex_store_simps: "max_sessions_per_user (svc_store ex_service) = 20" "session_ttl_secs (svc_store ex_service) = 3600"
  by (simp_all add: ex_service_def jwt_service_new_def ex_config_def jwt_sessions_config_new_def
      jwt_sessions_config_default_def)

lemma ex_create: "\<exists>sd. create id (svc_store ex_service) ''s1'' (ex_token 1) 5 demo_client ''u'' None ex_db =
    (Inr (sd, ex_token 1), ex_db1) \<and> sd_user_id sd = ''u''"
proof -
  have "store_inv (db_rows ex_db1)" by (simp add: store_inv_def ex_db1_def)
  moreover have "trim_excess ''u'' 5 20 [ex_row] = Inr (0, [ex_row])"
    by (simp add: trim_excess_def Let_def sql_first_ids_def sql_delete_def)
  ultimately show ?thesis
    by (simp add: create_unfold db_bind_def db_execute_healthy healthy_def ex_db_def sql_insert_def
        session_check_None [THEN iffD2] ex_db1_def ex_row_def ex_store_simps pop_fault_def
        row_to_session_data_def new_session_row_def)
qed

lemma ex_authenticate:
  "authenticate ex_env ex_service ''s1'' (ex_token 1) 5 (\<lambda>_. 100) ''u'' demo_client ex_db = (Inr (ex_pair 1), ex_db1)"
  using ex_create ex_mint [of 1] by (auto simp: authenticate_def db_bind_def)

text \<open>The second life of the example: the session is rotated to another token.\<close>

definition ex_db2 :: session_db where
  "ex_db2 = \<lparr>db_rows = rotated_rows ''s1'' (token_hash id (ex_token 2)) 7 [ex_row], db_faults = []\<rparr>"

lemma ex_row_simps [simp]:
  "row_id ex_row = ''s1''" "row_user_id ex_row = ''u''" "row_token_hash ex_row = token_hash id (ex_token 1)"
  "row_expires_at ex_row = 5 + seconds 3600" "row_last_active_at ex_row = 5"
  by (simp_all add: ex_row_def ex_store_simps)

lemma ex_read:
  assumes "now < 5 + seconds 3600"
  shows "\<exists>x. read_by_token_hash (token_hash id (ex_token 1)) now ex_db1 = (Inr (Some x), ex_db1) \<and>
    sd_id x = ''s1'' \<and> sd_user_id x = ''u''"
proof -
  have "lookup_hash (token_hash id (ex_token 1)) now [ex_row] = Some ex_row"
    using assms by (simp add: lookup_hash_def)
  then show ?thesis
    by (simp add: read_by_token_hash_healthy healthy_def ex_db1_def pop_fault_def)
      (simp add: ex_row_def new_session_row_def row_to_session_data_def)
qed

lemma ex_rotate:
  "jwt_rotate ex_env ex_service (ex_token 2) 6 7 50 (\<lambda>_. 100) (refresh_token (ex_pair 1)) ex_db1 =
     (Inr (ex_pair 2), ex_db2)"
proof -
  have "store_inv (rotated_rows ''s1'' (token_hash id (ex_token 2)) 7 [ex_row])"
    by (simp add: store_inv_def rotated_rows_def)
  then have rot: "rotate_token_to id ''s1'' (ex_token 2) 7 ex_db1 = (Inr (), ex_db2)"
    by (simp add: rotate_token_to_def db_bind_def db_execute_healthy healthy_def ex_db1_def
        sql_update_def session_check_None [THEN iffD2] rotated_rows_def ex_db2_def pop_fault_def)
  obtain x where "read_by_token_hash (token_hash id (ex_token 1)) 6 ex_db1 = (Inr (Some x), ex_db1)"
      "sd_id x = ''s1''" "sd_user_id x = ''u''"
    using ex_read [of 6] by (auto simp: seconds_def)
  then show ?thesis
    using ex_decode(2) [of 50] rot ex_mint [of 2]
    by (simp add: jwt_rotate_def ex_claims_def db_bind_Inr)
qed

definition ex_request :: "string \<Rightarrow> parts" where
  "ex_request token = \<lparr>p_headers = [(''authorization'', ''Bearer '' @ token)], p_query = None\<rparr>"

lemma ex_call:
  "\<exists>s db'. jwt_layer_call ex_env (jwt_layer_from_service ex_service) 6 50 (ex_request (access_token (ex_pair 1))) ex_db1 =
     (Inr (Some s, ex_claims ''access'' 1 1000), db')"
proof -
  have b: "bearer_source (ex_request (access_token (ex_pair 1))) = Some (access_token (ex_pair 1))"
    by (rule bearer_request [OF mint_pair_Inr(1) [OF ex_mint, of 1]]) (simp_all add: ex_request_def)
  have st: "stateful_validation (svc_config ex_service)" by (simp add: ex_svc)
  obtain x where "read_by_token_hash (token_hash id (ex_token 1)) 6 ex_db1 = (Inr (Some x), ex_db1)"
    using ex_read [of 6] by (auto simp: seconds_def)
  then show ?thesis
    unfolding jwt_layer_call_decoded [OF st b ex_decode(1) [of 50, simplified]] by (simp add: ex_claims_def)
qed

lemma ex_logout:
  "\<exists>db'. jwt_logout ex_env ex_service 6 50 (access_token (ex_pair 1)) ex_db1 = (Inr (), db')"
proof -
  obtain x where "read_by_token_hash (token_hash id (ex_token 1)) 6 ex_db1 = (Inr (Some x), ex_db1)"
    using ex_read [of 6] by (auto simp: seconds_def)
  then show ?thesis
    using ex_decode(1) [of 50]
    by (simp add: jwt_logout_def ex_claims_def db_bind_Inr)
      (simp add: destroy_def db_bind_def db_execute_healthy healthy_def ex_db1_def sql_delete_def)
qed

lemma ex_inv: "store_inv (db_rows ex_db1)" "healthy ex_db1"
  by (simp_all add: ex_db1_def store_inv_def healthy_def)

section \<open>Properties\<close>

text \<open>C9. A refresh token works once: after a successful rotation, presenting the same refresh token
  again fails, at any later time and whatever store operations happened in between, provided the
  new session token, and those issued in between, do not have the old one's hash.\<close>

theorem refresh_single_use:
  assumes "store_inv (db_rows db)"
    and "jwt_rotate env svc new now t now_s clk token db = (Inr pair, db1)"
    and "decode_claims env svc now_s token = Inr c" "cl_jti c = Some (expose old)" "wf_token old"
    and "token_hash (env_digest env) old \<noteq> token_hash (env_digest env) new"
    and "\<And>op. op \<in> set ops \<Longrightarrow> token_hash (env_digest env) old \<notin> issued_hashes (env_digest env) op"
  shows "fst (jwt_rotate env svc new' now' t' now_s' clk' token
     (fold (store_exec (env_digest env) cfg) ops db1)) \<noteq> Inr pair'"
proof
  let ?dg = "env_digest env"
  let ?db2 = "fold (store_exec ?dg cfg) ops db1"
  assume "fst (jwt_rotate env svc new' now' t' now_s' clk' token ?db2) = Inr pair'"
  then obtain db3 where again: "jwt_rotate env svc new' now' t' now_s' clk' token ?db2 = (Inr pair', db3)"
    by (metis eq_fst_iff)
  have old: "from_raw (expose old) = Some old" using from_raw_expose assms(5) .
  obtain r where r: "lookup_hash (token_hash ?dg old) now (db_rows db) = Some r"
      "db_rows db1 = rotated_rows (row_id r) (token_hash ?dg new) t (db_rows db)" "store_inv (db_rows db1)"
    using assms(2) by (rule jwt_rotate_Inr) (use assms(3,4) old in auto)
  have "token_hash ?dg old \<notin> table_hashes db1"
    using rotated_hashes [OF assms(1) _ r(1) assms(6)] r(2,3) by (simp add: table_hashes_def)
  then have gone: "token_hash ?dg old \<notin> table_hashes ?db2"
    using assms(7) by (rule sessions.stays_revoked)
  obtain r' where "lookup_hash (token_hash ?dg old) now' (db_rows ?db2) = Some r'"
    using again
  proof (rule jwt_rotate_Inr)
    fix c' jti old' r'
    assume *: "decode_claims env svc now_s' token = Inr c'" "cl_jti c' = Some jti" "from_raw jti = Some old'"
      "lookup_hash (token_hash ?dg old') now' (db_rows ?db2) = Some r'"
    have "c' = c" using assms(3) *(1) jwt_decode_time unfolding decode_claims_def by metis
    with assms(4) * old have "old' = old" by simp
    with * that show thesis by blast
  qed
  then have "r' \<in> set (db_rows ?db2) \<and> row_token_hash r' = token_hash ?dg old"
    by (auto simp: lookup_hash_def find_Some_iff)
  with gone show False unfolding table_hashes_def by (metis image_eqI)
qed

theorem refresh_single_use_witness:
  "fst (jwt_rotate ex_env ex_service (ex_token 3) 8 9 60 (\<lambda>_. 60) (refresh_token (ex_pair 1))
     (fold (store_exec (env_digest ex_env) demo_config) [TouchOp ''s1'' 12 99] ex_db2)) \<noteq> Inr (ex_pair 2)"
proof (rule refresh_single_use [OF ex_inv(1) ex_rotate ex_decode(2)])
  show "cl_jti (ex_claims ''refresh'' 1 3700) = Some (expose (ex_token 1))" by (simp add: ex_claims_def)
qed (simp_all add: ex_hashes)

text \<open>What the middleware of a service lets through.\<close>

lemma jwt_layer_call_Inr:
  assumes "jwt_layer_call env (jwt_layer_from_service svc) now now_s parts db = (Inr (s, c), db')"
  obtains token where "bearer_source parts = Some token" "decode_claims env svc now_s token = Inr c"
    "cl_aud c = Some ''access''"
    "stateful_validation (svc_config svc) \<Longrightarrow> \<exists>t r x. Option.bind (cl_jti c) from_raw = Some t \<and>
       lookup_hash (token_hash (env_digest env) t) now (db_rows db) = Some r \<and>
       row_to_session_data r = Inr x \<and> s = Some (session_from x)"
proof -
  obtain token where tok: "bearer_source parts = Some token" "decode_claims env svc now_s token = Inr c"
      "cl_aud c = Some ''access''"
    using assms
    by (auto simp: jwt_layer_call_def jwt_layer_from_service_def decode_claims_def
        split: option.splits sum.splits if_splits prod.splits)
  moreover have "\<exists>t r x. Option.bind (cl_jti c) from_raw = Some t \<and>
       lookup_hash (token_hash (env_digest env) t) now (db_rows db) = Some r \<and>
       row_to_session_data r = Inr x \<and> s = Some (session_from x)"
    if st: "stateful_validation (svc_config svc)"
  proof -
    obtain t x where t: "Option.bind (cl_jti c) from_raw = Some t" "s = Some (session_from x)"
        "read_by_token_hash (token_hash (env_digest env) t) now db = (Inr (Some x), db')"
      using assms tok st
      by (auto simp: jwt_layer_call_def jwt_layer_from_service_def decode_claims_def
          split: option.splits sum.splits prod.splits)
    then show ?thesis using read_by_token_hash_Inr [OF t(3)] by (auto split: option.splits)
  qed
  ultimately show thesis using that by blast
qed

lemma jwt_logout_Inr:
  assumes "jwt_logout env svc now now_s token db = (Inr (), db')" "store_inv (db_rows db)"
  obtains c t where "decode_claims env svc now_s token = Inr c" "cl_aud c = Some ''access''"
    "Option.bind (cl_jti c) from_raw = Some t"
    "\<And>later. now \<le> later \<Longrightarrow> lookup_hash (token_hash (env_digest env) t) later (db_rows db') = None"
proof -
  obtain c jti t found db1 where c: "decode_claims env svc now_s token = Inr c" "cl_aud c = Some ''access''"
      "cl_jti c = Some jti" "from_raw jti = Some t"
    and rd: "read_by_token_hash (token_hash (env_digest env) t) now db = (Inr found, db1)"
    and fin: "(case found of Some raw \<Rightarrow> destroy (sd_id raw) | None \<Rightarrow> db_lift (Inr ())) db1 = (Inr (), db')"
    using assms(1)
    by (auto simp: jwt_logout_def db_lift_eq db_bind_eq_Inr ok_or_eq_Inr split: if_splits)
  note look = read_by_token_hash_Inr [OF rd]
  have "lookup_hash (token_hash (env_digest env) t) later (db_rows db') = None" if "now \<le> later" for later
  proof (cases "lookup_hash (token_hash (env_digest env) t) now (db_rows db)")
    case None
    with look fin have "db_rows db' = db_rows db" by simp
    with None that show ?thesis unfolding lookup_hash_None by fastforce
  next
    case (Some r)
    then obtain x where x: "row_to_session_data r = Inr x" "found = Some x" using look by auto
    have r: "r \<in> set (db_rows db)" "row_token_hash r = token_hash (env_digest env) t"
      using Some assms(2) by (simp_all add: lookup_hash_Some)
    have "sd_id x = row_id r" using x(1) by (auto simp: row_to_session_data_def split: option.splits)
    then have rows: "db_rows db' = filter (\<lambda>q. row_id q \<noteq> row_id r) (db_rows db)"
      using fin x(2) look by (auto simp: destroy_def db_bind_eq_Inr dest!: db_execute_Inr)
    have "row_token_hash q \<noteq> token_hash (env_digest env) t" if "q \<in> set (db_rows db')" for q
    proof
      assume "row_token_hash q = token_hash (env_digest env) t"
      then have "q = r" using that assms(2) r unfolding rows by (auto simp: store_inv_def distinct_map inj_on_def)
      with that show False by (simp add: rows)
    qed
    then show ?thesis unfolding lookup_hash_None by blast
  qed
  moreover have "Option.bind (cl_jti c) from_raw = Some t" using c(3,4) by simp
  ultimately show thesis using that c(1,2) by blast
qed

text \<open>C8. Only live access tokens reach a handler: when the middleware of a service built from a
  configuration calls the inner service, the request carried a bearer token signed with the
  configured secret and not expired, its audience is \<^verbatim>\<open>access\<close>, and with stateful validation the
  handler gets the session of an unexpired row of the table whose token hash is that of the
  token's \<^verbatim>\<open>jti\<close>.\<close>

theorem jwt_layer_admits:
  assumes "jwt_service_new env cfg = Inr svc" "now_s < 2 ^ 64"
    and "jwt_layer_call env (jwt_layer_from_service svc) now now_s parts db = (Inr (s, c), db')"
  shows "(\<exists>token h p sg exp. bearer_source parts = Some token \<and> token = h @ ''.'' @ p @ ''.'' @ sg \<and>
      base64url_decode sg = Inr (env_hmac env (as_bytes (signing_secret cfg)) (as_bytes (h @ ''.'' @ p))) \<and>
      cl_exp c = Some exp \<and> now_s \<le> exp) \<and>
    cl_aud c = Some ''access'' \<and>
    (stateful_validation cfg \<longrightarrow> (\<exists>t r x. Option.bind (cl_jti c) from_raw = Some t \<and>
       lookup_hash (token_hash (env_digest env) t) now (db_rows db) = Some r \<and>
       row_to_session_data r = Inr x \<and> s = Some (session_from x)))"
  using assms(3)
proof (rule jwt_layer_call_Inr)
  fix token
  assume tok: "bearer_source parts = Some token" "decode_claims env svc now_s token = Inr c"
    and aud: "cl_aud c = Some ''access''"
    and live: "stateful_validation (svc_config svc) \<Longrightarrow> \<exists>t r x. Option.bind (cl_jti c) from_raw = Some t \<and>
       lookup_hash (token_hash (env_digest env) t) now (db_rows db) = Some r \<and>
       row_to_session_data r = Inr x \<and> s = Some (session_from x)"
  have svc: "svc_decoder svc = decoder_from_config (env_hmac env) cfg" "svc_config svc = cfg"
    using assms(1) by (auto simp: jwt_service_new_def split: if_splits)
  obtain h p sg exp where "token = h @ ''.'' @ p @ ''.'' @ sg"
    "base64url_decode sg = Inr (env_hmac env (as_bytes (signing_secret cfg)) (as_bytes (h @ ''.'' @ p)))"
    "cl_exp c = Some exp" "now_s \<le> exp"
    using decode_config_authentic [OF tok(2) [unfolded decode_claims_def svc] assms(2)] by blast
  with tok aud live svc show ?thesis by blast
qed

theorem jwt_layer_admits_witness:
  "\<exists>s c. fst (jwt_layer_call ex_env (jwt_layer_from_service ex_service) 6 50
      (ex_request (access_token (ex_pair 1))) ex_db1) = Inr (s, c) \<and> cl_aud c = Some ''access''"
proof -
  obtain s db' where "jwt_layer_call ex_env (jwt_layer_from_service ex_service) 6 50
      (ex_request (access_token (ex_pair 1))) ex_db1 = (Inr (Some s, ex_claims ''access'' 1 1000), db')"
    using ex_call by blast
  then show ?thesis using jwt_layer_admits [OF ex_service_new, of 50] by fastforce
qed

text \<open>Logging out ends the session at once: after a successful logout no request with that access
  token, nor any other token with the same \<^verbatim>\<open>jti\<close>, reaches a handler behind the stateful
  middleware.\<close>

theorem jwt_logout_ends_session:
  assumes "store_inv (db_rows db)" "jwt_logout env svc now now_s token db = (Inr (), db')"
    and "stateful_validation (svc_config svc)" "now \<le> later"
    and "decode_claims env svc now_s token = Inr c" "cl_jti c' = cl_jti c"
  shows "fst (jwt_layer_call env (jwt_layer_from_service svc) later now_s' parts db') \<noteq> Inr (s, c')"
proof
  assume "fst (jwt_layer_call env (jwt_layer_from_service svc) later now_s' parts db') = Inr (s, c')"
  then obtain db2 where "jwt_layer_call env (jwt_layer_from_service svc) later now_s' parts db' = (Inr (s, c'), db2)"
    by (metis eq_fst_iff)
  then obtain t r where t: "Option.bind (cl_jti c') from_raw = Some t"
      "lookup_hash (token_hash (env_digest env) t) later (db_rows db') = Some r"
    by (rule jwt_layer_call_Inr) (use assms(3) in blast)
  from assms(2,1) have "lookup_hash (token_hash (env_digest env) t) later (db_rows db') = None"
  proof (rule jwt_logout_Inr)
    fix c1 t1
    assume "decode_claims env svc now_s token = Inr c1" "Option.bind (cl_jti c1) from_raw = Some t1"
      "\<And>later. now \<le> later \<Longrightarrow> lookup_hash (token_hash (env_digest env) t1) later (db_rows db') = None"
    then show ?thesis using assms(4-6) t(1) by simp
  qed
  with t(2) show False by simp
qed

theorem jwt_logout_ends_session_witness:
  "\<exists>db'. fst (jwt_layer_call ex_env (jwt_layer_from_service ex_service) 20 50
      (ex_request (access_token (ex_pair 1))) db') \<noteq> Inr (None, ex_claims ''access'' 1 1000)"
proof -
  obtain db' where out: "jwt_logout ex_env ex_service 6 50 (access_token (ex_pair 1)) ex_db1 = (Inr (), db')"
    using ex_logout by blast
  have "fst (jwt_layer_call ex_env (jwt_layer_from_service ex_service) 20 50
      (ex_request (access_token (ex_pair 1))) db') \<noteq> Inr (None, ex_claims ''access'' 1 1000)"
    by (rule jwt_logout_ends_session [OF ex_inv(1) out _ _ ex_decode(1)]) (simp_all add: ex_svc)
  then show ?thesis by blast
qed

lemma authenticate_Inr:
  assumes "authenticate env svc i tok now clk u info db = (Inr pair, db')"
  obtains sd where "create (env_digest env) (svc_store svc) i tok now info u None db = (Inr (sd, tok), db')"
    "sd_id sd = i" "sd_user_id sd = u" "mint_pair env svc clk u (expose tok) = Inr pair"
proof -
  obtain sd t where c: "create (env_digest env) (svc_store svc) i tok now info u None db = (Inr (sd, t), db')"
    and m: "mint_pair env svc clk (sd_user_id sd) (expose t) = Inr pair"
    using assms by (auto simp: authenticate_def db_bind_eq_Inr)
  have "t = tok" "sd_id sd = i" "sd_user_id sd = u"
    using create_Inr [OF c] by (auto simp: row_to_session_data_def new_session_row_def)
  with that c m show thesis by simp
qed



end
