(* ===== verification/Job_Queue.thy ===== *)
theory Job_Queue
  imports Encoding Database "HOL-Library.Multiset"
begin

text \<open>
  \<^verbatim>\<open>src/src/job\<close>: the durable job queue. The table \<^verbatim>\<open>jobs\<close> is the list of its rows with the primary
  key and the partial unique index of the documented schema; instants are integers (nanoseconds).
  The worker's poll loop, the spawned job tasks, the stale reaper, the cleanup loop and the
  clients of \<^verbatim>\<open>Enqueuer\<close> share the table: \<open>job_exec\<close> performs one SQL statement of one of them
  (with the task bookkeeping that surrounds it), and a run is any sequence of such events.
  What a handler returns is part of the event that ends its task.
\<close>

section \<open>Status and Meta\<close>

datatype job_status = Pending | Running | Completed | Dead | Cancelled

fun status_as_str :: "job_status \<Rightarrow> string" where
  "status_as_str Pending = ''pending''"
| "status_as_str Running = ''running''"
| "status_as_str Completed = ''completed''"
| "status_as_str Dead = ''dead''"
| "status_as_str Cancelled = ''cancelled''"

definition status_from_str :: "string \<Rightarrow> job_status option" where
  "status_from_str s =
     (if s = ''pending'' then Some Pending
      else if s = ''running'' then Some Running
      else if s = ''completed'' then Some Completed
      else if s = ''dead'' then Some Dead
      else if s = ''cancelled'' then Some Cancelled
      else None)"

fun is_terminal :: "job_status \<Rightarrow> bool" where
  "is_terminal Completed = True"
| "is_terminal Dead = True"
| "is_terminal Cancelled = True"
| "is_terminal _ = False"

text \<open>The deadline is left out of \<open>meta\<close>: it is an instant of tokio's monotonic clock.\<close>

record meta =
  m_id :: string
  m_name :: string
  m_queue :: string
  m_attempt :: nat
  m_max_attempts :: nat

section \<open>Configuration\<close>

record queue_config =
  qc_name :: string
  qc_concurrency :: nat

record cleanup_config =
  cu_interval_secs :: nat
  cu_retention_secs :: nat

record job_config =
  jc_poll_interval_secs :: nat
  jc_stale_threshold_secs :: nat
  jc_stale_reaper_interval_secs :: nat
  jc_drain_timeout_secs :: nat
  jc_queues :: "queue_config list"
  jc_cleanup :: "cleanup_config option"

definition queue_config_default :: queue_config where
  "queue_config_default = \<lparr>qc_name = ''default'', qc_concurrency = 4\<rparr>"

definition cleanup_config_default :: cleanup_config where
  "cleanup_config_default = \<lparr>cu_interval_secs = 3600, cu_retention_secs = 259200\<rparr>"

definition job_config_default :: job_config where
  "job_config_default =
     \<lparr>jc_poll_interval_secs = 1, jc_stale_threshold_secs = 600, jc_stale_reaper_interval_secs = 60,
      jc_drain_timeout_secs = 30, jc_queues = [queue_config_default],
      jc_cleanup = Some cleanup_config_default\<rparr>"

record job_options =
  jo_max_attempts :: nat
  jo_timeout_secs :: nat

definition job_options_default :: job_options where
  "job_options_default = \<lparr>jo_max_attempts = 3, jo_timeout_secs = 300\<rparr>"

section \<open>The table\<close>

record job_row =
  j_id :: string
  j_name :: string
  j_queue :: string
  j_payload :: string
  j_payload_hash :: "string option"
  j_status :: job_status
  j_attempt :: nat
  j_run_at :: int
  j_started_at :: "int option"
  j_completed_at :: "int option"
  j_failed_at :: "int option"
  j_error_message :: "string option"
  j_created_at :: int
  j_updated_at :: int

type_synonym job_db = "job_row db"

definition job_active :: "job_row \<Rightarrow> bool" where
  "job_active r \<longleftrightarrow> j_status r = Pending \<or> j_status r = Running"

text \<open>
  \<^verbatim>\<open>id TEXT PRIMARY KEY\<close>, and the unique index on \<^verbatim>\<open>payload_hash\<close> over the rows that are pending or
  running and have one.
\<close>

definition active_hashes :: "job_row list \<Rightarrow> string list" where
  "active_hashes rows = map (the \<circ> j_payload_hash) (filter (\<lambda>r. job_active r \<and> j_payload_hash r \<noteq> None) rows)"

definition job_check :: "job_row list \<Rightarrow> libsql_error option" where
  "job_check rows =
     (if \<not> distinct (map j_id rows) then Some (SqliteFailure 1555 ''UNIQUE constraint failed: jobs.id'')
      else if \<not> distinct (active_hashes rows)
      then Some (SqliteFailure 2067 ''UNIQUE constraint failed: jobs.payload_hash'')
      else None)"

section \<open>Enqueuer\<close>

datatype enqueue_result = Created string | Duplicate string

record enqueue_options =
  eo_queue :: string
  eo_run_at :: "int option"

definition enqueue_options_default :: enqueue_options where
  "enqueue_options_default = \<lparr>eo_queue = ''default'', eo_run_at = None\<rparr>"

definition is_unique_violation :: "libsql_error \<Rightarrow> bool" where
  "is_unique_violation err =
     (case err of SqliteFailure code msg \<Rightarrow> code = 2067 \<or> code = 1555 | _ \<Rightarrow> False)"

definition compute_payload_hash :: "(u8 list \<Rightarrow> u8 list) \<Rightarrow> string \<Rightarrow> string \<Rightarrow> string" where
  "compute_payload_hash digest name payload_json =
     hex_encode (digest (as_bytes name @ [0] @ as_bytes payload_json))"

definition new_job :: "string \<Rightarrow> int \<Rightarrow> string \<Rightarrow> string \<Rightarrow> string option \<Rightarrow> enqueue_options \<Rightarrow> job_row" where
  "new_job new_id now name payload_json hash options =
     \<lparr>j_id = new_id, j_name = name, j_queue = eo_queue options, j_payload = payload_json,
      j_payload_hash = hash, j_status = Pending, j_attempt = 0,
      j_run_at = (case eo_run_at options of Some t \<Rightarrow> t | None \<Rightarrow> now),
      j_started_at = None, j_completed_at = None, j_failed_at = None, j_error_message = None,
      j_created_at = now, j_updated_at = now\<rparr>"

text \<open>\<open>ser\<close> is \<^verbatim>\<open>serde_json::to_string\<close>; its error is the text serde displays.\<close>

definition enqueue_with ::
  "('a \<Rightarrow> string + string) \<Rightarrow> string \<Rightarrow> int \<Rightarrow> string \<Rightarrow> 'a \<Rightarrow> enqueue_options \<Rightarrow> (job_row, string) dbm" where
  "enqueue_with ser new_id now name payload options =
     db_bind (db_lift (map_err (\<lambda>e. internal (''serialize job payload: '' @ e)) (ser payload))) (\<lambda>payload_json.
     db_bind (db_execute (internal_ctx ''enqueue job'')
       (sql_insert job_check (new_job new_id now name payload_json None options))) (\<lambda>_.
     db_lift (Inr new_id)))"

definition enqueue ::
  "('a \<Rightarrow> string + string) \<Rightarrow> string \<Rightarrow> int \<Rightarrow> string \<Rightarrow> 'a \<Rightarrow> (job_row, string) dbm" where
  "enqueue ser new_id now name payload = enqueue_with ser new_id now name payload enqueue_options_default"

definition enqueue_at ::
  "('a \<Rightarrow> string + string) \<Rightarrow> string \<Rightarrow> int \<Rightarrow> string \<Rightarrow> 'a \<Rightarrow> int \<Rightarrow> (job_row, string) dbm" where
  "enqueue_at ser new_id now name payload run_at =
     enqueue_with ser new_id now name payload (enqueue_options_default\<lparr>eo_run_at := Some run_at\<rparr>)"

definition enqueue_unique_with ::
  "('a \<Rightarrow> string + string) \<Rightarrow> (u8 list \<Rightarrow> u8 list) \<Rightarrow> string \<Rightarrow> int \<Rightarrow> string \<Rightarrow> 'a \<Rightarrow> enqueue_options \<Rightarrow>
   (job_row, enqueue_result) dbm" where
  "enqueue_unique_with ser digest new_id now name payload options =
     db_bind (db_lift (map_err (\<lambda>e. internal (''serialize job payload: '' @ e)) (ser payload))) (\<lambda>payload_json db.
     let hash = compute_payload_hash digest name payload_json
     in case execute_raw (sql_insert job_check (new_job new_id now name payload_json (Some hash) options)) db of
          (Inr _, db1) \<Rightarrow> (Inr (Created new_id), db1)
        | (Inl e, db1) \<Rightarrow>
            if is_unique_violation e
            then (case query_one_map (\<lambda>r. Inr (j_id r))
                         (filter (\<lambda>r. j_payload_hash r = Some hash \<and> job_active r)) db1 of
                    (r, db2) \<Rightarrow>
                      (bind_res (map_err (\<lambda>e. internal (''fetch duplicate job id: '' @ err_message e)) r)
                         (\<lambda>existing. Inr (Duplicate existing)), db2))
            else (Inl (internal_ctx ''enqueue unique job'' e), db1))"

definition enqueue_unique ::
  "('a \<Rightarrow> string + string) \<Rightarrow> (u8 list \<Rightarrow> u8 list) \<Rightarrow> string \<Rightarrow> int \<Rightarrow> string \<Rightarrow> 'a \<Rightarrow>
   (job_row, enqueue_result) dbm" where
  "enqueue_unique ser digest new_id now name payload =
     enqueue_unique_with ser digest new_id now name payload enqueue_options_default"

definition cancel :: "string \<Rightarrow> int \<Rightarrow> (job_row, bool) dbm" where
  "cancel jid now =
     db_bind (db_execute (internal_ctx ''cancel job'')
       (sql_update job_check (\<lambda>r. j_id r = jid \<and> j_status r = Pending)
          (\<lambda>r. r\<lparr>j_status := Cancelled, j_updated_at := now\<rparr>)))
       (\<lambda>affected. db_lift (Inr (0 < affected)))"

section \<open>Worker\<close>

record claimed_job =
  cj_id :: string
  cj_name :: string
  cj_queue :: string
  cj_payload :: string
  cj_attempt :: nat

text \<open>
  The claim statement: the rows with the ids of the inner \<^verbatim>\<open>SELECT\<close> are updated and returned
  (\<^verbatim>\<open>RETURNING\<close>), in table order.
\<close>

definition claimable :: "string list \<Rightarrow> string \<Rightarrow> int \<Rightarrow> job_row \<Rightarrow> bool" where
  "claimable handler_names queue now r \<longleftrightarrow>
     j_status r = Pending \<and> j_run_at r \<le> now \<and> j_queue r = queue \<and> j_name r \<in> set handler_names"

definition claim_row :: "int \<Rightarrow> job_row \<Rightarrow> job_row" where
  "claim_row now r = r\<lparr>j_status := Running, j_attempt := j_attempt r + 1, j_started_at := Some now, j_updated_at := now\<rparr>"

definition claim_ids :: "string list \<Rightarrow> string \<Rightarrow> int \<Rightarrow> nat \<Rightarrow> job_row list \<Rightarrow> string list" where
  "claim_ids handler_names queue now slots rows =
     sql_first_ids (claimable handler_names queue now) j_run_at j_id slots rows"

definition claim_jobs ::
  "string list \<Rightarrow> string \<Rightarrow> int \<Rightarrow> nat \<Rightarrow> job_db \<Rightarrow> (error + claimed_job list) \<times> job_db" where
  "claim_jobs handler_names queue now slots db =
     (let ids = claim_ids handler_names queue now slots (db_rows db);
          claimed = filter (\<lambda>r. j_id r \<in> set ids) (db_rows db)
      in case execute_raw (sql_update job_check (\<lambda>r. j_id r \<in> set ids) (claim_row now)) db of
           (Inl e, db') \<Rightarrow> (Inl (error_from_libsql e), db')
         | (Inr _, db') \<Rightarrow>
             (Inr (map (\<lambda>r. let r' = claim_row now r in
                \<lparr>cj_id = j_id r', cj_name = j_name r', cj_queue = j_queue r', cj_payload = j_payload r',
                 cj_attempt = j_attempt r'\<rparr>) claimed), db'))"

text \<open>A spawned task: its queue's index (whose permit it holds), its \<open>meta\<close> and payload, and the
  instant its job was claimed.\<close>

record job_task =
  tk_queue :: nat
  tk_meta :: meta
  tk_payload :: string
  tk_started :: int

type_synonym handler_map = "(string \<times> job_options) list"

text \<open>The loop over the claimed jobs: look the handler up, take a permit, spawn.\<close>

fun spawn_claimed ::
  "handler_map \<Rightarrow> nat \<Rightarrow> int \<Rightarrow> claimed_job list \<Rightarrow> nat \<Rightarrow> job_task list \<Rightarrow> nat \<times> job_task list" where
  "spawn_claimed handlers q now [] permits tasks = (permits, tasks)"
| "spawn_claimed handlers q now (job # jobs) permits tasks =
     (case map_of handlers (cj_name job) of
        None \<Rightarrow> spawn_claimed handlers q now jobs permits tasks
      | Some options \<Rightarrow>
          if permits = 0 then (permits, tasks)
          else spawn_claimed handlers q now jobs (permits - 1)
                 (tasks @ [\<lparr>tk_queue = q,
                    tk_meta = \<lparr>m_id = cj_id job, m_name = cj_name job, m_queue = cj_queue job,
                      m_attempt = cj_attempt job, m_max_attempts = jo_max_attempts options\<rparr>,
                    tk_payload = cj_payload job, tk_started = now\<rparr>]))"

record worker_state =
  ws_db :: job_db
  ws_permits :: "nat list"
  ws_tasks :: "job_task list"

definition registered :: "string \<Rightarrow> job_options \<Rightarrow> handler_map \<Rightarrow> handler_map" where
  "registered name options handlers = (name, options) # filter (\<lambda>h. fst h \<noteq> name) handlers"

definition handler_names :: "handler_map \<Rightarrow> string list" where
  "handler_names handlers = map fst handlers"

text \<open>\<^verbatim>\<open>WorkerBuilder::start\<close>: a semaphore per queue, with all its permits, and no task.\<close>

definition worker_start :: "job_config \<Rightarrow> job_db \<Rightarrow> worker_state" where
  "worker_start config db = \<lparr>ws_db = db, ws_permits = map qc_concurrency (jc_queues config), ws_tasks = []\<rparr>"

text \<open>One queue's turn in a tick of the poll loop.\<close>

definition poll_queue :: "job_config \<Rightarrow> handler_map \<Rightarrow> nat \<Rightarrow> int \<Rightarrow> worker_state \<Rightarrow> worker_state" where
  "poll_queue config handlers q now s =
     (if handler_names handlers = [] then s
      else let slots = ws_permits s ! q
           in if slots = 0 then s
              else case claim_jobs (handler_names handlers) (qc_name (jc_queues config ! q)) now slots (ws_db s) of
                     (Inl e, db') \<Rightarrow> s\<lparr>ws_db := db'\<rparr>
                   | (Inr claimed, db') \<Rightarrow>
                       (case spawn_claimed handlers q now claimed slots (ws_tasks s) of
                          (permits, tasks) \<Rightarrow>
                            s\<lparr>ws_db := db', ws_permits := (ws_permits s)[q := permits], ws_tasks := tasks\<rparr>))"

text \<open>A whole tick: the queues in order, with the one instant read at its start.\<close>

definition poll_tick :: "job_config \<Rightarrow> handler_map \<Rightarrow> int \<Rightarrow> worker_state \<Rightarrow> worker_state" where
  "poll_tick config handlers now s =
     fold (\<lambda>q. poll_queue config handlers q now) [0..<length (jc_queues config)] s"

text \<open>The delay before a retry, with the wrap-around of a release build.\<close>

definition retry_delay :: "nat \<Rightarrow> nat" where
  "retry_delay attempt = unat (min (5 * 2 ^ (attempt - 1)) (3600 :: u64))"

text \<open>\<open>now\<close> is the instant the task read, \<open>later\<close> the one \<^verbatim>\<open>handle_job_failure\<close> reads. Errors of the
  statement are dropped (\<^verbatim>\<open>let _ =\<close>).\<close>

definition handle_job_failure ::
  "string \<Rightarrow> nat \<Rightarrow> nat \<Rightarrow> string \<Rightarrow> int \<Rightarrow> int \<Rightarrow> job_db \<Rightarrow> job_db" where
  "handle_job_failure job_id attempt max_attempts error_msg now later db =
     (if max_attempts \<le> attempt
      then snd (execute_raw (sql_update job_check (\<lambda>r. j_id r = job_id)
             (\<lambda>r. r\<lparr>j_status := Dead, j_failed_at := Some now, j_error_message := Some error_msg,
                    j_updated_at := now\<rparr>)) db)
      else let retry_at = later + int (retry_delay attempt) * 1000000000
           in snd (execute_raw (sql_update job_check (\<lambda>r. j_id r = job_id)
                (\<lambda>r. r\<lparr>j_status := Pending, j_run_at := retry_at, j_started_at := None,
                       j_failed_at := Some now, j_error_message := Some error_msg,
                       j_updated_at := now\<rparr>)) db))"

datatype job_outcome = JobOk | JobErr string | JobTimeout

definition finish_job :: "job_task \<Rightarrow> job_outcome \<Rightarrow> int \<Rightarrow> int \<Rightarrow> job_db \<Rightarrow> job_db" where
  "finish_job task outcome now later db =
     (let m = tk_meta task
      in case outcome of
           JobOk \<Rightarrow>
             snd (execute_raw (sql_update job_check (\<lambda>r. j_id r = m_id m)
               (\<lambda>r. r\<lparr>j_status := Completed, j_completed_at := Some now, j_updated_at := now\<rparr>)) db)
         | JobErr e \<Rightarrow> handle_job_failure (m_id m) (m_attempt m) (m_max_attempts m) e now later db
         | JobTimeout \<Rightarrow> handle_job_failure (m_id m) (m_attempt m) (m_max_attempts m) ''timeout'' now later db)"

text \<open>The end of a task: its update, then its permit goes back.\<close>

definition end_task :: "nat \<Rightarrow> job_outcome \<Rightarrow> int \<Rightarrow> int \<Rightarrow> worker_state \<Rightarrow> worker_state" where
  "end_task k outcome now later s =
     (if k < length (ws_tasks s)
      then let task = ws_tasks s ! k; q = tk_queue task
           in s\<lparr>ws_db := finish_job task outcome now later (ws_db s),
                ws_permits := (ws_permits s)[q := ws_permits s ! q + 1],
                ws_tasks := take k (ws_tasks s) @ drop (Suc k) (ws_tasks s)\<rparr>
      else s)"

section \<open>Reaper and cleanup\<close>

definition reap :: "nat \<Rightarrow> int \<Rightarrow> int \<Rightarrow> job_db \<Rightarrow> job_db" where
  "reap stale_threshold_secs now later db =
     (let threshold = now - int stale_threshold_secs * 1000000000
      in snd (execute_raw (sql_update job_check
           (\<lambda>r. j_status r = Running \<and> (case j_started_at r of Some t \<Rightarrow> t < threshold | None \<Rightarrow> False))
           (\<lambda>r. r\<lparr>j_status := Pending, j_started_at := None, j_updated_at := later\<rparr>)) db))"

definition cleanup_jobs :: "nat \<Rightarrow> int \<Rightarrow> job_db \<Rightarrow> job_db" where
  "cleanup_jobs retention_secs now db =
     (let threshold = now - int retention_secs * 1000000000
      in snd (execute_raw (sql_delete (\<lambda>r. is_terminal (j_status r) \<and> j_updated_at r < threshold)) db))"

section \<open>Runs\<close>

text \<open>
  The events of a system with one worker: a client's call, a queue's turn of the poll loop, the
  end of a task, a turn of the reaper or of the cleanup loop, and the end of the process with a
  new start (the tasks are gone, the table stays).
\<close>

datatype job_event =
    EnqueueEv string int string string enqueue_options
  | EnqueueUniqueEv string int string string enqueue_options
  | CancelEv string int
  | PollEv nat int
  | EndEv nat job_outcome int int
  | ReapEv int int
  | CleanupEv int
  | RestartEv

record job_system =
  sys_digest :: "u8 list \<Rightarrow> u8 list"
  sys_config :: job_config
  sys_handlers :: handler_map

fun job_exec :: "job_system \<Rightarrow> job_event \<Rightarrow> worker_state \<Rightarrow> worker_state" where
  "job_exec sys (EnqueueEv i now n p opt) s = s\<lparr>ws_db := snd (enqueue_with Inr i now n p opt (ws_db s))\<rparr>"
| "job_exec sys (EnqueueUniqueEv i now n p opt) s =
     s\<lparr>ws_db := snd (enqueue_unique_with Inr (sys_digest sys) i now n p opt (ws_db s))\<rparr>"
| "job_exec sys (CancelEv i now) s = s\<lparr>ws_db := snd (cancel i now (ws_db s))\<rparr>"
| "job_exec sys (PollEv q now) s =
     (if q < length (jc_queues (sys_config sys)) then poll_queue (sys_config sys) (sys_handlers sys) q now s else s)"
| "job_exec sys (EndEv k out now later) s = end_task k out now later s"
| "job_exec sys (ReapEv now later) s =
     s\<lparr>ws_db := reap (jc_stale_threshold_secs (sys_config sys)) now later (ws_db s)\<rparr>"
| "job_exec sys (CleanupEv now) s =
     (case jc_cleanup (sys_config sys) of
        Some c \<Rightarrow> s\<lparr>ws_db := cleanup_jobs (cu_retention_secs c) now (ws_db s)\<rparr>
      | None \<Rightarrow> s)"
| "job_exec sys RestartEv s = worker_start (sys_config sys) (ws_db s)"

section \<open>The table's constraints\<close>

definition job_ok :: "job_row list \<Rightarrow> bool" where
  "job_ok rows \<longleftrightarrow> distinct (map j_id rows) \<and> distinct (active_hashes rows)"

lemma job_check_None [simp]: "job_check rows = None \<longleftrightarrow> job_ok rows"
  by (simp add: job_check_def job_ok_def)

lemma active_hashes_filter:
  assumes "distinct (active_hashes rows)"
  shows "distinct (active_hashes (filter p rows))"
proof -
  let ?q = "\<lambda>r. job_active r \<and> j_payload_hash r \<noteq> None"
  have "filter ?q (filter p rows) = filter p (filter ?q rows)" by (simp only: filter_filter conj_commute)
  then show ?thesis using assms unfolding active_hashes_def by (metis distinct_map_filter)
qed

lemma job_ok_filter: "job_ok rows \<Longrightarrow> job_ok (filter p rows)"
  by (simp add: job_ok_def distinct_map_filter active_hashes_filter)

lemma job_ok_unique:
  "job_ok rows \<Longrightarrow> r \<in> set rows \<Longrightarrow> q \<in> set rows \<Longrightarrow> j_id r = j_id q \<Longrightarrow> r = q"
  by (auto simp: job_ok_def distinct_map inj_on_def)

text \<open>What each event can do to the rows: nothing, or exactly one of these changes.\<close>

definition update_rows :: "(job_row \<Rightarrow> bool) \<Rightarrow> (job_row \<Rightarrow> job_row) \<Rightarrow> job_row list \<Rightarrow> job_row list" where
  "update_rows p f rows = map (\<lambda>r. if p r then f r else r) rows"

lemma update_raw:
  fixes db :: job_db and p f
  defines "rows' \<equiv> db_rows (snd (execute_raw (sql_update job_check p f) db))"
  shows "rows' = db_rows db \<or> rows' = update_rows p f (db_rows db) \<and> job_ok rows'"
  unfolding rows'_def
  by (rule execute_raw_rows [where P = "\<lambda>rows. rows = db_rows db \<or> rows = update_rows p f (db_rows db) \<and> job_ok rows"])
    (simp_all add: sql_update_Inr update_rows_def)

lemma insert_raw:
  fixes db :: job_db and r
  defines "rows' \<equiv> db_rows (snd (execute_raw (sql_insert job_check r) db))"
  shows "rows' = db_rows db \<or> rows' = db_rows db @ [r] \<and> job_ok rows'"
  unfolding rows'_def
  by (rule execute_raw_rows [where P = "\<lambda>rows. rows = db_rows db \<or> rows = db_rows db @ [r] \<and> job_ok rows"])
    (simp_all add: sql_insert_Inr)

lemma db_execute_snd: "snd (db_execute g stmt db) = snd (execute_raw stmt db)"
  by (simp add: db_execute_def split: prod.split)

lemma db_bind_lift_snd: "snd (db_bind m (\<lambda>x. db_lift (g x)) db) = snd (m db)"
  by (simp add: db_bind_def split: prod.split sum.split)

lemma query_one_map_rows: "db_rows (snd (query_one_map f sel db)) = db_rows db"
  using query_raw_rows [of sel db]
  by (auto simp: query_one_map_def split: prod.splits sum.splits list.splits)

lemma enqueue_rows:
  "snd (enqueue_with Inr i now n p opt db) = snd (execute_raw (sql_insert job_check (new_job i now n p None opt)) db)"
  by (simp add: enqueue_with_def db_bind_lift_snd db_execute_snd)

lemma enqueue_unique_rows:
  "db_rows (snd (enqueue_unique_with Inr dg i now n p opt db)) =
     db_rows (snd (execute_raw (sql_insert job_check (new_job i now n p (Some (compute_payload_hash dg n p)) opt)) db))"
  by (auto simp: enqueue_unique_with_def Let_def query_one_map_rows split: prod.split sum.split)
    (metis query_one_map_rows snd_conv)

lemma cancel_rows:
  "snd (cancel i now db) = snd (execute_raw (sql_update job_check (\<lambda>r. j_id r = i \<and> j_status r = Pending)
     (\<lambda>r. r\<lparr>j_status := Cancelled, j_updated_at := now\<rparr>)) db)"
  by (simp add: cancel_def db_bind_lift_snd db_execute_snd)

lemma cleanup_rows:
  "\<exists>p. (\<forall>r. p r \<longrightarrow> is_terminal (j_status r)) \<and>
     (db_rows (cleanup_jobs ret now db) = db_rows db \<or> db_rows (cleanup_jobs ret now db) = filter (\<lambda>r. \<not> p r) (db_rows db))"
proof -
  let ?p = "\<lambda>r. is_terminal (j_status r) \<and> j_updated_at r < now - int ret * 1000000000"
  have "db_rows (cleanup_jobs ret now db) = db_rows db \<or> db_rows (cleanup_jobs ret now db) = filter (\<lambda>r. \<not> ?p r) (db_rows db)"
    unfolding cleanup_jobs_def Let_def
    by (rule execute_raw_rows [where P = "\<lambda>rows. rows = db_rows db \<or> rows = filter (\<lambda>r. \<not> ?p r) (db_rows db)"]) simp_all
  then show ?thesis by (intro exI [of _ ?p]) simp
qed

text \<open>The update a finished task makes to its row.\<close>

definition finish_row :: "job_task \<Rightarrow> job_outcome \<Rightarrow> int \<Rightarrow> int \<Rightarrow> job_row \<Rightarrow> job_row" where
  "finish_row t out now later r =
     (let m = tk_meta t; fail = (\<lambda>e. if m_max_attempts m \<le> m_attempt m
        then r\<lparr>j_status := Dead, j_failed_at := Some now, j_error_message := Some e, j_updated_at := now\<rparr>
        else r\<lparr>j_status := Pending, j_run_at := later + int (retry_delay (m_attempt m)) * 1000000000,
               j_started_at := None, j_failed_at := Some now, j_error_message := Some e, j_updated_at := now\<rparr>)
      in case out of
           JobOk \<Rightarrow> r\<lparr>j_status := Completed, j_completed_at := Some now, j_updated_at := now\<rparr>
         | JobErr e \<Rightarrow> fail e
         | JobTimeout \<Rightarrow> fail ''timeout'')"

lemma finish_job_eq:
  "finish_job t out now later db =
     snd (execute_raw (sql_update job_check (\<lambda>r. j_id r = m_id (tk_meta t)) (finish_row t out now later)) db)"
  by (cases out) (simp_all add: finish_job_def finish_row_def [abs_def] handle_job_failure_def Let_def)

section \<open>Claiming\<close>

definition claim_set :: "string list \<Rightarrow> string \<Rightarrow> int \<Rightarrow> nat \<Rightarrow> job_row list \<Rightarrow> job_row list" where
  "claim_set names queue now slots rows =
     filter (\<lambda>r. j_id r \<in> set (claim_ids names queue now slots rows)) rows"

lemma claim_set_rows:
  assumes "job_ok rows"
  shows "set (claim_set names queue now slots rows) =
      set (take slots (sort_key j_run_at (filter (claimable names queue now) rows)))"
    and "length (claim_set names queue now slots rows) =
      min slots (length (filter (claimable names queue now) rows))"
proof -
  let ?s = "sort_key j_run_at (filter (claimable names queue now) rows)"
  have sub: "set (take slots ?s) \<subseteq> set rows" using set_take_subset [of slots ?s] by auto
  show set_eq: "set (claim_set names queue now slots rows) = set (take slots ?s)"
  proof
    show "set (claim_set names queue now slots rows) \<subseteq> set (take slots ?s)"
    proof
      fix r
      assume "r \<in> set (claim_set names queue now slots rows)"
      then obtain c where "r \<in> set rows" "c \<in> set (take slots ?s)" "j_id r = j_id c"
        by (auto simp: claim_set_def claim_ids_def sql_first_ids_def)
      moreover then have "r = c" using job_ok_unique [OF assms] sub by blast
      ultimately show "r \<in> set (take slots ?s)" by simp
    qed
    show "set (take slots ?s) \<subseteq> set (claim_set names queue now slots rows)"
      using sub by (auto simp: claim_set_def claim_ids_def sql_first_ids_def)
  qed
  have d: "distinct rows" using assms by (simp add: job_ok_def distinct_map)
  then have "distinct (claim_set names queue now slots rows)" "distinct ?s"
    by (simp_all add: claim_set_def)
  then have "length (claim_set names queue now slots rows) = length (take slots ?s)"
    using set_eq by (metis distinct_card distinct_take)
  then show "length (claim_set names queue now slots rows) =
      min slots (length (filter (claimable names queue now) rows))"
    by (simp add: min.commute)
qed

lemma claim_set_claimable:
  "job_ok rows \<Longrightarrow> r \<in> set (claim_set names queue now slots rows) \<Longrightarrow> r \<in> set rows \<and> claimable names queue now r"
  using claim_set_rows(1) [of rows names queue now slots]
    set_take_subset [of slots "sort_key j_run_at (filter (claimable names queue now) rows)"] by auto

text \<open>Nothing due is passed over for something due later.\<close>

lemma claim_set_earliest:
  assumes "job_ok rows" "c \<in> set (claim_set names queue now slots rows)"
    "r \<in> set rows" "claimable names queue now r" "r \<notin> set (claim_set names queue now slots rows)"
  shows "j_run_at c \<le> j_run_at r"
proof -
  let ?s = "sort_key j_run_at (filter (claimable names queue now) rows)"
  have "r \<in> set ?s" using assms(3,4) by simp
  moreover have "r \<notin> set (take slots ?s)" using assms(5) claim_set_rows(1) [OF assms(1)] by blast
  ultimately have r: "r \<in> set (drop slots ?s)" by (metis UnE append_take_drop_id set_append)
  have c: "c \<in> set (take slots ?s)" using assms(2) claim_set_rows(1) [OF assms(1)] by blast
  have "sorted (map j_run_at (take slots ?s @ drop slots ?s))"
    unfolding append_take_drop_id by (rule sorted_sort_key)
  then show ?thesis using r c unfolding map_append sorted_append set_map by blast
qed

text \<open>The task spawned for a claimed row.\<close>

definition row_task :: "handler_map \<Rightarrow> nat \<Rightarrow> int \<Rightarrow> job_row \<Rightarrow> job_task" where
  "row_task handlers q now r =
     \<lparr>tk_queue = q,
      tk_meta = \<lparr>m_id = j_id r, m_name = j_name r, m_queue = j_queue r, m_attempt = j_attempt r + 1,
        m_max_attempts = jo_max_attempts (the (map_of handlers (j_name r)))\<rparr>,
      tk_payload = j_payload r, tk_started = now\<rparr>"

lemma row_task_simps [simp]:
  "tk_queue (row_task h q now r) = q" "m_id (tk_meta (row_task h q now r)) = j_id r"
  "m_name (tk_meta (row_task h q now r)) = j_name r" "m_attempt (tk_meta (row_task h q now r)) = Suc (j_attempt r)"
  "m_max_attempts (tk_meta (row_task h q now r)) = jo_max_attempts (the (map_of h (j_name r)))"
  "tk_started (row_task h q now r) = now"
  by (simp_all add: row_task_def)

definition claimed_of :: "int \<Rightarrow> job_row \<Rightarrow> claimed_job" where
  "claimed_of now r = (let r' = claim_row now r in
     \<lparr>cj_id = j_id r', cj_name = j_name r', cj_queue = j_queue r', cj_payload = j_payload r',
      cj_attempt = j_attempt r'\<rparr>)"

lemma spawn_claimed_all:
  "(\<And>r. r \<in> set rs \<Longrightarrow> map_of h (j_name r) \<noteq> None) \<Longrightarrow> length rs \<le> p \<Longrightarrow>
   spawn_claimed h q now (map (claimed_of now) rs) p ts = (p - length rs, ts @ map (row_task h q now) rs)"
proof (induction rs arbitrary: p ts)
  case (Cons r rs)
  then obtain o' where "map_of h (j_name r) = Some o'" by fastforce
  with Cons show ?case
    by (simp add: claimed_of_def claim_row_def row_task_def)
qed simp

lemma claim_jobs_eq:
  assumes "job_ok (db_rows db)" "claim_jobs names queue now slots db = (res, db')"
  shows "(\<exists>e. res = Inl e) \<and> db_rows db' = db_rows db \<or>
    res = Inr (map (claimed_of now) (claim_set names queue now slots (db_rows db))) \<and> job_ok (db_rows db') \<and>
    db_rows db' = update_rows (\<lambda>r. r \<in> set (claim_set names queue now slots (db_rows db))) (claim_row now) (db_rows db)"
proof -
  let ?stmt = "sql_update job_check (\<lambda>r. j_id r \<in> set (claim_ids names queue now slots (db_rows db))) (claim_row now)"
  have mem: "r \<in> set (claim_set names queue now slots (db_rows db)) \<longleftrightarrow>
      j_id r \<in> set (claim_ids names queue now slots (db_rows db))" if "r \<in> set (db_rows db)" for r
    using that by (simp add: claim_set_def)
  obtain r1 db1 where ex: "execute_raw ?stmt db = (r1, db1)" by (cases "execute_raw ?stmt db")
  show ?thesis
  proof (cases r1)
    case (Inl e)
    with execute_raw_Inl [of ?stmt db e db1] ex assms(2) show ?thesis
      by (auto simp: claim_jobs_def Let_def)
  next
    case (Inr n)
    then have "db' = db1" "res = Inr (map (claimed_of now) (claim_set names queue now slots (db_rows db)))"
      using ex assms(2) by (auto simp: claim_jobs_def Let_def claim_set_def claimed_of_def)
    moreover have "job_ok (db_rows db1)"
      "db_rows db1 = map (\<lambda>r. if j_id r \<in> set (claim_ids names queue now slots (db_rows db)) then claim_row now r else r) (db_rows db)"
      using execute_raw_Inr [OF ex [unfolded Inr]] unfolding sql_update_Inr job_check_None by blast+
    moreover have "\<dots> = update_rows (\<lambda>r. r \<in> set (claim_set names queue now slots (db_rows db))) (claim_row now) (db_rows db)"
      unfolding update_rows_def by (rule map_cong) (simp_all add: mem)
    ultimately show ?thesis by simp
  qed
qed

text \<open>What one turn of a queue does when its claim statement succeeds, and what it does at all.\<close>

lemma poll_queue_claims:
  fixes s h q now cfg
  defines "C \<equiv> claim_set (handler_names h) (qc_name (jc_queues cfg ! q)) now (ws_permits s ! q) (db_rows (ws_db s))"
  assumes "job_ok (db_rows (ws_db s))" "handler_names h \<noteq> []" "ws_permits s ! q \<noteq> 0"
    and cl: "claim_jobs (handler_names h) (qc_name (jc_queues cfg ! q)) now (ws_permits s ! q) (ws_db s) = (Inr res, db')"
  shows "poll_queue cfg h q now s = s\<lparr>ws_db := db',
      ws_permits := (ws_permits s)[q := ws_permits s ! q - length C],
      ws_tasks := ws_tasks s @ map (row_task h q now) C\<rparr>"
    and "job_ok (db_rows db')" "db_rows db' = update_rows (\<lambda>r. r \<in> set C) (claim_row now) (db_rows (ws_db s))"
    and "length C \<le> ws_permits s ! q"
proof -
  have eq: "res = map (claimed_of now) C" "job_ok (db_rows db')"
    "db_rows db' = update_rows (\<lambda>r. r \<in> set C) (claim_row now) (db_rows (ws_db s))"
    using claim_jobs_eq [OF assms(2) cl] unfolding C_def by blast+
  show len: "length C \<le> ws_permits s ! q" by (simp add: C_def claim_set_rows(2) [OF assms(2)])
  have "map_of h (j_name r) \<noteq> None" if "r \<in> set C" for r
    using claim_set_claimable [OF assms(2) that [unfolded C_def]] by (simp add: claimable_def handler_names_def map_of_eq_None_iff)
  then have "spawn_claimed h q now (map (claimed_of now) C) (ws_permits s ! q) (ws_tasks s) =
      (ws_permits s ! q - length C, ws_tasks s @ map (row_task h q now) C)"
    using len by (intro spawn_claimed_all) auto
  then show "poll_queue cfg h q now s = s\<lparr>ws_db := db',
      ws_permits := (ws_permits s)[q := ws_permits s ! q - length C],
      ws_tasks := ws_tasks s @ map (row_task h q now) C\<rparr>"
    using cl eq(1) assms(3,4) by (simp add: poll_queue_def Let_def)
  show "job_ok (db_rows db')" "db_rows db' = update_rows (\<lambda>r. r \<in> set C) (claim_row now) (db_rows (ws_db s))"
    by (fact eq)+
qed

lemma poll_queue_cases:
  assumes "job_ok (db_rows (ws_db s))"
  obtains (skip) "db_rows (ws_db (poll_queue cfg h q now s)) = db_rows (ws_db s)"
      "ws_permits (poll_queue cfg h q now s) = ws_permits s" "ws_tasks (poll_queue cfg h q now s) = ws_tasks s"
  | (claim) C where "C = claim_set (handler_names h) (qc_name (jc_queues cfg ! q)) now (ws_permits s ! q) (db_rows (ws_db s))"
      "db_rows (ws_db (poll_queue cfg h q now s)) = update_rows (\<lambda>r. r \<in> set C) (claim_row now) (db_rows (ws_db s))"
      "job_ok (db_rows (ws_db (poll_queue cfg h q now s)))"
      "ws_permits (poll_queue cfg h q now s) = (ws_permits s)[q := ws_permits s ! q - length C]"
      "ws_tasks (poll_queue cfg h q now s) = ws_tasks s @ map (row_task h q now) C" "length C \<le> ws_permits s ! q"
proof (cases "handler_names h = [] \<or> ws_permits s ! q = 0")
  case True
  then show thesis by (intro skip) (auto simp: poll_queue_def Let_def)
next
  case False
  then have on: "handler_names h \<noteq> []" "ws_permits s ! q \<noteq> 0" by simp_all
  obtain res db' where cl: "claim_jobs (handler_names h) (qc_name (jc_queues cfg ! q)) now (ws_permits s ! q) (ws_db s) = (res, db')"
    by (cases "claim_jobs (handler_names h) (qc_name (jc_queues cfg ! q)) now (ws_permits s ! q) (ws_db s)")
  show thesis
  proof (cases res)
    case (Inl e)
    with claim_jobs_eq [OF assms cl] cl on show thesis by (intro skip) (simp_all add: poll_queue_def Let_def)
  next
    case (Inr jobs)
    note turn = poll_queue_claims [OF assms on cl [unfolded Inr]]
    show thesis by (intro claim [OF refl]) (simp_all add: turn(1,2,4), simp add: turn(3))
  qed
qed

section \<open>Reachable states\<close>

text \<open>States reached from an empty table by events of which \<open>allowed\<close> approves.\<close>

inductive job_reach :: "job_system \<Rightarrow> (worker_state \<Rightarrow> job_event \<Rightarrow> bool) \<Rightarrow> worker_state \<Rightarrow> bool"
  for sys allowed where
  start: "job_reach sys allowed (worker_start (sys_config sys) \<lparr>db_rows = [], db_faults = fs\<rparr>)"
| step: "job_reach sys allowed s \<Longrightarrow> allowed s ev \<Longrightarrow> job_reach sys allowed (job_exec sys ev s)"

definition queue_load :: "nat \<Rightarrow> job_task list \<Rightarrow> nat" where
  "queue_load q tasks = length (filter (\<lambda>t. tk_queue t = q) tasks)"

definition permits_ok :: "job_system \<Rightarrow> worker_state \<Rightarrow> bool" where
  "permits_ok sys s \<longleftrightarrow>
     length (ws_permits s) = length (jc_queues (sys_config sys)) \<and>
     (\<forall>q < length (jc_queues (sys_config sys)). ws_permits s ! q + queue_load q (ws_tasks s) =
        qc_concurrency (jc_queues (sys_config sys) ! q)) \<and>
     (\<forall>t \<in> set (ws_tasks s). tk_queue t < length (jc_queues (sys_config sys)))"

lemma permits_ok_start: "permits_ok sys (worker_start (sys_config sys) db)"
  by (simp add: permits_ok_def worker_start_def queue_load_def)

lemma remove_nth_set: "set (take k xs @ drop (Suc k) xs) \<subseteq> set xs"
  using set_take_subset [of k xs] set_drop_subset [of "Suc k" xs] by auto

lemma queue_load_remove:
  assumes "k < length ts"
  shows "queue_load q ts = queue_load q (take k ts @ drop (Suc k) ts) + (if tk_queue (ts ! k) = q then 1 else 0)"
proof -
  have "queue_load q ts = queue_load q (take k ts @ ts ! k # drop (Suc k) ts)"
    using id_take_nth_drop [OF assms] by simp
  then show ?thesis by (simp add: queue_load_def)
qed

lemma permits_ok_end:
  assumes "permits_ok sys s"
  shows "permits_ok sys (end_task k out now later s)"
proof (cases "k < length (ws_tasks s)")
  case True
  let ?ts = "take k (ws_tasks s) @ drop (Suc k) (ws_tasks s)"
  have q: "tk_queue (ws_tasks s ! k) < length (jc_queues (sys_config sys))"
    using assms True by (simp add: permits_ok_def)
  moreover have "\<forall>t \<in> set ?ts. tk_queue t < length (jc_queues (sys_config sys))"
    using assms remove_nth_set [of k "ws_tasks s"] unfolding permits_ok_def by blast
  ultimately show ?thesis
    using assms True queue_load_remove [OF True]
    by (auto simp: permits_ok_def end_task_def Let_def nth_list_update)
qed (use assms in \<open>simp add: end_task_def\<close>)

lemma permits_ok_poll:
  assumes "permits_ok sys s" "job_ok (db_rows (ws_db s))" "q < length (jc_queues (sys_config sys))"
  shows "permits_ok sys (poll_queue (sys_config sys) h q now s)"
  using assms(2)
proof (cases rule: poll_queue_cases [where cfg = "sys_config sys" and h = h and q = q and now = now])
  case skip
  with assms(1) show ?thesis by (simp add: permits_ok_def)
next
  case (claim C)
  have load: "queue_load q' (ws_tasks s @ map (row_task h q now) C) =
      queue_load q' (ws_tasks s) + (if q' = q then length C else 0)" for q'
    by (simp add: queue_load_def o_def)
  from assms(1,3) claim(6) show ?thesis
    by (auto simp: permits_ok_def claim(4,5) load nth_list_update)
qed

lemma job_exec_permits:
  "permits_ok sys s \<Longrightarrow> job_ok (db_rows (ws_db s)) \<Longrightarrow> permits_ok sys (job_exec sys ev s)"
  by (cases ev)
    (simp_all add: permits_ok_start permits_ok_end permits_ok_poll,
     simp_all add: permits_ok_def split: option.split)

lemma job_ok_update_raw: "job_ok (db_rows db) \<Longrightarrow> job_ok (db_rows (snd (execute_raw (sql_update job_check p f) db)))"
  using update_raw [of p f db] by metis

lemma job_ok_insert_raw: "job_ok (db_rows db) \<Longrightarrow> job_ok (db_rows (snd (execute_raw (sql_insert job_check r) db)))"
  using insert_raw [of r db] by metis

lemma job_exec_ok:
  assumes "job_ok (db_rows (ws_db s))"
  shows "job_ok (db_rows (ws_db (job_exec sys ev s)))"
proof (cases ev)
  case (PollEv q now)
  have "job_ok (db_rows (ws_db (poll_queue (sys_config sys) (sys_handlers sys) q now s)))"
    using assms by (cases rule: poll_queue_cases [where cfg = "sys_config sys" and h = "sys_handlers sys" and q = q and now = now])
      (use assms in auto)
  then show ?thesis using PollEv assms by simp
next
  case (CleanupEv now)
  have "job_ok (db_rows (cleanup_jobs ret now (ws_db s)))" for ret
    using cleanup_rows [of ret now "ws_db s"] job_ok_filter [OF assms] assms by metis
  then show ?thesis using CleanupEv assms by (simp split: option.split)
next
  case (EndEv k out now later)
  then show ?thesis using assms by (simp add: end_task_def Let_def finish_job_eq job_ok_update_raw)
qed (use assms in \<open>simp_all add: enqueue_rows enqueue_unique_rows cancel_rows reap_def Let_def
  worker_start_def job_ok_insert_raw job_ok_update_raw\<close>)

lemma job_reach_ok: "job_reach sys allowed s \<Longrightarrow> job_ok (db_rows (ws_db s)) \<and> permits_ok sys s"
proof (induction rule: job_reach.induct)
  case (start fs)
  show ?case by (simp add: permits_ok_start) (simp add: worker_start_def job_ok_def active_hashes_def)
next
  case (step s ev)
  then show ?case by (simp add: job_exec_ok job_exec_permits)
qed

section \<open>Tasks and their rows\<close>

text \<open>
  The reaper's premise: when it runs, no task of the worker is older than the threshold. It holds
  when every handler's timeout is below \<^verbatim>\<open>stale_threshold_secs\<close> (with the time a task takes to write
  its result).
\<close>

definition timely :: "job_system \<Rightarrow> worker_state \<Rightarrow> job_event \<Rightarrow> bool" where
  "timely sys s ev \<longleftrightarrow>
     (case ev of
        ReapEv now later \<Rightarrow>
          (\<forall>t \<in> set (ws_tasks s). now - int (jc_stale_threshold_secs (sys_config sys)) * 1000000000 \<le> tk_started t)
      | _ \<Rightarrow> True)"

definition backs :: "job_row \<Rightarrow> job_task \<Rightarrow> bool" where
  "backs r t \<longleftrightarrow> j_id r = m_id (tk_meta t) \<and> j_name r = m_name (tk_meta t) \<and> j_status r = Running \<and>
     j_attempt r = m_attempt (tk_meta t) \<and> j_started_at r = Some (tk_started t)"

definition tasks_ok :: "handler_map \<Rightarrow> worker_state \<Rightarrow> bool" where
  "tasks_ok h s \<longleftrightarrow> distinct (map (m_id \<circ> tk_meta) (ws_tasks s)) \<and>
     (\<forall>t \<in> set (ws_tasks s). (\<exists>r \<in> set (db_rows (ws_db s)). backs r t) \<and>
        m_max_attempts (tk_meta t) = jo_max_attempts (the (map_of h (m_name (tk_meta t)))))"

lemma update_rows_keep: "r \<in> set rows \<Longrightarrow> \<not> p r \<Longrightarrow> r \<in> set (update_rows p f rows)"
  by (force simp: update_rows_def)

lemma update_rows_mem: "r \<in> set (update_rows p f rows) \<Longrightarrow> \<exists>q \<in> set rows. r = (if p q then f q else q)"
  by (auto simp: update_rows_def)

text \<open>An event that spares the rows of the tasks keeps them backed.\<close>

lemma tasks_ok_spare:
  assumes "tasks_ok h s" "ws_tasks s' = ws_tasks s"
    "\<And>r t. t \<in> set (ws_tasks s) \<Longrightarrow> r \<in> set (db_rows (ws_db s)) \<Longrightarrow> backs r t \<Longrightarrow> r \<in> set (db_rows (ws_db s'))"
  shows "tasks_ok h s'"
  using assms unfolding tasks_ok_def by (metis (no_types, lifting))

lemma spare_update:
  assumes "tasks_ok h s" "\<And>r t. t \<in> set (ws_tasks s) \<Longrightarrow> backs r t \<Longrightarrow> \<not> p r"
  shows "tasks_ok h (s\<lparr>ws_db := snd (execute_raw (sql_update job_check p f) (ws_db s))\<rparr>)"
  using assms(1)
proof (rule tasks_ok_spare)
  fix r t
  assume "t \<in> set (ws_tasks s)" "r \<in> set (db_rows (ws_db s))" "backs r t"
  then show "r \<in> set (db_rows (ws_db (s\<lparr>ws_db := snd (execute_raw (sql_update job_check p f) (ws_db s))\<rparr>)))"
    using update_raw [of p f "ws_db s"] assms(2) update_rows_keep by auto
qed simp

lemma spare_insert:
  "tasks_ok h s \<Longrightarrow> db_rows db' = db_rows (snd (execute_raw (sql_insert job_check r) (ws_db s))) \<Longrightarrow>
   tasks_ok h (s\<lparr>ws_db := db'\<rparr>)"
  using insert_raw [of r "ws_db s"] by (elim tasks_ok_spare) auto

lemma tasks_ok_end:
  assumes "tasks_ok h s"
  shows "tasks_ok h (end_task k out now later s)"
proof (cases "k < length (ws_tasks s)")
  case True
  let ?ts = "take k (ws_tasks s) @ drop (Suc k) (ws_tasks s)"
  let ?t = "ws_tasks s ! k"
  let ?s = "s\<lparr>ws_tasks := ?ts\<rparr>"
  have d: "distinct (map (m_id \<circ> tk_meta) (take k (ws_tasks s) @ ?t # drop (Suc k) (ws_tasks s)))"
    using assms id_take_nth_drop [OF True] unfolding tasks_ok_def by metis
  then have "distinct (map (m_id \<circ> tk_meta) ?ts)" by simp
  then have "tasks_ok h ?s"
    using assms remove_nth_set [of k "ws_tasks s"] by (simp add: tasks_ok_def del: set_append) blast
  moreover have "m_id (tk_meta t) \<noteq> m_id (tk_meta ?t)" if "t \<in> set ?ts" for t
  proof -
    have "(m_id \<circ> tk_meta) ?t \<notin> (m_id \<circ> tk_meta) ` set ?ts"
      using d unfolding map_append list.map distinct_append distinct.simps set_append set_map by auto
    with that show ?thesis by (metis comp_apply image_eqI)
  qed
  ultimately have "tasks_ok h (?s\<lparr>ws_db := snd (execute_raw (sql_update job_check (\<lambda>r. j_id r = m_id (tk_meta ?t))
      (finish_row ?t out now later)) (ws_db ?s))\<rparr>)"
    by (intro spare_update) (auto simp: backs_def)
  then show ?thesis using True by (simp add: end_task_def Let_def finish_job_eq tasks_ok_def)
qed (use assms in \<open>simp add: end_task_def\<close>)

lemma tasks_ok_poll:
  assumes "tasks_ok h s" "job_ok (db_rows (ws_db s))"
  shows "tasks_ok h (poll_queue cfg h q now s)"
  using assms(2)
proof (cases rule: poll_queue_cases [where cfg = cfg and h = h and q = q and now = now])
  case skip
  with assms(1) show ?thesis by (simp add: tasks_ok_def)
next
  case (claim C)
  have C: "r \<in> set (db_rows (ws_db s)) \<and> j_status r = Pending" if "r \<in> set C" for r
    using claim_set_claimable [OF assms(2)] that unfolding claim(1) claimable_def by blast
  have dC: "distinct (map j_id C)"
    using assms(2) unfolding claim(1) claim_set_def job_ok_def by (simp add: distinct_map_filter)
  have old: "r \<in> set (db_rows (ws_db (poll_queue cfg h q now s)))"
    if "r \<in> set (db_rows (ws_db s))" "backs r t" for r t
    unfolding claim(2) using that C by (intro update_rows_keep) (auto simp: backs_def)
  have new: "backs (claim_row now r) (row_task h q now r) \<and> claim_row now r \<in> set (db_rows (ws_db (poll_queue cfg h q now s)))"
    if "r \<in> set C" for r
    using C [OF that] that unfolding claim(2) update_rows_def by (force simp: backs_def claim_row_def)
  have apart: "j_id r \<noteq> m_id (tk_meta t)" if rt: "r \<in> set C" "t \<in> set (ws_tasks s)" for r t
  proof
    assume eq: "j_id r = m_id (tk_meta t)"
    obtain r' where "r' \<in> set (db_rows (ws_db s))" "backs r' t"
      using assms(1) rt(2) unfolding tasks_ok_def by blast
    then show False using C [OF rt(1)] eq job_ok_unique [OF assms(2), of r r'] by (auto simp: backs_def)
  qed
  show ?thesis
    unfolding tasks_ok_def claim(5)
  proof (intro conjI ballI)
    have new_ids: "map (m_id \<circ> tk_meta) (map (row_task h q now) C) = map j_id C" by simp
    have "set (map (m_id \<circ> tk_meta) (ws_tasks s)) \<inter> set (map j_id C) = {}" using apart by fastforce
    then show "distinct (map (m_id \<circ> tk_meta) (ws_tasks s @ map (row_task h q now) C))"
      using assms(1) dC unfolding tasks_ok_def map_append distinct_append new_ids by blast
  next
    fix t
    assume "t \<in> set (ws_tasks s @ map (row_task h q now) C)"
    then show "\<exists>r \<in> set (db_rows (ws_db (poll_queue cfg h q now s))). backs r t"
      "m_max_attempts (tk_meta t) = jo_max_attempts (the (map_of h (m_name (tk_meta t))))"
      using assms(1) old new unfolding tasks_ok_def by (auto, blast)
  qed
qed

lemma job_exec_tasks:
  assumes "tasks_ok (sys_handlers sys) s" "job_ok (db_rows (ws_db s))" "timely sys s ev"
  shows "tasks_ok (sys_handlers sys) (job_exec sys ev s)"
proof (cases ev)
  case (CancelEv i now)
  then show ?thesis using assms(1) by (auto simp: cancel_rows backs_def intro!: spare_update)
next
  case (ReapEv now later)
  then show ?thesis
    using assms(1,3) by (auto simp: reap_def Let_def backs_def timely_def intro!: spare_update)
next
  case (CleanupEv now)
  have "tasks_ok (sys_handlers sys) (s\<lparr>ws_db := cleanup_jobs ret now (ws_db s)\<rparr>)" for ret
    using assms(1)
  proof (rule tasks_ok_spare)
    fix r t
    assume "r \<in> set (db_rows (ws_db s))" "backs r t"
    then show "r \<in> set (db_rows (ws_db (s\<lparr>ws_db := cleanup_jobs ret now (ws_db s)\<rparr>)))"
      using cleanup_rows [of ret now "ws_db s"] by (auto simp: backs_def)
  qed simp
  then show ?thesis using CleanupEv assms(1) by (simp split: option.split)
next
  case RestartEv
  then show ?thesis by (simp add: tasks_ok_def worker_start_def)
next
  case (EnqueueEv i now n p opt)
  then show ?thesis using assms(1) by (simp add: spare_insert enqueue_rows)
next
  case (EnqueueUniqueEv i now n p opt)
  then show ?thesis using assms(1) enqueue_unique_rows by (simp add: spare_insert)
qed (use assms in \<open>simp_all add: tasks_ok_end tasks_ok_poll\<close>)

lemma job_reach_tasks:
  assumes "job_reach sys allowed s" "\<And>s ev. allowed s ev \<Longrightarrow> timely sys s ev"
  shows "tasks_ok (sys_handlers sys) s"
  using assms(1)
proof (induction rule: job_reach.induct)
  case (start fs)
  show ?case by (simp add: tasks_ok_def worker_start_def)
next
  case (step s ev)
  then show ?case using job_exec_tasks job_reach_ok assms(2) by blast
qed

section \<open>Attempts\<close>

definition attempt_limit :: "handler_map \<Rightarrow> job_row \<Rightarrow> nat" where
  "attempt_limit h r = max 1 (jo_max_attempts (the (map_of h (j_name r))))"

definition attempt_ok :: "handler_map \<Rightarrow> job_row \<Rightarrow> bool" where
  "attempt_ok h r \<longleftrightarrow> j_attempt r \<le> attempt_limit h r \<and> (j_status r = Pending \<longrightarrow> j_attempt r < attempt_limit h r)"

definition no_reap :: "worker_state \<Rightarrow> job_event \<Rightarrow> bool" where
  "no_reap s ev \<longleftrightarrow> (case ev of ReapEv now later \<Rightarrow> False | _ \<Rightarrow> True)"

lemma no_reap_timely: "no_reap s ev \<Longrightarrow> timely sys s ev"
  by (cases ev) (simp_all add: no_reap_def timely_def)

lemma attempt_update:
  assumes "\<And>r. r \<in> set (db_rows db) \<Longrightarrow> attempt_ok h r"
    "\<And>r. r \<in> set (db_rows db) \<Longrightarrow> p r \<Longrightarrow> attempt_ok h (f r)"
    "r \<in> set (db_rows (snd (execute_raw (sql_update job_check p f) db)))"
  shows "attempt_ok h r"
  using update_raw [of p f db] assms update_rows_mem [of r p f "db_rows db"] by (metis (full_types))

lemma attempt_insert:
  assumes "\<And>r. r \<in> set (db_rows db) \<Longrightarrow> attempt_ok h r" "attempt_ok h q"
    "r \<in> set (db_rows (snd (execute_raw (sql_insert job_check q) db)))"
  shows "attempt_ok h r"
  using insert_raw [of q db] assms by auto

lemma new_job_attempt: "attempt_ok h (new_job i now n p hash opt)"
  by (simp add: attempt_ok_def attempt_limit_def new_job_def)

lemma attempt_poll:
  assumes "job_ok (db_rows (ws_db s))" "\<And>r. r \<in> set (db_rows (ws_db s)) \<Longrightarrow> attempt_ok h r"
    "r \<in> set (db_rows (ws_db (poll_queue cfg h q now s)))"
  shows "attempt_ok h r"
  using assms(1)
proof (cases rule: poll_queue_cases [where cfg = cfg and h = h and q = q and now = now])
  case (claim C)
  then obtain p where p: "p \<in> set (db_rows (ws_db s))" "r = (if p \<in> set C then claim_row now p else p)"
    using assms(3) update_rows_mem by metis
  have "j_status p = Pending" if "p \<in> set C"
    using claim_set_claimable [OF assms(1)] that unfolding claim(1) claimable_def by blast
  then show ?thesis using assms(2) [OF p(1)] p(2) by (auto simp: attempt_ok_def attempt_limit_def claim_row_def)
qed (use assms in auto)

lemma attempt_end:
  assumes "tasks_ok h s" "job_ok (db_rows (ws_db s))" "\<And>r. r \<in> set (db_rows (ws_db s)) \<Longrightarrow> attempt_ok h r"
    "r \<in> set (db_rows (ws_db (end_task k out now later s)))"
  shows "attempt_ok h r"
proof (cases "k < length (ws_tasks s)")
  case True
  let ?t = "ws_tasks s ! k"
  obtain q where q: "q \<in> set (db_rows (ws_db s))" "backs q ?t"
      "m_max_attempts (tk_meta ?t) = jo_max_attempts (the (map_of h (m_name (tk_meta ?t))))"
    using assms(1) True unfolding tasks_ok_def by (meson nth_mem)
  have "attempt_ok h (finish_row ?t out now later p)"
    if "p \<in> set (db_rows (ws_db s))" "j_id p = m_id (tk_meta ?t)" for p
  proof -
    have "p = q" using job_ok_unique [OF assms(2)] that q by (simp add: backs_def)
    with assms(3) [OF q(1)] q show ?thesis
      by (cases out) (auto simp: finish_row_def attempt_ok_def attempt_limit_def backs_def Let_def)
  qed
  with assms(3,4) True show ?thesis
    by (intro attempt_update [where db = "ws_db s" and h = h and r = r
          and p = "\<lambda>r. j_id r = m_id (tk_meta ?t)" and f = "finish_row ?t out now later"])
      (simp_all add: end_task_def Let_def finish_job_eq)
qed (use assms in \<open>simp add: end_task_def\<close>)

lemma attempt_exec:
  assumes "tasks_ok (sys_handlers sys) s" "job_ok (db_rows (ws_db s))" "no_reap s ev"
    "\<And>r. r \<in> set (db_rows (ws_db s)) \<Longrightarrow> attempt_ok (sys_handlers sys) r"
    "r \<in> set (db_rows (ws_db (job_exec sys ev s)))"
  shows "attempt_ok (sys_handlers sys) r"
proof (cases ev)
  case (EnqueueEv i now n p opt)
  with assms(4,5) show ?thesis by (auto simp: enqueue_rows intro: attempt_insert new_job_attempt)
next
  case (EnqueueUniqueEv i now n p opt)
  with assms(4,5) show ?thesis by (auto simp: enqueue_unique_rows intro: attempt_insert new_job_attempt)
next
  case (CancelEv i now)
  with assms(5) have "r \<in> set (db_rows (snd (execute_raw (sql_update job_check (\<lambda>r. j_id r = i \<and> j_status r = Pending)
      (\<lambda>r. r\<lparr>j_status := Cancelled, j_updated_at := now\<rparr>)) (ws_db s))))" by (simp add: cancel_rows)
  then show ?thesis
    by (rule attempt_update [rotated 2]) (use assms(4) in \<open>simp_all add: attempt_ok_def attempt_limit_def\<close>)
next
  case (CleanupEv now)
  have "set (db_rows (cleanup_jobs ret now (ws_db s))) \<subseteq> set (db_rows (ws_db s))" for ret
    using cleanup_rows [of ret now "ws_db s"] by auto
  then have "r \<in> set (db_rows (ws_db s))" using assms(5) CleanupEv by (auto split: option.splits)
  then show ?thesis by (rule assms(4))
next
  case (PollEv q now)
  then show ?thesis using assms attempt_poll by (auto split: if_splits)
next
  case (EndEv k out now later)
  then show ?thesis using assms attempt_end by simp
qed (use assms in \<open>simp_all add: no_reap_def worker_start_def\<close>)

lemma job_reach_attempts:
  "job_reach sys no_reap s \<Longrightarrow> r \<in> set (db_rows (ws_db s)) \<Longrightarrow> attempt_ok (sys_handlers sys) r"
proof (induction arbitrary: r rule: job_reach.induct)
  case (start fs)
  then show ?case by (simp add: worker_start_def)
next
  case (step s ev)
  then show ?case
    using attempt_exec job_reach_ok job_reach_tasks [OF step(1)] no_reap_timely by blast
qed

section \<open>A turn of a queue without failures\<close>

lemma claim_keeps_ok:
  assumes "job_ok rows" "\<And>r. r \<in> set C \<Longrightarrow> j_status r = Pending"
  shows "job_ok (update_rows (\<lambda>r. r \<in> set C) (claim_row now) rows)"
proof -
  let ?g = "\<lambda>r. if r \<in> set C then claim_row now r else r"
  let ?act = "\<lambda>r. job_active r \<and> j_payload_hash r \<noteq> None"
  have g: "j_id (?g r) = j_id r" "?act (?g r) = ?act r" "(the \<circ> j_payload_hash) (?g r) = (the \<circ> j_payload_hash) r" for r
    using assms(2) [of r] by (simp_all add: claim_row_def job_active_def)
  have ids: "map j_id (map ?g rs) = map j_id rs" for rs by (simp add: claim_row_def)
  have "filter ?act (map ?g rs) = map ?g (filter ?act rs)" for rs
    by (induction rs) (simp_all only: list.map filter.simps g if_True if_False split: if_split, simp_all)
  then have "map (the \<circ> j_payload_hash) (filter ?act (map ?g rs)) = map (the \<circ> j_payload_hash) (filter ?act rs)" for rs
    using g(3) by (simp add: map_map o_def)
  then show ?thesis
    using assms(1) unfolding job_ok_def active_hashes_def update_rows_def ids by metis
qed

lemma poll_queue_healthy:
  fixes s h q now cfg
  defines "C \<equiv> claim_set (handler_names h) (qc_name (jc_queues cfg ! q)) now (ws_permits s ! q) (db_rows (ws_db s))"
  assumes "job_ok (db_rows (ws_db s))" "healthy (ws_db s)" "handler_names h \<noteq> []"
  shows "ws_tasks (poll_queue cfg h q now s) = ws_tasks s @ map (row_task h q now) C \<and>
    db_rows (ws_db (poll_queue cfg h q now s)) = update_rows (\<lambda>r. r \<in> set C) (claim_row now) (db_rows (ws_db s))"
proof (cases "ws_permits s ! q = 0")
  case True
  then have "C = []" by (simp add: C_def claim_set_def claim_ids_def sql_first_ids_def)
  with True assms(4) show ?thesis by (simp add: poll_queue_def Let_def update_rows_def)
next
  case False
  have pend: "j_status r = Pending" if "r \<in> set C" for r
    using claim_set_claimable [OF assms(2)] that unfolding C_def claimable_def by blast
  let ?ids = "claim_ids (handler_names h) (qc_name (jc_queues cfg ! q)) now (ws_permits s ! q) (db_rows (ws_db s))"
  have "map (\<lambda>r. if j_id r \<in> set ?ids then claim_row now r else r) (db_rows (ws_db s)) =
      update_rows (\<lambda>r. r \<in> set C) (claim_row now) (db_rows (ws_db s))"
    unfolding update_rows_def by (rule map_cong) (simp_all add: C_def claim_set_def)
  then have "job_check (map (\<lambda>r. if j_id r \<in> set ?ids then claim_row now r else r) (db_rows (ws_db s))) = None"
    using claim_keeps_ok [OF assms(2) pend] by simp
  then obtain res db' where cl: "claim_jobs (handler_names h) (qc_name (jc_queues cfg ! q)) now (ws_permits s ! q) (ws_db s) = (Inr res, db')"
    using assms(3) by (simp add: claim_jobs_def Let_def execute_raw_def sql_update_def)
  note turn = poll_queue_claims [OF assms(2,4) False cl]
  show ?thesis unfolding turn(1) C_def by (simp add: turn(3))
qed

section \<open>Properties\<close>

lemma active_unique:
  assumes "job_ok rows" "r \<in> set rows" "q \<in> set rows" "job_active r" "job_active q"
    "j_payload_hash r = Some h" "j_payload_hash q = Some h"
  shows "r = q"
proof -
  let ?F = "filter (\<lambda>r. job_active r \<and> j_payload_hash r \<noteq> None) rows"
  have "inj_on (the \<circ> j_payload_hash) (set ?F)"
    using assms(1) unfolding job_ok_def active_hashes_def distinct_map by blast
  then show ?thesis by (rule inj_onD) (use assms in auto)
qed

text \<open>A small system to evaluate the theorems on: one queue with one permit, a stale threshold of one
  second, and one handler that may run twice.\<close>

definition demo_sys :: job_system where
  "demo_sys = \<lparr>sys_digest = id,
     sys_config = \<lparr>jc_poll_interval_secs = 1, jc_stale_threshold_secs = 1, jc_stale_reaper_interval_secs = 1,
       jc_drain_timeout_secs = 1, jc_queues = [\<lparr>qc_name = ''q'', qc_concurrency = 1\<rparr>], jc_cleanup = None\<rparr>,
     sys_handlers = [(''h'', \<lparr>jo_max_attempts = 2, jo_timeout_secs = 5\<rparr>)]\<rparr>"

definition demo_jobs :: worker_state where
  "demo_jobs = worker_start (sys_config demo_sys) \<lparr>db_rows = [], db_faults = []\<rparr>"

definition demo_opts :: enqueue_options where
  "demo_opts = \<lparr>eo_queue = ''q'', eo_run_at = None\<rparr>"

definition demo_claimed :: worker_state where
  "demo_claimed = job_exec demo_sys (PollEv 0 10)
     (job_exec demo_sys (EnqueueUniqueEv ''1'' 0 ''h'' ''{}'' demo_opts) demo_jobs)"

lemma demo_reach:
  assumes "\<And>s. allowed s (EnqueueUniqueEv ''1'' 0 ''h'' ''{}'' demo_opts)" "\<And>s. allowed s (PollEv 0 10)"
  shows "job_reach demo_sys allowed demo_claimed"
  unfolding demo_claimed_def demo_jobs_def by (intro job_reach.intros assms)



text \<open>C14. The concurrency limit holds in every reachable state: a queue never has more tasks in flight
  than its configured concurrency, and the permits it has left are exactly the difference.\<close>

theorem queue_concurrency_respected:
  assumes "job_reach sys allowed s" "q < length (jc_queues (sys_config sys))"
  shows "queue_load q (ws_tasks s) \<le> qc_concurrency (jc_queues (sys_config sys) ! q) \<and>
     ws_permits s ! q = qc_concurrency (jc_queues (sys_config sys) ! q) - queue_load q (ws_tasks s)"
proof -
  have "ws_permits s ! q + queue_load q (ws_tasks s) = qc_concurrency (jc_queues (sys_config sys) ! q)"
    using job_reach_ok [OF assms(1)] assms(2) unfolding permits_ok_def by blast
  then show ?thesis by linarith
qed

theorem queue_concurrency_respected_witness: "queue_load 0 (ws_tasks demo_claimed) \<le> 1"
proof -
  have "qc_concurrency (jc_queues (sys_config demo_sys) ! 0) = 1" "0 < length (jc_queues (sys_config demo_sys))"
    by (simp_all add: demo_sys_def)
  with queue_concurrency_respected [OF demo_reach [where allowed = "\<lambda>_ _. True"], of 0] show ?thesis by simp
qed





text \<open>As long as nothing is reaped, a job is attempted at most as often as its handler allows (once
  if that is zero), over any number of failures, timeouts and restarts; a job that has used its
  attempts up is not pending.\<close>

theorem attempts_bounded:
  assumes "job_reach sys no_reap s" "r \<in> set (db_rows (ws_db s))"
  shows "j_attempt r \<le> max 1 (jo_max_attempts (the (map_of (sys_handlers sys) (j_name r)))) \<and>
     (j_status r = Pending \<longrightarrow> j_attempt r < max 1 (jo_max_attempts (the (map_of (sys_handlers sys) (j_name r)))))"
  using job_reach_attempts [OF assms] by (simp add: attempt_ok_def attempt_limit_def)

theorem attempts_bounded_witness: "j_attempt (hd (db_rows (ws_db demo_claimed))) \<le> 2"
proof -
  have "hd (db_rows (ws_db demo_claimed)) \<in> set (db_rows (ws_db demo_claimed))"
    "j_name (hd (db_rows (ws_db demo_claimed))) = ''h''" by code_simp+
  with attempts_bounded [OF demo_reach [where allowed = no_reap], of "hd (db_rows (ws_db demo_claimed))"]
  show ?thesis by (simp add: no_reap_def demo_sys_def)
qed

text \<open>Claiming is fair and exact: one turn of a queue starts exactly one task for each job it
  claims; it claims as many due pending jobs of that queue with a registered handler as there are
  permits (or all of them), and no due job it leaves behind was due earlier than one it took.
  (When the claim statement fails nothing changes.)\<close>

theorem poll_claims_earliest:
  assumes "job_ok (db_rows (ws_db s))" "healthy (ws_db s)" "handler_names h \<noteq> []"
    "C = claim_set (handler_names h) (qc_name (jc_queues cfg ! q)) now (ws_permits s ! q) (db_rows (ws_db s))"
  shows "ws_tasks (poll_queue cfg h q now s) = ws_tasks s @ map (row_task h q now) C \<and>
    db_rows (ws_db (poll_queue cfg h q now s)) = update_rows (\<lambda>r. r \<in> set C) (claim_row now) (db_rows (ws_db s)) \<and>
    length C = min (ws_permits s ! q) (length (filter (claimable (handler_names h) (qc_name (jc_queues cfg ! q)) now) (db_rows (ws_db s)))) \<and>
    (\<forall>c \<in> set C. claimable (handler_names h) (qc_name (jc_queues cfg ! q)) now c \<and>
      (\<forall>r \<in> set (db_rows (ws_db s)). claimable (handler_names h) (qc_name (jc_queues cfg ! q)) now r \<longrightarrow>
         r \<notin> set C \<longrightarrow> j_run_at c \<le> j_run_at r))"
  using poll_queue_healthy [OF assms(1-3)] claim_set_rows(2) [OF assms(1)]
    claim_set_claimable [OF assms(1)] claim_set_earliest [OF assms(1)]
  unfolding assms(4) by blast

theorem poll_claims_earliest_witness:
  "\<exists>C. length C = 1 \<and> ws_tasks demo_claimed = map (row_task (sys_handlers demo_sys) 0 10) C"
proof -
  let ?s = "job_exec demo_sys (EnqueueUniqueEv ''1'' 0 ''h'' ''{}'' demo_opts) demo_jobs"
  have s: "job_ok (db_rows (ws_db ?s))" "healthy (ws_db ?s)" "handler_names (sys_handlers demo_sys) \<noteq> []"
    "ws_tasks ?s = []" "min (ws_permits ?s ! 0) (length (filter (claimable (handler_names (sys_handlers demo_sys))
       (qc_name (jc_queues (sys_config demo_sys) ! 0)) 10) (db_rows (ws_db ?s)))) = 1"
    by code_simp+
  have "demo_claimed = poll_queue (sys_config demo_sys) (sys_handlers demo_sys) 0 10 ?s"
    by (simp add: demo_claimed_def demo_sys_def)
  then show ?thesis
    using poll_claims_earliest [OF s(1-3) refl, where cfg = "sys_config demo_sys" and q = 0 and now = 10] s(4,5)
    by auto
qed

text \<open>The delay before the retry that follows attempt \<open>a\<close> is five seconds doubled at every further
  attempt and at most an hour, as long as the product fits 64 bits; that holds up to attempt 62.\<close>

theorem retry_delay_backoff:
  assumes "1 \<le> a" "a \<le> 62"
  shows "retry_delay a = min (5 * 2 ^ (a - 1)) 3600"
proof -
  have "(2 :: nat) ^ (a - 1) \<le> 2 ^ 61" using assms by (intro power_increasing) auto
  then have small: "5 * (2 :: nat) ^ (a - 1) < 2 ^ 64" by simp
  have "(5 * 2 ^ (a - 1) :: u64) = of_nat (5 * 2 ^ (a - 1))" by simp
  then have u: "unat (5 * 2 ^ (a - 1) :: u64) = 5 * 2 ^ (a - 1)"
    using small by (simp add: unat_of_nat take_bit_nat_eq_self del: of_nat_mult of_nat_power)
  then show ?thesis unfolding retry_delay_def min_def word_le_nat_alt by simp
qed

theorem retry_delay_backoff_witness: "retry_delay 3 = 20"
  using retry_delay_backoff [of 3] by simp

text \<open>From attempt 65 on the product wraps to zero: the job is retried without any delay.\<close>

lemma retry_delay_wraps: "retry_delay 65 = 0"
proof -
  have "(2 :: u64) ^ 64 = 0" by simp
  then show ?thesis by (simp add: retry_delay_def)
qed

lemma job_check_unique: "job_check rows = Some e \<Longrightarrow> is_unique_violation e"
  by (auto simp: job_check_def is_unique_violation_def split: if_splits)

lemma job_ok_insert:
  assumes "job_ok rows" "j_id r \<notin> j_id ` set rows" "job_active r" "j_payload_hash r = Some h"
  shows "job_ok (rows @ [r]) \<longleftrightarrow> \<not> (\<exists>q \<in> set rows. job_active q \<and> j_payload_hash q = Some h)"
  using assms by (force simp: job_ok_def active_hashes_def)

text \<open>On a database that answers, \<^verbatim>\<open>enqueue_unique\<close> either adds the new pending job and returns
  \<open>Created\<close>, when no pending or running job has its payload hash, or leaves the table as it is and
  returns \<open>Duplicate\<close> with the id of the one job that does.\<close>

theorem enqueue_unique_answers:
  fixes db :: job_db
  assumes "job_ok (db_rows db)" "healthy db" "ser payload = Inr json" "new_id \<notin> j_id ` set (db_rows db)"
    "hash = compute_payload_hash digest name json"
    "enqueue_unique_with ser digest new_id now name payload options db = (res, db')"
  shows "if \<exists>r \<in> set (db_rows db). job_active r \<and> j_payload_hash r = Some hash
     then db_rows db' = db_rows db \<and>
       (\<exists>r \<in> set (db_rows db). job_active r \<and> j_payload_hash r = Some hash \<and> res = Inr (Duplicate (j_id r)))
     else db_rows db' = db_rows db @ [new_job new_id now name json (Some hash) options] \<and> res = Inr (Created new_id)"
proof -
  let ?r = "new_job new_id now name json (Some hash) options"
  let ?dup = "filter (\<lambda>r. j_payload_hash r = Some hash \<and> job_active r) (db_rows db)"
  have ok: "job_ok (db_rows db @ [?r]) \<longleftrightarrow> \<not> (\<exists>q \<in> set (db_rows db). job_active q \<and> j_payload_hash q = Some hash)"
    using assms(1,4) by (intro job_ok_insert) (simp_all add: new_job_def job_active_def)
  show ?thesis
  proof (cases "\<exists>q \<in> set (db_rows db). job_active q \<and> j_payload_hash q = Some hash")
    case True
    then obtain e where e: "job_check (db_rows db @ [?r]) = Some e" using ok job_check_None by blast
    obtain q qs where dup: "?dup = q # qs" using True by (metis (mono_tags, lifting) filter_empty_conv list.exhaust)
    then have "q \<in> set ?dup" by simp
    then have "q \<in> set (db_rows db)" "job_active q" "j_payload_hash q = Some hash" by simp_all
    with True dup show ?thesis
      using assms(2,3,5,6) e job_check_unique [OF e]
      by (auto simp: enqueue_unique_with_def Let_def execute_raw_def sql_insert_def query_one_map_def query_raw_def)
  next
    case False
    then have "job_check (db_rows db @ [?r]) = None" using ok job_check_None by blast
    with False show ?thesis
      using assms(2,3,5,6) by (auto simp: enqueue_unique_with_def Let_def execute_raw_def sql_insert_def simp del: job_check_None)
  qed
qed

theorem enqueue_unique_answers_witness:
  "fst (enqueue_unique_with Inr id ''2'' 5 ''h'' ''{}'' demo_opts (ws_db demo_claimed)) = Inr (Duplicate ''1'')"
proof -
  have h: "job_ok (db_rows (ws_db demo_claimed))" "healthy (ws_db demo_claimed)" "''2'' \<notin> j_id ` set (db_rows (ws_db demo_claimed))"
    "map j_id (db_rows (ws_db demo_claimed)) = [''1'']"
    "map (\<lambda>r. job_active r \<and> j_payload_hash r = Some (compute_payload_hash id ''h'' ''{}'')) (db_rows (ws_db demo_claimed)) = [True]"
    by code_simp+
  obtain res db' where r: "enqueue_unique_with Inr id ''2'' 5 ''h'' ''{}'' demo_opts (ws_db demo_claimed) = (res, db')"
    by (cases "enqueue_unique_with Inr id ''2'' 5 ''h'' ''{}'' demo_opts (ws_db demo_claimed)")
  have "\<exists>r. db_rows (ws_db demo_claimed) = [r] \<and> j_id r = ''1'' \<and> job_active r \<and>
     j_payload_hash r = Some (compute_payload_hash id ''h'' ''{}'')"
    using h(4,5) by (auto simp: map_eq_Cons_conv)
  then show ?thesis
    using enqueue_unique_answers [OF h(1,2) refl h(3) refl r] r by auto
qed

text \<open>Beyond that proviso the statements that end a task are not guarded. A task older than the stale
  threshold is reaped, its job runs again and completes; when the first task then fails, the
  completed row is pending once more.\<close>

definition demo_revived :: worker_state where
  "demo_revived = fold (job_exec (demo_sys\<lparr>sys_config := (sys_config demo_sys)\<lparr>jc_stale_threshold_secs := 0,
       jc_queues := [\<lparr>qc_name = ''q'', qc_concurrency = 2\<rparr>]\<rparr>\<rparr>))
     [EnqueueUniqueEv ''1'' 0 ''h'' ''{}'' demo_opts, PollEv 0 1, ReapEv 2 2, PollEv 0 3, EndEv 1 JobOk 4 4]
     (worker_start \<lparr>jc_poll_interval_secs = 1, jc_stale_threshold_secs = 0, jc_stale_reaper_interval_secs = 1,
       jc_drain_timeout_secs = 1, jc_queues = [\<lparr>qc_name = ''q'', qc_concurrency = 2\<rparr>], jc_cleanup = None\<rparr>
       \<lparr>db_rows = [], db_faults = []\<rparr>)"

lemma reaped_job_revived:
  "map j_status (db_rows (ws_db demo_revived)) = [Completed]"
  "map j_status (db_rows (ws_db (job_exec demo_sys (EndEv 0 (JobErr ''late'') 5 5) demo_revived))) = [Pending]"
  by code_simp+

text \<open>Nor does the reaper look at the attempts: reaped often enough, a job starts once more than its
  handler allows.\<close>

lemma reaping_exceeds_attempts:
  "map j_attempt (db_rows (ws_db (fold (job_exec (demo_sys\<lparr>sys_config := (sys_config demo_sys)\<lparr>jc_stale_threshold_secs := 0\<rparr>\<rparr>))
     [ReapEv 11 11, RestartEv, PollEv 0 12, ReapEv 13 13, RestartEv, PollEv 0 14] demo_claimed))) = [3]"
  by code_simp

end
