(* ===== verification/F64.thy ===== *)
theory F64
  imports Prelude Complex_Main "HOL-Library.Log_Nat"
begin

text \<open>
  Arithmetic of \<^verbatim>\<open>f64\<close>: a value is a rational, and an operation is the exact rational operation
  followed by \<open>f64_round\<close>, rounding to 53 significant bits, ties to even. The range of the exponent is not
  limited: the clients compute with zero and with values between \<open>2 ^ -60\<close> and \<open>2 ^ 130\<close> only, far from
  the subnormal numbers and from overflow. The locale \<open>rounding\<close> is what the clients rely on.
\<close>

section \<open>Definitions\<close>

definition round_half_even :: "rat \<Rightarrow> int" where
  "round_half_even y =
     (let f = \<lfloor>y\<rfloor>; d = y - of_int f
      in if d < 1 / 2 then f else if 1 / 2 < d then f + 1 else if even f then f else f + 1)"

text \<open>The exponent of the leading bit of a positive rational.\<close>

definition leading_exp :: "rat \<Rightarrow> int" where
  "leading_exp x =
     (let (a, b) = quotient_of x;
          k = int (floorlog 2 (nat a)) - int (floorlog 2 (nat b)) - 1
      in if 2 powi (k + 1) \<le> x then k + 1 else k)"

definition f64_pos :: "rat \<Rightarrow> rat" where
  "f64_pos x = (let e = leading_exp x - 52 in of_int (round_half_even (x / 2 powi e)) * 2 powi e)"

definition f64_round :: "rat \<Rightarrow> rat" where
  "f64_round x = (if x = 0 then 0 else if 0 < x then f64_pos x else - f64_pos (- x))"

section \<open>Rounding to integers\<close>

lemma round_half_even_err: "\<bar>of_int (round_half_even y) - y\<bar> \<le> 1 / 2"
proof -
  have "of_int \<lfloor>y\<rfloor> \<le> y" "y < of_int \<lfloor>y\<rfloor> + 1" by linarith+
  then show ?thesis by (auto simp: round_half_even_def Let_def abs_le_iff)
qed

lemma round_half_even_ge: "of_int n \<le> y \<Longrightarrow> n \<le> round_half_even y"
proof -
  assume "of_int n \<le> y"
  then have "n \<le> \<lfloor>y\<rfloor>" by (simp add: le_floor_iff)
  then show ?thesis by (simp add: round_half_even_def Let_def)
qed

lemma round_half_even_le: "y \<le> of_int n \<Longrightarrow> round_half_even y \<le> n"
proof -
  assume y: "y \<le> of_int n"
  show ?thesis
  proof (cases "y = of_int n")
    case False
    then have "\<lfloor>y\<rfloor> < n" using y by (simp add: floor_less_iff)
    then show ?thesis by (auto simp: round_half_even_def Let_def)
  qed (simp add: round_half_even_def Let_def)
qed

section \<open>The exponent\<close>

lemma floorlog_powi:
  assumes "0 < (a :: int)"
  shows "2 powi (int (floorlog 2 (nat a)) - 1) \<le> (of_int a :: rat)" "(of_int a :: rat) < 2 powi int (floorlog 2 (nat a))"
proof -
  have pos: "0 < floorlog 2 (nat a)" using assms by (simp add: floorlog_def)
  have b: "2 ^ (floorlog 2 (nat a) - 1) \<le> nat a" "nat a < 2 ^ floorlog 2 (nat a)"
    using floorlog_bounds [of "nat a" 2] assms by auto
  have "int (2 ^ (floorlog 2 (nat a) - 1)) \<le> a" "a < int (2 ^ floorlog 2 (nat a))"
    using b assms by linarith+
  then have "(of_int (int (2 ^ (floorlog 2 (nat a) - 1))) :: rat) \<le> of_int a"
    "(of_int a :: rat) < of_int (int (2 ^ floorlog 2 (nat a)))" by (simp_all only: of_int_le_iff of_int_less_iff)
  moreover have "int (floorlog 2 (nat a)) - 1 = int (floorlog 2 (nat a) - 1)" using pos by simp
  ultimately show "2 powi (int (floorlog 2 (nat a)) - 1) \<le> (of_int a :: rat)"
    "(of_int a :: rat) < 2 powi int (floorlog 2 (nat a))"
    by (simp_all only: power_int_of_nat) simp_all
qed

lemma leading_exp_bounds:
  assumes "0 < x"
  shows "2 powi leading_exp x \<le> x" "x < 2 powi (leading_exp x + 1)"
proof -
  obtain a b where q: "quotient_of x = (a, b)" by (cases "quotient_of x")
  then have b: "0 < b" by (rule quotient_of_denom_pos)
  have x: "x = of_int a / of_int b" using q by (rule quotient_of_div)
  then have a: "0 < a" using assms b by (simp add: zero_less_divide_iff)
  define la where "la = int (floorlog 2 (nat a))"
  define lb where "lb = int (floorlog 2 (nat b))"
  define p where "p = (2 :: rat) powi la"
  define r where "r = (2 :: rat) powi lb"
  have pr: "0 < p" "0 < r" by (simp_all add: p_def r_def)
  have A: "p / 2 \<le> of_int a" "of_int a < p" and B: "r / 2 \<le> of_int b" "of_int b < r"
    using floorlog_powi [OF a] floorlog_powi [OF b]
    by (simp_all add: p_def r_def la_def lb_def power_int_diff)
  have k: "2 powi (la - lb - 1) = p / r / 2" "2 powi (la - lb) = p / r" "2 powi (la - lb + 1) = 2 * (p / r)"
    by (simp_all add: p_def r_def power_int_diff power_int_add)
  have "p / 2 * of_int b \<le> of_int a * r"
    by (intro mult_mono) (use A B a b pr in auto)
  then have lower: "p / r / 2 \<le> x" using b pr by (simp add: x field_simps)
  have "of_int a * r < p * r" using A(2) pr(2) by (rule mult_strict_right_mono)
  also have "\<dots> \<le> p * (2 * of_int b)" using B(1) pr(1) by (intro mult_left_mono) simp_all
  finally have upper: "x < 2 * (p / r)" using b pr by (simp add: x field_simps)
  show "2 powi leading_exp x \<le> x" "x < 2 powi (leading_exp x + 1)"
    using lower upper by (auto simp: leading_exp_def q la_def [symmetric] lb_def [symmetric] Let_def k)
qed


section \<open>The interface\<close>

text \<open>
  What the clients use of the arithmetic: the relative error \<open>u\<close> of an operation with a result that
  is not negative, and that integers of 53 bits are values and bounds.
\<close>

locale rounding =
  fixes rnd :: "rat \<Rightarrow> rat" and u :: rat
  assumes u_range: "0 \<le> u" "u \<le> 1 / 2 ^ 53"
    and rnd_le: "0 \<le> x \<Longrightarrow> rnd x \<le> x * (1 + u)"
    and rnd_ge: "0 \<le> x \<Longrightarrow> x * (1 - u) \<le> rnd x"
    and rnd_ge_nat: "n \<le> 2 ^ 53 \<Longrightarrow> of_nat n \<le> x \<Longrightarrow> of_nat n \<le> rnd x"
    and rnd_le_nat: "n < 2 ^ 53 \<Longrightarrow> 0 \<le> x \<Longrightarrow> x \<le> of_nat n \<Longrightarrow> rnd x \<le> of_nat n"
begin

lemma rnd_nonneg: "0 \<le> x \<Longrightarrow> 0 \<le> rnd x"
  using rnd_ge_nat [of 0 x] by simp

lemma rnd_nat: "n < 2 ^ 53 \<Longrightarrow> rnd (of_nat n) = of_nat n"
  by (rule antisym) (simp_all add: rnd_ge_nat rnd_le_nat)

lemma rnd_bound: "0 \<le> x \<Longrightarrow> x \<le> b \<Longrightarrow> rnd x \<le> x + b * u"
  using rnd_le [of x] mult_right_mono [of x b u] u_range(1) by (simp add: distrib_left)

end

lemma f64_pos_err: "0 < x \<Longrightarrow> \<bar>f64_pos x - x\<bar> \<le> x / 2 ^ 53"
proof -
  assume x: "0 < x"
  define e where "e = leading_exp x - 52"
  have e: "(0 :: rat) < 2 powi e" by simp
  have "2 powi e * 2 ^ 52 = (2 :: rat) powi leading_exp x"
    by (simp add: e_def power_int_diff)
  then have ulp: "2 powi e \<le> x / 2 ^ 52" using leading_exp_bounds(1) [OF x] by (simp add: field_simps)
  let ?m = "of_int (round_half_even (x / 2 powi e)) :: rat"
  have "\<bar>f64_pos x - x\<bar> = \<bar>?m - x / 2 powi e\<bar> * 2 powi e"
  proof -
    have "f64_pos x - x = (?m - x / 2 powi e) * 2 powi e"
      using e by (simp add: f64_pos_def Let_def e_def [symmetric] left_diff_distrib)
    then show ?thesis using e by (simp add: abs_mult)
  qed
  also have "\<dots> \<le> 1 / 2 * 2 powi e"
    using round_half_even_err e by (intro mult_right_mono) simp_all
  finally show ?thesis using ulp by simp
qed

lemma f64_round_upper: "0 \<le> x \<Longrightarrow> f64_round x \<le> x + x / 2 ^ 53"
  and f64_round_lower: "0 \<le> x \<Longrightarrow> x - x / 2 ^ 53 \<le> f64_round x"
  using f64_pos_err [of x] unfolding abs_le_iff f64_round_def by auto

lemma f64_pos_multiple:
  assumes "0 < x" "of_int k * 2 powi (leading_exp x - 52) = c"
  shows "c \<le> x \<Longrightarrow> c \<le> f64_pos x" "x \<le> c \<Longrightarrow> f64_pos x \<le> c"
proof -
  let ?e = "leading_exp x - 52"
  have e: "(0 :: rat) < 2 powi ?e" by simp
  have k: "c / 2 powi ?e = of_int k" using assms(2) e by (simp add: field_simps)
  show "c \<le> f64_pos x" if "c \<le> x"
  proof -
    have "of_int k \<le> x / 2 powi ?e" using divide_right_mono [OF that, of "2 powi ?e"] e k by simp
    then show ?thesis using round_half_even_ge e unfolding assms(2) [symmetric] f64_pos_def Let_def by simp
  qed
  show "f64_pos x \<le> c" if "x \<le> c"
  proof -
    have "x / 2 powi ?e \<le> of_int k" using divide_right_mono [OF that, of "2 powi ?e"] e k by simp
    then show ?thesis using round_half_even_le e unfolding assms(2) [symmetric] f64_pos_def Let_def by simp
  qed
qed

text \<open>A natural number of at most 53 bits is a multiple of the last place of every value up to it.\<close>

lemma f64_grid:
  assumes "0 < x" "x < 2 ^ 53"
  shows "\<exists>k. of_int k * 2 powi (leading_exp x - 52) = (of_nat n :: rat)"
proof -
  have "(2 :: rat) powi leading_exp x < 2 powi 53" using leading_exp_bounds(1) [OF assms(1)] assms(2) by simp
  then have "leading_exp x < 53" using power_int_increasing [of 53 "leading_exp x" "2 :: rat"] by force
  then have "leading_exp x - 52 \<le> 0" by simp
  then obtain j where j: "leading_exp x - 52 = - int j" by (rule nonpos_int_cases)
  have "of_int (int n * 2 ^ j) * 2 powi (leading_exp x - 52) = (of_nat n :: rat)"
    by (simp add: j power_int_minus)
  then show ?thesis by blast
qed


lemma f64_ge_nat:
  assumes "n \<le> 2 ^ 53" "of_nat n \<le> x"
  shows "of_nat n \<le> f64_round x"
proof (cases "x = 0 \<or> n = 0")
  case True
  then have "0 \<le> x" "n = 0" using assms(2) by auto
  then show ?thesis using f64_round_lower [of x] by simp
next
  case False
  then have "0 < (of_nat n :: rat)" by simp
  then have x: "0 < x" using assms(2) by linarith
  show ?thesis
  proof (cases "x < 2 ^ 53")
    case True
    then obtain k where "of_int k * 2 powi (leading_exp x - 52) = (of_nat n :: rat)" using f64_grid [OF x] by blast
    from f64_pos_multiple(1) [OF x this assms(2)] x show ?thesis by (simp add: f64_round_def)
  next
    case big: False
    have "of_int (2 ^ 52) * 2 powi (leading_exp x - 52) = (2 :: rat) powi leading_exp x" by (simp add: power_int_diff)
    from f64_pos_multiple(1) [OF x this] leading_exp_bounds(1) [OF x]
    have "2 powi leading_exp x \<le> f64_round x" using x by (simp add: f64_round_def)
    moreover have "53 \<le> leading_exp x"
    proof (rule ccontr)
      assume "\<not> 53 \<le> leading_exp x"
      then have "(2 :: rat) powi (leading_exp x + 1) \<le> 2 powi 53" by (intro power_int_increasing) simp_all
      then show False using leading_exp_bounds(2) [OF x] big by simp
    qed
    then have "(2 :: rat) powi 53 \<le> 2 powi leading_exp x" by (intro power_int_increasing) simp_all
    moreover have "(of_nat n :: rat) \<le> 2 powi 53" using assms(1) by (simp flip: of_nat_power add: of_nat_le_iff) 
    ultimately show ?thesis by linarith
  qed
qed

lemma f64_le_nat:
  assumes "n < 2 ^ 53" "0 \<le> x" "x \<le> of_nat n"
  shows "f64_round x \<le> of_nat n"
proof (cases "x = 0")
  case False
  have "(of_nat n :: rat) < of_nat (2 ^ 53)" using assms(1) by (simp only: of_nat_less_iff)
  then have x: "0 < x" "x < 2 ^ 53" using assms False by auto
  then obtain k where "of_int k * 2 powi (leading_exp x - 52) = (of_nat n :: rat)" using f64_grid by blast
  from f64_pos_multiple(2) [OF x(1) this assms(3)] x show ?thesis by (simp add: f64_round_def)
qed (simp add: f64_round_def)

interpretation f64: rounding f64_round "1 / 2 ^ 53"
proof
  show "f64_round x \<le> x * (1 + 1 / 2 ^ 53)" "x * (1 - 1 / 2 ^ 53) \<le> f64_round x" if "0 \<le> x" for x
    using f64_round_lower [OF that] f64_round_upper [OF that] by (simp_all add: algebra_simps)
qed (simp_all add: f64_ge_nat f64_le_nat)

end
