(* ===== verification/Rate_Limit.thy ===== *)
theory Rate_Limit
  imports Errors F64 "HOL-Library.AList"
begin

text \<open>
  \<^verbatim>\<open>src/src/middleware/rate_limit.rs\<close>: the token bucket in \<^verbatim>\<open>f64\<close> arithmetic (\<open>f64_round\<close> after every
  operation), the sharded map of buckets with the cap on its keys, its cleanup, and the middleware.
  Instants are integers (nanoseconds). The hash of a key is a parameter. \<^verbatim>\<open>check_or_insert\<close> takes
  the locks of the map several times, so calls can interleave: \<open>rl_step\<close> has one step for each critical
  section of a call.
\<close>

section \<open>Durations\<close>

definition nanos_per_sec :: rat where
  "nanos_per_sec = 1000000000"

text \<open>\<^verbatim>\<open>Instant::duration_since\<close> (which saturates) and \<^verbatim>\<open>Duration::as_secs_f64\<close>.\<close>

definition duration_since :: "int \<Rightarrow> int \<Rightarrow> nat" where
  "duration_since now earlier = nat (now - earlier)"

definition as_secs_f64 :: "nat \<Rightarrow> rat" where
  "as_secs_f64 ns =
     f64_round (f64_round (of_nat (ns div 1000000000)) +
       f64_round (f64_round (of_nat (ns mod 1000000000)) / nanos_per_sec))"

text \<open>\<^verbatim>\<open>Duration::from_secs_f64\<close> rounds to whole nanoseconds.\<close>

definition from_secs_f64 :: "rat \<Rightarrow> nat" where
  "from_secs_f64 s = nat (round_half_even (s * nanos_per_sec))"

section \<open>Configuration\<close>

record rate_limit_config =
  rl_per_second :: nat
  rl_burst_size :: nat
  rl_use_headers :: bool
  rl_cleanup_interval_secs :: nat
  rl_max_keys :: nat

definition rate_limit_config_default :: rate_limit_config where
  "rate_limit_config_default =
     \<lparr>rl_per_second = 1, rl_burst_size = 10, rl_use_headers = True, rl_cleanup_interval_secs = 60,
      rl_max_keys = 10000\<rparr>"

section \<open>Token bucket\<close>

record token_bucket =
  tb_tokens :: rat
  tb_last_refill :: int

text \<open>The wait of a rejection is a value, or infinite (\<open>None\<close>) when nothing is ever refilled.\<close>

datatype check_result = Allowed nat | Rejected "rat option"

definition bucket_new :: "int \<Rightarrow> nat \<Rightarrow> token_bucket" where
  "bucket_new now burst_size = \<lparr>tb_tokens = f64_round (of_nat burst_size), tb_last_refill = now\<rparr>"

definition bucket_refill :: "int \<Rightarrow> nat \<Rightarrow> nat \<Rightarrow> token_bucket \<Rightarrow> rat" where
  "bucket_refill now per_second burst_size b =
     (let elapsed = as_secs_f64 (duration_since now (tb_last_refill b))
      in min (f64_round (tb_tokens b + f64_round (elapsed * f64_round (of_nat per_second))))
           (f64_round (of_nat burst_size)))"

definition bucket_check :: "int \<Rightarrow> nat \<Rightarrow> nat \<Rightarrow> token_bucket \<Rightarrow> check_result \<times> token_bucket" where
  "bucket_check now per_second burst_size b =
     (let tokens = bucket_refill now per_second burst_size b
      in if 1 \<le> tokens
         then let tokens' = f64_round (tokens - 1)
              in (Allowed (min (2 ^ 32 - 1) (nat \<lfloor>tokens'\<rfloor>)),
                  \<lparr>tb_tokens = tokens', tb_last_refill = now\<rparr>)
         else let deficit = f64_round (1 - tokens);
                  wait = (if per_second = 0 then None else Some (f64_round (deficit / f64_round (of_nat per_second))))
              in (Rejected wait, \<lparr>tb_tokens = tokens, tb_last_refill = now\<rparr>))"

section \<open>Sharded map\<close>

type_synonym shards = "(string \<times> token_bucket) list list"

definition DEFAULT_SHARDS :: nat where
  "DEFAULT_SHARDS = 16"

definition sharded_new :: "nat \<Rightarrow> shards" where
  "sharded_new num_shards = replicate num_shards []"

definition shard_index :: "(string \<Rightarrow> u64) \<Rightarrow> shards \<Rightarrow> string \<Rightarrow> nat" where
  "shard_index hash shards key = unat (hash key) mod length shards"

definition total_keys :: "shards \<Rightarrow> nat" where
  "total_keys shards = sum_list (map length shards)"

definition shard_get :: "(string \<Rightarrow> u64) \<Rightarrow> string \<Rightarrow> shards \<Rightarrow> token_bucket option" where
  "shard_get hash key shards = map_of (shards ! shard_index hash shards key) key"

definition shard_put :: "(string \<Rightarrow> u64) \<Rightarrow> string \<Rightarrow> token_bucket \<Rightarrow> shards \<Rightarrow> shards" where
  "shard_put hash key bucket shards =
     (let idx = shard_index hash shards key in shards[idx := AList.update key bucket (shards ! idx)])"

text \<open>
  The critical sections of \<^verbatim>\<open>check_or_insert\<close>: the check of an existing bucket under the write lock,
  and the insertion, which looks again first. \<open>t\<close> and \<open>now\<close> are the instants that
  \<^verbatim>\<open>TokenBucket::new\<close> and \<^verbatim>\<open>check\<close> read.
\<close>

definition check_existing ::
  "(string \<Rightarrow> u64) \<Rightarrow> string \<Rightarrow> int \<Rightarrow> nat \<Rightarrow> nat \<Rightarrow> shards \<Rightarrow> (check_result \<times> shards) option" where
  "check_existing hash key now per_second burst_size shards =
     (case shard_get hash key shards of
        None \<Rightarrow> None
      | Some bucket \<Rightarrow>
          (case bucket_check now per_second burst_size bucket of
             (result, bucket') \<Rightarrow> Some (result, shard_put hash key bucket' shards)))"

definition insert_key ::
  "(string \<Rightarrow> u64) \<Rightarrow> string \<Rightarrow> int \<Rightarrow> int \<Rightarrow> nat \<Rightarrow> nat \<Rightarrow> shards \<Rightarrow> check_result \<times> shards" where
  "insert_key hash key t now per_second burst_size shards =
     (case check_existing hash key now per_second burst_size shards of
        Some r \<Rightarrow> r
      | None \<Rightarrow>
          (case bucket_check now per_second burst_size (bucket_new t burst_size) of
             (result, bucket) \<Rightarrow> (result, shard_put hash key bucket shards)))"

text \<open>A call that is not interleaved with others.\<close>

definition check_or_insert ::
  "(string \<Rightarrow> u64) \<Rightarrow> string \<Rightarrow> int \<Rightarrow> int \<Rightarrow> nat \<Rightarrow> nat \<Rightarrow> nat \<Rightarrow> shards \<Rightarrow> check_result \<times> shards" where
  "check_or_insert hash key t now per_second burst_size max_keys shards =
     (case (if shard_get hash key shards \<noteq> None
            then check_existing hash key now per_second burst_size shards else None) of
        Some r \<Rightarrow> r
      | None \<Rightarrow>
          if 0 < max_keys \<and> max_keys \<le> total_keys shards then (Rejected (Some 1), shards)
          else insert_key hash key t now per_second burst_size shards)"

definition max_idle :: "nat \<Rightarrow> nat \<Rightarrow> nat" where
  "max_idle per_second burst_size =
     (if 0 < per_second
      then from_secs_f64 (f64_round (f64_round (of_nat burst_size) / f64_round (of_nat per_second)))
      else 3600 * 1000000000)"

text \<open>The turn of one shard in the cleanup; \<open>now\<close> is read once, before the first shard.\<close>

definition cleanup_shard ::
  "int \<Rightarrow> nat \<Rightarrow> nat \<Rightarrow> (string \<times> token_bucket) list \<Rightarrow> (string \<times> token_bucket) list" where
  "cleanup_shard now per_second burst_size shard =
     filter (\<lambda>(_, b). duration_since now (tb_last_refill b) < max_idle per_second burst_size) shard"

definition rl_cleanup :: "int \<Rightarrow> nat \<Rightarrow> nat \<Rightarrow> shards \<Rightarrow> shards" where
  "rl_cleanup now per_second burst_size shards = map (cleanup_shard now per_second burst_size) shards"

section \<open>The middleware\<close>

type_synonym headers = "(string \<times> string) list"

definition header_insert :: "string \<Rightarrow> string \<Rightarrow> headers \<Rightarrow> headers" where
  "header_insert name v hs = (name, v) # filter (\<lambda>h. fst h \<noteq> name) hs"

definition header_default :: "string \<Rightarrow> string \<Rightarrow> headers \<Rightarrow> headers" where
  "header_default name v hs = (if name \<in> fst ` set hs then hs else header_insert name v hs)"

definition ceil_secs :: "rat option \<Rightarrow> nat" where
  "ceil_secs wait = (case wait of None \<Rightarrow> 2 ^ 64 - 1 | Some w \<Rightarrow> min (2 ^ 64 - 1) (nat \<lceil>w\<rceil>))"

definition reject_response :: "rate_limit_config \<Rightarrow> rat option \<Rightarrow> error_response \<times> headers" where
  "reject_response config retry_after_secs =
     (let retry_secs = ceil_secs retry_after_secs;
          error = with_details (JObject [(''retry_after'', JNumber (int retry_secs))])
                    (too_many_requests (''retry after '' @ dec_nat retry_secs @ ''s''))
      in (into_response error,
          if rl_use_headers config
          then header_insert ''x-ratelimit-remaining'' (dec_nat 0)
                 (header_insert ''x-ratelimit-limit'' (dec_nat (rl_burst_size config))
                   (header_insert ''retry-after'' (dec_nat retry_secs) []))
          else []))"

definition allow_headers :: "rate_limit_config \<Rightarrow> nat \<Rightarrow> nat \<Rightarrow> headers \<Rightarrow> headers" where
  "allow_headers config remaining unix_now hs =
     (if rl_use_headers config
      then header_default ''x-ratelimit-reset''
             (dec_nat (if rl_per_second config = 0 then 0
                       else unix_now + rl_burst_size config div rl_per_second config))
             (header_default ''x-ratelimit-remaining'' (dec_nat remaining)
               (header_default ''x-ratelimit-limit'' (dec_nat (rl_burst_size config)) hs))
      else hs)"

text \<open>
  The answer to a request: the error response of this layer with the headers it adds, or what the
  inner service gives (its error, or its headers and body). \<open>unix_now\<close> is the system clock in seconds.
\<close>

definition rl_call ::
  "(string \<Rightarrow> u64) \<Rightarrow> rate_limit_config \<Rightarrow> ('q \<Rightarrow> string option) \<Rightarrow> ('q \<Rightarrow> 'e + headers \<times> 'b) \<Rightarrow>
   int \<Rightarrow> int \<Rightarrow> nat \<Rightarrow> 'q \<Rightarrow> shards \<Rightarrow> ((error_response \<times> headers) + ('e + headers \<times> 'b)) \<times> shards" where
  "rl_call hash config extract inner t now unix_now req st =
     (case extract req of
        None \<Rightarrow> (Inl (into_response (internal ''unable to extract rate-limit key''), []), st)
      | Some key \<Rightarrow>
          (case check_or_insert hash key t now (rl_per_second config) (rl_burst_size config) (rl_max_keys config) st of
             (Rejected retry, st') \<Rightarrow> (Inl (reject_response config retry), st')
           | (Allowed remaining, st') \<Rightarrow>
               (Inr (bind_res (inner req) (\<lambda>(hs, body). Inr (allow_headers config remaining unix_now hs, body))), st')))"

definition global_key :: "'q \<Rightarrow> string option" where
  "global_key req = Some ''__global__''"


section \<open>Interleaved calls\<close>

text \<open>
  Where a thread is in \<^verbatim>\<open>check_or_insert\<close>: outside, about to take the write lock for an existing key,
  about to read the size of the next shard (with the sum of those before), or about to take the
  write lock to insert.
\<close>

datatype rl_pc = RIdle | RWrite string | RCount string nat nat | RInsert string

record rl_state =
  rs_shards :: shards
  rs_pc :: "rl_pc list"

definition rl_start :: "nat \<Rightarrow> nat \<Rightarrow> rl_state" where
  "rl_start num_shards threads = \<lparr>rs_shards = sharded_new num_shards, rs_pc = replicate threads RIdle\<rparr>"

text \<open>What follows when the key was not found: the count, unless there is no cap.\<close>

definition rl_missing :: "rate_limit_config \<Rightarrow> string \<Rightarrow> rl_pc" where
  "rl_missing config key = (if 0 < rl_max_keys config then RCount key 0 0 else RInsert key)"

text \<open>A thread starts a call: the lookup under the read lock.\<close>

definition rl_begin :: "(string \<Rightarrow> u64) \<Rightarrow> rate_limit_config \<Rightarrow> nat \<Rightarrow> string \<Rightarrow> rl_state \<Rightarrow> rl_state" where
  "rl_begin hash config i key s =
     (if i < length (rs_pc s) \<and> rs_pc s ! i = RIdle
      then s\<lparr>rs_pc := (rs_pc s)[i := if shard_get hash key (rs_shards s) \<noteq> None then RWrite key else rl_missing config key]\<rparr>
      else s)"

text \<open>A thread's next critical section, and the result of its call if it ends there.\<close>

definition rl_advance ::
  "(string \<Rightarrow> u64) \<Rightarrow> rate_limit_config \<Rightarrow> nat \<Rightarrow> int \<Rightarrow> int \<Rightarrow> rl_state \<Rightarrow> (string \<times> check_result) option \<times> rl_state" where
  "rl_advance hash config i t now s =
     (if \<not> i < length (rs_pc s) then (None, s)
      else case rs_pc s ! i of
        RIdle \<Rightarrow> (None, s)
      | RWrite key \<Rightarrow>
          (case check_existing hash key now (rl_per_second config) (rl_burst_size config) (rs_shards s) of
             Some (r, sh) \<Rightarrow> (Some (key, r), \<lparr>rs_shards = sh, rs_pc = (rs_pc s)[i := RIdle]\<rparr>)
           | None \<Rightarrow> (None, s\<lparr>rs_pc := (rs_pc s)[i := rl_missing config key]\<rparr>))
      | RCount key j counted \<Rightarrow>
          if j < length (rs_shards s)
          then (None, s\<lparr>rs_pc := (rs_pc s)[i := RCount key (Suc j) (counted + length (rs_shards s ! j))]\<rparr>)
          else if rl_max_keys config \<le> counted
          then (Some (key, Rejected (Some 1)), s\<lparr>rs_pc := (rs_pc s)[i := RIdle]\<rparr>)
          else (None, s\<lparr>rs_pc := (rs_pc s)[i := RInsert key]\<rparr>)
      | RInsert key \<Rightarrow>
          (case insert_key hash key t now (rl_per_second config) (rl_burst_size config) (rs_shards s) of
             (r, sh) \<Rightarrow> (Some (key, r), \<lparr>rs_shards = sh, rs_pc = (rs_pc s)[i := RIdle]\<rparr>)))"

definition rl_clean :: "rate_limit_config \<Rightarrow> nat \<Rightarrow> int \<Rightarrow> rl_state \<Rightarrow> rl_state" where
  "rl_clean config j now s =
     (if j < length (rs_shards s)
      then s\<lparr>rs_shards := (rs_shards s)[j := cleanup_shard now (rl_per_second config) (rl_burst_size config) (rs_shards s ! j)]\<rparr>
      else s)"

text \<open>
  A run of the threads and of the cleanup: the state, the clock, the results so far, and how many
  turns the cleanup took. The clock does not go back; the instant the cleanup works with may be an
  earlier one.
\<close>

inductive rl_reach ::
  "(string \<Rightarrow> u64) \<Rightarrow> rate_limit_config \<Rightarrow> nat \<Rightarrow> int \<Rightarrow> rl_state \<Rightarrow> int \<Rightarrow> (string \<times> check_result) list \<Rightarrow> nat \<Rightarrow> bool"
  for hash config threads start where
  start: "rl_reach hash config threads start (rl_start DEFAULT_SHARDS threads) start [] 0"
| call: "rl_reach hash config threads start s c hist k \<Longrightarrow>
     rl_reach hash config threads start (rl_begin hash config i key s) c hist k"
| advance: "rl_reach hash config threads start s c hist k \<Longrightarrow> c \<le> t \<Longrightarrow> t \<le> now \<Longrightarrow>
     rl_advance hash config i t now s = (out, s') \<Longrightarrow>
     rl_reach hash config threads start s' now (hist @ (case out of None \<Rightarrow> [] | Some r \<Rightarrow> [r])) k"
| clean: "rl_reach hash config threads start s c hist k \<Longrightarrow> c \<le> c' \<Longrightarrow> now \<le> c' \<Longrightarrow>
     rl_reach hash config threads start (rl_clean config j now s) c' hist (Suc k)"

section \<open>Bounds of the arithmetic\<close>

lemma min_slack: "x \<le> y + d \<Longrightarrow> 0 \<le> d \<Longrightarrow> min x b \<le> min b y + d" for x y b d :: rat
  by (auto simp: min_def)

lemma min_slack_ge: "b \<le> y + d \<Longrightarrow> 0 \<le> d \<Longrightarrow> b \<le> min b y + d" for y b d :: rat
  by (auto simp: min_def)

context rounding
begin

lemma power_small: "of_nat n * (2 * u) \<le> 1 \<Longrightarrow> (1 + u) ^ n \<le> 1 + of_nat n * (2 * u)"
proof (induction n)
  case (Suc n)
  have nu: "of_nat n * (2 * u) \<le> 1" using Suc.prems u_range(1) by (simp add: distrib_right)
  then have "(1 + u) ^ Suc n \<le> (1 + of_nat n * (2 * u)) * (1 + u)"
    using Suc.IH u_range(1) by (simp add: mult.commute mult_left_mono)
  moreover have "of_nat n * (2 * u) * u \<le> 1 * u" using nu u_range(1) by (rule mult_right_mono)
  ultimately show ?case by (simp add: algebra_simps)
qed simp

lemma six_roundings: "(1 + u) ^ 6 \<le> 1 + 12 * u"
  using power_small [of 6] u_range by simp

lemma rnd_step: "0 \<le> x \<Longrightarrow> x \<le> y * (1 + u) ^ n \<Longrightarrow> rnd x \<le> y * (1 + u) ^ Suc n"
proof -
  assume x: "0 \<le> x" "x \<le> y * (1 + u) ^ n"
  have "rnd x \<le> x * (1 + u)" using x(1) by (rule rnd_le)
  also have "\<dots> \<le> y * (1 + u) ^ n * (1 + u)" using x(2) u_range(1) by (intro mult_right_mono) auto
  finally show ?thesis by (simp add: mult_ac)
qed

text \<open>The seconds of a duration of \<open>s\<close> seconds and \<open>n / c\<close> more, and what a bucket gains over them.\<close>

lemma elapsed_le:
  assumes "0 \<le> s" "0 \<le> n" "0 < c"
  shows "rnd (rnd s + rnd (rnd n / c)) \<le> (s + n / c) * (1 + u) ^ 3"
proof -
  have "rnd s \<le> s * (1 + u) ^ 1" using rnd_step [of s s 0] assms by simp
  also have "\<dots> \<le> s * (1 + u) ^ 2"
    using assms u_range(1) by (intro mult_left_mono power_increasing) auto
  finally have s: "rnd s \<le> s * (1 + u) ^ 2" .
  have "rnd n / c \<le> n * (1 + u) / c" using rnd_le [of n] assms by (intro divide_right_mono) auto
  then have "rnd n / c \<le> n / c * (1 + u) ^ 1" by simp
  then have "rnd (rnd n / c) \<le> n / c * (1 + u) ^ Suc 1"
    using assms rnd_nonneg [of n] by (intro rnd_step) auto
  then have "rnd s + rnd (rnd n / c) \<le> (s + n / c) * (1 + u) ^ 2"
    using s by (simp add: distrib_right numeral_2_eq_2)
  then have "rnd (rnd s + rnd (rnd n / c)) \<le> (s + n / c) * (1 + u) ^ Suc 2"
    using assms rnd_nonneg by (intro rnd_step) auto
  then show ?thesis by (simp add: numeral_3_eq_3)
qed

lemma refill_le:
  assumes "0 \<le> tokens" "0 \<le> e" "0 \<le> ps" "elapsed \<le> e * (1 + u) ^ 3" "0 \<le> elapsed" "tokens \<le> b"
  shows "min (rnd (tokens + rnd (elapsed * rnd ps))) b \<le> min b (tokens + ps * e) + b * (24 * u)"
proof (cases "tokens + ps * e \<le> 2 * b")
  case True
  have "rnd ps \<le> ps * (1 + u)" using assms rnd_le by blast
  then have "elapsed * rnd ps \<le> e * (1 + u) ^ 3 * (ps * (1 + u))"
    using assms rnd_nonneg [of ps] u_range(1) by (intro mult_mono) auto
  also have "\<dots> = ps * e * (1 + u) ^ 4" by (simp add: power_numeral_reduce)
  finally have "rnd (elapsed * rnd ps) \<le> ps * e * (1 + u) ^ Suc 4"
    using assms rnd_nonneg [of ps] by (intro rnd_step) auto
  moreover have "tokens * 1 \<le> tokens * (1 + u) ^ 5"
    using assms u_range(1) by (intro mult_left_mono) auto
  ultimately have "tokens + rnd (elapsed * rnd ps) \<le> (tokens + ps * e) * (1 + u) ^ 5"
    by (simp add: distrib_right)
  then have "rnd (tokens + rnd (elapsed * rnd ps)) \<le> (tokens + ps * e) * (1 + u) ^ Suc 5"
    using assms rnd_nonneg by (intro rnd_step) auto
  also have "\<dots> \<le> (tokens + ps * e) * (1 + 12 * u)"
    using six_roundings assms by (intro mult_left_mono) auto
  also have "\<dots> \<le> tokens + ps * e + 2 * b * (12 * u)"
    using mult_right_mono [OF True, of "12 * u"] u_range(1) by (simp add: distrib_left)
  finally have le: "rnd (tokens + rnd (elapsed * rnd ps)) \<le> tokens + ps * e + b * (24 * u)" by simp
  have "0 \<le> b * (24 * u)" using assms u_range(1) by simp
  with le show ?thesis by (rule min_slack)
next
  case False
  then have "b \<le> tokens + ps * e" "0 \<le> b * (24 * u)" using assms u_range(1) by auto
  then show ?thesis by (simp add: min_def)
qed

text \<open>Over the idle time after which a bucket is dropped it fills up again, but for the rounding.\<close>

lemma idle_ge:
  assumes "0 \<le> b" "0 < ps"
  shows "b * (1 - 2 * u) \<le> ps * rnd (b / rnd ps)"
proof -
  have "ps * (1 - u) \<le> rnd ps" "rnd ps \<le> ps * (1 + u)" using rnd_ge rnd_le assms by auto
  moreover have "0 < ps * (1 - u)" using assms u_range by simp
  ultimately have r: "0 < rnd ps" "rnd ps \<le> ps * (1 + u)" by linarith+
  have "(1 - 2 * u) * (1 + u) \<le> 1 - u" using u_range by (simp add: algebra_simps)
  then have "b * (1 - 2 * u) * (1 + u) \<le> b * (1 - u)" using assms by (simp add: mult.assoc mult_left_mono)
  then have "ps * (b * (1 - 2 * u) * (1 + u)) \<le> ps * (b * (1 - u))"
    using assms by (intro mult_left_mono) auto
  then have "b * (1 - 2 * u) * (ps * (1 + u)) \<le> ps * (b * (1 - u))" by (simp only: mult_ac)
  moreover have "b * (1 - 2 * u) * rnd ps \<le> b * (1 - 2 * u) * (ps * (1 + u))"
    using r assms u_range by (intro mult_left_mono) auto
  ultimately have "b * (1 - 2 * u) \<le> ps * (b * (1 - u)) / rnd ps"
    using r(1) by (simp add: pos_le_divide_eq)
  also have "\<dots> = ps * (b / rnd ps * (1 - u))" by simp
  also have "\<dots> \<le> ps * rnd (b / rnd ps)"
    using rnd_ge [of "b / rnd ps"] assms r by (intro mult_left_mono) auto
  finally show ?thesis .
qed

end


section \<open>The bucket\<close>

definition bucket_ok :: "nat \<Rightarrow> token_bucket \<Rightarrow> bool" where
  "bucket_ok burst b \<longleftrightarrow> 0 \<le> tb_tokens b \<and> tb_tokens b \<le> of_nat burst"

lemma as_secs_f64_bounds: "0 \<le> as_secs_f64 ns" "as_secs_f64 ns \<le> of_nat ns / 1000000000 * (1 + 1 / 2 ^ 53) ^ 3"
proof -
  have "ns = ns div 1000000000 * 1000000000 + ns mod 1000000000" by simp
  then have "(of_nat ns :: rat) = of_nat (ns div 1000000000) * 1000000000 + of_nat (ns mod 1000000000)"
    by (metis of_nat_add of_nat_mult of_nat_numeral)
  then have ns: "(of_nat ns / 1000000000 :: rat) = of_nat (ns div 1000000000) + of_nat (ns mod 1000000000) / 1000000000"
    by simp
  show "as_secs_f64 ns \<le> of_nat ns / 1000000000 * (1 + 1 / 2 ^ 53) ^ 3"
    unfolding as_secs_f64_def nanos_per_sec_def ns by (rule f64.elapsed_le) simp_all
  show "0 \<le> as_secs_f64 ns"
    by (simp add: as_secs_f64_def nanos_per_sec_def f64.rnd_nonneg)
qed

lemma burst_exact: "burst < 2 ^ 32 \<Longrightarrow> f64_round (of_nat burst) = of_nat burst"
  by (rule f64.rnd_nat) simp

lemma bucket_new_ok: "burst < 2 ^ 32 \<Longrightarrow> bucket_ok burst (bucket_new now burst)"
  by (simp add: bucket_ok_def bucket_new_def burst_exact)

text \<open>What a bucket can give at the instant \<open>t\<close> if nothing were rounded.\<close>

definition avail :: "nat \<Rightarrow> nat \<Rightarrow> int \<Rightarrow> token_bucket option \<Rightarrow> rat" where
  "avail ps burst t ob = (case ob of None \<Rightarrow> of_nat burst
     | Some b \<Rightarrow> min (of_nat burst) (tb_tokens b + of_nat ps * (of_int (t - tb_last_refill b) / 1000000000)))"

definition allowed :: "check_result \<Rightarrow> nat" where
  "allowed r = (case r of Allowed _ \<Rightarrow> 1 | Rejected _ \<Rightarrow> 0)"

lemma bucket_refill_bounds:
  assumes "burst < 2 ^ 32" "bucket_ok burst b" "tb_last_refill b \<le> now"
  shows "0 \<le> bucket_refill now ps burst b" "bucket_refill now ps burst b \<le> of_nat burst"
    "bucket_refill now ps burst b \<le> avail ps burst now (Some b) + of_nat burst * (24 / 2 ^ 53)"
proof -
  let ?ns = "duration_since now (tb_last_refill b)"
  have tok: "0 \<le> tb_tokens b" "tb_tokens b \<le> of_nat burst" using assms(2) by (simp_all add: bucket_ok_def)
  have e: "(of_nat ?ns :: rat) = of_int (now - tb_last_refill b)" using assms(3) by (simp add: duration_since_def)
  show "0 \<le> bucket_refill now ps burst b"
    unfolding bucket_refill_def Let_def using tok as_secs_f64_bounds(1) [of ?ns] burst_exact [OF assms(1)]
    by (simp add: f64.rnd_nonneg)
  show "bucket_refill now ps burst b \<le> of_nat burst"
    using burst_exact [OF assms(1)] by (simp add: bucket_refill_def Let_def)
  show "bucket_refill now ps burst b \<le> avail ps burst now (Some b) + of_nat burst * (24 / 2 ^ 53)"
    using f64.refill_le [of "tb_tokens b" "of_nat ?ns / 1000000000" "of_nat ps" "as_secs_f64 ?ns" "of_nat burst",
        OF tok(1) _ _ as_secs_f64_bounds(2) as_secs_f64_bounds(1) tok(2)]
    unfolding bucket_refill_def Let_def burst_exact [OF assms(1)] avail_def option.case e [symmetric] by simp
qed

lemma bucket_check_grant:
  assumes "burst < 2 ^ 32" "bucket_ok burst b" "tb_last_refill b \<le> now"
    "bucket_check now ps burst b = (r, b')"
  shows "bucket_ok burst b'" "tb_last_refill b' = now"
    "tb_tokens b' + of_nat (allowed r) \<le> avail ps burst now (Some b) + of_nat burst / 2 ^ 48"
proof -
  let ?t = "bucket_refill now ps burst b"
  note t = bucket_refill_bounds [OF assms(1-3), of ps]
  have slack: "0 \<le> (of_nat burst :: rat)" by simp
  show "tb_last_refill b' = now" using assms(4) by (auto simp: bucket_check_def Let_def split: if_splits)
  show "bucket_ok burst b'"
  proof (cases "1 \<le> ?t")
    case True
    then have "0 \<le> f64_round (?t - 1)" "f64_round (?t - 1) \<le> of_nat burst"
      using t assms(1) by (auto intro!: f64.rnd_nonneg f64.rnd_le_nat)
    then show ?thesis using True assms(4) by (auto simp: bucket_check_def Let_def bucket_ok_def)
  next
    case False
    then show ?thesis using assms(4) t by (auto simp: bucket_check_def Let_def bucket_ok_def)
  qed
  show "tb_tokens b' + of_nat (allowed r) \<le> avail ps burst now (Some b) + of_nat burst / 2 ^ 48"
  proof (cases "1 \<le> ?t")
    case True
    have "f64_round (?t - 1) \<le> ?t - 1 + of_nat burst * (1 / 2 ^ 53)"
      using True t by (intro f64.rnd_bound) auto
    then have "f64_round (?t - 1) + 1 \<le> avail ps burst now (Some b) + of_nat burst / 2 ^ 48"
      using t(3) slack by simp
    then show ?thesis using True assms(4) by (auto simp: bucket_check_def Let_def allowed_def)
  next
    case False
    then have "tb_tokens b' + of_nat (allowed r) = ?t"
      using assms(4) by (auto simp: bucket_check_def Let_def allowed_def)
    then show ?thesis using t(3) slack by simp
  qed
qed

lemma avail_nonneg: "bucket_ok burst b \<Longrightarrow> tb_last_refill b \<le> t \<Longrightarrow> 0 \<le> avail ps burst t (Some b)"
  by (simp add: avail_def bucket_ok_def)

lemma avail_fresh: "bucket_ok burst b \<Longrightarrow> avail ps burst (tb_last_refill b) (Some b) = tb_tokens b"
  by (simp add: avail_def bucket_ok_def min_def)

lemma avail_le: "avail ps burst t ob \<le> of_nat burst"
  by (simp add: avail_def split: option.split)

lemma avail_later:
  "t \<le> t' \<Longrightarrow> avail ps burst t' ob \<le> avail ps burst t ob + of_nat ps * (of_int (t' - t) / 1000000000)"
proof (cases ob)
  case (Some b)
  assume "t \<le> t'"
  then have "0 \<le> of_nat ps * (of_int (t' - t) / 1000000000 :: rat)" by simp
  then show ?thesis unfolding avail_def Some by (simp add: min_def algebra_simps add_divide_distrib diff_divide_distrib)
qed (simp add: avail_def)

text \<open>A bucket that has been idle for \<open>max_idle\<close> is as good as full.\<close>

lemma avail_idle:
  assumes "burst < 2 ^ 32" "0 < ps" "bucket_ok burst b" "now \<le> t" "max_idle ps burst \<le> duration_since now (tb_last_refill b)"
    "tb_last_refill b \<le> t"
  shows "of_nat burst \<le> avail ps burst t (Some b) + (of_nat burst / 2 ^ 52 + of_nat ps / 2000000000)"
proof -
  let ?w = "f64_round (of_nat burst / f64_round (of_nat ps))"
  have w: "of_nat burst * (1 - 2 * (1 / 2 ^ 53)) \<le> of_nat ps * ?w"
    using f64.idle_ge [of "of_nat burst" "of_nat ps"] assms(2) by simp
  have "\<bar>of_int (round_half_even (?w * 1000000000)) - ?w * 1000000000\<bar> \<le> 1 / 2"
    by (rule round_half_even_err)
  then have "?w * 1000000000 - 1 / 2 \<le> of_int (round_half_even (?w * 1000000000))" by linarith
  also have "\<dots> \<le> of_nat (nat (round_half_even (?w * 1000000000)))" by simp
  also have "\<dots> = of_nat (max_idle ps burst)"
    using assms(2) by (simp add: max_idle_def from_secs_f64_def nanos_per_sec_def burst_exact [OF assms(1)])
  also have "\<dots> \<le> (of_nat (duration_since now (tb_last_refill b)) :: rat)" using assms(5) by simp
  also have "\<dots> \<le> of_int (t - tb_last_refill b)" using assms(4,6) by (simp add: duration_since_def)
  finally have "?w - 1 / 2000000000 \<le> of_int (t - tb_last_refill b) / 1000000000" by (simp add: field_simps)
  then have "of_nat ps * (?w - 1 / 2000000000) \<le> of_nat ps * (of_int (t - tb_last_refill b) / 1000000000)"
    by (rule mult_left_mono) simp
  then have gain: "of_nat burst * (1 - 2 * (1 / 2 ^ 53)) - of_nat ps / 2000000000 \<le> of_nat ps * (of_int (t - tb_last_refill b) / 1000000000 :: rat)"
    using w by (simp add: right_diff_distrib)
  have "0 \<le> tb_tokens b" using assms(3) by (simp add: bucket_ok_def)
  moreover have "of_nat burst * (1 - 2 * (1 / 2 ^ 53)) = of_nat burst - (of_nat burst / 2 ^ 52 :: rat)" by (simp add: algebra_simps)
  ultimately have "of_nat burst \<le> tb_tokens b + of_nat ps * (of_int (t - tb_last_refill b) / 1000000000) +
      (of_nat burst / 2 ^ 52 + of_nat ps / 2000000000)" using gain by linarith
  then show ?thesis unfolding avail_def option.case by (rule min_slack_ge) simp
qed


section \<open>The map\<close>

lemma shard_index_less: "0 < length sh \<Longrightarrow> shard_index hash sh key < length sh"
  by (simp add: shard_index_def)

lemma shard_put_simps [simp]: "length (shard_put hash key b sh) = length sh"
  "shard_index hash (shard_put hash key b sh) k = shard_index hash sh k"
  by (simp_all add: shard_put_def shard_index_def Let_def)

lemma shard_get_put:
  "0 < length sh \<Longrightarrow> shard_get hash k (shard_put hash key b sh) = (if k = key then Some b else shard_get hash k sh)"
  using shard_index_less [of sh hash key]
  by (auto simp: shard_get_def shard_put_def Let_def shard_index_def nth_list_update update_conv)

text \<open>Distinct keys in every shard, buckets within their bounds, no refill in the future.\<close>

definition shards_ok :: "nat \<Rightarrow> int \<Rightarrow> shards \<Rightarrow> bool" where
  "shards_ok burst clock sh \<longleftrightarrow>
     0 < length sh \<and> (\<forall>m \<in> set sh. distinct (map fst m) \<and> (\<forall>(k, b) \<in> set m. bucket_ok burst b \<and> tb_last_refill b \<le> clock))"

lemma shards_ok_get:
  assumes "shards_ok burst clock sh" "shard_get hash key sh = Some b"
  shows "bucket_ok burst b" "tb_last_refill b \<le> clock"
proof -
  have "sh ! shard_index hash sh key \<in> set sh" using assms(1) by (simp add: shards_ok_def shard_index_less)
  moreover have "(key, b) \<in> set (sh ! shard_index hash sh key)" using assms(2) by (simp add: shard_get_def map_of_SomeD)
  ultimately show "bucket_ok burst b" "tb_last_refill b \<le> clock"
    using assms(1) unfolding shards_ok_def by blast+
qed

lemma shards_ok_later: "shards_ok burst clock sh \<Longrightarrow> clock \<le> clock' \<Longrightarrow> shards_ok burst clock' sh"
  unfolding shards_ok_def by fastforce

lemma alist_update_set: "set (AList.update k v m) \<subseteq> insert (k, v) (set m)"
  by (induction m) auto

lemma shards_ok_put:
  assumes "shards_ok burst clock sh" "bucket_ok burst b" "tb_last_refill b \<le> clock"
  shows "shards_ok burst clock (shard_put hash key b sh)"
proof -
  let ?m = "sh ! shard_index hash sh key"
  have m: "?m \<in> set sh" using assms(1) by (simp add: shards_ok_def shard_index_less)
  have d: "distinct (map fst (AList.update key b ?m))" using assms(1) m by (simp add: shards_ok_def distinct_update)
  have b: "\<forall>(k, b) \<in> set (AList.update key b ?m). bucket_ok burst b \<and> tb_last_refill b \<le> clock"
    using assms m alist_update_set [of key b ?m] unfolding shards_ok_def by blast
  have "set (shard_put hash key b sh) \<subseteq> insert (AList.update key b ?m) (set sh)"
    by (simp add: shard_put_def Let_def set_update_subset_insert)
  then show ?thesis using assms(1) d b unfolding shards_ok_def shard_put_simps by blast
qed

lemma map_of_filter_distinct:
  "distinct (map fst m) \<Longrightarrow> map_of (filter p m) k = (case map_of m k of Some v \<Rightarrow> if p (k, v) then Some v else None | None \<Rightarrow> None)"
proof (induction m)
  case (Cons e m)
  obtain a v where e: "e = (a, v)" by (cases e)
  have "a \<notin> fst ` set m" using Cons.prems by (simp add: e)
  then have "map_of m a = None" by (simp add: map_of_eq_None_iff)
  with Cons show ?case by (auto simp: e)
qed simp

lemma clean_length [simp]: "length (rs_shards (rl_clean config j now s)) = length (rs_shards s)"
  by (simp add: rl_clean_def)

lemma clean_get:
  assumes "shards_ok burst clock (rs_shards s)"
  shows "shard_get hash key (rs_shards (rl_clean config j now s)) = shard_get hash key (rs_shards s) \<or>
    shard_get hash key (rs_shards (rl_clean config j now s)) = None \<and>
    (\<exists>b. shard_get hash key (rs_shards s) = Some b \<and>
       max_idle (rl_per_second config) (rl_burst_size config) \<le> duration_since now (tb_last_refill b))"
proof -
  let ?i = "shard_index hash (rs_shards s) key"
  have "distinct (map fst (rs_shards s ! ?i))"
    using assms by (simp add: shards_ok_def shard_index_less)
  then show ?thesis
    by (cases "j = ?i") (auto simp: rl_clean_def shard_get_def shard_index_def cleanup_shard_def map_of_filter_distinct
        split: option.split)
qed

lemma clean_ok: "shards_ok burst clock (rs_shards s) \<Longrightarrow> shards_ok burst clock (rs_shards (rl_clean config j now s))"
proof -
  assume ok: "shards_ok burst clock (rs_shards s)"
  let ?m = "cleanup_shard now (rl_per_second config) (rl_burst_size config) (rs_shards s ! j)"
  have "distinct (map fst ?m) \<and> (\<forall>(k, b) \<in> set ?m. bucket_ok burst b \<and> tb_last_refill b \<le> clock)" if j: "j < length (rs_shards s)"
  proof -
    have "rs_shards s ! j \<in> set (rs_shards s)" using j by simp
    then show ?thesis using ok unfolding shards_ok_def cleanup_shard_def by (fastforce intro: distinct_map_filter)
  qed
  moreover have "set ((rs_shards s)[j := ?m]) \<subseteq> insert ?m (set (rs_shards s))" by (rule set_update_subset_insert)
  ultimately show ?thesis using ok unfolding rl_clean_def shards_ok_def by (auto split: if_splits) blast+
qed


section \<open>What a step grants\<close>

lemma rl_advance_cases:
  assumes "rl_advance hash config i t now s = (out, s')"
  obtains (same) "rs_shards s' = rs_shards s" "\<And>key r. out = Some (key, r) \<Longrightarrow> allowed r = 0"
  | (check) key b r b' where "out = Some (key, r)" "shard_get hash key (rs_shards s) = Some b"
      "bucket_check now (rl_per_second config) (rl_burst_size config) b = (r, b')"
      "rs_shards s' = shard_put hash key b' (rs_shards s)"
  | (fresh) key r b' where "out = Some (key, r)" "shard_get hash key (rs_shards s) = None"
      "bucket_check now (rl_per_second config) (rl_burst_size config) (bucket_new t (rl_burst_size config)) = (r, b')"
      "rs_shards s' = shard_put hash key b' (rs_shards s)"
proof (cases "i < length (rs_pc s)")
  case False
  with assms show thesis by (intro same) (auto simp: rl_advance_def)
next
  case i: True
  show thesis
  proof (cases "rs_pc s ! i")
    case (RWrite key)
    with assms i show thesis
      by (auto simp: rl_advance_def check_existing_def split: option.splits prod.splits intro: same check)
  next
    case (RInsert key)
    with assms i show thesis
      by (auto simp: rl_advance_def insert_key_def check_existing_def split: option.splits prod.splits
          intro: fresh check)
  qed (use assms i in \<open>auto simp: rl_advance_def allowed_def split: if_splits intro!: same\<close>)
qed

definition granted :: "string \<Rightarrow> (string \<times> check_result) list \<Rightarrow> nat" where
  "granted key hist = sum_list (map (\<lambda>(k, r). if k = key then allowed r else 0) hist)"

definition asked :: "string \<Rightarrow> (string \<times> check_result) list \<Rightarrow> nat" where
  "asked key hist = length (filter (\<lambda>(k, r). k = key) hist)"

lemma hist_simps [simp]:
  "granted key [] = 0" "granted key (xs @ ys) = granted key xs + granted key ys"
  "granted key [(k, r)] = (if k = key then allowed r else 0)"
  "asked key [] = 0" "asked key (xs @ ys) = asked key xs + asked key ys"
  "asked key [(k, r)] = (if k = key then 1 else 0)"
  by (simp_all add: granted_def asked_def)

abbreviation out_list :: "'a option \<Rightarrow> 'a list" where
  "out_list out \<equiv> case out of None \<Rightarrow> [] | Some r \<Rightarrow> [r]"

lemma bucket_grant:
  assumes "burst < 2 ^ 32" "bucket_ok burst b" "tb_last_refill b \<le> now" "bucket_check now ps burst b = (r, b')"
  shows "of_nat (allowed r) + avail ps burst now (Some b') \<le> avail ps burst now (Some b) + of_nat burst / 2 ^ 48"
  using bucket_check_grant [OF assms] avail_fresh [of burst b' ps] by simp

lemma rl_advance_grant:
  assumes "rl_advance hash config i t now s = (out, s')" "shards_ok burst c (rs_shards s)" "c \<le> t" "t \<le> now"
    "rl_burst_size config = burst" "rl_per_second config = ps" "burst < 2 ^ 32"
  shows "shards_ok burst now (rs_shards s')"
    "of_nat (granted key (out_list out)) + avail ps burst now (shard_get hash key (rs_shards s')) \<le>
     avail ps burst c (shard_get hash key (rs_shards s)) + of_nat ps * (of_int (now - c) / 1000000000) +
     of_nat (asked key (out_list out)) * (of_nat burst / 2 ^ 48)"
proof -
  let ?av = "\<lambda>t s. avail ps burst t (shard_get hash key (rs_shards s))"
  have ok: "shards_ok burst now (rs_shards s)" using shards_ok_later [OF assms(2)] assms(3,4) by simp
  have len: "0 < length (rs_shards s)" using ok by (simp add: shards_ok_def)
  have later: "?av now s \<le> ?av c s + of_nat ps * (of_int (now - c) / 1000000000)"
    using assms(3,4) by (intro avail_later) simp
  have "shards_ok burst now (rs_shards s') \<and> of_nat (granted key (out_list out)) + ?av now s' \<le>
      ?av now s + of_nat (asked key (out_list out)) * (of_nat burst / 2 ^ 48)"
    using assms(1)
  proof (cases rule: rl_advance_cases)
    case same
    then have "granted key (out_list out) = 0" by (cases out) auto
    then show ?thesis using ok same(1) by simp
  next
    case (check k b r b')
    note b = shards_ok_get [OF ok check(2)]
    note g = bucket_check_grant [OF assms(7) b check(3) [unfolded assms(5,6)]]
    show ?thesis
      using bucket_grant [OF assms(7) b check(3) [unfolded assms(5,6)]] check(1,2,4) shards_ok_put [OF ok g(1)] g(2)
      by (simp add: shard_get_put [OF len])
  next
    case (fresh k r b')
    have b: "bucket_ok burst (bucket_new t burst)" "tb_last_refill (bucket_new t burst) \<le> now"
      using bucket_new_ok [OF assms(7)] assms(4) by (simp_all add: bucket_new_def)
    note g = bucket_check_grant [OF assms(7) b fresh(3) [unfolded assms(5,6)]]
    have "avail ps burst now (Some (bucket_new t burst)) \<le> avail ps burst now None"
      using avail_le [of ps burst now] by (simp add: avail_def)
    then show ?thesis
      using bucket_grant [OF assms(7) b fresh(3) [unfolded assms(5,6)]] fresh(1,2,4) shards_ok_put [OF ok g(1)] g(2)
      by (simp add: shard_get_put [OF len])
  qed
  then show "shards_ok burst now (rs_shards s')" "of_nat (granted key (out_list out)) + ?av now s' \<le>
      ?av c s + of_nat ps * (of_int (now - c) / 1000000000) + of_nat (asked key (out_list out)) * (of_nat burst / 2 ^ 48)"
    using later by simp_all
qed

lemma rl_begin_shards [simp]: "rs_shards (rl_begin hash config i key s) = rs_shards s"
  by (simp add: rl_begin_def)

definition idle_slack :: "nat \<Rightarrow> nat \<Rightarrow> rat" where
  "idle_slack burst ps = of_nat burst / 2 ^ 52 + of_nat ps / 2000000000"

lemma clean_avail:
  assumes "shards_ok burst c (rs_shards s)" "c \<le> c'" "now \<le> c'" "burst < 2 ^ 32" "0 < ps"
    "rl_burst_size config = burst" "rl_per_second config = ps"
  shows "avail ps burst c' (shard_get hash key (rs_shards (rl_clean config j now s))) \<le>
     avail ps burst c (shard_get hash key (rs_shards s)) + of_nat ps * (of_int (c' - c) / 1000000000) +
     idle_slack burst ps"
proof -
  have later: "avail ps burst c' (shard_get hash key (rs_shards s)) \<le>
      avail ps burst c (shard_get hash key (rs_shards s)) + of_nat ps * (of_int (c' - c) / 1000000000)"
    using assms(2) by (rule avail_later)
  have pos: "0 \<le> idle_slack burst ps" by (simp add: idle_slack_def)
  consider (kept) "shard_get hash key (rs_shards (rl_clean config j now s)) = shard_get hash key (rs_shards s)"
    | (dropped) b where "shard_get hash key (rs_shards (rl_clean config j now s)) = None"
        "shard_get hash key (rs_shards s) = Some b" "max_idle ps burst \<le> duration_since now (tb_last_refill b)"
    using clean_get [OF assms(1), of hash key config j now] assms(6,7) by blast
  then show ?thesis
  proof cases
    case kept
    then show ?thesis unfolding kept using later pos by linarith
  next
    case (dropped b)
    have b: "bucket_ok burst b" "tb_last_refill b \<le> c'"
      using shards_ok_get [OF assms(1) dropped(2)] assms(2) by auto
    have "of_nat burst \<le> avail ps burst c' (Some b) + idle_slack burst ps"
      unfolding idle_slack_def by (rule avail_idle [OF assms(4,5) b(1) assms(3) dropped(3) b(2)])
    moreover have "avail ps burst c' (None :: token_bucket option) = of_nat burst" by (simp add: avail_def)
    ultimately show ?thesis unfolding dropped(1) using later unfolding dropped(2) by linarith
  qed
qed

lemma rl_reach_grant:
  assumes "rl_reach hash config threads start s c hist k" "rl_burst_size config = burst" "rl_per_second config = ps"
    "burst < 2 ^ 32" "0 < ps"
  shows "start \<le> c \<and> shards_ok burst c (rs_shards s) \<and>
    of_nat (granted key hist) + avail ps burst c (shard_get hash key (rs_shards s)) \<le>
     of_nat burst + of_nat ps * (of_int (c - start) / 1000000000) + of_nat (asked key hist) * (of_nat burst / 2 ^ 48) +
     of_nat k * idle_slack burst ps"
  using assms(1)
proof (induction rule: rl_reach.induct)
  case start
  show ?case using avail_le by (auto simp: rl_start_def sharded_new_def shards_ok_def DEFAULT_SHARDS_def)
next
  case (call s c hist k i key)
  then show ?case by simp
next
  case (advance s c hist k t now i out s')
  have split: "of_nat ps * (of_int (now - start) / 1000000000) =
      of_nat ps * (of_int (c - start) / 1000000000) + (of_nat ps * (of_int (now - c) / 1000000000) :: rat)"
    by (simp add: algebra_simps add_divide_distrib diff_divide_distrib)
  have ok: "shards_ok burst c (rs_shards s)" using advance.IH by blast
  note g = rl_advance_grant [OF advance.hyps(4) ok advance.hyps(2,3) assms(2-4)]
  show ?case using advance.IH [THEN conjunct1] advance.IH [THEN conjunct2, THEN conjunct2] advance.hyps(2,3) g(1) g(2) [of key]
    unfolding split hist_simps of_nat_add distrib_right [of "of_nat (asked key hist)"] by (intro conjI) (assumption | linarith)+
next
  case (clean s c hist k c' now j)
  have split: "of_nat ps * (of_int (c' - start) / 1000000000) =
      of_nat ps * (of_int (c - start) / 1000000000) + (of_nat ps * (of_int (c' - c) / 1000000000) :: rat)"
    by (simp add: algebra_simps add_divide_distrib diff_divide_distrib)
  have ok: "shards_ok burst c (rs_shards s)" using clean.IH by blast
  have "shards_ok burst c' (rs_shards (rl_clean config j now s))"
    using clean_ok [OF shards_ok_later [OF ok clean.hyps(2)]] .
  moreover note clean_avail [OF ok clean.hyps(2,3) assms(4,5,2,3), of hash key j]
  ultimately show ?case using clean.IH [THEN conjunct1] clean.IH [THEN conjunct2, THEN conjunct2] clean.hyps(2)
    unfolding split of_nat_Suc distrib_right [of 1] mult_1 by (intro conjI) (assumption | linarith)+
qed


section \<open>The cap on the keys\<close>

definition rest_keys :: "nat \<Rightarrow> shards \<Rightarrow> nat" where
  "rest_keys j sh = sum_list (map length (drop j sh))"

lemma rest_keys_0: "rest_keys 0 sh = total_keys sh"
  by (simp add: rest_keys_def total_keys_def)

lemma rest_keys_step: "j < length sh \<Longrightarrow> rest_keys j sh = length (sh ! j) + rest_keys (Suc j) sh"
  by (simp add: rest_keys_def Cons_nth_drop_Suc [symmetric])

lemma rest_keys_end: "length sh \<le> j \<Longrightarrow> rest_keys j sh = 0"
  by (simp add: rest_keys_def)

lemma alist_update_length: "length (AList.update k v m) = length m + (if k \<in> fst ` set m then 0 else 1)"
  by (induction m) auto

lemma rest_keys_update: "i < length sh \<Longrightarrow> rest_keys j (sh[i := m]) + (if j \<le> i then length (sh ! i) else 0) = rest_keys j sh + (if j \<le> i then length m else 0)"
proof (induction sh arbitrary: i j)
  case (Cons x sh)
  show ?case
  proof (cases i)
    case 0
    then show ?thesis by (cases j) (simp_all add: rest_keys_def)
  next
    case (Suc i')
    with Cons.IH [of i' "j - 1"] Cons.IH [of i' 0] Cons.prems show ?thesis
      by (cases j) (auto simp: rest_keys_def)
  qed
qed simp

lemma rest_keys_put:
  assumes "0 < length sh"
  shows "total_keys (shard_put hash key b sh) = total_keys sh + (if shard_get hash key sh = None then 1 else 0)"
    "rest_keys j sh \<le> rest_keys j (shard_put hash key b sh)"
proof -
  let ?i = "shard_index hash sh key"
  have i: "?i < length sh" by (rule shard_index_less [OF assms])
  have len: "length (AList.update key b (sh ! ?i)) = length (sh ! ?i) + (if shard_get hash key sh = None then 1 else 0)"
    by (simp add: alist_update_length shard_get_def map_of_eq_None_iff)
  show "total_keys (shard_put hash key b sh) = total_keys sh + (if shard_get hash key sh = None then 1 else 0)"
    using rest_keys_update [OF i, of 0 "AList.update key b (sh ! ?i)"] len
    by (simp add: rest_keys_0 shard_put_def Let_def split: if_splits)
  show "rest_keys j sh \<le> rest_keys j (shard_put hash key b sh)"
    using rest_keys_update [OF i, of j "AList.update key b (sh ! ?i)"] len
    by (simp add: shard_put_def Let_def split: if_splits)
qed

text \<open>The threads that may still insert a key: those behind the count, and those whose count will pass
  unless more keys come.\<close>

fun may_insert :: "nat \<Rightarrow> shards \<Rightarrow> rl_pc \<Rightarrow> bool" where
  "may_insert cap sh (RInsert key) = True"
| "may_insert cap sh (RCount key j n) = (n + rest_keys j sh < cap)"
| "may_insert cap sh _ = False"

lemma length_filter_update:
  "i < length xs \<Longrightarrow> length (filter P (xs[i := y])) + (if P (xs ! i) then 1 else 0) = length (filter P xs) + (if P y then 1 else 0)"
proof (induction xs arbitrary: i)
  case (Cons x xs)
  then show ?case by (cases i) auto
qed simp

lemma length_filter_mono: "(\<And>x. P x \<Longrightarrow> Q x) \<Longrightarrow> length (filter P xs) \<le> length (filter Q xs)"
  by (induction xs) auto

definition cap_ok :: "nat \<Rightarrow> nat \<Rightarrow> rl_state \<Rightarrow> bool" where
  "cap_ok cap threads s \<longleftrightarrow> 0 < length (rs_shards s) \<and> length (rs_pc s) = threads \<and>
     total_keys (rs_shards s) + length (filter (may_insert cap (rs_shards s)) (rs_pc s)) < cap + threads"

lemma cap_ok_pc:
  assumes "cap_ok cap threads s" "i < threads" "may_insert cap (rs_shards s) pc \<Longrightarrow>
     may_insert cap (rs_shards s) (rs_pc s ! i) \<or> total_keys (rs_shards s) < cap"
  shows "cap_ok cap threads (s\<lparr>rs_pc := (rs_pc s)[i := pc]\<rparr>)"
proof -
  let ?P = "may_insert cap (rs_shards s)"
  have i: "i < length (rs_pc s)" using assms(1,2) by (simp add: cap_ok_def)
  have "length (filter ?P ((rs_pc s)[i := pc])) \<le> threads"
    using length_filter_le [of ?P "(rs_pc s)[i := pc]"] assms(1) by (simp add: cap_ok_def)
  then show ?thesis
    using length_filter_update [OF i, of ?P pc] assms by (auto simp: cap_ok_def split: if_splits)
qed

lemma cap_ok_missing:
  assumes "cap_ok (rl_max_keys config) threads s" "0 < rl_max_keys config" "i < threads"
  shows "cap_ok (rl_max_keys config) threads (s\<lparr>rs_pc := (rs_pc s)[i := rl_missing config key]\<rparr>)"
  using assms by (intro cap_ok_pc) (auto simp: rl_missing_def rest_keys_0)

lemma cap_ok_begin:
  "cap_ok (rl_max_keys config) threads s \<Longrightarrow> 0 < rl_max_keys config \<Longrightarrow>
   cap_ok (rl_max_keys config) threads (rl_begin hash config i key s)"
  using cap_ok_missing [of config threads s i key] cap_ok_pc [of "rl_max_keys config" threads s i "RWrite key"]
  by (auto simp: rl_begin_def cap_ok_def)

lemma cap_ok_put:
  assumes "cap_ok cap threads s" "i < threads"
    "shard_get hash key (rs_shards s) = None \<Longrightarrow> may_insert cap (rs_shards s) (rs_pc s ! i)"
  shows "cap_ok cap threads \<lparr>rs_shards = shard_put hash key b (rs_shards s), rs_pc = (rs_pc s)[i := RIdle]\<rparr>"
proof -
  let ?sh = "shard_put hash key b (rs_shards s)"
  have len: "0 < length (rs_shards s)" "i < length (rs_pc s)" using assms(1,2) by (simp_all add: cap_ok_def)
  have "may_insert cap ?sh pc \<Longrightarrow> may_insert cap (rs_shards s) pc" for pc
    using rest_keys_put(2) [OF len(1), of _ hash key b]
    by (cases pc) (auto, meson add_left_mono le_less_trans)
  then have "length (filter (may_insert cap ?sh) ((rs_pc s)[i := RIdle])) \<le>
      length (filter (may_insert cap (rs_shards s)) ((rs_pc s)[i := RIdle]))"
    by (rule length_filter_mono)
  then show ?thesis
    using length_filter_update [OF len(2), of "may_insert cap (rs_shards s)" RIdle] rest_keys_put(1) [OF len(1), of hash key b] assms
    by (auto simp: cap_ok_def split: if_splits)
qed

lemma cap_ok_advance:
  assumes "cap_ok (rl_max_keys config) threads s" "0 < rl_max_keys config" "rl_advance hash config i t now s = (out, s')"
  shows "cap_ok (rl_max_keys config) threads s'"
proof (cases "i < threads")
  case False
  then show ?thesis using assms by (auto simp: rl_advance_def cap_ok_def)
next
  case i: True
  then have il: "i < length (rs_pc s)" using assms(1) by (simp add: cap_ok_def)
  have idle: "cap_ok (rl_max_keys config) threads (s\<lparr>rs_pc := (rs_pc s)[i := RIdle]\<rparr>)"
    by (rule cap_ok_pc [OF assms(1) i]) simp
  show ?thesis
  proof (cases "rs_pc s ! i")
    case RIdle
    then show ?thesis using assms il by (simp add: rl_advance_def)
  next
    case (RWrite key)
    then show ?thesis
      using assms(3) il cap_ok_missing [OF assms(1,2) i, of key] cap_ok_put [OF assms(1) i, of hash key]
      by (auto simp: rl_advance_def check_existing_def split: option.splits prod.splits)
  next
    case (RInsert key)
    then have "may_insert (rl_max_keys config) (rs_shards s) (rs_pc s ! i)" by simp
    then show ?thesis
      using assms(3) il cap_ok_put [OF assms(1) i, of hash key] RInsert
      by (auto simp: rl_advance_def insert_key_def check_existing_def split: option.splits prod.splits)
  next
    case (RCount key j n)
    have "cap_ok (rl_max_keys config) threads (s\<lparr>rs_pc := (rs_pc s)[i := RCount key (Suc j) (n + length (rs_shards s ! j))]\<rparr>)"
      if "j < length (rs_shards s)"
      using rest_keys_step [OF that] RCount by (intro cap_ok_pc [OF assms(1) i]) simp
    moreover have "cap_ok (rl_max_keys config) threads (s\<lparr>rs_pc := (rs_pc s)[i := RInsert key]\<rparr>)"
      if "\<not> j < length (rs_shards s)" "\<not> rl_max_keys config \<le> n"
      using that RCount by (intro cap_ok_pc [OF assms(1) i]) (simp add: rest_keys_end)
    ultimately show ?thesis using assms(3) il idle RCount by (auto simp: rl_advance_def split: if_splits)
  qed
qed

lemma rl_reach_cap:
  assumes "rl_reach hash config threads start s c hist k" "k = 0" "0 < rl_max_keys config"
  shows "cap_ok (rl_max_keys config) threads s"
  using assms
proof (induction rule: rl_reach.induct)
  case start
  have "filter (may_insert cap sh) (replicate n RIdle) = []" for cap sh n by (induction n) auto
  then show ?case using assms(3)
    by (simp add: cap_ok_def rl_start_def sharded_new_def total_keys_def DEFAULT_SHARDS_def sum_list_replicate)
qed (auto intro: cap_ok_begin cap_ok_advance)


section \<open>A call on its own\<close>

fun rl_alone ::
  "(string \<Rightarrow> u64) \<Rightarrow> rate_limit_config \<Rightarrow> nat \<Rightarrow> int \<Rightarrow> int \<Rightarrow> nat \<Rightarrow> rl_state \<Rightarrow> (string \<times> check_result) option \<times> rl_state" where
  "rl_alone hash config i t now 0 s = (None, s)"
| "rl_alone hash config i t now (Suc n) s =
     (case rl_advance hash config i t now s of
        (Some r, s') \<Rightarrow> (Some r, s')
      | (None, s') \<Rightarrow> rl_alone hash config i t now n s')"

lemma rl_alone_count:
  "i < length pcs \<Longrightarrow> j + d = length sh \<Longrightarrow>
   rl_alone hash config i t now (d + m) \<lparr>rs_shards = sh, rs_pc = pcs[i := RCount key j n]\<rparr> =
   rl_alone hash config i t now m \<lparr>rs_shards = sh, rs_pc = pcs[i := RCount key (length sh) (n + rest_keys j sh)]\<rparr>"
proof (induction d arbitrary: j n)
  case 0
  then show ?case by (simp add: rest_keys_end)
next
  case (Suc d)
  then show ?case by (simp add: rl_advance_def rest_keys_step add.assoc)
qed

lemma rl_alone_insert:
  "i < length pcs \<Longrightarrow> rl_alone hash config i t now (Suc m) \<lparr>rs_shards = sh, rs_pc = pcs[i := RInsert key]\<rparr> =
     (case insert_key hash key t now (rl_per_second config) (rl_burst_size config) sh of
        (r, sh') \<Rightarrow> (Some (key, r), \<lparr>rs_shards = sh', rs_pc = pcs[i := RIdle]\<rparr>))"
  by (simp add: rl_advance_def split: prod.split)

lemma rl_alone_missing:
  assumes "i < length pcs" "length sh + 2 \<le> fuel" "shard_get hash key sh = None"
  shows "rl_alone hash config i t now fuel \<lparr>rs_shards = sh, rs_pc = pcs[i := rl_missing config key]\<rparr> =
     (case check_or_insert hash key t now (rl_per_second config) (rl_burst_size config) (rl_max_keys config) sh of
        (r, sh') \<Rightarrow> (Some (key, r), \<lparr>rs_shards = sh', rs_pc = pcs[i := RIdle]\<rparr>))"
proof (cases "0 < rl_max_keys config")
  case True
  obtain m where m: "fuel = length sh + Suc (Suc m)"
    using assms(2) by (metis add_Suc_right le_Suc_ex add_2_eq_Suc' add_Suc_shift plus_1_eq_Suc add.assoc)
  show ?thesis
    using rl_alone_count [OF assms(1), of 0 "length sh" sh hash config t now "Suc (Suc m)" key 0] True assms
      rl_alone_insert [OF assms(1), of hash config t now m sh key]
    by (auto simp: m rl_missing_def rest_keys_0 check_or_insert_def rl_advance_def split: prod.split)
next
  case False
  obtain m where m: "fuel = Suc m" using assms(2) by (cases fuel) auto
  show ?thesis using False assms rl_alone_insert [OF assms(1), of hash config t now m sh key]
    by (simp add: m rl_missing_def check_or_insert_def del: rl_alone.simps)
qed

text \<open>Checks at one instant are exact: each takes one token, until none is left.\<close>

lemma f64_zero [simp]: "f64_round 0 = 0"
  by (simp add: f64_round_def)

lemma as_secs_f64_zero [simp]: "as_secs_f64 0 = 0"
  by (simp add: as_secs_f64_def)

lemma check_same_instant:
  assumes "burst < 2 ^ 32"
  shows "n < burst \<Longrightarrow> bucket_check now ps burst \<lparr>tb_tokens = of_nat (Suc n), tb_last_refill = now\<rparr> =
      (Allowed n, \<lparr>tb_tokens = of_nat n, tb_last_refill = now\<rparr>)"
    "\<exists>w. bucket_check now ps burst \<lparr>tb_tokens = 0, tb_last_refill = now\<rparr> =
       (Rejected w, \<lparr>tb_tokens = 0, tb_last_refill = now\<rparr>)"
proof -
  assume n: "n < burst"
  have r: "f64_round (of_nat n) = of_nat n" "f64_round (of_nat (Suc n)) = of_nat (Suc n)"
    by (rule f64.rnd_nat, use n assms in simp)+
  have "bucket_refill now ps burst \<lparr>tb_tokens = of_nat (Suc n), tb_last_refill = now\<rparr> = of_nat (Suc n)"
    using n r by (simp add: bucket_refill_def Let_def duration_since_def burst_exact [OF assms])
  moreover have "min (2 ^ 32 - 1) (nat \<lfloor>of_nat n :: rat\<rfloor>) = n" using n assms by simp
  ultimately show "bucket_check now ps burst \<lparr>tb_tokens = of_nat (Suc n), tb_last_refill = now\<rparr> =
      (Allowed n, \<lparr>tb_tokens = of_nat n, tb_last_refill = now\<rparr>)"
    using r(1) by (simp add: bucket_check_def Let_def)
next
  show "\<exists>w. bucket_check now ps burst \<lparr>tb_tokens = 0, tb_last_refill = now\<rparr> =
       (Rejected w, \<lparr>tb_tokens = 0, tb_last_refill = now\<rparr>)"
    using assms by (simp add: bucket_check_def bucket_refill_def Let_def duration_since_def burst_exact)
qed

text \<open>A system to evaluate the theorems on: one token a second, a burst of two, at most one key.\<close>

definition demo_limit :: rate_limit_config where
  "demo_limit = \<lparr>rl_per_second = 1, rl_burst_size = 2, rl_use_headers = True, rl_cleanup_interval_secs = 60, rl_max_keys = 0\<rparr>"

definition demo_called :: rl_state where
  "demo_called = rl_begin (\<lambda>_. 3) demo_limit 0 ''k'' (rl_start DEFAULT_SHARDS 1)"

lemma demo_advance:
  "\<exists>s. rl_advance (\<lambda>_. 3) demo_limit 0 5 5 demo_called = (Some (''k'', Allowed 1), s)"
proof -
  have get: "shard_get (\<lambda>_. 3) ''k'' (replicate 16 []) = None" by code_simp
  have "bucket_check 5 1 2 (bucket_new 5 2) = (Allowed 1, \<lparr>tb_tokens = 1, tb_last_refill = 5\<rparr>)"
    using check_same_instant(1) [of 2 1 5 1] burst_exact [of 2] by (simp add: bucket_new_def)
  with get show ?thesis
    by (simp add: demo_called_def rl_begin_def rl_start_def sharded_new_def DEFAULT_SHARDS_def demo_limit_def rl_missing_def
        rl_advance_def insert_key_def check_existing_def)
qed

section \<open>Properties\<close>

text \<open>C17. The rate limit holds: over any run of concurrent calls and cleanups from the start of the
  middleware to the instant \<open>c\<close>, a key is granted at most its burst plus the tokens refilled since
  then, up to the rounding of the floating-point arithmetic: \<open>burst / 2 ^ 48\<close> for each of the key's requests,
  and, for each shard cleanup, the half nanosecond lost in the idle time and its rounding.\<close>

theorem rate_limit_bound:
  assumes "rl_reach hash config threads start s c hist k" "rl_burst_size config < 2 ^ 32" "0 < rl_per_second config"
  shows "of_nat (granted key hist) \<le>
     of_nat (rl_burst_size config) + of_nat (rl_per_second config) * (of_int (c - start) / 1000000000) +
     of_nat (asked key hist) * (of_nat (rl_burst_size config) / 2 ^ 48) +
     of_nat k * (of_nat (rl_burst_size config) / 2 ^ 52 + of_nat (rl_per_second config) / (2000000000 :: rat))"
proof -
  note r = rl_reach_grant [OF assms(1) refl refl assms(2,3), of key]
  have "0 \<le> avail (rl_per_second config) (rl_burst_size config) c (shard_get hash key (rs_shards s))"
  proof (cases "shard_get hash key (rs_shards s)")
    case None
    then show ?thesis by (simp add: avail_def)
  next
    case (Some b)
    then show ?thesis using r shards_ok_get avail_nonneg by metis
  qed
  then show ?thesis using r unfolding idle_slack_def by linarith
qed

theorem rate_limit_bound_witness:
  "\<exists>hist. granted ''k'' hist = 1 \<and> of_nat (granted ''k'' hist) \<le>
     2 + 1 * (5 / 1000000000) + of_nat (asked ''k'' hist) * (2 / 2 ^ 48 :: rat)"
proof -
  obtain s where a: "rl_advance (\<lambda>_. 3) demo_limit 0 5 5 demo_called = (Some (''k'', Allowed 1), s)"
    using demo_advance by blast
  have "rl_reach (\<lambda>_. 3) demo_limit 1 0 s 5 ([] @ [(''k'', Allowed 1)]) 0"
    using rl_reach.advance [OF rl_reach.call [OF rl_reach.start] _ _ a [unfolded demo_called_def], of 0] by simp
  from rate_limit_bound [OF this, of "''k''"] show ?thesis
    by (intro exI [of _ "[(''k'', Allowed 1)]"]) (simp add: demo_limit_def allowed_def)
qed



text \<open>A call that no other interleaves with returns, after at most three critical sections and one for
  each shard, and does what the code does read from top to bottom.\<close>

theorem alone_is_sequential:
  assumes "i < length pcs" "pcs ! i = RIdle" "length sh + 3 \<le> fuel"
  shows "rl_alone hash config i t now fuel (rl_begin hash config i key \<lparr>rs_shards = sh, rs_pc = pcs\<rparr>) =
     (case check_or_insert hash key t now (rl_per_second config) (rl_burst_size config) (rl_max_keys config) sh of
        (r, sh') \<Rightarrow> (Some (key, r), \<lparr>rs_shards = sh', rs_pc = pcs\<rparr>))"
proof -
  have idle: "pcs[i := RIdle] = pcs" using assms(2) by (metis list_update_id)
  obtain m where m: "fuel = Suc m" using assms(3) by (cases fuel) auto
  show ?thesis
  proof (cases "shard_get hash key sh")
    case None
    then show ?thesis
      using rl_alone_missing [OF assms(1), of sh fuel hash key config t now] assms idle
      by (simp add: rl_begin_def split: prod.split)
  next
    case (Some b)
    then show ?thesis using assms idle
      by (simp add: m rl_begin_def rl_advance_def check_existing_def check_or_insert_def split: prod.split)
  qed
qed

theorem alone_is_sequential_witness:
  "fst (rl_alone (\<lambda>_. 3) demo_limit 0 5 5 4 (rl_begin (\<lambda>_. 3) demo_limit 0 ''k'' \<lparr>rs_shards = [[]], rs_pc = [RIdle]\<rparr>)) =
     Some (''k'', fst (check_or_insert (\<lambda>_. 3) ''k'' 5 5 1 2 0 [[]]))"
  using alone_is_sequential [of 0 "[RIdle]" "[[]]" 4 "\<lambda>_. 3" demo_limit 5 5 "''k''"]
  by (simp add: demo_limit_def split: prod.splits)



end
