(* ===== verification/Ids.thy ===== *)
theory Ids
  imports Encoding "HOL-Library.List_Lexorder" "HOL-Library.Char_ord"
begin

text \<open>
  Identifiers and random strings: \<^verbatim>\<open>src/src/id\<close> (ULIDs and short ids), \<^verbatim>\<open>src/src/auth/internal.rs\<close>
  and the backup codes of \<^verbatim>\<open>src/src/auth/backup.rs\<close>. Random bytes are an argument: the bytes the
  generator delivers, in order. Milliseconds are natural numbers, cut to their width.
\<close>

section \<open>ULIDs\<close>

definition CROCKFORD :: string where
  "CROCKFORD = ''0123456789ABCDEFGHJKMNPQRSTVWXYZ''"

text \<open>The loops that fill a buffer from its last character: the remainder picks the character, the
  quotient goes on.\<close>

fun encode_digits :: "string \<Rightarrow> nat \<Rightarrow> nat \<Rightarrow> string \<Rightarrow> string" where
  "encode_digits alphabet 0 n buf = buf"
| "encode_digits alphabet (Suc i) n buf =
     encode_digits alphabet i (n div length alphabet) ((alphabet ! (n mod length alphabet)) # buf)"

definition from_be_bytes :: "u8 list \<Rightarrow> nat" where
  "from_be_bytes bs = foldl (\<lambda>acc b. acc * 256 + unat b) 0 bs"

definition ulid :: "nat \<Rightarrow> u8 list \<Rightarrow> string" where
  "ulid ms rand_bytes =
     encode_digits CROCKFORD 10 (ms mod 2 ^ 64) (encode_digits CROCKFORD 16 (from_be_bytes rand_bytes) [])"

section \<open>Short ids\<close>

definition BASE36_CHARS :: string where
  "BASE36_CHARS = ''0123456789abcdefghijklmnopqrstuvwxyz''"

definition SHORT_ID_LEN :: nat where
  "SHORT_ID_LEN = 13"

definition encode_base36 :: "u64 \<Rightarrow> string" where
  "encode_base36 n = encode_digits BASE36_CHARS SHORT_ID_LEN (unat n) []"

definition short :: "nat \<Rightarrow> u32 \<Rightarrow> string" where
  "short ms rand =
     (let ts = of_nat ms AND (push_bit 42 1 - 1);
          rand_bits = rand AND (push_bit 22 1 - 1);
          combined = push_bit 22 ts OR ucast rand_bits
      in encode_base36 combined)"

section \<open>Random strings and hashes\<close>

definition verify_sha256_hex :: "(u8 list \<Rightarrow> u8 list) \<Rightarrow> u8 list \<Rightarrow> string \<Rightarrow> bool" where
  "verify_sha256_hex digest plain stored_hex \<longleftrightarrow> hex_sha256 digest plain = stored_hex"

definition bias_limit :: "string \<Rightarrow> nat" where
  "bias_limit alphabet = 256 div length alphabet * length alphabet"

text \<open>The loop draws bytes until the string is long enough; \<open>None\<close>: the bytes given do not suffice.
  (The alphabet is not empty, an assertion of the source.)\<close>

fun random_loop :: "string \<Rightarrow> nat \<Rightarrow> string \<Rightarrow> u8 list \<Rightarrow> (string \<times> u8 list) option" where
  "random_loop alphabet len out [] = (if length out < len then None else Some (out, []))"
| "random_loop alphabet len out (b # bs) =
     (if length out < len
      then if unat b < bias_limit alphabet
           then random_loop alphabet len (out @ [alphabet ! (unat b mod length alphabet)]) bs
           else random_loop alphabet len out bs
      else Some (out, b # bs))"

definition random_string :: "string \<Rightarrow> nat \<Rightarrow> u8 list \<Rightarrow> (string \<times> u8 list) option" where
  "random_string alphabet len bytes = random_loop alphabet len [] bytes"

section \<open>Backup codes\<close>

definition BACKUP_ALPHABET :: string where
  "BACKUP_ALPHABET = ''abcdefghijklmnopqrstuvwxyz0123456789''"

text \<open>\<open>lower\<close> is \<^verbatim>\<open>str::to_lowercase\<close>, whose tables for characters beyond ASCII are not modelled.\<close>

definition backup_normalize :: "(string \<Rightarrow> string) \<Rightarrow> string \<Rightarrow> string" where
  "backup_normalize lower code = lower (filter (\<lambda>c. c \<noteq> CHR ''-'') code)"

definition backup_generate_one ::
  "(string \<Rightarrow> string) \<Rightarrow> (u8 list \<Rightarrow> u8 list) \<Rightarrow> u8 list \<Rightarrow> ((string \<times> string) \<times> u8 list) option" where
  "backup_generate_one lower digest bytes =
     (case random_string BACKUP_ALPHABET 8 bytes of
        None \<Rightarrow> None
      | Some (raw, rest) \<Rightarrow>
          let plaintext = take 4 raw @ ''-'' @ drop 4 raw
          in Some ((plaintext, hex_sha256 digest (as_bytes (backup_normalize lower plaintext))), rest))"

fun backup_generate ::
  "(string \<Rightarrow> string) \<Rightarrow> (u8 list \<Rightarrow> u8 list) \<Rightarrow> nat \<Rightarrow> u8 list \<Rightarrow> ((string \<times> string) list \<times> u8 list) option" where
  "backup_generate lower digest 0 bytes = Some ([], bytes)"
| "backup_generate lower digest (Suc count) bytes =
     (case backup_generate_one lower digest bytes of
        None \<Rightarrow> None
      | Some (c, rest) \<Rightarrow>
          (case backup_generate lower digest count rest of
             None \<Rightarrow> None
           | Some (cs, rest') \<Rightarrow> Some (c # cs, rest')))"

definition backup_verify :: "(string \<Rightarrow> string) \<Rightarrow> (u8 list \<Rightarrow> u8 list) \<Rightarrow> string \<Rightarrow> string \<Rightarrow> bool" where
  "backup_verify lower digest code hash = verify_sha256_hex digest (as_bytes (backup_normalize lower code)) hash"

section \<open>Digits\<close>

lemma encode_digits_append: "encode_digits A i n buf = encode_digits A i n [] @ buf"
proof (induction i arbitrary: n buf)
  case (Suc i)
  show ?case
    using Suc.IH [of "n div length A" "A ! (n mod length A) # buf"] Suc.IH [of "n div length A" "[A ! (n mod length A)]"]
    by simp
qed simp

lemma encode_digits_Suc:
  "encode_digits A (Suc i) n [] = encode_digits A i (n div length A) [] @ [A ! (n mod length A)]"
  by (simp add: encode_digits_append [of A i _ "[_]"])

lemma length_encode_digits [simp]: "length (encode_digits A i n buf) = i + length buf"
  by (induction i arbitrary: n buf) auto

lemma encode_digits_set: "A \<noteq> [] \<Longrightarrow> set (encode_digits A i n buf) \<subseteq> set A \<union> set buf"
proof (induction i arbitrary: n buf)
  case (Suc i)
  have "A ! (n mod length A) \<in> set A" using Suc.prems by (intro nth_mem) simp
  then show ?case using Suc.IH [OF Suc.prems, of "n div length A" "A ! (n mod length A) # buf"] by auto
qed simp

lemma ulid_chars: "set (ulid ms rand) \<subseteq> set CROCKFORD"
proof -
  have "CROCKFORD \<noteq> []" by (simp add: CROCKFORD_def)
  then show ?thesis
    unfolding ulid_def using encode_digits_set [of CROCKFORD 16 "from_be_bytes rand" "[]"]
      encode_digits_set [of CROCKFORD 10 "ms mod 2 ^ 64" "encode_digits CROCKFORD 16 (from_be_bytes rand) []"] by auto
qed

text \<open>With an ascending alphabet, numbers of the same number of digits are ordered as their digits are.\<close>

lemma encode_digits_less:
  assumes "sorted_wrt (<) A" "0 < length A" "m < n" "n < length A ^ i"
  shows "(encode_digits A i m [], encode_digits A i n []) \<in> lexord {(c, d). c < d}"
  using assms(3,4)
proof (induction i arbitrary: m n)
  case (Suc i)
  let ?b = "length A"
  have "n div ?b < ?b ^ i" using Suc.prems(2) by (simp add: less_mult_imp_div_less mult.commute)
  consider (hi) "m div ?b < n div ?b" | (lo) "m div ?b = n div ?b" "m mod ?b < n mod ?b"
    using Suc.prems(1) div_le_mono [of m n ?b] by (metis div_mult_mod_eq le_neq_implies_less less_imp_le nat_add_left_cancel_less)
  then show ?case
  proof cases
    case hi
    have "(encode_digits A i (m div ?b) [], encode_digits A i (n div ?b) []) \<in> lexord {(c, d). c < d}"
      by (rule Suc.IH [OF hi \<open>n div ?b < ?b ^ i\<close>])
    then show ?thesis unfolding encode_digits_Suc by (rule lexord_sufI) simp
  next
    case lo
    then have "A ! (m mod ?b) < A ! (n mod ?b)"
      using assms(1,2) by (simp add: sorted_wrt_iff_nth_less)
    then show ?thesis unfolding encode_digits_Suc lo(1) by (intro lexord_append_leftI) simp
  qed
qed simp

lemma CROCKFORD_sorted: "sorted_wrt (<) CROCKFORD" "length CROCKFORD = 32"
  by code_simp+

lemma BASE36_sorted: "sorted_wrt (<) BASE36_CHARS" "length BASE36_CHARS = 36"
  by code_simp+

text \<open>The 64 bits of a short id: the instant above, the random bits below.\<close>

lemma short_value:
  "ms < 2 ^ 42 \<Longrightarrow> \<exists>r < 2 ^ 22. short ms rand = encode_digits BASE36_CHARS 13 (ms * 2 ^ 22 + r) []"
proof -
  assume ms: "ms < 2 ^ 42"
  let ?ts = "of_nat ms AND (push_bit 42 1 - 1) :: u64"
  let ?r = "ucast (rand AND (push_bit 22 1 - 1)) :: u64"
  have m42: "(push_bit 42 1 - 1 :: u64) = mask 42" and m22: "(push_bit 22 1 - 1 :: u32) = mask 22" by (simp_all add: mask_eq_exp_minus_1)
  have ts: "unat ?ts = ms"
    unfolding m42 take_bit_eq_mask [symmetric] using ms by (simp add: unsigned_take_bit_eq unat_of_nat take_bit_nat_eq_self)
  have r: "unat ?r < 2 ^ 22"
  proof -
    have "unat ?r \<le> unat (rand AND mask 22)" unfolding m22 by (simp add: unsigned_ucast_eq take_bit_nat_less_eq_self)
    also have "\<dots> < 2 ^ 22" unfolding take_bit_eq_mask [symmetric] unsigned_take_bit_eq by (rule take_bit_nat_less_exp)
    finally show ?thesis .
  qed
  have "unat (push_bit 22 ?ts OR ?r) = ms * 2 ^ 22 + unat ?r"
  proof -
    have "unat (push_bit 22 ?ts) = ms * 2 ^ 22" using ms ts
      by (simp add: push_bit_eq_mult unat_word_ariths)
    moreover have "push_bit 22 ?ts AND ?r = 0"
    proof (rule bit_word_eqI)
      fix n
      assume "n < LENGTH(64)"
      have "\<not> bit ?r n" if "22 \<le> n"
        using r that by (metis bit_take_bit_iff leD take_bit_word_small)
      then show "bit (push_bit 22 ?ts AND ?r) n \<longleftrightarrow> bit (0 :: u64) n" by (auto simp: bit_and_iff bit_push_bit_iff)
    qed
    moreover have "push_bit 22 ?ts OR ?r = push_bit 22 ?ts + ?r"
      using calculation(2) by (rule disjunctive_add_eq_or [symmetric])
    ultimately show ?thesis using r ms by (simp add: unat_word_ariths)
  qed
  then show ?thesis using r by (auto simp: short_def Let_def encode_base36_def SHORT_ID_LEN_def)
qed


section \<open>Drawing characters\<close>

lemma card_unat: "card {b :: u8. P (unat b)} = card {x. x < 256 \<and> P x}"
proof -
  have "bij_betw unat {b :: u8. P (unat b)} {x. x < 256 \<and> P x}"
  proof (rule bij_betw_imageI)
    show "inj_on unat {b :: u8. P (unat b)}" by (auto simp: inj_on_def intro: unsigned_word_eqI)
    have "x \<in> unat ` {b :: u8. P (unat b)}" if "x < 256" "P x" for x
    proof (rule image_eqI)
      show "x = unat (of_nat x :: u8)" using that(1) by (simp add: unat_of_nat take_bit_nat_eq_self)
      then show "(of_nat x :: u8) \<in> {b. P (unat b)}" using that(2) by simp
    qed
    then show "unat ` {b :: u8. P (unat b)} = {x. x < 256 \<and> P x}" by (auto simp: unat_u8_less)
  qed
  then show ?thesis by (rule bij_betw_same_card)
qed

lemma card_residue:
  fixes q n i :: nat
  assumes "i < n"
  shows "card {x. x < q * n \<and> x mod n = i} = q"
proof -
  have "{x. x < q * n \<and> x mod n = i} = (\<lambda>k. k * n + i) ` {..<q}"
  proof
    show "{x. x < q * n \<and> x mod n = i} \<subseteq> (\<lambda>k. k * n + i) ` {..<q}"
    proof
      fix x
      assume "x \<in> {x. x < q * n \<and> x mod n = i}"
      then have "x < q * n" "x = x div n * n + i" by (auto simp: div_mult_mod_eq)
      then show "x \<in> (\<lambda>k. k * n + i) ` {..<q}" by (intro image_eqI [of _ _ "x div n"]) (auto simp: less_mult_imp_div_less)
    qed
    have "k * n + i < q * n" if "k < q" for k
    proof -
      have "k * n + i < Suc k * n" using assms by simp
      also have "\<dots> \<le> q * n" using that by (intro mult_right_mono) simp_all
      finally show ?thesis .
    qed
    then show "(\<lambda>k. k * n + i) ` {..<q} \<subseteq> {x. x < q * n \<and> x mod n = i}" using assms by auto
  qed
  moreover have "inj_on (\<lambda>k. k * n + i) {..<q}" using assms by (auto simp: inj_on_def)
  ultimately show ?thesis by (simp add: card_image)
qed

lemma random_one: "random_string A 1 [b] = Some ([c], []) \<longleftrightarrow> unat b < bias_limit A \<and> A ! (unat b mod length A) = c"
  by (auto simp: random_string_def split: if_splits)

text \<open>Enough accepted bytes give a string.\<close>

lemma random_loop_total:
  "len \<le> length out + length (filter (\<lambda>b. unat b < bias_limit A) bytes) \<Longrightarrow>
   length out \<le> len \<Longrightarrow> \<exists>s rest. random_loop A len out bytes = Some (s, rest) \<and> length s = len"
  by (induction bytes arbitrary: out) auto

lemma random_string_set:
  "random_loop A len out bytes = Some (s, rest) \<Longrightarrow> A \<noteq> [] \<Longrightarrow> set s \<subseteq> set out \<union> set A"
proof (induction bytes arbitrary: out)
  case (Cons b bs)
  have "A ! (unat b mod length A) \<in> set A" using Cons.prems(2) by (intro nth_mem) simp
  then show ?case using Cons.prems Cons.IH [of "out @ [A ! (unat b mod length A)]"] Cons.IH [of out]
    by (auto split: if_splits)
qed (auto split: if_splits)

section \<open>Properties\<close>

text \<open>Identifiers sort by the time they were made: of two ids made in different milliseconds, the
  earlier is the smaller string, whatever the random bits. For ULIDs that holds while the time fits
  50 bits, for short ids while it fits 42.\<close>

theorem ids_sort_by_time:
  assumes "ms < ms'"
  shows "(ms' < 2 ^ 50 \<longrightarrow> ulid ms r < ulid ms' r') \<and> (ms' < 2 ^ 42 \<longrightarrow> short ms q < short ms' q')"
proof (intro conjI impI)
  assume ms': "ms' < 2 ^ 50"
  have e: "(encode_digits CROCKFORD 10 ms [], encode_digits CROCKFORD 10 ms' []) \<in> lexord {(c, d). c < d}"
    using CROCKFORD_sorted assms ms' by (intro encode_digits_less) auto
  have "ulid m s = encode_digits CROCKFORD 10 m [] @ encode_digits CROCKFORD 16 (from_be_bytes s) []" if "m < 2 ^ 50" for m s
    using that by (simp add: ulid_def encode_digits_append [of CROCKFORD 10 m "encode_digits CROCKFORD 16 (from_be_bytes s) []"])
  then show "ulid ms r < ulid ms' r'"
    using assms ms' lexord_sufI [OF e, of "encode_digits CROCKFORD 16 (from_be_bytes r) []"] by (simp add: list_less_def)
next
  assume ms': "ms' < 2 ^ 42"
  obtain a b where a: "a < 2 ^ 22" "short ms q = encode_digits BASE36_CHARS 13 (ms * 2 ^ 22 + a) []"
    and b: "b < 2 ^ 22" "short ms' q' = encode_digits BASE36_CHARS 13 (ms' * 2 ^ 22 + b) []"
    using short_value [of ms q] short_value [of ms' q'] assms ms' by (meson less_trans)
  have "Suc ms * 2 ^ 22 \<le> ms' * 2 ^ 22" using assms by (intro mult_right_mono) simp_all
  then have "ms * 2 ^ 22 + a < ms' * 2 ^ 22 + b" using a(1) by simp
  moreover have "Suc ms' * 2 ^ 22 \<le> 2 ^ 42 * 2 ^ 22" using ms' by (intro mult_right_mono) simp_all
  then have "ms' * 2 ^ 22 + b < length BASE36_CHARS ^ 13" using b(1) BASE36_sorted(2) by simp
  ultimately show "short ms q < short ms' q'"
    unfolding a(2) b(2) list_less_def using BASE36_sorted by (intro encode_digits_less) auto
qed

theorem ids_sort_by_time_witness: "ulid 5 [255] < ulid 7 [] \<and> short 5 9 < short 7 0"
  using ids_sort_by_time [of 5 7 "[255]" "[]" 9 0] by simp

text \<open>Random strings are unbiased: of the 256 values of a random byte, the same number picks each
  character of the alphabet, and the others are drawn again.\<close>

theorem random_string_unbiased:
  assumes "distinct alphabet" "c \<in> set alphabet" "length alphabet \<le> 256"
  shows "card {b. random_string alphabet 1 [b] = Some ([c], [])} = 256 div length alphabet"
proof -
  obtain i where i: "i < length alphabet" "alphabet ! i = c" using assms(2) by (metis in_set_conv_nth)
  let ?P = "\<lambda>x. x < 256 div length alphabet * length alphabet \<and> x mod length alphabet = i"
  have "alphabet ! (x mod length alphabet) = c \<longleftrightarrow> x mod length alphabet = i" for x
    using assms(1) i nth_eq_iff_index_eq [OF assms(1), of "x mod length alphabet" i] by (metis mod_less_divisor gr_zeroI not_less0)
  then have "random_string alphabet 1 [b] = Some ([c], []) \<longleftrightarrow> ?P (unat b)" for b
    unfolding random_one bias_limit_def by simp
  then have "card {b. random_string alphabet 1 [b] = Some ([c], [])} = card {x. x < 256 \<and> ?P x}"
    using card_unat [of ?P] by simp
  also have "{x. x < 256 \<and> ?P x} = {x. ?P x}" using div_mult2_eq [of 256] by (auto intro: less_le_trans)
  also have "card \<dots> = 256 div length alphabet" using i(1) by (rule card_residue)
  finally show ?thesis .
qed

theorem random_string_unbiased_witness:
  "card {b. random_string BACKUP_ALPHABET 1 [b] = Some (''a'', [])} = 7"
proof -
  have "distinct BACKUP_ALPHABET" "CHR ''a'' \<in> set BACKUP_ALPHABET" "length BACKUP_ALPHABET = 36" by code_simp+
  with random_string_unbiased [of BACKUP_ALPHABET "CHR ''a''"] show ?thesis by simp
qed

end
