(* ===== verification/Api_Key.thy ===== *)
theory Api_Key
  imports Ids Database Http
begin

text \<open>
  \<^verbatim>\<open>src/src/auth/apikey\<close>: API keys. \<^verbatim>\<open>ApiKeyStore\<close> works on a backend, a trait object: \<open>api_backend\<close> is
  the record of its operations on a state of its own, and the locale \<open>key_backend\<close> what the trait
  promises. \<open>sqlite_backend\<close> is the built-in one. Time stamps are the strings the code keeps; how they are
  parsed and printed (chrono) and how the scopes are written as JSON (serde) are parameters, in \<open>key_env\<close>.
  \<^verbatim>\<open>split_at\<close> panics inside a character, so parsing a token has that outcome too.
\<close>

section \<open>Types\<close>

record create_key_request =
  ck_tenant_id :: string
  ck_name :: string
  ck_scopes :: "string list"
  ck_expires_at :: "string option"

record api_key_created =
  kc_id :: string
  kc_raw_token :: string
  kc_name :: string
  kc_scopes :: "string list"
  kc_tenant_id :: string
  kc_expires_at :: "string option"
  kc_created_at :: string

record api_key_meta =
  km_id :: string
  km_tenant_id :: string
  km_name :: string
  km_scopes :: "string list"
  km_expires_at :: "string option"
  km_last_used_at :: "string option"
  km_created_at :: string

record api_key_record =
  kr_id :: string
  kr_key_hash :: string
  kr_tenant_id :: string
  kr_name :: string
  kr_scopes :: "string list"
  kr_expires_at :: "string option"
  kr_last_used_at :: "string option"
  kr_created_at :: string
  kr_revoked_at :: "string option"

definition into_meta :: "api_key_record \<Rightarrow> api_key_meta" where
  "into_meta r =
     \<lparr>km_id = kr_id r, km_tenant_id = kr_tenant_id r, km_name = kr_name r, km_scopes = kr_scopes r,
      km_expires_at = kr_expires_at r, km_last_used_at = kr_last_used_at r, km_created_at = kr_created_at r\<rparr>"

section \<open>Configuration\<close>

record api_key_config =
  akc_prefix :: string
  akc_secret_length :: nat
  akc_touch_threshold_secs :: nat

definition api_key_config_default :: api_key_config where
  "api_key_config_default = \<lparr>akc_prefix = ''modo'', akc_secret_length = 32, akc_touch_threshold_secs = 60\<rparr>"

definition is_ascii_alphanumeric :: "char \<Rightarrow> bool" where
  "is_ascii_alphanumeric ch \<longleftrightarrow>
     (let c = of_char ch :: nat in 48 \<le> c \<and> c \<le> 57 \<or> 65 \<le> c \<and> c \<le> 90 \<or> 97 \<le> c \<and> c \<le> 122)"

definition api_key_validate :: "api_key_config \<Rightarrow> unit result" where
  "api_key_validate config =
     (if akc_prefix config = [] \<or> 20 < length (akc_prefix config)
      then Inl (bad_request ''apikey prefix must be 1-20 characters'')
      else if \<not> list_all is_ascii_alphanumeric (akc_prefix config)
      then Inl (bad_request ''apikey prefix must contain only ASCII alphanumeric characters'')
      else if akc_secret_length config < 16
      then Inl (bad_request ''apikey secret_length must be at least 16'')
      else Inr ())"

section \<open>Tokens\<close>

definition BASE62 :: string where
  "BASE62 = ''0123456789ABCDEFGHIJKLMNOPQRSTUVWXYZabcdefghijklmnopqrstuvwxyz''"

definition ULID_LEN :: nat where
  "ULID_LEN = 26"

record parsed_token =
  pt_id :: string
  pt_secret :: string

definition generate_secret :: "nat \<Rightarrow> u8 list \<Rightarrow> (string \<times> u8 list) option" where
  "generate_secret len bytes = random_string BASE62 len bytes"

definition format_token :: "string \<Rightarrow> string \<Rightarrow> string \<Rightarrow> string" where
  "format_token prefix key_ulid secret = prefix @ ''_'' @ key_ulid @ secret"

text \<open>\<^verbatim>\<open>str::split_at\<close> panics (\<open>None\<close>) unless the index is the start of a character: the byte there is not
  a continuation byte of UTF-8.\<close>

definition is_char_boundary :: "nat \<Rightarrow> string \<Rightarrow> bool" where
  "is_char_boundary i s \<longleftrightarrow> i = length s \<or> i < length s \<and> \<not> (128 \<le> (of_char (s ! i) :: nat) \<and> (of_char (s ! i) :: nat) < 192)"

definition split_at :: "nat \<Rightarrow> string \<Rightarrow> (string \<times> string) option" where
  "split_at i s = (if is_char_boundary i s then Some (take i s, drop i s) else None)"

definition parse_token :: "string \<Rightarrow> string \<Rightarrow> parsed_token option option" where
  "parse_token raw expected_prefix =
     (case split_once CHR ''_'' raw of
        None \<Rightarrow> Some None
      | Some (prefix, body) \<Rightarrow>
          if prefix \<noteq> expected_prefix then Some None
          else if length body \<le> ULID_LEN then Some None
          else (case split_at ULID_LEN body of
                  None \<Rightarrow> None
                | Some (i, secret) \<Rightarrow> Some (Some \<lparr>pt_id = i, pt_secret = secret\<rparr>)))"

definition hash_secret :: "(u8 list \<Rightarrow> u8 list) \<Rightarrow> string \<Rightarrow> string" where
  "hash_secret digest secret = hex_sha256 digest (as_bytes secret)"

definition verify_hash :: "(u8 list \<Rightarrow> u8 list) \<Rightarrow> string \<Rightarrow> string \<Rightarrow> bool" where
  "verify_hash digest secret stored_hash = verify_sha256_hex digest (as_bytes secret) stored_hash"

section \<open>The backend\<close>

record 'st api_backend =
  be_store :: "api_key_record \<Rightarrow> 'st \<Rightarrow> unit result \<times> 'st"
  be_lookup :: "string \<Rightarrow> 'st \<Rightarrow> api_key_record option result \<times> 'st"
  be_revoke :: "string \<Rightarrow> string \<Rightarrow> 'st \<Rightarrow> unit result \<times> 'st"
  be_list :: "string \<Rightarrow> 'st \<Rightarrow> api_key_record list result \<times> 'st"
  be_update_last_used :: "string \<Rightarrow> string \<Rightarrow> 'st \<Rightarrow> unit result \<times> 'st"
  be_update_expires_at :: "string \<Rightarrow> string option \<Rightarrow> 'st \<Rightarrow> unit result \<times> 'st"

record key_env =
  ke_digest :: "u8 list \<Rightarrow> u8 list"
  ke_parse_rfc3339 :: "string \<Rightarrow> int option"
  ke_format_utc :: "int \<Rightarrow> string"
  ke_scopes_to_json :: "string list \<Rightarrow> string"
  ke_scopes_from_json :: "string \<Rightarrow> string + string list"

text \<open>A row of \<^verbatim>\<open>api_keys\<close>; the scopes are JSON text.\<close>

record api_key_row =
  akr_id :: string
  akr_key_hash :: string
  akr_tenant_id :: string
  akr_name :: string
  akr_scopes :: string
  akr_expires_at :: "string option"
  akr_last_used_at :: "string option"
  akr_created_at :: string
  akr_revoked_at :: "string option"

definition api_key_check :: "api_key_row list \<Rightarrow> libsql_error option" where
  "api_key_check rows =
     (if distinct (map akr_id rows) then None else Some (SqliteFailure 1555 ''UNIQUE constraint failed: api_keys.id''))"

definition api_key_from_row :: "key_env \<Rightarrow> api_key_row \<Rightarrow> api_key_record result" where
  "api_key_from_row env row =
     bind_res (map_err (\<lambda>e. internal (''deserialize api_keys.scopes: '' @ e)) (ke_scopes_from_json env (akr_scopes row)))
       (\<lambda>scopes. Inr
          \<lparr>kr_id = akr_id row, kr_key_hash = akr_key_hash row, kr_tenant_id = akr_tenant_id row, kr_name = akr_name row,
           kr_scopes = scopes, kr_expires_at = akr_expires_at row, kr_last_used_at = akr_last_used_at row,
           kr_created_at = akr_created_at row, kr_revoked_at = akr_revoked_at row\<rparr>)"

text \<open>The columns the \<^verbatim>\<open>INSERT\<close> does not name are null.\<close>

definition api_key_to_row :: "key_env \<Rightarrow> api_key_record \<Rightarrow> api_key_row" where
  "api_key_to_row env r =
     \<lparr>akr_id = kr_id r, akr_key_hash = kr_key_hash r, akr_tenant_id = kr_tenant_id r, akr_name = kr_name r,
      akr_scopes = ke_scopes_to_json env (kr_scopes r), akr_expires_at = kr_expires_at r, akr_last_used_at = None,
      akr_created_at = kr_created_at r, akr_revoked_at = None\<rparr>"

definition sqlite_store :: "key_env \<Rightarrow> api_key_record \<Rightarrow> (api_key_row, unit) dbm" where
  "sqlite_store env r =
     db_bind (db_execute error_from_libsql (sql_insert api_key_check (api_key_to_row env r))) (\<lambda>_. db_lift (Inr ()))"

definition sqlite_lookup :: "key_env \<Rightarrow> string \<Rightarrow> (api_key_row, api_key_record option) dbm" where
  "sqlite_lookup env key_id = query_optional (api_key_from_row env) (filter (\<lambda>r. akr_id r = key_id))"

definition sqlite_revoke :: "string \<Rightarrow> string \<Rightarrow> (api_key_row, unit) dbm" where
  "sqlite_revoke key_id revoked_at =
     db_bind (db_execute error_from_libsql
       (sql_update api_key_check (\<lambda>r. akr_id r = key_id) (\<lambda>r. r\<lparr>akr_revoked_at := Some revoked_at\<rparr>))) (\<lambda>_. db_lift (Inr ()))"

text \<open>\<^verbatim>\<open>ORDER BY created_at DESC\<close>, rows of equal time in table order.\<close>

definition sqlite_list :: "key_env \<Rightarrow> string \<Rightarrow> (api_key_row, api_key_record list) dbm" where
  "sqlite_list env tenant_id =
     query_all (api_key_from_row env)
       (\<lambda>rows. rev (sort_key akr_created_at (rev (filter (\<lambda>r. akr_tenant_id r = tenant_id \<and> akr_revoked_at r = None) rows))))"

definition sqlite_update_last_used :: "string \<Rightarrow> string \<Rightarrow> (api_key_row, unit) dbm" where
  "sqlite_update_last_used key_id timestamp =
     db_bind (db_execute error_from_libsql
       (sql_update api_key_check (\<lambda>r. akr_id r = key_id) (\<lambda>r. r\<lparr>akr_last_used_at := Some timestamp\<rparr>))) (\<lambda>_. db_lift (Inr ()))"

definition sqlite_update_expires_at :: "string \<Rightarrow> string option \<Rightarrow> (api_key_row, unit) dbm" where
  "sqlite_update_expires_at key_id expires_at =
     db_bind (db_execute error_from_libsql
       (sql_update api_key_check (\<lambda>r. akr_id r = key_id) (\<lambda>r. r\<lparr>akr_expires_at := expires_at\<rparr>))) (\<lambda>_. db_lift (Inr ()))"

definition sqlite_backend :: "key_env \<Rightarrow> api_key_row db api_backend" where
  "sqlite_backend env =
     \<lparr>be_store = sqlite_store env, be_lookup = sqlite_lookup env, be_revoke = sqlite_revoke,
      be_list = sqlite_list env, be_update_last_used = sqlite_update_last_used,
      be_update_expires_at = sqlite_update_expires_at\<rparr>"

section \<open>ApiKeyStore\<close>

record 'st api_key_store =
  aks_backend :: "'st api_backend"
  aks_config :: api_key_config

definition from_backend :: "'st api_backend \<Rightarrow> api_key_config \<Rightarrow> 'st api_key_store result" where
  "from_backend backend config =
     bind_res (api_key_validate config) (\<lambda>_. Inr \<lparr>aks_backend = backend, aks_config = config\<rparr>)"

definition api_key_store_new :: "key_env \<Rightarrow> api_key_config \<Rightarrow> api_key_row db api_key_store result" where
  "api_key_store_new env config =
     bind_res (api_key_validate config) (\<lambda>_. Inr \<lparr>aks_backend = sqlite_backend env, aks_config = config\<rparr>)"

definition valid_timestamp :: "key_env \<Rightarrow> string option \<Rightarrow> unit result" where
  "valid_timestamp env expires_at =
     (case expires_at of
        None \<Rightarrow> Inr ()
      | Some e \<Rightarrow>
          bind_res (ok_or (bad_request ''expires_at must be a valid RFC 3339 timestamp'') (ke_parse_rfc3339 env e)) (\<lambda>_. Inr ()))"

text \<open>\<open>key_ulid\<close> and \<open>secret\<close> are what the generators return, \<open>now\<close> the clock.\<close>

definition create_key ::
  "key_env \<Rightarrow> 'st api_key_store \<Rightarrow> string \<Rightarrow> string \<Rightarrow> int \<Rightarrow> create_key_request \<Rightarrow> 'st \<Rightarrow> api_key_created result \<times> 'st" where
  "create_key env store key_ulid secret now req st =
     (if ck_tenant_id req = [] then (Inl (bad_request ''tenant_id is required''), st)
      else if ck_name req = [] then (Inl (bad_request ''name is required''), st)
      else case valid_timestamp env (ck_expires_at req) of
        Inl e \<Rightarrow> (Inl e, st)
      | Inr _ \<Rightarrow>
          let raw_token = format_token (akc_prefix (aks_config store)) key_ulid secret;
              key_hash = hash_secret (ke_digest env) secret;
              now_str = ke_format_utc env now;
              krec = \<lparr>kr_id = key_ulid, kr_key_hash = key_hash, kr_tenant_id = ck_tenant_id req, kr_name = ck_name req,
                kr_scopes = ck_scopes req, kr_expires_at = ck_expires_at req, kr_last_used_at = None,
                kr_created_at = now_str, kr_revoked_at = None\<rparr>
          in case be_store (aks_backend store) krec st of
               (Inl e, st') \<Rightarrow> (Inl e, st')
             | (Inr _, st') \<Rightarrow>
                 (Inr \<lparr>kc_id = key_ulid, kc_raw_token = raw_token, kc_name = ck_name req, kc_scopes = ck_scopes req,
                   kc_tenant_id = ck_tenant_id req, kc_expires_at = ck_expires_at req, kc_created_at = now_str\<rparr>, st'))"

definition expires_at_passed :: "key_env \<Rightarrow> int \<Rightarrow> string \<Rightarrow> bool" where
  "expires_at_passed env now rfc3339 =
     (case ke_parse_rfc3339 env rfc3339 of Some dt \<Rightarrow> dt \<le> now | None \<Rightarrow> True)"

definition DUMMY_HASH :: string where
  "DUMMY_HASH = replicate 64 CHR ''0''"

definition num_seconds :: "int \<Rightarrow> int" where
  "num_seconds d = (if 0 \<le> d then d div 1000000000 else - (- d div 1000000000))"

text \<open>Whether a background task is started that sets \<^verbatim>\<open>last_used_at\<close>; the task itself is \<open>touch_key\<close>.\<close>

definition should_touch :: "key_env \<Rightarrow> 'st api_key_store \<Rightarrow> int \<Rightarrow> api_key_record \<Rightarrow> bool" where
  "should_touch env store now r =
     (case kr_last_used_at r of
        None \<Rightarrow> True
      | Some last_str \<Rightarrow>
          (case ke_parse_rfc3339 env last_str of
             Some last_dt \<Rightarrow> u64_as_i64 (akc_touch_threshold_secs (aks_config store)) \<le> num_seconds (now - last_dt)
           | None \<Rightarrow> True))"

definition touch_key :: "key_env \<Rightarrow> 'st api_key_store \<Rightarrow> string \<Rightarrow> int \<Rightarrow> 'st \<Rightarrow> 'st" where
  "touch_key env store key_id now st = snd (be_update_last_used (aks_backend store) key_id (ke_format_utc env now) st)"

text \<open>The check after the lookup.\<close>

definition judge_key :: "key_env \<Rightarrow> int \<Rightarrow> parsed_token option \<Rightarrow> api_key_record option \<Rightarrow> api_key_record result" where
  "judge_key env now parsed krec =
     (let unusable = (case krec of
            None \<Rightarrow> True
          | Some r \<Rightarrow> kr_revoked_at r \<noteq> None \<or>
              (case kr_expires_at r of None \<Rightarrow> False | Some e \<Rightarrow> expires_at_passed env now e));
          secret = (case parsed of Some p \<Rightarrow> pt_secret p | None \<Rightarrow> []);
          stored_hash = (case krec of Some r \<Rightarrow> kr_key_hash r | None \<Rightarrow> DUMMY_HASH);
          hash_ok = verify_hash (ke_digest env) secret stored_hash
      in if unusable \<or> \<not> hash_ok then Inl (unauthorized ''invalid API key'') else Inr (the krec))"

text \<open>The result is \<open>None\<close> when the call panics; the second component is the key a background task
  touches.\<close>

definition verify_key ::
  "key_env \<Rightarrow> 'st api_key_store \<Rightarrow> int \<Rightarrow> string \<Rightarrow> 'st \<Rightarrow> api_key_meta result option \<times> string option \<times> 'st" where
  "verify_key env store now raw_token st =
     (case parse_token raw_token (akc_prefix (aks_config store)) of
        None \<Rightarrow> (None, None, st)
      | Some parsed \<Rightarrow>
          (case (case parsed of Some p \<Rightarrow> be_lookup (aks_backend store) (pt_id p) st | None \<Rightarrow> (Inr None, st)) of
             (Inl e, st') \<Rightarrow> (Some (Inl e), None, st')
           | (Inr krec, st') \<Rightarrow>
               (case judge_key env now parsed krec of
                  Inl e \<Rightarrow> (Some (Inl e), None, st')
                | Inr r \<Rightarrow> (Some (Inr (into_meta r)), if should_touch env store now r then Some (kr_id r) else None, st'))))"

definition revoke_key :: "key_env \<Rightarrow> 'st api_key_store \<Rightarrow> int \<Rightarrow> string \<Rightarrow> 'st \<Rightarrow> unit result \<times> 'st" where
  "revoke_key env store now key_id st =
     (case be_lookup (aks_backend store) key_id st of
        (Inl e, st') \<Rightarrow> (Inl e, st')
      | (Inr None, st') \<Rightarrow> (Inl (not_found ''API key not found''), st')
      | (Inr (Some _), st') \<Rightarrow> be_revoke (aks_backend store) key_id (ke_format_utc env now) st')"

definition list_keys :: "'st api_key_store \<Rightarrow> string \<Rightarrow> 'st \<Rightarrow> api_key_meta list result \<times> 'st" where
  "list_keys store tenant_id st =
     (case be_list (aks_backend store) tenant_id st of
        (r, st') \<Rightarrow> (bind_res r (\<lambda>records. Inr (map into_meta records)), st'))"

definition refresh_key :: "key_env \<Rightarrow> 'st api_key_store \<Rightarrow> string \<Rightarrow> string option \<Rightarrow> 'st \<Rightarrow> unit result \<times> 'st" where
  "refresh_key env store key_id expires_at st =
     (case valid_timestamp env expires_at of
        Inl e \<Rightarrow> (Inl e, st)
      | Inr _ \<Rightarrow>
          (case be_lookup (aks_backend store) key_id st of
             (Inl e, st') \<Rightarrow> (Inl e, st')
           | (Inr None, st') \<Rightarrow> (Inl (not_found ''API key not found''), st')
           | (Inr (Some _), st') \<Rightarrow> be_update_expires_at (aks_backend store) key_id expires_at st'))"

section \<open>The middleware\<close>

datatype header_source = AuthorizationHeader | CustomHeader string

definition api_extract_token :: "parts \<Rightarrow> header_source \<Rightarrow> string result" where
  "api_extract_token parts header =
     (case header of
        AuthorizationHeader \<Rightarrow>
          bind_res (ok_or (unauthorized ''missing API key'') (header_get parts ''authorization'')) (\<lambda>v.
          bind_res (ok_or (unauthorized ''invalid API key'') (header_to_str v)) (\<lambda>v.
          ok_or (unauthorized ''invalid API key'') (strip_prefix ''Bearer '' v)))
      | CustomHeader name \<Rightarrow>
          bind_res (ok_or (unauthorized ''missing API key'') (header_get parts name)) (\<lambda>v.
          ok_or (unauthorized ''invalid API key'') (header_to_str v)))"

text \<open>The answer, or the key's data with which the request goes on; \<open>None\<close> as before.\<close>

definition api_key_call ::
  "key_env \<Rightarrow> 'st api_key_store \<Rightarrow> header_source \<Rightarrow> int \<Rightarrow> parts \<Rightarrow> 'st \<Rightarrow>
   (error_response + api_key_meta) option \<times> string option \<times> 'st" where
  "api_key_call env store header now parts st =
     (case api_extract_token parts header of
        Inl e \<Rightarrow> (Some (Inl (into_response e)), None, st)
      | Inr raw_token \<Rightarrow>
          (case verify_key env store now raw_token st of
             (r, touch, st') \<Rightarrow> (map_option (map_err into_response) r, touch, st')))"

text \<open>\<^verbatim>\<open>ScopeMiddleware::call\<close> on the key's data in the request's extensions.\<close>

definition require_scope_call :: "string \<Rightarrow> api_key_meta option \<Rightarrow> error_response + api_key_meta" where
  "require_scope_call scope ext =
     (case ext of
        None \<Rightarrow> Inl (into_response (internal ''server misconfigured''))
      | Some meta \<Rightarrow>
          if scope \<in> set (km_scopes meta) then Inr meta
          else Inl (into_response (forbidden (''missing required scope: '' @ scope))))"

definition api_key_extract :: "api_key_meta option \<Rightarrow> api_key_meta result" where
  "api_key_extract ext = ok_or (unauthorized ''missing API key'') ext"


section \<open>Events\<close>

text \<open>The calls that reach a store, and the background task that a verification may start.\<close>

datatype key_event =
    CreateKey string string int create_key_request
  | VerifyKey int string
  | RevokeKey int string
  | ListKeys string
  | RefreshKey string "string option"
  | TouchKey string int

fun key_exec :: "key_env \<Rightarrow> 'st api_key_store \<Rightarrow> key_event \<Rightarrow> 'st \<Rightarrow> 'st" where
  "key_exec env store (CreateKey u sec now req) st = snd (create_key env store u sec now req st)"
| "key_exec env store (VerifyKey now raw) st = snd (snd (verify_key env store now raw st))"
| "key_exec env store (RevokeKey now k) st = snd (revoke_key env store now k st)"
| "key_exec env store (ListKeys t) st = snd (list_keys store t st)"
| "key_exec env store (RefreshKey k e) st = snd (refresh_key env store k e st)"
| "key_exec env store (TouchKey k now) st = touch_key env store k now st"

section \<open>Tokens as strings\<close>

lemma parse_format_token:
  assumes "CHR ''_'' \<notin> set prefix" "length u = ULID_LEN" "secret \<noteq> []" "is_char_boundary ULID_LEN (u @ secret)"
  shows "parse_token (format_token prefix u secret) prefix = Some (Some \<lparr>pt_id = u, pt_secret = secret\<rparr>)"
  using assms by (simp add: parse_token_def format_token_def split_at_def)

lemma ascii_boundary: "list_all visible_ascii s \<Longrightarrow> i \<le> length s \<Longrightarrow> is_char_boundary i s"
proof (cases "i < length s")
  case True
  assume "list_all visible_ascii s"
  then have "visible_ascii (s ! i)" using True by (simp add: list_all_length)
  then have "(of_char (s ! i) :: nat) < 127" unfolding visible_ascii_def Let_def by linarith
  then show ?thesis using True by (simp add: is_char_boundary_def)
qed (simp add: is_char_boundary_def)

lemma visible_ascii_parse:
  assumes "list_all visible_ascii raw"
  shows "parse_token raw prefix \<noteq> None"
proof -
  have "list_all visible_ascii body" if "split_once CHR ''_'' raw = Some (p, body)" for p body
    using that assms by (auto simp: split_once_Some)
  then show ?thesis
    by (auto simp: parse_token_def split_at_def ascii_boundary split: option.split)
qed

lemma judge_key_Inr:
  "judge_key env now parsed krec = Inr r \<longleftrightarrow>
     krec = Some r \<and> kr_revoked_at r = None \<and>
     (\<forall>e. kr_expires_at r = Some e \<longrightarrow> \<not> expires_at_passed env now e) \<and>
     hash_secret (ke_digest env) (case parsed of Some p \<Rightarrow> pt_secret p | None \<Rightarrow> []) = kr_key_hash r"
  by (cases krec) (auto simp: judge_key_def Let_def verify_hash_def verify_sha256_hex_def hash_secret_def split: option.splits)

section \<open>The contract of a backend\<close>

text \<open>
  \<open>view\<close> is the record a state holds under an id, \<open>stored\<close> what a stored record is read back as, \<open>up\<close> a
  state in which the backend answers.
\<close>

locale key_backend =
  fixes be :: "'st api_backend"
    and view :: "'st \<Rightarrow> string \<Rightarrow> api_key_record option"
    and stored :: "api_key_record \<Rightarrow> api_key_record option"
    and up :: "'st \<Rightarrow> bool"
  assumes lookup_Inr: "be_lookup be k s = (Inr ob, s') \<Longrightarrow> ob = view s k"
    and lookup_view: "view (snd (be_lookup be k s)) = view s"
    and lookup_up: "up s \<Longrightarrow> view s k = Some r \<Longrightarrow> \<exists>s'. be_lookup be k s = (Inr (Some r), s')"
    and list_view: "view (snd (be_list be t s)) = view s"
    and store_Inr: "be_store be r s = (Inr u, s') \<Longrightarrow> view s (kr_id r) = None \<and> view s' = (view s)(kr_id r := stored r)"
    and store_Inl: "be_store be r s = (Inl e, s') \<Longrightarrow> view s' = view s"
    and store_up: "up s \<Longrightarrow> up (snd (be_store be r s))"
    and revoke_view: "be_revoke be k t s = (res, s') \<Longrightarrow> view s' = (case res of Inl _ \<Rightarrow> view s
        | Inr _ \<Rightarrow> (view s)(k := map_option (\<lambda>r. r\<lparr>kr_revoked_at := Some t\<rparr>) (view s k)))"
    and touch_view: "be_update_last_used be k t s = (res, s') \<Longrightarrow> view s' = (case res of Inl _ \<Rightarrow> view s
        | Inr _ \<Rightarrow> (view s)(k := map_option (\<lambda>r. r\<lparr>kr_last_used_at := Some t\<rparr>) (view s k)))"
    and expires_view: "be_update_expires_at be k x s = (res, s') \<Longrightarrow> view s' = (case res of Inl _ \<Rightarrow> view s
        | Inr _ \<Rightarrow> (view s)(k := map_option (\<lambda>r. r\<lparr>kr_expires_at := x\<rparr>) (view s k)))"
begin

lemma verify_view: "aks_backend store = be \<Longrightarrow> view (snd (snd (verify_key env store now raw s))) = view s"
  using lookup_view by (auto simp: verify_key_def split: option.splits prod.splits sum.splits) (metis snd_conv)+

lemma verify_sound:
  assumes "aks_backend store = be" "verify_key env store now raw s = (Some (Inr m), touch, s')"
  shows "\<exists>p r. parse_token raw (akc_prefix (aks_config store)) = Some (Some p) \<and> view s (pt_id p) = Some r \<and>
     m = into_meta r \<and> kr_revoked_at r = None \<and>
     (\<forall>e. kr_expires_at r = Some e \<longrightarrow> \<not> expires_at_passed env now e) \<and>
     hash_secret (ke_digest env) (pt_secret p) = kr_key_hash r"
proof -
  obtain parsed where p: "parse_token raw (akc_prefix (aks_config store)) = Some parsed"
    using assms(2) by (auto simp: verify_key_def split: option.splits)
  obtain krec s1 where l: "(case parsed of Some p \<Rightarrow> be_lookup be (pt_id p) s | None \<Rightarrow> (Inr None, s)) = (Inr krec, s1)"
    using assms p by (auto simp: verify_key_def split: prod.splits sum.splits)
  obtain r where r: "judge_key env now parsed krec = Inr r" "m = into_meta r"
    using assms p l by (auto simp: verify_key_def split: sum.splits)
  then have k: "krec = Some r" by (simp add: judge_key_Inr)
  then obtain p' where p': "parsed = Some p'" using l by (cases parsed) auto
  then have "view s (pt_id p') = Some r" using l k lookup_Inr [of "pt_id p'" s krec s1] by simp
  then show ?thesis using p p' r by (auto simp: judge_key_Inr)
qed

lemma verify_complete:
  assumes "aks_backend store = be" "up s" "parse_token raw (akc_prefix (aks_config store)) = Some (Some p)"
    "view s (pt_id p) = Some r" "kr_revoked_at r = None" "\<forall>e. kr_expires_at r = Some e \<longrightarrow> \<not> expires_at_passed env now e"
    "hash_secret (ke_digest env) (pt_secret p) = kr_key_hash r"
  shows "fst (verify_key env store now raw s) = Some (Inr (into_meta r))"
proof -
  obtain s' where "be_lookup be (pt_id p) s = (Inr (Some r), s')" using lookup_up assms(2,4) by blast
  moreover have "judge_key env now (Some p) (Some r) = Inr r" using assms(5-7) by (simp add: judge_key_Inr)
  ultimately show ?thesis using assms(1,3) by (simp add: verify_key_def)
qed

lemma create_view:
  assumes "aks_backend store = be" "create_key env store u sec now req s = (Inr c, s')"
  shows "\<exists>r. kr_id r = u \<and> kr_key_hash r = hash_secret (ke_digest env) sec \<and> kr_tenant_id r = ck_tenant_id req \<and>
     kr_name r = ck_name req \<and> kr_scopes r = ck_scopes req \<and> kr_expires_at r = ck_expires_at req \<and> kr_last_used_at r = None \<and>
     kr_created_at r = ke_format_utc env now \<and> kr_revoked_at r = None \<and> be_store be r s = (Inr (), s') \<and>
     kc_raw_token c = format_token (akc_prefix (aks_config store)) u sec"
proof -
  let ?r = "\<lparr>kr_id = u, kr_key_hash = hash_secret (ke_digest env) sec, kr_tenant_id = ck_tenant_id req, kr_name = ck_name req,
     kr_scopes = ck_scopes req, kr_expires_at = ck_expires_at req, kr_last_used_at = None,
     kr_created_at = ke_format_utc env now, kr_revoked_at = None\<rparr>"
  have "be_store be ?r s = (Inr (), s') \<and> kc_raw_token c = format_token (akc_prefix (aks_config store)) u sec"
    using assms by (auto simp: create_key_def Let_def split: if_splits sum.splits prod.splits)
  then show ?thesis by (intro exI [of _ ?r]) simp
qed

text \<open>What an event can do to a record that is there: it stays, and a revocation stays with it.\<close>

lemma revoked_stays:
  assumes "aks_backend store = be" "view s k = Some r" "kr_revoked_at r \<noteq> None"
  shows "\<exists>r'. view (key_exec env store ev s) k = Some r' \<and> kr_revoked_at r' \<noteq> None"
proof -
  have upd: "\<exists>r'. v k = Some r' \<and> kr_revoked_at r' \<noteq> None"
    if "v = (case res of Inl _ \<Rightarrow> view s | Inr _ \<Rightarrow> (view s)(j := map_option f (view s j)))"
      "\<And>r. kr_revoked_at r \<noteq> None \<Longrightarrow> kr_revoked_at (f r) \<noteq> None" for v and res :: "error + unit" and j f
    using assms(2,3) that by (cases res) auto
  have look: "view s1 = view s" if "be_lookup be j s = (x, s1)" for j x s1 using lookup_view [of j s] that by simp
  show ?thesis
  proof (cases ev)
    case (CreateKey u sec now req)
    obtain res s' where c: "create_key env store u sec now req s = (res, s')" by fastforce
    have "\<exists>r'. view s' k = Some r' \<and> kr_revoked_at r' \<noteq> None"
    proof (cases res)
      case (Inr cr)
      then obtain q where "be_store be q s = (Inr (), s')" using create_view [OF assms(1)] c by blast
      from store_Inr [OF this] show ?thesis using assms(2,3) by auto
    next
      case (Inl e)
      then have "view s' = view s"
        using c assms(1) store_Inl by (auto simp: create_key_def Let_def split: if_splits sum.splits prod.splits)
      then show ?thesis using assms(2,3) by simp
    qed
    then show ?thesis using CreateKey c by simp
  next
    case (RevokeKey now j)
    have "view (snd (be_revoke be j t s1)) = (case fst (be_revoke be j t s1) of Inl _ \<Rightarrow> view s1
        | Inr _ \<Rightarrow> (view s1)(j := map_option (\<lambda>r. r\<lparr>kr_revoked_at := Some t\<rparr>) (view s1 j)))" for t s1
      by (rule revoke_view) simp
    then show ?thesis using RevokeKey assms look
      by (auto simp: revoke_key_def split: prod.split sum.split option.split intro!: upd [where f = "\<lambda>r. r\<lparr>kr_revoked_at := Some _\<rparr>"])
  next
    case (RefreshKey j x)
    have "view (snd (be_update_expires_at be j x s1)) = (case fst (be_update_expires_at be j x s1) of Inl _ \<Rightarrow> view s1
        | Inr _ \<Rightarrow> (view s1)(j := map_option (\<lambda>r. r\<lparr>kr_expires_at := x\<rparr>) (view s1 j)))" for s1
      by (rule expires_view) simp
    then show ?thesis using RefreshKey assms look
      by (auto simp: refresh_key_def split: prod.split sum.split option.split intro!: upd)
  next
    case (TouchKey j now)
    have "view (touch_key env store j now s) = (case fst (be_update_last_used be j (ke_format_utc env now) s) of Inl _ \<Rightarrow> view s
        | Inr _ \<Rightarrow> (view s)(j := map_option (\<lambda>r. r\<lparr>kr_last_used_at := Some (ke_format_utc env now)\<rparr>) (view s j)))"
      unfolding touch_key_def assms(1) by (rule touch_view) simp
    from upd [OF this] TouchKey show ?thesis by simp
  next
    case (ListKeys t)
    then show ?thesis using assms list_view [of t s] by (auto simp: list_keys_def split: prod.split)
  qed (use assms verify_view in auto)
qed

lemma revoked_stays_run:
  assumes "aks_backend store = be" "view s k = Some r" "kr_revoked_at r \<noteq> None"
  shows "\<exists>r'. view (fold (key_exec env store) evs s) k = Some r' \<and> kr_revoked_at r' \<noteq> None"
  using assms(2,3)
proof (induction evs arbitrary: s r)
  case (Cons ev evs)
  then show ?case using revoked_stays [OF assms(1), of s k r env ev] by fastforce
qed simp

lemma revoke_revokes:
  assumes "aks_backend store = be" "revoke_key env store now k s = (Inr u, s')"
  shows "\<exists>r. view s' k = Some r \<and> kr_revoked_at r \<noteq> None"
proof -
  obtain r s1 where l: "be_lookup be k s = (Inr (Some r), s1)" and rv: "be_revoke be k (ke_format_utc env now) s1 = (Inr u, s')"
    using assms by (auto simp: revoke_key_def split: prod.splits sum.splits option.splits)
  have "view s1 k = Some r" using lookup_Inr [OF l] lookup_view [of k s] l by simp
  then show ?thesis using revoke_view [OF rv] by simp
qed

lemma revoked_never_verifies:
  assumes "aks_backend store = be" "revoke_key env store now k s = (Inr u, s1)"
    "parse_token raw (akc_prefix (aks_config store)) = Some (Some p)" "pt_id p = k"
  shows "fst (verify_key env store later raw (fold (key_exec env store) evs s1)) \<noteq> Some (Inr m)"
proof
  let ?s = "fold (key_exec env store) evs s1"
  assume a: "fst (verify_key env store later raw ?s) = Some (Inr m)"
  obtain touch s' where "verify_key env store later raw ?s = (Some (Inr m), touch, s')"
    using a by (cases "verify_key env store later raw ?s") auto
  from verify_sound [OF assms(1) this] assms(3,4) obtain r where "view ?s k = Some r" "kr_revoked_at r = None" by auto
  moreover obtain r0 where "view s1 k = Some r0" "kr_revoked_at r0 \<noteq> None" using revoke_revokes [OF assms(1,2)] by blast
  ultimately show False using revoked_stays_run [OF assms(1), of s1 k r0 env evs] by auto
qed

end


section \<open>The built-in backend keeps the contract\<close>

definition first_key :: "string \<Rightarrow> api_key_row list \<Rightarrow> api_key_row option" where
  "first_key k rows = (case filter (\<lambda>r. akr_id r = k) rows of [] \<Rightarrow> None | r # _ \<Rightarrow> Some r)"

definition sqlite_view :: "key_env \<Rightarrow> api_key_row db \<Rightarrow> string \<Rightarrow> api_key_record option" where
  "sqlite_view env db k = (case first_key k (db_rows db) of
     None \<Rightarrow> None
   | Some row \<Rightarrow> (case api_key_from_row env row of Inl _ \<Rightarrow> None | Inr r \<Rightarrow> Some r))"

definition sqlite_stored :: "key_env \<Rightarrow> api_key_record \<Rightarrow> api_key_record option" where
  "sqlite_stored env r = (case api_key_from_row env (api_key_to_row env r) of Inl _ \<Rightarrow> None | Inr r' \<Rightarrow> Some r')"

lemma first_key_simps [simp]:
  "first_key k [] = None" "first_key k (r # rows) = (if akr_id r = k then Some r else first_key k rows)"
  by (simp_all add: first_key_def)

lemma first_key_None: "first_key k rows = None \<longleftrightarrow> k \<notin> akr_id ` set rows"
  by (induction rows) auto

lemma first_key_update:
  "(\<And>r. akr_id (f r) = akr_id r) \<Longrightarrow>
   first_key k (map (\<lambda>r. if akr_id r = j then f r else r) rows) = (if k = j then map_option f (first_key k rows) else first_key k rows)"
  by (induction rows) auto

lemma sqlite_update_view:
  assumes "db_bind (db_execute g (sql_update api_key_check (\<lambda>r. akr_id r = j) f)) (\<lambda>_. db_lift (Inr ())) db = (res, db')"
    "\<And>r. akr_id (f r) = akr_id r"
    "\<And>row. (case api_key_from_row env (f row) of Inl _ \<Rightarrow> None | Inr r \<Rightarrow> Some r) =
       map_option h (case api_key_from_row env row of Inl _ \<Rightarrow> None | Inr r \<Rightarrow> Some r)"
  shows "sqlite_view env db' = (case res of Inl _ \<Rightarrow> sqlite_view env db
     | Inr _ \<Rightarrow> (sqlite_view env db)(j := map_option h (sqlite_view env db j)))"
proof (cases res)
  case (Inl e)
  then have "db_rows db' = db_rows db"
    using assms(1) db_execute_Inl by (auto simp: db_bind_def split: prod.splits sum.splits)
  then show ?thesis using Inl by (simp add: sqlite_view_def fun_eq_iff)
next
  case (Inr u)
  then obtain n where "db_execute g (sql_update api_key_check (\<lambda>r. akr_id r = j) f) db = (Inr n, db')"
    using assms(1) by (auto simp: db_bind_eq_Inr)
  from db_execute_Inr [OF this] have rows: "db_rows db' = map (\<lambda>r. if akr_id r = j then f r else r) (db_rows db)"
    by (simp add: sql_update_Inr)
  have "sqlite_view env db' k = ((sqlite_view env db)(j := map_option h (sqlite_view env db j))) k" for k
    using first_key_update [of f k j "db_rows db"] assms(2,3)
    by (auto simp: sqlite_view_def rows split: option.split)
  then show ?thesis using Inr by (simp add: fun_eq_iff)
qed

lemma sqlite_store_view:
  assumes "sqlite_store env r db = (res, db')"
  shows "case res of Inl _ \<Rightarrow> sqlite_view env db' = sqlite_view env db
    | Inr _ \<Rightarrow> sqlite_view env db (kr_id r) = None \<and> sqlite_view env db' = (sqlite_view env db)(kr_id r := sqlite_stored env r)"
proof (cases res)
  case (Inl e)
  then have "db_rows db' = db_rows db"
    using assms db_execute_Inl by (auto simp: sqlite_store_def db_bind_def split: prod.splits sum.splits)
  then show ?thesis using Inl by (simp add: sqlite_view_def fun_eq_iff)
next
  case (Inr u)
  let ?row = "api_key_to_row env r"
  obtain n where "db_execute error_from_libsql (sql_insert api_key_check ?row) db = (Inr n, db')"
    using assms Inr by (auto simp: sqlite_store_def db_bind_eq_Inr)
  from db_execute_Inr [OF this] have rows: "db_rows db' = db_rows db @ [?row]" "api_key_check (db_rows db @ [?row]) = None"
    unfolding sql_insert_Inr by metis+
  have idr: "akr_id ?row = kr_id r" by (simp add: api_key_to_row_def)
  have fresh: "first_key (kr_id r) (db_rows db) = None"
    using rows(2) idr by (auto simp: api_key_check_def first_key_None split: if_splits)
  have app: "first_key k (db_rows db @ [?row]) = (if k = kr_id r then Some ?row else first_key k (db_rows db))" for k
  proof -
    have "first_key k (rs @ [?row]) = (case first_key k rs of None \<Rightarrow> if kr_id r = k then Some ?row else None | Some x \<Rightarrow> Some x)" for rs
      by (induction rs) (simp_all add: idr)
    then show ?thesis using fresh by (auto split: option.split)
  qed
  show ?thesis using Inr by (simp add: sqlite_view_def fresh rows(1) app fun_eq_iff sqlite_stored_def)
qed

lemma healthy_bind_unit: "healthy db \<Longrightarrow> healthy (snd (db_bind (db_execute g stmt) (\<lambda>_. db_lift (Inr ())) db))"
  by (simp add: db_bind_def db_execute_healthy split: sum.split prod.split)

interpretation sqlite: key_backend "sqlite_backend env" "sqlite_view env" "sqlite_stored env" healthy for env
proof (unfold_locales, unfold sqlite_backend_def api_backend.simps)
  fix k :: string and s s' :: "api_key_row db" and ob
  assume l: "sqlite_lookup env k s = (Inr ob, s')"
  show "ob = sqlite_view env s k"
    using query_optional_Inr [OF l [unfolded sqlite_lookup_def]]
    by (auto simp: sqlite_view_def first_key_def split: list.splits)
next
  fix k and s :: "api_key_row db"
  show "sqlite_view env (snd (sqlite_lookup env k s)) = sqlite_view env s"
    by (simp add: sqlite_view_def sqlite_lookup_def fun_eq_iff)
next
  fix s :: "api_key_row db" and k r
  assume "healthy s" "sqlite_view env s k = Some r"
  then show "\<exists>s'. sqlite_lookup env k s = (Inr (Some r), s')"
    by (auto simp: sqlite_view_def first_key_def sqlite_lookup_def query_optional_healthy split: list.splits sum.splits)
next
  fix t and s :: "api_key_row db"
  show "sqlite_view env (snd (sqlite_list env t s)) = sqlite_view env s"
    by (simp add: sqlite_view_def sqlite_list_def fun_eq_iff)
next
  fix r u and s s' :: "api_key_row db"
  assume "sqlite_store env r s = (Inr u, s')"
  from sqlite_store_view [OF this]
  show "sqlite_view env s (kr_id r) = None \<and> sqlite_view env s' = (sqlite_view env s)(kr_id r := sqlite_stored env r)" by simp
next
  fix r e and s s' :: "api_key_row db"
  assume "sqlite_store env r s = (Inl e, s')"
  from sqlite_store_view [OF this] show "sqlite_view env s' = sqlite_view env s" by simp
next
  fix r and s :: "api_key_row db"
  assume "healthy s"
  then show "healthy (snd (sqlite_store env r s))" unfolding sqlite_store_def by (rule healthy_bind_unit)
next
  fix k t res and s s' :: "api_key_row db"
  assume "sqlite_revoke k t s = (res, s')"
  then show "sqlite_view env s' = (case res of Inl _ \<Rightarrow> sqlite_view env s
      | Inr _ \<Rightarrow> (sqlite_view env s)(k := map_option (\<lambda>r. r\<lparr>kr_revoked_at := Some t\<rparr>) (sqlite_view env s k)))"
    unfolding sqlite_revoke_def by (rule sqlite_update_view) (simp_all add: api_key_from_row_def map_err_def bind_res_def split: sum.split)
next
  fix k t res and s s' :: "api_key_row db"
  assume "sqlite_update_last_used k t s = (res, s')"
  then show "sqlite_view env s' = (case res of Inl _ \<Rightarrow> sqlite_view env s
      | Inr _ \<Rightarrow> (sqlite_view env s)(k := map_option (\<lambda>r. r\<lparr>kr_last_used_at := Some t\<rparr>) (sqlite_view env s k)))"
    unfolding sqlite_update_last_used_def by (rule sqlite_update_view) (simp_all add: api_key_from_row_def map_err_def bind_res_def split: sum.split)
next
  fix k x res and s s' :: "api_key_row db"
  assume "sqlite_update_expires_at k x s = (res, s')"
  then show "sqlite_view env s' = (case res of Inl _ \<Rightarrow> sqlite_view env s
      | Inr _ \<Rightarrow> (sqlite_view env s)(k := map_option (\<lambda>r. r\<lparr>kr_expires_at := x\<rparr>) (sqlite_view env s k)))"
    unfolding sqlite_update_expires_at_def by (rule sqlite_update_view) (simp_all add: api_key_from_row_def map_err_def bind_res_def split: sum.split)
qed


section \<open>Generated tokens\<close>

lemma alphabets_ascii: "list_all visible_ascii CROCKFORD" "list_all visible_ascii BASE62"
  by (simp_all add: CROCKFORD_def BASE62_def visible_ascii_def Let_def)

lemma ulid_shape: "length (ulid ms rand) = ULID_LEN" "list_all visible_ascii (ulid ms rand)"
proof -
  show "length (ulid ms rand) = ULID_LEN" by (simp add: ulid_def ULID_LEN_def)
  show "list_all visible_ascii (ulid ms rand)" using ulid_chars [of ms rand] alphabets_ascii(1) by (auto simp: list_all_iff)
qed

lemma random_loop_length: "random_loop A len out bytes = Some (s, rest) \<Longrightarrow> len \<le> length s"
  by (induction A len out bytes rule: random_loop.induct) (auto split: if_splits)

lemma secret_shape:
  assumes "generate_secret len bytes = Some (secret, rest)"
  shows "len \<le> length secret" "list_all visible_ascii secret"
proof -
  have "BASE62 \<noteq> []" by (simp add: BASE62_def)
  then have "set secret \<subseteq> set BASE62"
    using random_string_set [of BASE62 len "[]" bytes secret rest] assms by (simp add: generate_secret_def random_string_def)
  then show "list_all visible_ascii secret" using alphabets_ascii(2) by (auto simp: list_all_iff)
  show "len \<le> length secret" using random_loop_length assms by (auto simp: generate_secret_def random_string_def)
qed

lemma validated_prefix:
  assumes "api_key_validate cfg = Inr ()"
  shows "CHR ''_'' \<notin> set (akc_prefix cfg)" "16 \<le> akc_secret_length cfg"
proof -
  have "list_all is_ascii_alphanumeric (akc_prefix cfg)" "16 \<le> akc_secret_length cfg"
    using assms by (auto simp: api_key_validate_def split: if_splits)
  then show "CHR ''_'' \<notin> set (akc_prefix cfg)" "16 \<le> akc_secret_length cfg"
    by (auto simp: list_all_iff is_ascii_alphanumeric_def Let_def)
qed

lemma store_new_Inr:
  "api_key_store_new env cfg = Inr store \<longleftrightarrow> api_key_validate cfg = Inr () \<and> store = \<lparr>aks_backend = sqlite_backend env, aks_config = cfg\<rparr>"
  by (auto simp: api_key_store_new_def result_simps)

lemma encode_digits_zero: "encode_digits A i 0 buf = replicate i (A ! 0) @ buf"
  by (induction i arbitrary: buf) (simp_all add: replicate_app_Cons_same)

section \<open>Properties\<close>

text \<open>An environment to evaluate the theorems on: the digest is the identity, a time stamp is its length,
  and a list of one scope is its own JSON text.\<close>

definition demo_key_env :: key_env where
  "demo_key_env = \<lparr>ke_digest = id, ke_parse_rfc3339 = (\<lambda>s. Some (int (length s))), ke_format_utc = (\<lambda>t. replicate (nat t) CHR ''x''),
     ke_scopes_to_json = concat, ke_scopes_from_json = (\<lambda>s. Inr [s])\<rparr>"

definition demo_key_store :: "api_key_row db api_key_store" where
  "demo_key_store = \<lparr>aks_backend = sqlite_backend demo_key_env, aks_config = api_key_config_default\<lparr>akc_secret_length := 16\<rparr>\<rparr>"

definition demo_request :: create_key_request where
  "demo_request = \<lparr>ck_tenant_id = ''t'', ck_name = ''n'', ck_scopes = [''read''], ck_expires_at = Some ''xxxx''\<rparr>"

definition demo_id :: string where
  "demo_id = replicate 26 CHR ''0''"

lemma demo_id_ulid: "demo_id = ulid 0 []"
proof -
  have "CROCKFORD ! 0 = CHR ''0''" by (simp add: CROCKFORD_def)
  then show ?thesis by (simp add: ulid_def from_be_bytes_def encode_digits_zero demo_id_def replicate_add [symmetric])
qed

definition demo_secret :: string where
  "demo_secret = replicate 16 CHR ''0''"

definition demo_key_db :: "api_key_row db" where
  "demo_key_db = snd (create_key demo_key_env demo_key_store (demo_id) demo_secret 1 demo_request \<lparr>db_rows = [], db_faults = []\<rparr>)"

lemma demo_key_facts:
  "api_key_store_new demo_key_env (api_key_config_default\<lparr>akc_secret_length := 16\<rparr>) = Inr demo_key_store"
  "generate_secret 16 (replicate 16 0) = Some (demo_secret, [])"
  by (simp add: store_new_Inr demo_key_store_def, code_simp) code_simp

lemma demo_key_created:
  "\<exists>c. create_key demo_key_env demo_key_store (demo_id) demo_secret 1 demo_request \<lparr>db_rows = [], db_faults = []\<rparr> = (Inr c, demo_key_db) \<and>
     kc_raw_token c = format_token ''modo'' (demo_id) demo_secret"
proof -
  let ?r = "create_key demo_key_env demo_key_store (demo_id) demo_secret 1 demo_request \<lparr>db_rows = [], db_faults = []\<rparr>"
  have "case fst ?r of Inl _ \<Rightarrow> False | Inr c \<Rightarrow> kc_raw_token c = format_token ''modo'' (demo_id) demo_secret" by code_simp
  then show ?thesis unfolding demo_key_db_def by (cases ?r) (auto split: sum.splits)
qed

text \<open>C20. A key works: the token that \<^verbatim>\<open>create\<close> returns verifies, until the key expires, and gives the
  tenant, name and scopes it was made with. (The scopes must survive their JSON text, and the
  database must answer.)\<close>

theorem created_key_verifies:
  assumes "api_key_store_new env cfg = Inr store"
    "generate_secret (akc_secret_length cfg) bytes = Some (secret, rest)"
    "create_key env store (ulid ms rand) secret now req db = (Inr c, db')" "healthy db"
    "ke_scopes_from_json env (ke_scopes_to_json env (ck_scopes req)) = Inr (ck_scopes req)"
    "\<forall>e. ck_expires_at req = Some e \<longrightarrow> \<not> expires_at_passed env later e"
  shows "\<exists>m. fst (verify_key env store later (kc_raw_token c) db') = Some (Inr m) \<and>
     km_id m = ulid ms rand \<and> km_tenant_id m = ck_tenant_id req \<and> km_name m = ck_name req \<and>
     km_scopes m = ck_scopes req \<and> km_expires_at m = ck_expires_at req"
proof -
  have v: "api_key_validate cfg = Inr ()" and st: "store = \<lparr>aks_backend = sqlite_backend env, aks_config = cfg\<rparr>"
    using assms(1) by (auto simp: store_new_Inr)
  then have be: "aks_backend store = sqlite_backend env" "aks_config store = cfg" by simp_all
  obtain r where r: "kr_id r = ulid ms rand" "kr_key_hash r = hash_secret (ke_digest env) secret" "kr_tenant_id r = ck_tenant_id req"
      "kr_name r = ck_name req" "kr_scopes r = ck_scopes req" "kr_expires_at r = ck_expires_at req" "kr_last_used_at r = None"
      "kr_revoked_at r = None" "be_store (sqlite_backend env) r db = (Inr (), db')"
    and tok: "kc_raw_token c = format_token (akc_prefix cfg) (ulid ms rand) secret"
    using sqlite.create_view [OF be(1) assms(3)] be(2) by auto
  have "sqlite_stored env r = Some r"
    using assms(5) r by (simp add: sqlite_stored_def api_key_from_row_def api_key_to_row_def)
  then have view: "sqlite_view env db' (ulid ms rand) = Some r" using sqlite.store_Inr [OF r(9)] r(1) by simp
  have up: "healthy db'" using sqlite.store_up [OF assms(4), of env r] r(9) by simp
  have "secret \<noteq> []" using secret_shape(1) [OF assms(2)] validated_prefix(2) [OF v] by auto
  then have parse: "parse_token (kc_raw_token c) (akc_prefix cfg) = Some (Some \<lparr>pt_id = ulid ms rand, pt_secret = secret\<rparr>)"
    unfolding tok using validated_prefix(1) [OF v] ulid_shape [of ms rand] secret_shape(2) [OF assms(2)]
    by (intro parse_format_token ascii_boundary) (auto simp: list_all_append)
  have "fst (verify_key env store later (kc_raw_token c) db') = Some (Inr (into_meta r))"
    using sqlite.verify_complete [OF be(1) up] parse view r assms(6) be(2) by simp
  then show ?thesis using r by (simp add: into_meta_def)
qed

theorem created_key_verifies_witness:
  "\<exists>m. fst (verify_key demo_key_env demo_key_store 3 (format_token ''modo'' (demo_id) demo_secret) demo_key_db) = Some (Inr m) \<and>
     km_scopes m = [''read'']"
proof -
  obtain c where c: "create_key demo_key_env demo_key_store (demo_id) demo_secret 1 demo_request \<lparr>db_rows = [], db_faults = []\<rparr> = (Inr c, demo_key_db)"
    "kc_raw_token c = format_token ''modo'' (demo_id) demo_secret" using demo_key_created by blast
  have "akc_secret_length (api_key_config_default\<lparr>akc_secret_length := 16\<rparr>) = 16" by simp
  with created_key_verifies [OF demo_key_facts(1) _ c(1) [unfolded demo_id_ulid], of "replicate 16 0" "[]" 3] demo_key_facts(2) show ?thesis
    unfolding c(2) by (auto simp: healthy_def demo_key_env_def demo_request_def expires_at_passed_def)
qed

text \<open>C21. What the API-key middleware and the scope guard behind it let through: handling a request never
  panics, and a request that reaches the handler carries, in its header, the secret of a key of
  the table that is not revoked, not expired, and has the scope; the handler sees that key's data.\<close>

theorem api_request_admitted:
  assumes "api_key_store_new env cfg = Inr store" "api_key_call env store header now parts db = (res, touch, db')"
  shows "res \<noteq> None \<and> (\<forall>m m'. res = Some (Inr m) \<longrightarrow> require_scope_call scope (Some m) = Inr m' \<longrightarrow>
     (\<exists>raw p r. api_extract_token parts header = Inr raw \<and> parse_token raw (akc_prefix cfg) = Some (Some p) \<and>
        sqlite_view env db (pt_id p) = Some r \<and> m' = into_meta r \<and> scope \<in> set (kr_scopes r) \<and> kr_revoked_at r = None \<and>
        (\<forall>e. kr_expires_at r = Some e \<longrightarrow> \<not> expires_at_passed env now e) \<and>
        hash_secret (ke_digest env) (pt_secret p) = kr_key_hash r))"
proof -
  have be: "aks_backend store = sqlite_backend env" "aks_config store = cfg" using assms(1) by (auto simp: store_new_Inr)
  show ?thesis
  proof (cases "api_extract_token parts header")
    case (Inl e)
    then show ?thesis using assms(2) by (auto simp: api_key_call_def)
  next
    case (Inr raw)
    have "list_all visible_ascii raw"
      using Inr by (auto simp: api_extract_token_def header_to_str_def strip_prefix_def result_simps list_all_iff
          dest!: in_set_dropD split: header_source.splits if_splits)
    then have "parse_token raw (akc_prefix cfg) \<noteq> None" by (rule visible_ascii_parse)
    then have "fst (verify_key env store now raw db) \<noteq> None"
      using be(2) by (auto simp: verify_key_def split: option.splits prod.splits sum.splits)
    then have "res \<noteq> None" using assms(2) Inr by (auto simp: api_key_call_def split: prod.splits)
    moreover have "\<exists>p r. parse_token raw (akc_prefix cfg) = Some (Some p) \<and> sqlite_view env db (pt_id p) = Some r \<and>
        m = into_meta r \<and> kr_revoked_at r = None \<and> (\<forall>e. kr_expires_at r = Some e \<longrightarrow> \<not> expires_at_passed env now e) \<and>
        hash_secret (ke_digest env) (pt_secret p) = kr_key_hash r" if m: "res = Some (Inr m)" for m
    proof -
      have "verify_key env store now raw db = (Some (Inr m), touch, db')"
        using assms(2) Inr m by (auto simp: api_key_call_def result_simps split: prod.splits)
      from sqlite.verify_sound [OF be(1) this] show ?thesis using be(2) by auto
    qed
    moreover have "m' = m \<and> scope \<in> set (km_scopes m)" if "require_scope_call scope (Some m) = Inr m'" for m m'
      using that by (auto simp: require_scope_call_def split: if_splits)
    moreover have "km_scopes (into_meta r) = kr_scopes r" for r by (simp add: into_meta_def)
    ultimately show ?thesis using Inr by metis
  qed
qed

theorem api_request_admitted_witness:
  "fst (api_key_call demo_key_env demo_key_store AuthorizationHeader 3 \<lparr>p_headers = [], p_query = None\<rparr> demo_key_db) \<noteq> None"
  using api_request_admitted [OF demo_key_facts(1), of AuthorizationHeader 3 "\<lparr>p_headers = [], p_query = None\<rparr>" demo_key_db]
  by (metis prod.collapse)

text \<open>Revoking a key is final: once \<^verbatim>\<open>revoke\<close> has succeeded, no sequence of calls and background tasks
  makes a token of that key verify again, whatever its secret and whenever it is presented.\<close>

theorem revoked_key_stays_dead:
  assumes "api_key_store_new env cfg = Inr store" "revoke_key env store now k db = (Inr (), db')"
    "parse_token raw (akc_prefix cfg) = Some (Some p)" "pt_id p = k"
  shows "fst (verify_key env store later raw (fold (key_exec env store) evs db')) \<noteq> Some (Inr m)"
proof -
  have be: "aks_backend store = sqlite_backend env" "aks_config store = cfg" using assms(1) by (auto simp: store_new_Inr)
  then show ?thesis using sqlite.revoked_never_verifies [OF be(1) assms(2)] assms(3,4) by simp
qed

theorem revoked_key_stays_dead_witness:
  "\<exists>db'. revoke_key demo_key_env demo_key_store 2 (demo_id) demo_key_db = (Inr (), db') \<and>
     fst (verify_key demo_key_env demo_key_store 3 (format_token ''modo'' (demo_id) demo_secret) db') \<noteq>
       Some (Inr (into_meta undefined))"
proof -
  let ?r = "revoke_key demo_key_env demo_key_store 2 (demo_id) demo_key_db"
  have "fst ?r = Inr ()" by code_simp
  then obtain db' where r: "?r = (Inr (), db')" by (cases ?r) auto
  have "parse_token (format_token ''modo'' (demo_id) demo_secret) ''modo'' = Some (Some \<lparr>pt_id = demo_id, pt_secret = demo_secret\<rparr>)"
    by code_simp
  moreover have "akc_prefix (api_key_config_default\<lparr>akc_secret_length := 16\<rparr>) = ''modo''" by (simp add: api_key_config_default_def)
  ultimately show ?thesis
    using revoked_key_stays_dead [OF demo_key_facts(1) r, of _ _ 3 "[]"] r by fastforce
qed

text \<open>Called directly, \<^verbatim>\<open>verify\<close> panics on a token whose 26th byte after the prefix lies inside a character.\<close>

lemma verify_key_panics:
  "fst (verify_key demo_key_env demo_key_store 3 (''modo_'' @ replicate 25 CHR ''0'' @ [CHR 0xC3, CHR 0xA9]) demo_key_db) = None"
  by code_simp

end
