(* ===== verification/Client.thy ===== *)
theory Client
  imports Session_Store Http
begin

text \<open>
  \<^verbatim>\<open>src/src/client\<close>: what the framework knows of a client from its request. The functions on the user
  agent are called with header values, which are ASCII, so lower-casing is ASCII lower-casing.
\<close>

section \<open>Device\<close>

text \<open>\<^verbatim>\<open>str::contains\<close>.\<close>

fun contains :: "string \<Rightarrow> string \<Rightarrow> bool" where
  "contains p [] = (p = [])"
| "contains p (c # s) = (take (length p) (c # s) = p \<or> contains p s)"

definition parse_browser :: "string \<Rightarrow> string" where
  "parse_browser ua =
     (if contains ''OPR/'' ua \<or> contains ''Opera'' ua then ''Opera''
      else if contains ''Edg/'' ua then ''Edge''
      else if contains ''Firefox/'' ua then ''Firefox''
      else if contains ''Chromium/'' ua then ''Chromium''
      else if contains ''Chrome/'' ua then ''Chrome''
      else if contains ''Safari/'' ua then ''Safari''
      else ''Unknown'')"

definition parse_os :: "string \<Rightarrow> string" where
  "parse_os ua =
     (if contains ''iPhone'' ua then ''iPhone''
      else if contains ''iPad'' ua then ''iPad''
      else if contains ''HarmonyOS'' ua then ''HarmonyOS''
      else if contains ''Android'' ua then ''Android''
      else if contains ''CrOS'' ua then ''ChromeOS''
      else if contains ''Mac OS X'' ua \<or> contains ''Macintosh'' ua \<or> contains ''OS X'' ua then ''macOS''
      else if contains ''Windows'' ua then ''Windows''
      else if contains ''FreeBSD'' ua then ''FreeBSD''
      else if contains ''OpenBSD'' ua then ''OpenBSD''
      else if contains ''Linux'' ua then ''Linux''
      else ''Unknown'')"

definition parse_device_name :: "string \<Rightarrow> string" where
  "parse_device_name user_agent = parse_browser user_agent @ '' on '' @ parse_os user_agent"

definition parse_device_type :: "string \<Rightarrow> string" where
  "parse_device_type user_agent =
     (let ua = map to_ascii_lowercase user_agent
      in if contains ''tablet'' ua \<or> contains ''ipad'' ua then ''tablet''
         else if contains ''mobile'' ua \<or> contains ''iphone'' ua \<or> contains ''android'' ua \<and> \<not> contains ''tablet'' ua
         then ''mobile''
         else ''desktop'')"

section \<open>Fingerprint\<close>

definition compute_fingerprint :: "(u8 list \<Rightarrow> u8 list) \<Rightarrow> string \<Rightarrow> string \<Rightarrow> string \<Rightarrow> string" where
  "compute_fingerprint digest user_agent accept_language accept_encoding =
     hex_encode (digest (as_bytes user_agent @ [0] @ as_bytes accept_language @ [0] @ as_bytes accept_encoding))"

section \<open>ClientInfo\<close>

definition client_info_new :: client_info where
  "client_info_new = \<lparr>ci_ip = None, ci_user_agent = None, ci_device_name = None, ci_device_type = None, ci_fingerprint = None\<rparr>"

definition from_headers :: "(u8 list \<Rightarrow> u8 list) \<Rightarrow> string option \<Rightarrow> string \<Rightarrow> string \<Rightarrow> string \<Rightarrow> client_info" where
  "from_headers digest ip user_agent accept_language accept_encoding =
     \<lparr>ci_ip = ip, ci_user_agent = Some user_agent, ci_device_name = Some (parse_device_name user_agent),
      ci_device_type = Some (parse_device_type user_agent),
      ci_fingerprint = Some (compute_fingerprint digest user_agent accept_language accept_encoding)\<rparr>"

text \<open>\<^verbatim>\<open>client::header_str\<close>: the header as text, or nothing.\<close>

definition header_or_empty :: "parts \<Rightarrow> string \<Rightarrow> string" where
  "header_or_empty parts name = (case header_str parts name of Some v \<Rightarrow> v | None \<Rightarrow> [])"

definition client_info_from_parts :: "(u8 list \<Rightarrow> u8 list) \<Rightarrow> string option \<Rightarrow> parts \<Rightarrow> client_info" where
  "client_info_from_parts digest client_ip parts =
     (let user_agent = header_str parts ''user-agent''
      in \<lparr>ci_ip = client_ip, ci_user_agent = user_agent,
          ci_device_name = map_option parse_device_name user_agent,
          ci_device_type = map_option parse_device_type user_agent,
          ci_fingerprint = Some (compute_fingerprint digest (case user_agent of Some ua \<Rightarrow> ua | None \<Rightarrow> [])
            (header_or_empty parts ''accept-language'') (header_or_empty parts ''accept-encoding''))\<rparr>)"

section \<open>Lemmas\<close>

lemma contains_iff: "contains p s \<longleftrightarrow> (\<exists>a b. s = a @ p @ b)"
proof (induction s)
  case (Cons c s)
  have "take (length p) (c # s) = p \<longleftrightarrow> (\<exists>b. c # s = p @ b)"
    by (metis append_take_drop_id append_eq_conv_conj)
  moreover have "(\<exists>a b. c # s = a @ p @ b) \<longleftrightarrow> (\<exists>b. c # s = p @ b) \<or> (\<exists>a b. s = a @ p @ b)"
  proof
    assume "\<exists>a b. c # s = a @ p @ b"
    then obtain a b where ab: "c # s = a @ p @ b" by blast
    then show "(\<exists>b. c # s = p @ b) \<or> (\<exists>a b. s = a @ p @ b)" by (cases a) auto
  next
    assume "(\<exists>b. c # s = p @ b) \<or> (\<exists>a b. s = a @ p @ b)"
    then show "\<exists>a b. c # s = a @ p @ b" by (metis append_Cons append_Nil)
  qed
  ultimately show ?case using Cons.IH by simp
qed auto

end
