(* ===== verification/Cookie_Session.thy ===== *)
theory Cookie_Session
  imports Client
begin

text \<open>
  \<^verbatim>\<open>src/src/auth/session/cookie\<close> and \<^verbatim>\<open>src/src/cookie/key.rs\<close>: sessions in a signed cookie. The state a
  request carries (\<^verbatim>\<open>SessionState\<close>) is passed explicitly beside the database; the handler behind the
  middleware is a function on both. Signing and verifying a cookie and printing its attributes are
  the cookie crate's: parameters, in \<open>cookie_env\<close>. An instant the code reads is an argument.
\<close>

section \<open>Key and service\<close>

definition key_from_config :: "cookie_config \<Rightarrow> string result" where
  "key_from_config config =
     (if length (cc_secret config) < 64 then Inl (internal ''cookie secret must be at least 64 characters'')
      else Inr (cc_secret config))"

record cookie_service =
  css_config :: sessions_config
  css_key :: string

definition cookie_service_new :: "sessions_config \<Rightarrow> cookie_service result" where
  "cookie_service_new config =
     bind_res (map_err (\<lambda>e. internal (''cookie key: '' @ err_message e)) (key_from_config (cookie_attrs config)))
       (\<lambda>key. Inr \<lparr>css_config = config, css_key = key\<rparr>)"

definition cookie_list :: "string \<Rightarrow> int \<Rightarrow> (session_row, session list) dbm" where
  "cookie_list user_id now = db_bind (list_for_user user_id now) (\<lambda>raws. db_lift (Inr (map session_from raws)))"

definition cookie_not_found :: error where
  "cookie_not_found = with_code ''auth:session_not_found'' (not_found ''session not found'')"

definition cookie_revoke :: "string \<Rightarrow> string \<Rightarrow> (session_row, unit) dbm" where
  "cookie_revoke user_id sid =
     db_bind (read sid) (\<lambda>found.
     db_bind (db_lift (ok_or cookie_not_found found)) (\<lambda>row.
     if sd_user_id row \<noteq> user_id then db_lift (Inl cookie_not_found) else destroy sid))"

definition cookie_revoke_all :: "string \<Rightarrow> (session_row, unit) dbm" where
  "cookie_revoke_all user_id = destroy_all_for_user user_id"

definition cookie_revoke_all_except :: "string \<Rightarrow> string \<Rightarrow> (session_row, unit) dbm" where
  "cookie_revoke_all_except user_id keep_id = destroy_all_except user_id keep_id"

definition cookie_cleanup_expired :: "int \<Rightarrow> (session_row, nat) dbm" where
  "cookie_cleanup_expired now = cleanup_expired now"

section \<open>CookieSession\<close>

datatype session_action = ActNone | ActSet session_token | ActRemove

record session_state =
  ss_info :: client_info
  ss_current :: "session_data option"
  ss_dirty :: bool
  ss_action :: session_action

definition cookie_session_from_parts :: "session_state option \<Rightarrow> session_state result" where
  "cookie_session_from_parts ext =
     ok_or (with_code ''auth:middleware_missing'' (internal ''CookieSession requires CookieSessionLayer'')) ext"

definition cs_current :: "session_state \<Rightarrow> session option" where
  "cs_current s = map_option session_from (ss_current s)"

definition cs_is_authenticated :: "session_state \<Rightarrow> bool" where
  "cs_is_authenticated s \<longleftrightarrow> ss_current s \<noteq> None"

definition cs_user_id :: "session_state \<Rightarrow> string option" where
  "cs_user_id s = map_option sd_user_id (ss_current s)"

text \<open>\<open>from_value\<close> and \<open>to_value\<close> are the value's serde code, with the text of its error.\<close>

definition cs_get :: "(json \<Rightarrow> string + 'a) \<Rightarrow> string \<Rightarrow> session_state \<Rightarrow> 'a option result" where
  "cs_get from_value key s =
     (case ss_current s of
        None \<Rightarrow> Inr None
      | Some d \<Rightarrow>
          (case json_get (sd_data d) key of
             Some v \<Rightarrow>
               bind_res (map_err (\<lambda>e. internal (''deserialize session key '' @ [CHR 0x27] @ key @ [CHR 0x27] @ '': '' @ e)) (from_value v))
                 (\<lambda>x. Inr (Some x))
           | None \<Rightarrow> Inr None))"

definition cs_set :: "('a \<Rightarrow> string + json) \<Rightarrow> string \<Rightarrow> 'a \<Rightarrow> session_state \<Rightarrow> unit result \<times> session_state" where
  "cs_set to_value key value s =
     (case ss_current s of
        None \<Rightarrow> (Inr (), s)
      | Some d \<Rightarrow>
          (case sd_data d of
             JObject entries \<Rightarrow>
               (case to_value value of
                  Inl e \<Rightarrow> (Inl (internal (''serialize session value: '' @ e)), s)
                | Inr v \<Rightarrow>
                    (Inr (), s\<lparr>ss_current := Some (d\<lparr>sd_data := JObject (entries_insert key v entries)\<rparr>), ss_dirty := True\<rparr>))
           | _ \<Rightarrow> (Inr (), s)))"

definition cs_remove_key :: "string \<Rightarrow> session_state \<Rightarrow> session_state" where
  "cs_remove_key key s =
     (case ss_current s of
        None \<Rightarrow> s
      | Some d \<Rightarrow>
          (case sd_data d of
             JObject entries \<Rightarrow>
               if map_of entries key \<noteq> None
               then s\<lparr>ss_current := Some (d\<lparr>sd_data := JObject (filter (\<lambda>e. fst e \<noteq> key) entries)\<rparr>), ss_dirty := True\<rparr>
               else s
           | _ \<Rightarrow> s))"

text \<open>The operations that write to the database at once. An error (\<^verbatim>\<open>?\<close>) leaves the request's state alone.\<close>

type_synonym 'a cs_op = "session_state \<Rightarrow> session_db \<Rightarrow> 'a result \<times> session_state \<times> session_db"

definition destroy_current :: "session_state \<Rightarrow> (session_row, unit) dbm" where
  "destroy_current s = (case ss_current s of Some d \<Rightarrow> destroy (sd_id d) | None \<Rightarrow> db_lift (Inr ()))"

definition authenticate_with ::
  "(u8 list \<Rightarrow> u8 list) \<Rightarrow> cookie_service \<Rightarrow> string \<Rightarrow> session_token \<Rightarrow> int \<Rightarrow> string \<Rightarrow> json \<Rightarrow> unit cs_op" where
  "authenticate_with digest svc new_id new_token now user_id data s db =
     (case db_bind (destroy_current s) (\<lambda>_. create digest (css_config svc) new_id new_token now (ss_info s) user_id (Some data)) db of
        (Inl e, db') \<Rightarrow> (Inl e, s, db')
      | (Inr (session_data, token), db') \<Rightarrow>
          (Inr (), s\<lparr>ss_current := Some session_data, ss_action := ActSet token, ss_dirty := False\<rparr>, db'))"

definition cs_authenticate ::
  "(u8 list \<Rightarrow> u8 list) \<Rightarrow> cookie_service \<Rightarrow> string \<Rightarrow> session_token \<Rightarrow> int \<Rightarrow> string \<Rightarrow> unit cs_op" where
  "cs_authenticate digest svc new_id new_token now user_id =
     authenticate_with digest svc new_id new_token now user_id (JObject [])"

definition cs_rotate ::
  "(u8 list \<Rightarrow> u8 list) \<Rightarrow> cookie_service \<Rightarrow> session_token \<Rightarrow> int \<Rightarrow> int \<Rightarrow> unit cs_op" where
  "cs_rotate digest svc new_token t now s db =
     (case ss_current s of
        None \<Rightarrow> (Inl (from_http_error Unauthorized), s, db)
      | Some d \<Rightarrow>
          (case db_bind (rotate_token digest (sd_id d) new_token t) (\<lambda>token.
                db_bind (touch (sd_id d) now (now + seconds (session_ttl_secs (css_config svc)))) (\<lambda>_. db_lift (Inr token))) db of
             (Inl e, db') \<Rightarrow> (Inl e, s, db')
           | (Inr token, db') \<Rightarrow> (Inr (), s\<lparr>ss_action := ActSet token\<rparr>, db')))"

definition cs_logout :: "unit cs_op" where
  "cs_logout s db =
     (case destroy_current s db of
        (Inl e, db') \<Rightarrow> (Inl e, s, db')
      | (Inr _, db') \<Rightarrow> (Inr (), s\<lparr>ss_action := ActRemove, ss_current := None\<rparr>, db'))"

definition cs_logout_all :: "unit cs_op" where
  "cs_logout_all s db =
     (case (case ss_current s of Some d \<Rightarrow> destroy_all_for_user (sd_user_id d) | None \<Rightarrow> db_lift (Inr ())) db of
        (Inl e, db') \<Rightarrow> (Inl e, s, db')
      | (Inr _, db') \<Rightarrow> (Inr (), s\<lparr>ss_action := ActRemove, ss_current := None\<rparr>, db'))"

text \<open>The operations that need a session: its data, or 401.\<close>

definition cs_require :: "session_state \<Rightarrow> session_data result" where
  "cs_require s = ok_or (from_http_error Unauthorized) (ss_current s)"

definition cs_logout_other :: "session_state \<Rightarrow> (session_row, unit) dbm" where
  "cs_logout_other s = db_bind (db_lift (cs_require s)) (\<lambda>d. destroy_all_except (sd_user_id d) (sd_id d))"

definition cs_list_my_sessions :: "int \<Rightarrow> session_state \<Rightarrow> (session_row, session list) dbm" where
  "cs_list_my_sessions now s = db_bind (db_lift (cs_require s)) (\<lambda>d. cookie_list (sd_user_id d) now)"

definition cs_revoke :: "string \<Rightarrow> session_state \<Rightarrow> (session_row, unit) dbm" where
  "cs_revoke sid s =
     db_bind (db_lift (cs_require s)) (\<lambda>d.
     db_bind (read sid) (\<lambda>found.
     db_bind (db_lift (ok_or (from_http_error NotFound) found)) (\<lambda>target.
     if sd_user_id target \<noteq> sd_user_id d then db_lift (Inl (from_http_error NotFound)) else destroy sid)))"

section \<open>The cookie\<close>

datatype same_site = SameStrict | SameLax | SameNone

record set_cookie =
  sc_name :: string
  sc_value :: string
  sc_path :: string
  sc_secure :: bool
  sc_http_only :: bool
  sc_same_site :: same_site
  sc_max_age :: int

record cookie_env =
  cke_digest :: "u8 list \<Rightarrow> u8 list"
  cke_sign :: "string \<Rightarrow> string \<Rightarrow> string \<Rightarrow> string"
  cke_verify :: "string \<Rightarrow> string \<Rightarrow> string \<Rightarrow> string option"
  cke_render :: "set_cookie \<Rightarrow> string"

fun find_signed_cookie :: "cookie_env \<Rightarrow> string \<Rightarrow> string \<Rightarrow> string list \<Rightarrow> session_token option" where
  "find_signed_cookie env name key [] = None"
| "find_signed_cookie env name key (pair # pairs) =
     (case split_once CHR ''='' (trim pair) of
        Some (n, value) \<Rightarrow>
          if trim n = name
          then Option.bind (cke_verify env key name (trim value)) (\<lambda>verified.
                 case from_hex verified of Inr t \<Rightarrow> Some t | Inl _ \<Rightarrow> None)
          else find_signed_cookie env name key pairs
      | None \<Rightarrow> find_signed_cookie env name key pairs)"

definition read_signed_cookie :: "cookie_env \<Rightarrow> parts \<Rightarrow> string \<Rightarrow> string \<Rightarrow> session_token option" where
  "read_signed_cookie env parts name key =
     Option.bind (header_str parts ''cookie'') (\<lambda>h. find_signed_cookie env name key (split_on CHR '';'' h))"

definition same_site_of :: "string \<Rightarrow> same_site" where
  "same_site_of s = (if s = ''strict'' then SameStrict else if s = ''none'' then SameNone else SameLax)"

text \<open>\<open>hs\<close> are the response's \<^verbatim>\<open>Set-Cookie\<close> headers; a text that is not a header value is dropped.\<close>

definition set_signed_cookie ::
  "cookie_env \<Rightarrow> string \<Rightarrow> string \<Rightarrow> nat \<Rightarrow> cookie_config \<Rightarrow> string \<Rightarrow> string list \<Rightarrow> string list" where
  "set_signed_cookie env name value max_age_secs config key hs =
     (let signed_value = cke_sign env key name value;
          text = cke_render env
            \<lparr>sc_name = name, sc_value = signed_value, sc_path = ''/'', sc_secure = cc_secure config,
             sc_http_only = cc_http_only config, sc_same_site = same_site_of (cc_same_site config),
             sc_max_age = u64_as_i64 max_age_secs\<rparr>
      in if list_all header_value_byte text then hs @ [text] else hs)"

definition remove_signed_cookie :: "cookie_env \<Rightarrow> string \<Rightarrow> cookie_config \<Rightarrow> string \<Rightarrow> string list \<Rightarrow> string list" where
  "remove_signed_cookie env name config key hs = set_signed_cookie env name [] 0 config key hs"

section \<open>The middleware\<close>

text \<open>Before the handler: the client, the cookie's token, the session it stands for, and whether
  reading it failed. A session with another fingerprint is destroyed.\<close>

definition request_client :: "cookie_env \<Rightarrow> string option \<Rightarrow> string option \<Rightarrow> parts \<Rightarrow> client_info" where
  "request_client env client_ip peer_ip parts =
     (let ip = (case client_ip of Some c \<Rightarrow> c | None \<Rightarrow> (case peer_ip of Some p \<Rightarrow> p | None \<Rightarrow> ''unknown''))
      in from_headers (cke_digest env) (Some ip) (header_or_empty parts ''user-agent'')
           (header_or_empty parts ''accept-language'') (header_or_empty parts ''accept-encoding''))"

definition load_session ::
  "cookie_env \<Rightarrow> cookie_service \<Rightarrow> client_info \<Rightarrow> session_token option \<Rightarrow> int \<Rightarrow> session_db \<Rightarrow>
   session_data option \<times> bool \<times> session_db" where
  "load_session env svc info session_token now db =
     (let (found, read_failed, db1) =
            (case session_token of
               Some token \<Rightarrow>
                 (case read_by_token (cke_digest env) token now db of
                    (Inr session, db') \<Rightarrow> (session, False, db')
                  | (Inl e, db') \<Rightarrow> (None, True, db'))
             | None \<Rightarrow> (None, False, db))
      in case found of
           Some session \<Rightarrow>
             if validate_fingerprint (css_config svc) \<and> ci_fingerprint info \<noteq> Some (sd_fingerprint session)
             then (None, read_failed, snd (destroy (sd_id session) db1))
             else (Some session, read_failed, db1)
         | None \<Rightarrow> (None, read_failed, db1))"

definition needs_touch :: "cookie_service \<Rightarrow> int \<Rightarrow> session_data option \<Rightarrow> bool" where
  "needs_touch svc now current =
     (case current of
        Some s \<Rightarrow> seconds (touch_interval_secs (css_config svc)) \<le> now - sd_last_active_at s
      | None \<Rightarrow> False)"

text \<open>After the handler.\<close>

definition finish_session ::
  "cookie_env \<Rightarrow> cookie_service \<Rightarrow> session_token option \<Rightarrow> session_data option \<Rightarrow> bool \<Rightarrow> bool \<Rightarrow> int \<Rightarrow>
   session_state \<Rightarrow> string list \<Rightarrow> session_db \<Rightarrow> string list \<times> session_db" where
  "finish_session env svc session_token current_session read_failed touch_due now s hs db =
     (let config = css_config svc; name = cookie_name config; key = css_key svc;
          attrs = cookie_attrs config; ttl_secs = session_ttl_secs config;
          put = (\<lambda>t hs. set_signed_cookie env name (as_hex t) ttl_secs attrs key hs)
      in case ss_action s of
           ActSet token \<Rightarrow> (put token hs, db)
         | ActRemove \<Rightarrow> (remove_signed_cookie env name attrs key hs, db)
         | ActNone \<Rightarrow>
             (case current_session of
                Some session \<Rightarrow>
                  let new_expires = now + seconds ttl_secs;
                      db' = (if ss_dirty s
                             then (case ss_current s of
                                     Some d \<Rightarrow> snd (flush (sd_id session) (sd_data d) now new_expires db)
                                   | None \<Rightarrow> db)
                             else if touch_due then snd (touch (sd_id session) now new_expires db)
                             else db);
                      hs' = (if ss_dirty s \<or> touch_due
                             then (case session_token of Some token \<Rightarrow> put token hs | None \<Rightarrow> hs)
                             else hs)
                  in (hs', db')
              | None \<Rightarrow>
                  if session_token \<noteq> None \<and> \<not> read_failed
                  then (remove_signed_cookie env name attrs key hs, db) else (hs, db)))"

text \<open>The handler gets the \<^verbatim>\<open>Session\<close> extension and the request's state; \<open>t1\<close>, \<open>t2\<close> and \<open>t3\<close> are the instants
  of the read, of the touch check and of the write-back.\<close>

definition cookie_call ::
  "cookie_env \<Rightarrow> cookie_service \<Rightarrow>
   (session option \<Rightarrow> session_state \<Rightarrow> session_db \<Rightarrow> ('e + 'b \<times> string list) \<times> session_state \<times> session_db) \<Rightarrow>
   int \<Rightarrow> int \<Rightarrow> int \<Rightarrow> string option \<Rightarrow> string option \<Rightarrow> parts \<Rightarrow> session_db \<Rightarrow> ('e + 'b \<times> string list) \<times> session_db" where
  "cookie_call env svc handler t1 t2 t3 client_ip peer_ip parts db =
     (let info = request_client env client_ip peer_ip parts;
          session_token = read_signed_cookie env parts (cookie_name (css_config svc)) (css_key svc);
          (current, read_failed, db1) = load_session env svc info session_token t1 db;
          touch_due = needs_touch svc t2 current;
          s = \<lparr>ss_info = info, ss_current = current, ss_dirty = False, ss_action = ActNone\<rparr>
      in case handler (map_option session_from current) s db1 of
           (Inl e, s', db2) \<Rightarrow> (Inl e, db2)
         | (Inr (body, hs), s', db2) \<Rightarrow>
             (case finish_session env svc session_token current read_failed touch_due t3 s' hs db2 of
                (hs', db3) \<Rightarrow> (Inr (body, hs'), db3)))"


section \<open>Reading the cookie back\<close>

definition cookie_text :: "string \<Rightarrow> bool" where
  "cookie_text s \<longleftrightarrow> list_all (\<lambda>c. visible_ascii c \<and> \<not> is_whitespace c \<and> c \<noteq> CHR '';'') s"

lemma dropWhile_none: "(\<And>c. c \<in> set s \<Longrightarrow> \<not> P c) \<Longrightarrow> dropWhile P s = s"
  by (cases s) auto

lemma trim_cookie_text: "cookie_text s \<Longrightarrow> trim s = s"
proof -
  assume "cookie_text s"
  then have "\<not> is_whitespace c" if "c \<in> set s" for c using that by (simp add: cookie_text_def list_all_iff)
  then have "dropWhile is_whitespace s = s" "dropWhile is_whitespace (rev s) = rev s"
    using dropWhile_none [of s is_whitespace] dropWhile_none [of "rev s" is_whitespace] by simp_all
  then show ?thesis by (simp add: trim_def trim_start_def trim_end_def)
qed

lemma split_on_single: "c \<notin> set s \<Longrightarrow> split_on c s = [s]"
  by (simp add: split_on.simps split_once_None [THEN iffD2])

lemma read_signed_cookie_pair:
  assumes "cookie_text name" "CHR ''='' \<notin> set name" "cookie_text v" "cke_verify env key name v = Some (as_hex t)" "wf_token t"
  shows "read_signed_cookie env \<lparr>p_headers = [(''cookie'', name @ ''='' @ v)], p_query = q\<rparr> name key = Some t"
proof -
  let ?h = "name @ ''='' @ v"
  have h: "cookie_text ?h" using assms(1,3) by (simp add: cookie_text_def visible_ascii_def is_whitespace_def)
  then have "list_all visible_ascii ?h" "CHR '';'' \<notin> set ?h" by (auto simp: cookie_text_def list_all_iff)
  moreover have "map to_ascii_lowercase ''cookie'' = ''cookie''" by code_simp
  ultimately show ?thesis
    using trim_cookie_text [OF h] trim_cookie_text [OF assms(1)] trim_cookie_text [OF assms(3)] assms(2,4) from_hex_as_hex [OF assms(5)]
    by (simp add: read_signed_cookie_def header_str_def header_get_def header_to_str_def split_on_single)
qed

lemma find_signed_cookie_Some:
  "find_signed_cookie env name key h = Some t \<Longrightarrow> \<exists>v x. cke_verify env key name v = Some x \<and> from_hex x = Inr t"
proof (induction env name key h rule: find_signed_cookie.induct)
  case (2 env name key pair pairs)
  have "(case from_hex x of Inr t \<Rightarrow> Some t | Inl _ \<Rightarrow> None) = Some t \<Longrightarrow> from_hex x = Inr t" for x
    by (cases "from_hex x") simp_all
  with 2 show ?case by (fastforce simp: bind_eq_Some_conv split: option.splits if_splits)
qed simp

section \<open>What the operations leave in the table\<close>

lemma destroy_current_Inr:
  "destroy_current s db = (Inr u, db') \<Longrightarrow>
   db_rows db' = (case ss_current s of Some d \<Rightarrow> filter (\<lambda>r. row_id r \<noteq> sd_id d) (db_rows db) | None \<Rightarrow> db_rows db)"
  by (auto simp: destroy_current_def destroy_def db_bind_eq_Inr dest!: db_execute_Inr split: option.splits)

lemma row_id_data: "row_to_session_data r = Inr d \<Longrightarrow> row_id r = sd_id d \<and> row_user_id r = sd_user_id d \<and> row_fingerprint r = sd_fingerprint d"
  by (auto simp: row_to_session_data_def split: option.splits)

text \<open>Without its row a token hash is gone.\<close>

lemma hash_gone:
  assumes "store_inv rows" "r \<in> set rows" "row_id r = sid"
  shows "row_token_hash r \<notin> row_token_hash ` set (filter (\<lambda>q. row_id q \<noteq> sid) rows)"
  using assms by (auto simp: store_inv_def distinct_map inj_on_def)

lemma lookup_gone: "h \<notin> row_token_hash ` set rows \<Longrightarrow> lookup_hash h now rows = None"
  by (auto simp: lookup_hash_None)

lemma load_session_Some:
  assumes "store_inv (db_rows db)" "load_session env svc info tok now db = (Some d, rf, db')"
  shows "\<exists>t r. tok = Some t \<and> r \<in> set (db_rows db) \<and> row_token_hash r = token_hash (cke_digest env) t \<and> now < row_expires_at r \<and>
     row_to_session_data r = Inr d \<and> db_rows db' = db_rows db \<and>
     (validate_fingerprint (css_config svc) \<longrightarrow> ci_fingerprint info = Some (row_fingerprint r))"
proof -
  obtain t where t: "tok = Some t" using assms(2) by (cases tok) (auto simp: load_session_def)
  obtain res db1 where rd: "read_by_token_hash (token_hash (cke_digest env) t) now db = (res, db1)" by fastforce
  obtain found where f: "res = Inr (Some d)" "db' = db1" "found = d"
    "\<not> (validate_fingerprint (css_config svc) \<and> ci_fingerprint info \<noteq> Some (sd_fingerprint d))"
    using assms(2) t rd by (auto simp: load_session_def read_by_token_eq split: sum.splits option.splits if_splits)
  from read_by_token_hash_Inr [OF rd [unfolded f(1)]] obtain r where
    "lookup_hash (token_hash (cke_digest env) t) now (db_rows db) = Some r" "row_to_session_data r = Inr d" "db_rows db1 = db_rows db"
    by (auto split: option.splits)
  then show ?thesis using lookup_hash_Some [OF assms(1)] t f row_id_data [of r d] by auto
qed

lemma load_session_None:
  "token_hash (cke_digest env) t \<notin> table_hashes db \<Longrightarrow> fst (load_session env svc info (Some t) now db) = None"
proof -
  assume h: "token_hash (cke_digest env) t \<notin> table_hashes db"
  obtain res db1 where rd: "read_by_token_hash (token_hash (cke_digest env) t) now db = (res, db1)" by fastforce
  have "res = Inr x \<Longrightarrow> x = None" for x
    using read_by_token_hash_Inr [of "token_hash (cke_digest env) t" now db x db1] rd lookup_gone h by (simp add: table_hashes_def)
  then show ?thesis using rd by (cases res) (simp_all add: load_session_def read_by_token_eq)
qed

lemma load_session_healthy:
  assumes "healthy db" "lookup_hash (token_hash (cke_digest env) t) now (db_rows db) = Some r" "row_to_session_data r = Inr d"
    "validate_fingerprint (css_config svc) \<longrightarrow> ci_fingerprint info = Some (row_fingerprint r)"
  shows "fst (load_session env svc info (Some t) now db) = Some d"
  using assms row_id_data [OF assms(3)]
  by (simp add: load_session_def read_by_token_eq read_by_token_hash_healthy)

lemma authenticate_with_Inr:
  assumes "authenticate_with dg svc i t now u data s db = (Inr x, s', db')"
  shows "\<exists>db1 sd. destroy_current s db = (Inr (), db1) \<and>
     create dg (css_config svc) i t now (ss_info s) u (Some data) db1 = (Inr (sd, t), db') \<and>
     s' = s\<lparr>ss_current := Some sd, ss_action := ActSet t, ss_dirty := False\<rparr>"
proof -
  obtain sd tok where b: "db_bind (destroy_current s) (\<lambda>_. create dg (css_config svc) i t now (ss_info s) u (Some data)) db = (Inr (sd, tok), db')"
    "s' = s\<lparr>ss_current := Some sd, ss_action := ActSet tok, ss_dirty := False\<rparr>"
    using assms by (auto simp: authenticate_with_def split: prod.splits sum.splits)
  then obtain db1 where d: "destroy_current s db = (Inr (), db1)"
    "create dg (css_config svc) i t now (ss_info s) u (Some data) db1 = (Inr (sd, tok), db')"
    by (auto simp: db_bind_eq_Inr)
  then have "tok = t" using create_Inr by blast
  then show ?thesis using b d by blast
qed

lemma create_set: "create dg cfg i t now info u d db = (Inr (sd, tok), db') \<Longrightarrow>
   set (db_rows db') \<subseteq> insert (new_session_row dg cfg i t now info u d) (set (db_rows db))"
proof -
  assume c: "create dg cfg i t now info u d db = (Inr (sd, tok), db')"
  obtain p where "db_rows db' = filter p (db_rows db @ [new_session_row dg cfg i t now info u d])"
    using create_Inr [OF c] trim_excess_Inr by blast
  then show ?thesis by auto
qed

text \<open>A successful login takes the session the request came with out of the table.\<close>

lemma authenticate_drops_old:
  assumes "authenticate_with dg svc i t now u data s db = (Inr x, s', db')" "store_inv (db_rows db)"
    "ss_current s = Some d" "r \<in> set (db_rows db)" "row_id r = sd_id d" "row_token_hash r \<noteq> token_hash dg t"
  shows "row_token_hash r \<notin> table_hashes db'"
proof -
  obtain db1 sd where 1: "destroy_current s db = (Inr (), db1)"
    "create dg (css_config svc) i t now (ss_info s) u (Some data) db1 = (Inr (sd, t), db')"
    using authenticate_with_Inr [OF assms(1)] by blast
  have "db_rows db1 = filter (\<lambda>q. row_id q \<noteq> sd_id d) (db_rows db)"
    using destroy_current_Inr [OF 1(1)] assms(3) by simp
  then have "row_token_hash r \<notin> row_token_hash ` set (db_rows db1)"
    using hash_gone [OF assms(2,4,5)] by simp
  then show ?thesis using create_set [OF 1(2)] assms(6) by (auto simp: table_hashes_def new_session_row_def)
qed

section \<open>Properties\<close>

text \<open>A service and a request for the witnesses. The cookie crate of the witnesses signs by prefixing the key.\<close>

definition demo_cookies :: cookie_env where
  "demo_cookies =
     \<lparr>cke_digest = id, cke_sign = (\<lambda>key name value. key @ value),
      cke_verify = (\<lambda>key name value. if take (length key) value = key then Some (drop (length key) value) else None),
      cke_render = (\<lambda>c. sc_name c @ ''='' @ sc_value c)\<rparr>"

definition demo_service :: cookie_service where
  "demo_service = \<lparr>css_config = demo_config, css_key = ''k''\<rparr>"

definition demo_state :: session_state where
  "demo_state = \<lparr>ss_info = demo_client, ss_current = Some demo_session, ss_dirty = False, ss_action = ActNone\<rparr>"

definition demo_token :: session_token where
  "demo_token = SessionToken (replicate 32 7)"

text \<open>Whom the middleware lets in.\<close>

lemma cookie_admits:
  assumes "store_inv (db_rows db)"
    "load_session env svc info (read_signed_cookie env parts (cookie_name (css_config svc)) (css_key svc)) now db = (Some d, rf, db')"
  shows "\<exists>v x t r. cke_verify env (css_key svc) (cookie_name (css_config svc)) v = Some x \<and> from_hex x = Inr t \<and>
     r \<in> set (db_rows db) \<and> row_token_hash r = token_hash (cke_digest env) t \<and> now < row_expires_at r \<and>
     row_to_session_data r = Inr d \<and>
     (validate_fingerprint (css_config svc) \<longrightarrow> ci_fingerprint info = Some (row_fingerprint r))"
proof -
  obtain t r where t: "read_signed_cookie env parts (cookie_name (css_config svc)) (css_key svc) = Some t"
    and r: "r \<in> set (db_rows db)" "row_token_hash r = token_hash (cke_digest env) t" "now < row_expires_at r"
    "row_to_session_data r = Inr d" "validate_fingerprint (css_config svc) \<longrightarrow> ci_fingerprint info = Some (row_fingerprint r)"
    using load_session_Some [OF assms] by blast
  from t obtain h where "find_signed_cookie env (cookie_name (css_config svc)) (css_key svc) h = Some t"
    by (auto simp: read_signed_cookie_def bind_eq_Some_conv)
  from find_signed_cookie_Some [OF this] show ?thesis using r by blast
qed

definition demo_cookie :: parts where
  "demo_cookie = \<lparr>p_headers = [(''cookie'', ''_session='' @ ''k'' @ as_hex demo_token)], p_query = None\<rparr>"

definition demo_login_db :: session_db where
  "demo_login_db = snd (snd (authenticate_with id demo_service ''s2'' demo_token 20 ''u'' (JObject []) demo_state demo_db1))"



text \<open>Logging out is final: after a successful \<^verbatim>\<open>logout\<close> the response removes the cookie, the request has
  no session any more, and a later request that still presents the old token is not
  authenticated, whatever store operations came in between, unless one of them issued a token
  with the same hash.\<close>

theorem cookie_logout_final:
  assumes "cs_logout s db = (Inr (), s', db')" "store_inv (db_rows db)"
    "ss_current s = Some d" "r \<in> set (db_rows db)" "row_id r = sd_id d" "row_token_hash r = token_hash (cke_digest env) t"
    "\<And>op. op \<in> set ops \<Longrightarrow> token_hash (cke_digest env) t \<notin> issued_hashes (cke_digest env) op"
  shows "ss_action s' = ActRemove \<and> ss_current s' = None \<and>
     fst (load_session env svc info (Some t) later (fold (store_exec (cke_digest env) cfg) ops db')) = None"
proof -
  have d: "destroy_current s db = (Inr (), db')" "s' = s\<lparr>ss_action := ActRemove, ss_current := None\<rparr>"
    using assms(1) by (auto simp: cs_logout_def split: prod.splits sum.splits)
  have "token_hash (cke_digest env) t \<notin> table_hashes db'"
    using destroy_current_Inr [OF d(1)] assms(3) hash_gone [OF assms(2,4,5)] assms(6) by (simp add: table_hashes_def)
  then have "token_hash (cke_digest env) t \<notin> table_hashes (fold (store_exec (cke_digest env) cfg) ops db')"
    using assms(7) by (rule sessions.stays_revoked)
  from load_session_None [OF this] d(2) show ?thesis by simp
qed

theorem cookie_logout_final_witness:
  "fst (load_session demo_cookies demo_service demo_client (Some (SessionToken [2])) 40
     (fold (store_exec (cke_digest demo_cookies) demo_config) [CleanupOp 5] (snd (snd (cs_logout demo_state demo_db1))))) = None"
proof -
  let ?l = "cs_logout demo_state demo_db1"
  have a: "fst ?l = Inr ()" by code_simp
  have h: "?l = (Inr (), fst (snd ?l), snd (snd ?l))" using a by (metis prod.collapse)
  have f: "ss_current demo_state = Some demo_session" "demo_new \<in> set (db_rows demo_db1)" "row_id demo_new = sd_id demo_session"
    "row_token_hash demo_new = token_hash (cke_digest demo_cookies) (SessionToken [2])" by code_simp+
  have "token_hash (cke_digest demo_cookies) (SessionToken [2]) \<notin> issued_hashes (cke_digest demo_cookies) op"
    if "op \<in> set [CleanupOp 5]" for op using that by simp
  from cookie_logout_final [OF h demo_invs(2) f this] show ?thesis by blast
qed

section \<open>Data set in a request that also rotates the token\<close>

text \<open>The write-back of the request's data is in the \<^verbatim>\<open>None\<close> branch of the middleware's match on the action:
  data set in a request whose handler also rotates the token is not written, on any path.\<close>

lemma rotate_drops_data:
  "ss_action s = ActSet t \<Longrightarrow> snd (finish_session env svc tok cur rf td now s hs db) = db"
  by (simp add: finish_session_def Let_def)

lemma set_then_rotate:
  assumes "cs_set to_value key value s = (Inr (), s1)" "cs_rotate dg svc t t1 t2 s1 db = (Inr (), s2, db')"
  shows "finish_session env svc tok cur rf td now s2 hs db' = (set_signed_cookie env (cookie_name (css_config svc)) (as_hex t)
           (session_ttl_secs (css_config svc)) (cookie_attrs (css_config svc)) (css_key svc) hs, db') \<and>
         map row_data (db_rows db') = map row_data (db_rows db)"
proof -
  obtain d where d: "ss_current s1 = Some d" using assms(2) by (cases "ss_current s1") (simp_all add: cs_rotate_def)
  have rot: "\<exists>db1 u. rotate_token dg (sd_id d) t t1 db = (Inr t, db1) \<and>
      touch (sd_id d) t2 (t2 + seconds (session_ttl_secs (css_config svc))) db1 = (Inr u, db') \<and> ss_action s2 = ActSet t"
    using assms(2) d by (auto simp: cs_rotate_def db_bind_eq_Inr split: prod.splits sum.splits dest: rotate_Inr(2))
  then obtain db1 u where 1: "rotate_token dg (sd_id d) t t1 db = (Inr t, db1)"
     "touch (sd_id d) t2 (t2 + seconds (session_ttl_secs (css_config svc))) db1 = (Inr u, db')" "ss_action s2 = ActSet t" by blast
  have "map row_data (db_rows db1) = map row_data (db_rows db)"
    using rotate_Inr(2) [OF 1(1)] by (simp add: rotated_rows_def)
  moreover have "map row_data (db_rows db') = map row_data (db_rows db1)"
    using 1(2) by (auto simp: touch_def db_bind_eq_Inr sql_update_Inr dest!: db_execute_Inr)
  ultimately show ?thesis using 1(3) by (simp add: finish_session_def Let_def)
qed

end
