(* ===== verification/Text.thy ===== *)
theory Text
  imports Http
begin

text \<open>
  More of Rust's string methods, on UTF-8 bytes: \<^verbatim>\<open>trim\<close> on any text (the one of \<^verbatim>\<open>Http\<close> is for header
  values, which are ASCII), \<^verbatim>\<open>rfind\<close>, \<^verbatim>\<open>starts_with\<close>, \<^verbatim>\<open>ends_with\<close>, decimal numbers; and the port stripping that
  \<^verbatim>\<open>src/src/server/host_router.rs\<close> and \<^verbatim>\<open>src/src/tenant/strategy.rs\<close> share.
\<close>

section \<open>Trimming\<close>

text \<open>The UTF-8 encodings of the characters with the property \<^verbatim>\<open>White_Space\<close>. UTF-8 is
  self-synchronising, so a suffix that is such an encoding is the last character.\<close>

definition ws_chars :: "string list" where
  "ws_chars =
     map (\<lambda>c. [c]) [CHR 0x09, CHR 0x0A, CHR 0x0B, CHR 0x0C, CHR 0x0D, CHR 0x20] @
     [[CHR 0xC2, CHR 0x85], [CHR 0xC2, CHR 0xA0], [CHR 0xE1, CHR 0x9A, CHR 0x80],
      [CHR 0xE2, CHR 0x80, CHR 0xA8], [CHR 0xE2, CHR 0x80, CHR 0xA9], [CHR 0xE2, CHR 0x80, CHR 0xAF],
      [CHR 0xE2, CHR 0x81, CHR 0x9F], [CHR 0xE3, CHR 0x80, CHR 0x80]] @
     map (\<lambda>c. [CHR 0xE2, CHR 0x80, c])
       [CHR 0x80, CHR 0x81, CHR 0x82, CHR 0x83, CHR 0x84, CHR 0x85, CHR 0x86, CHR 0x87, CHR 0x88, CHR 0x89, CHR 0x8A]"

text \<open>The length of the character of \<open>ws\<close> the text starts with.\<close>

definition ws_length :: "string list \<Rightarrow> string \<Rightarrow> nat option" where
  "ws_length ws s = map_option length (find (\<lambda>w. take (length w) s = w \<and> w \<noteq> []) ws)"

lemma ws_length_pos: "ws_length ws s = Some n \<Longrightarrow> 0 < n \<and> n \<le> length s"
proof -
  assume "ws_length ws s = Some n"
  then obtain w where "n = length w" "take (length w) s = w" "w \<noteq> []"
    by (auto simp: ws_length_def find_Some_iff)
  then show ?thesis by (metis length_greater_0_conv length_take min.cobounded1)
qed

function skip_ws :: "string list \<Rightarrow> string \<Rightarrow> string" where
  "skip_ws ws s = (case ws_length ws s of Some n \<Rightarrow> skip_ws ws (drop n s) | None \<Rightarrow> s)"
  by pat_completeness auto
termination
  by (relation "measure (length \<circ> snd)") (auto dest: ws_length_pos)

declare skip_ws.simps [simp del]

definition str_trim :: "string \<Rightarrow> string" where
  "str_trim s = rev (skip_ws (map rev ws_chars) (rev (skip_ws ws_chars s)))"

section \<open>Searching\<close>

definition starts_with :: "string \<Rightarrow> string \<Rightarrow> bool" where
  "starts_with p s \<longleftrightarrow> take (length p) s = p"

definition ends_with :: "string \<Rightarrow> string \<Rightarrow> bool" where
  "ends_with p s \<longleftrightarrow> length p \<le> length s \<and> drop (length s - length p) s = p"

text \<open>The texts before and after the last \<open>c\<close> (\<^verbatim>\<open>rfind\<close>).\<close>

definition rsplit_once :: "char \<Rightarrow> string \<Rightarrow> (string \<times> string) option" where
  "rsplit_once c s = map_option (\<lambda>(a, b). (rev b, rev a)) (split_once c (rev s))"

definition is_ascii_digit :: "char \<Rightarrow> bool" where
  "is_ascii_digit c \<longleftrightarrow> (let n = of_char c :: nat in 48 \<le> n \<and> n \<le> 57)"

definition is_ascii_alphanumeric :: "char \<Rightarrow> bool" where
  "is_ascii_alphanumeric c \<longleftrightarrow>
     (let n = of_char c :: nat in 48 \<le> n \<and> n \<le> 57 \<or> 65 \<le> n \<and> n \<le> 90 \<or> 97 \<le> n \<and> n \<le> 122)"

definition strip_port :: "string \<Rightarrow> string" where
  "strip_port host =
     (case rsplit_once CHR '':'' host of
        Some (before, after) \<Rightarrow> if list_all is_ascii_digit after then before else host
      | None \<Rightarrow> host)"

section \<open>Decimal numbers\<close>

fun nat_dec :: "nat \<Rightarrow> string" where
  "nat_dec n = (if n < 10 then [char_of (48 + n)] else nat_dec (n div 10) @ [char_of (48 + n mod 10)])"

declare nat_dec.simps [simp del]

section \<open>Lemmas\<close>

lemma rsplit_once_Some: "rsplit_once c s = Some (a, b) \<longleftrightarrow> s = a @ c # b \<and> c \<notin> set b"
proof -
  have "rsplit_once c s = Some (a, b) \<longleftrightarrow> split_once c (rev s) = Some (rev b, rev a)"
    by (auto simp: rsplit_once_def)
  also have "\<dots> \<longleftrightarrow> rev s = rev b @ c # rev a \<and> c \<notin> set b" by (simp add: split_once_Some)
  also have "\<dots> \<longleftrightarrow> s = a @ c # b \<and> c \<notin> set b" by (metis append.assoc append_Cons append_Nil rev.simps(2) rev_append rev_rev_ident)
  finally show ?thesis .
qed

lemma rsplit_once_None: "rsplit_once c s = None \<longleftrightarrow> c \<notin> set s"
  by (simp add: rsplit_once_def split_once_None)

lemma strip_port_plain: "CHR '':'' \<notin> set h \<Longrightarrow> strip_port h = h"
  by (simp add: strip_port_def rsplit_once_None [THEN iffD2])

lemma strip_port_port:
  assumes "list_all is_ascii_digit p"
  shows "strip_port (h @ CHR '':'' # p) = h"
proof -
  have "CHR '':'' \<notin> set p" using assms by (auto simp: list_all_iff is_ascii_digit_def)
  then have "rsplit_once CHR '':'' (h @ CHR '':'' # p) = Some (h, p)" by (simp add: rsplit_once_Some)
  then show ?thesis using assms by (simp add: strip_port_def)
qed

lemma ends_with_append [simp]: "ends_with p (s @ p)"
  by (simp add: ends_with_def)

lemma ends_with_iff: "ends_with p s \<longleftrightarrow> (\<exists>t. s = t @ p)"
  by (metis append_take_drop_id ends_with_append ends_with_def)

lemma starts_with_iff: "starts_with p s \<longleftrightarrow> (\<exists>t. s = p @ t)"
  by (metis append_eq_conv_conj starts_with_def)

lemma strip_prefix_iff: "strip_prefix p s = Some t \<longleftrightarrow> s = p @ t" "strip_prefix p s = None \<longleftrightarrow> \<not> starts_with p s"
  by (auto simp: strip_prefix_def starts_with_def) (metis append_take_drop_id)

lemma skip_ws_none:
  assumes "\<And>w. w \<in> set ws \<Longrightarrow> w \<noteq> [] \<Longrightarrow> hd w \<notin> set s"
  shows "skip_ws ws s = s"
proof -
  have "\<not> (take (length w) s = w \<and> w \<noteq> [])" if "w \<in> set ws" for w
  proof
    assume *: "take (length w) s = w \<and> w \<noteq> []"
    then have "hd w \<in> set s" by (metis hd_in_set in_set_takeD)
    with assms that * show False by blast
  qed
  then have "find (\<lambda>w. take (length w) s = w \<and> w \<noteq> []) ws = None" unfolding find_None_iff by blast
  then show ?thesis by (simp add: skip_ws.simps [of ws s] ws_length_def)
qed

definition ws_byte :: "char \<Rightarrow> bool" where
  "ws_byte c \<longleftrightarrow> (\<exists>w \<in> set ws_chars. c \<in> set w)"

lemma str_trim_none: "(\<And>c. c \<in> set s \<Longrightarrow> \<not> ws_byte c) \<Longrightarrow> str_trim s = s"
proof -
  assume no: "\<And>c. c \<in> set s \<Longrightarrow> \<not> ws_byte c"
  then have "hd w \<notin> set s" if "w \<in> set ws_chars" "w \<noteq> []" for w
    using that hd_in_set [of w] no [of "hd w"] unfolding ws_byte_def by blast
  then have "skip_ws ws_chars s = s" by (rule skip_ws_none)
  moreover have "hd w \<notin> set (rev s)" if "w \<in> set (map rev ws_chars)" "w \<noteq> []" for w
    using that hd_in_set [of w] no [of "hd w"] unfolding ws_byte_def by (metis imageE list.set_map set_rev)
  then have "skip_ws (map rev ws_chars) (rev s) = rev s" by (rule skip_ws_none)
  ultimately show ?thesis by (simp add: str_trim_def)
qed

text \<open>The bytes of names: neither white space nor part of a white-space character.\<close>

lemma ws_byte_range: "ws_byte c \<Longrightarrow> (of_char c :: nat) \<le> 32 \<or> 128 \<le> (of_char c :: nat)"
  by (auto simp: ws_byte_def ws_chars_def)

lemma alphanumeric_range: "is_ascii_alphanumeric c \<Longrightarrow> 48 \<le> (of_char c :: nat) \<and> (of_char c :: nat) \<le> 122"
  by (auto simp: is_ascii_alphanumeric_def Let_def)

lemma split_on_pieces: "x \<in> set (split_on c s) \<Longrightarrow> c \<notin> set x \<and> set x \<subseteq> set s"
proof (induction c s rule: split_on.induct)
  case (1 c s)
  show ?case
  proof (cases "split_once c s")
    case None
    with 1 show ?thesis by (simp add: split_on.simps [of c s] split_once_None)
  next
    case (Some pr)
    obtain p r where pr: "pr = (p, r)" by (cases pr)
    with 1 Some show ?thesis by (fastforce simp: split_on.simps [of c s] split_once_Some)
  qed
qed

lemma split_on_cover: "x \<in> set s \<Longrightarrow> x \<noteq> c \<Longrightarrow> \<exists>p \<in> set (split_on c s). x \<in> set p"
proof (induction c s rule: split_on.induct)
  case (1 c s)
  show ?case
  proof (cases "split_once c s")
    case None
    with 1 show ?thesis by (simp add: split_on.simps [of c s])
  next
    case (Some pr)
    obtain p r where pr: "pr = (p, r)" by (cases pr)
    have "s = p @ c # r" using Some pr by (simp add: split_once_Some)
    moreover have "split_on c s = p # split_on c r" using Some pr by (simp add: split_on.simps [of c s])
    ultimately show ?thesis using 1 Some pr by auto
  qed
qed

lemma split_on_two: "c \<in> set s \<Longrightarrow> 2 \<le> length (split_on c s)"
proof -
  assume "c \<in> set s"
  then obtain p r where "split_once c s = Some (p, r)" using split_once_None [of c s] by fastforce
  then have "split_on c s = p # split_on c r" by (simp add: split_on.simps [of c s])
  moreover have "split_on c r \<noteq> []" by (simp add: split_on.simps [of c r] split: option.split)
  ultimately show ?thesis by (cases "split_on c r") simp_all
qed

section \<open>Parsing integers\<close>

fun dec_value :: "nat \<Rightarrow> string \<Rightarrow> nat option" where
  "dec_value acc [] = Some acc"
| "dec_value acc (c # cs) =
     (if is_ascii_digit c then dec_value (10 * acc + (of_char c - 48)) cs else None)"

definition int_dec :: "int \<Rightarrow> string" where
  "int_dec i = (if i < 0 then ''-'' @ nat_dec (nat (- i)) else nat_dec (nat i))"

text \<open>\<^verbatim>\<open>str::parse::<i64>()\<close>: a sign, at least one digit, and a value in range.\<close>

definition parse_i64 :: "string \<Rightarrow> int option" where
  "parse_i64 s =
     (let in_range = (\<lambda>i. if - (2 ^ 63) \<le> i \<and> i < 2 ^ 63 then Some i else None);
          digits = (\<lambda>ds. if ds = [] then None else dec_value 0 ds)
      in case s of
           [] \<Rightarrow> None
         | c # cs \<Rightarrow>
             if c = CHR ''-'' then Option.bind (digits cs) (\<lambda>n. in_range (- int n))
             else if c = CHR ''+'' then Option.bind (digits cs) (\<lambda>n. in_range (int n))
             else Option.bind (digits s) (\<lambda>n. in_range (int n)))"

lemma dec_value_append: "dec_value acc (s @ t) = Option.bind (dec_value acc s) (\<lambda>a. dec_value a t)"
  by (induction s arbitrary: acc) auto

lemma digit_char: "(d :: nat) < 10 \<Longrightarrow> is_ascii_digit (char_of (48 + d)) \<and> of_char (char_of (48 + d) :: char) = 48 + d"
  by (simp add: is_ascii_digit_def)

lemma nat_dec_digits: "nat_dec n \<noteq> [] \<and> list_all is_ascii_digit (nat_dec n)"
proof (induction n rule: nat_dec.induct)
  case (1 n)
  show ?case
  proof (cases "n < 10")
    case True
    then show ?thesis using digit_char [of n] by (simp add: nat_dec.simps [of n])
  next
    case False
    with 1 digit_char [of "n mod 10"] show ?thesis by (simp add: nat_dec.simps [of n])
  qed
qed

lemma dec_value_nat_dec: "dec_value 0 (nat_dec n) = Some n"
proof (induction n rule: nat_dec.induct)
  case (1 n)
  show ?case
  proof (cases "n < 10")
    case True
    then show ?thesis using digit_char [of n] by (simp add: nat_dec.simps [of n])
  next
    case False
    with 1 digit_char [of "n mod 10"] show ?thesis by (simp add: nat_dec.simps [of n] dec_value_append)
  qed
qed

lemma parse_int_dec:
  assumes "- (2 ^ 63) \<le> i" "i < 2 ^ 63"
  shows "parse_i64 (int_dec i) = Some i"
proof (cases "i < 0")
  case True
  then show ?thesis
    using assms nat_dec_digits [of "nat (- i)"] dec_value_nat_dec [of "nat (- i)"] by (simp add: parse_i64_def int_dec_def)
next
  case False
  obtain c cs where c: "nat_dec (nat i) = c # cs" "is_ascii_digit c"
    using nat_dec_digits [of "nat i"] by (cases "nat_dec (nat i)") auto
  then have "c \<noteq> CHR ''-''" "c \<noteq> CHR ''+''" by (auto simp: is_ascii_digit_def)
  then show ?thesis
    using False assms c(1) dec_value_nat_dec [of "nat i"] by (simp add: parse_i64_def int_dec_def)
qed

text \<open>Arithmetic on \<^verbatim>\<open>i64\<close> values wraps around in release builds; division truncates.\<close>

definition i64_wrap :: "int \<Rightarrow> int" where
  "i64_wrap i = (i + 2 ^ 63) mod 2 ^ 64 - 2 ^ 63"

definition i64_div :: "int \<Rightarrow> int \<Rightarrow> int" where
  "i64_div a b = sgn a * sgn b * (\<bar>a\<bar> div \<bar>b\<bar>)"

lemma i64_wrap_in: "- (2 ^ 63) \<le> i \<Longrightarrow> i < 2 ^ 63 \<Longrightarrow> i64_wrap i = i"
  by (simp add: i64_wrap_def)

section \<open>Joining\<close>

text \<open>\<^verbatim>\<open>join\<close> of a slice of strings.\<close>

fun join_with :: "string \<Rightarrow> string list \<Rightarrow> string" where
  "join_with sep [] = []"
| "join_with sep [s] = s"
| "join_with sep (s # t # ss) = s @ sep @ join_with sep (t # ss)"

lemma split_on_join: "ss \<noteq> [] \<Longrightarrow> list_all (\<lambda>s. c \<notin> set s) ss \<Longrightarrow> split_on c (join_with [c] ss) = ss"
proof (induction "[c]" ss rule: join_with.induct)
  case (2 s)
  then show ?case by (simp add: split_on.simps [of c s] split_once_None [THEN iffD2])
next
  case (3 s t ss)
  then have "split_once c (s @ c # join_with [c] (t # ss)) = Some (s, join_with [c] (t # ss))" by simp
  then show ?case using 3 by (simp add: split_on.simps [of c "s @ c # join_with [c] (t # ss)"])
qed simp

lemma list_all_join: "list_all P sep \<Longrightarrow> list_all (list_all P) ss \<Longrightarrow> list_all P (join_with sep ss)"
  by (induction sep ss rule: join_with.induct) auto

section \<open>More parsing\<close>

text \<open>\<^verbatim>\<open>str::parse::<usize>()\<close> and \<^verbatim>\<open>strip_suffix\<close>.\<close>

definition parse_usize :: "string \<Rightarrow> nat option" where
  "parse_usize s =
     (let ds = (case s of [] \<Rightarrow> [] | c # cs \<Rightarrow> if c = CHR ''+'' then cs else s)
      in if ds = [] then None else Option.bind (dec_value 0 ds) (\<lambda>n. if n < 2 ^ 64 then Some n else None))"

definition strip_suffix :: "string \<Rightarrow> string \<Rightarrow> string option" where
  "strip_suffix p s = (if ends_with p s then Some (take (length s - length p) s) else None)"

text \<open>\<^verbatim>\<open>split_once(p)\<close> with a string.\<close>

fun split_str :: "string \<Rightarrow> string \<Rightarrow> (string \<times> string) option" where
  "split_str p [] = (if p = [] then Some ([], []) else None)"
| "split_str p (c # s) =
     (if starts_with p (c # s) then Some ([], drop (length p) (c # s)) else map_option (\<lambda>(a, b). (c # a, b)) (split_str p s))"

lemma parse_usize_nat_dec: "n < 2 ^ 64 \<Longrightarrow> parse_usize (nat_dec n) = Some n"
proof -
  obtain c cs where c: "nat_dec n = c # cs" "is_ascii_digit c" using nat_dec_digits [of n] by (cases "nat_dec n") auto
  then have "c \<noteq> CHR ''+''" by (auto simp: is_ascii_digit_def)
  then show "n < 2 ^ 64 \<Longrightarrow> parse_usize (nat_dec n) = Some n" using dec_value_nat_dec [of n] unfolding parse_usize_def c(1) by simp
qed

lemma strip_suffix_append [simp]: "strip_suffix p (s @ p) = Some s"
  by (simp add: strip_suffix_def)

lemma strip_suffix_None: "\<not> ends_with p s \<Longrightarrow> strip_suffix p s = None"
  by (simp add: strip_suffix_def)

end
