(* ===== verification/Guards.thy ===== *)
theory Guards
  imports Cookie_Session Text
begin

text \<open>
  Layers that let a request through or answer it: the route guards (\<^verbatim>\<open>src/src/auth/guard.rs\<close>), the role
  middleware (\<^verbatim>\<open>src/src/auth/role\<close>) and the subscription tiers (\<^verbatim>\<open>src/src/tier\<close>), and their composition with the
  cookie session layer. A service is a function on the request and a state; the extensions the
  guards look at are fields of the request. The guard for API key scopes is with the API keys.
\<close>

section \<open>Services\<close>

datatype feature_access = Toggle bool | Limit nat

record tier_info =
  ti_name :: string
  ti_features :: "string \<rightharpoonup> feature_access"

record request =
  rq_parts :: parts
  rq_session :: "session option"
  rq_role :: "string option"
  rq_tier :: "tier_info option"

text \<open>An error response, a bare response with a status and headers, or the handler's answer.\<close>

datatype 'b reply = ErrorReply error_response | PlainReply nat "(string \<times> string) list" | Handled 'b

type_synonym ('st, 'b) service = "request \<Rightarrow> 'st \<Rightarrow> 'b reply \<times> 'st"

section \<open>Route guards\<close>

definition redirect_response :: "string \<Rightarrow> parts \<Rightarrow> 'b reply" where
  "redirect_response path parts =
     (if header_str parts ''hx-request'' = Some ''true'' then PlainReply 200 [(''hx-redirect'', path)]
      else PlainReply 303 [(''location'', path)])"

definition require_role_call :: "string list \<Rightarrow> ('st, 'b) service \<Rightarrow> ('st, 'b) service" where
  "require_role_call roles inner rq st =
     (case rq_role rq of
        None \<Rightarrow> (ErrorReply (into_response (unauthorized ''authentication required'')), st)
      | Some role \<Rightarrow>
          if \<not> list_ex (\<lambda>allowed. allowed = role) roles
          then (ErrorReply (into_response (forbidden ''insufficient role'')), st)
          else inner rq st)"

text \<open>The layer's constructor panics (\<^const>\<open>None\<close>) on a path that is not a header value.\<close>

definition redirect_layer :: "string \<Rightarrow> string option" where
  "redirect_layer redirect_to = (if list_all header_value_byte redirect_to then Some redirect_to else None)"

definition require_authenticated_call :: "string \<Rightarrow> ('st, 'b) service \<Rightarrow> ('st, 'b) service" where
  "require_authenticated_call redirect_to inner rq st =
     (if rq_session rq = None then (redirect_response redirect_to (rq_parts rq), st) else inner rq st)"

definition require_unauthenticated_call :: "string \<Rightarrow> ('st, 'b) service \<Rightarrow> ('st, 'b) service" where
  "require_unauthenticated_call redirect_to inner rq st =
     (if rq_session rq \<noteq> None then (redirect_response redirect_to (rq_parts rq), st) else inner rq st)"

section \<open>Roles\<close>

text \<open>\<open>extract\<close> is the application's \<^verbatim>\<open>RoleExtractor\<close>; it may change the request.\<close>

definition role_call ::
  "(request \<Rightarrow> 'st \<Rightarrow> string result \<times> request \<times> 'st) \<Rightarrow> ('st, 'b) service \<Rightarrow> ('st, 'b) service" where
  "role_call extract inner rq st =
     (case extract rq st of
        (Inl e, rq', st') \<Rightarrow> (ErrorReply (into_response e), st')
      | (Inr role, rq', st') \<Rightarrow> inner (rq'\<lparr>rq_role := Some role\<rparr>) st')"

definition role_from_parts :: "request \<Rightarrow> string result" where
  "role_from_parts rq = ok_or (internal ''role middleware not applied'') (rq_role rq)"

section \<open>Tiers\<close>

definition has_feature :: "tier_info \<Rightarrow> string \<Rightarrow> bool" where
  "has_feature t name =
     (case ti_features t name of Some (Toggle v) \<Rightarrow> v | Some (Limit v) \<Rightarrow> 0 < v | None \<Rightarrow> False)"

definition tier_is_enabled :: "tier_info \<Rightarrow> string \<Rightarrow> bool" where
  "tier_is_enabled t name \<longleftrightarrow> ti_features t name = Some (Toggle True)"

definition tier_limit :: "tier_info \<Rightarrow> string \<Rightarrow> nat option" where
  "tier_limit t name = (case ti_features t name of Some (Limit v) \<Rightarrow> Some v | _ \<Rightarrow> None)"

definition not_on_plan :: "string \<Rightarrow> error" where
  "not_on_plan name = forbidden (''Feature '' @ [CHR 0x27] @ name @ [CHR 0x27] @ '' is not available on your current plan'')"

definition limit_exceeded :: "string \<Rightarrow> nat \<Rightarrow> nat \<Rightarrow> error" where
  "limit_exceeded name current ceiling =
     forbidden (''Limit exceeded for '' @ [CHR 0x27] @ name @ [CHR 0x27] @ '': '' @ nat_dec current @ ''/'' @ nat_dec ceiling)"

definition limit_ceiling :: "tier_info \<Rightarrow> string \<Rightarrow> nat result" where
  "limit_ceiling t name =
     (case ti_features t name of
        Some (Limit v) \<Rightarrow> Inr v
      | Some (Toggle _) \<Rightarrow> Inl (internal (''Feature '' @ [CHR 0x27] @ name @ [CHR 0x27] @ '' is not a limit''))
      | None \<Rightarrow> Inl (not_on_plan name))"

definition check_limit :: "tier_info \<Rightarrow> string \<Rightarrow> nat \<Rightarrow> unit result" where
  "check_limit t name current =
     bind_res (limit_ceiling t name) (\<lambda>ceiling.
     if ceiling \<le> current then Inl (limit_exceeded name current ceiling) else Inr ())"

definition require_feature_call :: "string \<Rightarrow> ('st, 'b) service \<Rightarrow> ('st, 'b) service" where
  "require_feature_call name inner rq st =
     (case rq_tier rq of
        None \<Rightarrow> (ErrorReply (into_response (internal ''require_feature() called without TierLayer'')), st)
      | Some tier \<Rightarrow>
          if \<not> has_feature tier name then (ErrorReply (into_response (not_on_plan name)), st)
          else inner rq st)"

definition require_limit_call ::
  "string \<Rightarrow> (request \<Rightarrow> 'st \<Rightarrow> nat result \<times> 'st) \<Rightarrow> ('st, 'b) service \<Rightarrow> ('st, 'b) service" where
  "require_limit_call name usage inner rq st =
     (case rq_tier rq of
        None \<Rightarrow> (ErrorReply (into_response (internal ''require_limit() called without TierLayer'')), st)
      | Some tier \<Rightarrow>
          (case limit_ceiling tier name of
             Inl e \<Rightarrow> (ErrorReply (into_response e), st)
           | Inr ceiling \<Rightarrow>
               if ceiling = 0 then (ErrorReply (into_response (not_on_plan name)), st)
               else (case usage rq st of
                       (Inl e, st') \<Rightarrow> (ErrorReply (into_response e), st')
                     | (Inr current, st') \<Rightarrow>
                         if ceiling \<le> current then (ErrorReply (into_response (limit_exceeded name current ceiling)), st')
                         else inner rq st')))"

text \<open>\<open>owner\<close> and \<open>resolve\<close> are the application's owner extractor and \<^verbatim>\<open>TierBackend\<close>.\<close>

definition tier_call ::
  "(request \<Rightarrow> string option) \<Rightarrow> (string \<Rightarrow> 'st \<Rightarrow> tier_info result \<times> 'st) \<Rightarrow> tier_info option \<Rightarrow>
   ('st, 'b) service \<Rightarrow> ('st, 'b) service" where
  "tier_call owner resolve default_tier inner rq st =
     (case owner rq of
        Some owner_id \<Rightarrow>
          (case resolve owner_id st of
             (Inl e, st') \<Rightarrow> (ErrorReply (into_response e), st')
           | (Inr info, st') \<Rightarrow> inner (rq\<lparr>rq_tier := Some info\<rparr>) st')
      | None \<Rightarrow>
          (case default_tier of
             Some info \<Rightarrow> inner (rq\<lparr>rq_tier := Some info\<rparr>) st
           | None \<Rightarrow> inner rq st))"

definition tier_from_parts :: "request \<Rightarrow> tier_info result" where
  "tier_from_parts rq = ok_or (internal ''Tier middleware not applied'') (rq_tier rq)"

section \<open>What reaches the handler\<close>

text \<open>A guard is transparent or final: it calls the inner service on some request and state that its
  condition holds of, or it answers without a handler's result.\<close>

lemma require_role_Handled:
  "require_role_call roles inner rq st = (Handled b, st') \<Longrightarrow>
     \<exists>role \<in> set roles. rq_role rq = Some role \<and> inner rq st = (Handled b, st')"
  by (auto simp: require_role_call_def list_ex_iff split: option.splits if_splits)

lemma require_authenticated_Handled:
  "require_authenticated_call p inner rq st = (Handled b, st') \<Longrightarrow>
     rq_session rq \<noteq> None \<and> inner rq st = (Handled b, st')"
  by (auto simp: require_authenticated_call_def redirect_response_def split: if_splits)

lemma role_Handled:
  "role_call extract inner rq st = (Handled b, st') \<Longrightarrow>
     \<exists>role rq1 st1. extract rq st = (Inr role, rq1, st1) \<and> inner (rq1\<lparr>rq_role := Some role\<rparr>) st1 = (Handled b, st')"
  by (auto simp: role_call_def split: prod.splits sum.splits)

lemma require_limit_Handled:
  assumes "require_limit_call name usage inner rq st = (Handled b, st')"
  shows "\<exists>tier n current st1. rq_tier rq = Some tier \<and> ti_features tier name = Some (Limit n) \<and>
     usage rq st = (Inr current, st1) \<and> current < n \<and> inner rq st1 = (Handled b, st')"
proof -
  obtain tier where t: "rq_tier rq = Some tier"
    using assms by (auto simp: require_limit_call_def split: option.splits)
  obtain n where n: "limit_ceiling tier name = Inr n"
    using assms t by (auto simp: require_limit_call_def split: sum.splits)
  then have f: "ti_features tier name = Some (Limit n)"
    by (auto simp: limit_ceiling_def split: option.splits feature_access.splits)
  show ?thesis
    using assms t n f by (auto simp: require_limit_call_def split: prod.splits sum.splits if_splits)
qed

lemma tier_Handled:
  assumes "tier_call owner resolve dflt inner rq st = (Handled b, st')"
  shows "\<exists>tier st1. inner (rq\<lparr>rq_tier := tier\<rparr>) st1 = (Handled b, st') \<and>
     (case owner rq of
        Some o_id \<Rightarrow> \<exists>info. tier = Some info \<and> resolve o_id st = (Inr info, st1)
      | None \<Rightarrow> st1 = st \<and> (tier = dflt \<or> dflt = None \<and> tier = rq_tier rq))"
  using assms by (auto simp: tier_call_def split: option.splits prod.splits sum.splits) (metis request.update_convs(4) request.surjective)+

text \<open>A stack of guards as the handler behind the cookie session layer. The answer's own cookies are \<open>cookies\<close>.\<close>

definition behind_cookies ::
  "('b reply \<Rightarrow> string list) \<Rightarrow> parts \<Rightarrow> (session_state \<times> session_db, 'b) service \<Rightarrow>
   session option \<Rightarrow> session_state \<Rightarrow> session_db \<Rightarrow> ('e + 'b reply \<times> string list) \<times> session_state \<times> session_db" where
  "behind_cookies cookies parts service ext s db =
     (case service \<lparr>rq_parts = parts, rq_session = ext, rq_role = None, rq_tier = None\<rparr> (s, db) of
        (reply, s', db') \<Rightarrow> (Inr (reply, cookies reply), s', db'))"

lemma cookie_call_behind:
  assumes "cookie_call env svc (behind_cookies cookies parts service) t1 t2 t3 cip pip parts db = (Inr (reply, hs), db')"
  shows "\<exists>cur rf db1 s' db2. load_session env svc (request_client env cip pip parts)
       (read_signed_cookie env parts (cookie_name (css_config svc)) (css_key svc)) t1 db = (cur, rf, db1) \<and>
     service \<lparr>rq_parts = parts, rq_session = map_option session_from cur, rq_role = None, rq_tier = None\<rparr>
       (\<lparr>ss_info = request_client env cip pip parts, ss_current = cur, ss_dirty = False, ss_action = ActNone\<rparr>, db1) = (reply, s', db2)"
  using assms by (auto simp: cookie_call_def behind_cookies_def Let_def split: prod.splits sum.splits)

section \<open>Properties\<close>


definition demo_extract :: "request \<Rightarrow> session_state \<times> session_db \<Rightarrow> string result \<times> request \<times> session_state \<times> session_db" where
  "demo_extract rq st = (Inr ''admin'', rq, st)"

definition demo_handler :: "(session_state \<times> session_db, nat) service" where
  "demo_handler rq st = (Handled 7, st)"

definition demo_open_service :: cookie_service where
  "demo_open_service = \<lparr>css_config = demo_config\<lparr>validate_fingerprint := False\<rparr>, css_key = ''k''\<rparr>"


text \<open>Plan limits hold: behind the tier layer and \<^verbatim>\<open>require_limit\<close>, the handler answers only when the tier (the
  one the backend resolves for the request's owner or, without an owner, the default) gives
  the feature as a limit and the usage reported for the request is strictly below it.\<close>

theorem plan_limit_enforced:
  assumes "tier_call owner resolve dflt (require_limit_call name usage handler) rq st = (Handled b, st')" "rq_tier rq = None"
  shows "\<exists>tier n current st1 st2. ti_features tier name = Some (Limit n) \<and> current < n \<and>
     usage (rq\<lparr>rq_tier := Some tier\<rparr>) st1 = (Inr current, st2) \<and> handler (rq\<lparr>rq_tier := Some tier\<rparr>) st2 = (Handled b, st') \<and>
     (case owner rq of Some i \<Rightarrow> resolve i st = (Inr tier, st1) | None \<Rightarrow> dflt = Some tier \<and> st1 = st)"
proof -
  obtain tier st1 where t: "require_limit_call name usage handler (rq\<lparr>rq_tier := tier\<rparr>) st1 = (Handled b, st')"
    "case owner rq of Some o_id \<Rightarrow> \<exists>info. tier = Some info \<and> resolve o_id st = (Inr info, st1)
      | None \<Rightarrow> st1 = st \<and> (tier = dflt \<or> dflt = None \<and> tier = rq_tier rq)"
    using tier_Handled [OF assms(1)] by blast
  obtain info n current st2 where "tier = Some info" "ti_features info name = Some (Limit n)"
     "usage (rq\<lparr>rq_tier := tier\<rparr>) st1 = (Inr current, st2)" "current < n" "handler (rq\<lparr>rq_tier := tier\<rparr>) st2 = (Handled b, st')"
    using require_limit_Handled [OF t(1)] by auto
  with t(2) assms(2) show ?thesis by (auto split: option.splits)
qed

theorem plan_limit_enforced_witness:
  "\<exists>(tier :: tier_info) n current. ti_features tier ''seats'' = Some (Limit n) \<and> current < n"
proof -
  let ?tier = "\<lparr>ti_name = ''pro'', ti_features = [''seats'' \<mapsto> Limit 3]\<rparr>"
  let ?rq = "\<lparr>rq_parts = \<lparr>p_headers = [], p_query = None\<rparr>, rq_session = None, rq_role = None, rq_tier = None\<rparr>"
  have "tier_call (\<lambda>_. Some ''o'') (\<lambda>i st. (Inr ?tier, st)) None
      (require_limit_call ''seats'' (\<lambda>_ st. (Inr 2, st)) (\<lambda>_ st. (Handled st, st))) ?rq (5 :: nat) = (Handled 5, 5)"
    by (simp add: tier_call_def require_limit_call_def limit_ceiling_def)
  note limit = plan_limit_enforced [OF this request.select_convs(4)]
  show ?thesis by (rule limit [THEN exE]) blast
qed

end
