(* ===== verification/Hosts.thy ===== *)
theory Hosts
  imports Text Errors
begin

text \<open>
  Routing by host name (\<^verbatim>\<open>src/src/server/host_router.rs\<close>), the client's address (\<^verbatim>\<open>src/src/ip\<close>) and the tenant a
  request belongs to (\<^verbatim>\<open>src/src/tenant\<close>, without its domain service). A router and the service behind a
  middleware are values of any type. \<open>lower\<close> is \<^verbatim>\<open>str::to_lowercase\<close> on text that need not be ASCII; a
  header value is ASCII, and there it is \<^const>\<open>to_ascii_lowercase\<close>. A \<^verbatim>\<open>panic\<close> is \<^const>\<open>None\<close>.
\<close>

section \<open>HostRouter\<close>

record 'r host_router =
  hr_exact :: "string \<rightharpoonup> 'r"
  hr_wildcard :: "string \<rightharpoonup> string \<times> 'r"
  hr_fallback :: "'r option"

datatype 'r host_match = MExact 'r | MWildcard 'r string string | MFallback 'r | MNotFound

definition host_router_new :: "'r host_router" where
  "host_router_new = \<lparr>hr_exact = Map.empty, hr_wildcard = Map.empty, hr_fallback = None\<rparr>"

definition host_router_host :: "(string \<Rightarrow> string) \<Rightarrow> string \<Rightarrow> 'r \<Rightarrow> 'r host_router \<Rightarrow> 'r host_router option" where
  "host_router_host lower pat router hr =
     (let p = lower (strip_port (str_trim pat))
      in case strip_prefix ''*.'' p of
           Some suffix \<Rightarrow>
             if suffix = [] then None
             else if CHR ''.'' \<notin> set suffix then None
             else if hr_wildcard hr suffix \<noteq> None then None
             else Some (hr\<lparr>hr_wildcard := (hr_wildcard hr)(suffix \<mapsto> (''*.'' @ suffix, router))\<rparr>)
         | None \<Rightarrow>
             if p = [] then None
             else if starts_with ''*'' p then None
             else if hr_exact hr p \<noteq> None then None
             else Some (hr\<lparr>hr_exact := (hr_exact hr)(p \<mapsto> router)\<rparr>))"

definition host_router_fallback :: "'r \<Rightarrow> 'r host_router \<Rightarrow> 'r host_router" where
  "host_router_fallback router hr = hr\<lparr>hr_fallback := Some router\<rparr>"

definition match_host :: "'r host_router \<Rightarrow> string \<Rightarrow> 'r host_match" where
  "match_host hr host =
     (let rest = (case hr_fallback hr of Some router \<Rightarrow> MFallback router | None \<Rightarrow> MNotFound)
      in case hr_exact hr host of
           Some router \<Rightarrow> MExact router
         | None \<Rightarrow>
             (case split_once CHR ''.'' host of
                Some (subdomain, suffix) \<Rightarrow>
                  (case hr_wildcard hr suffix of
                     Some (pat, router) \<Rightarrow> MWildcard router subdomain pat
                   | None \<Rightarrow> rest)
              | None \<Rightarrow> rest))"

text \<open>The first non-empty \<^verbatim>\<open>host=\<close> directive of a list of directives.\<close>

fun forwarded_host :: "string list \<Rightarrow> string option" where
  "forwarded_host [] = None"
| "forwarded_host (d # ds) =
     (let directive = trim d; host = trim (drop 5 directive)
      in if 5 \<le> length directive \<and> eq_ignore_ascii_case (take 5 directive) ''host='' \<and> host \<noteq> []
         then Some host else forwarded_host ds)"

definition nonempty_header :: "parts \<Rightarrow> string \<Rightarrow> string option" where
  "nonempty_header parts name =
     (case header_str parts name of
        Some v \<Rightarrow> if trim v = [] then None else Some (trim v)
      | None \<Rightarrow> None)"

definition resolve_host :: "parts \<Rightarrow> string result" where
  "resolve_host parts =
     (let fwd = (case header_str parts ''forwarded'' of
            Some f \<Rightarrow> forwarded_host (split_on CHR '';'' (hd (split_on CHR '','' f)))
          | None \<Rightarrow> None);
          found = (case fwd of Some h \<Rightarrow> Some h
            | None \<Rightarrow> (case nonempty_header parts ''x-forwarded-host'' of Some h \<Rightarrow> Some h
            | None \<Rightarrow> nonempty_header parts ''host''))
      in case found of
           Some h \<Rightarrow> Inr (map to_ascii_lowercase (strip_port h))
         | None \<Rightarrow> Inl (bad_request ''missing or invalid Host header''))"

text \<open>The router that gets the request, with the \<^verbatim>\<open>MatchedHost\<close> put into its extensions, or the answer.\<close>

record matched_host =
  mh_subdomain :: string
  mh_pattern :: string

definition host_router_call :: "'r host_router \<Rightarrow> parts \<Rightarrow> error_response + 'r \<times> matched_host option" where
  "host_router_call hr parts =
     (case resolve_host parts of
        Inl e \<Rightarrow> Inl (into_response e)
      | Inr host \<Rightarrow>
          (case match_host hr host of
             MExact router \<Rightarrow> Inr (router, None)
           | MFallback router \<Rightarrow> Inr (router, None)
           | MWildcard router subdomain pat \<Rightarrow> Inr (router, Some \<lparr>mh_subdomain = subdomain, mh_pattern = pat\<rparr>)
           | MNotFound \<Rightarrow> Inl (into_response (not_found ''no route for host''))))"

definition matched_host_from_parts :: "matched_host option \<Rightarrow> matched_host result" where
  "matched_host_from_parts ext = ok_or (internal ''internal routing error'') ext"

section \<open>The client's address\<close>

text \<open>\<open>'ip\<close> are the addresses and \<open>'net\<close> the networks of the standard library and ipnet; \<open>parse\<close>, \<open>contains\<close>
  and \<open>localhost\<close> are theirs.\<close>

definition extract_client_ip ::
  "(string \<Rightarrow> 'ip option) \<Rightarrow> ('net \<Rightarrow> 'ip \<Rightarrow> bool) \<Rightarrow> 'ip \<Rightarrow> parts \<Rightarrow> 'net list \<Rightarrow> 'ip option \<Rightarrow> 'ip" where
  "extract_client_ip parse contains localhost parts trusted_proxies connect_ip =
     (let from_headers =
            (case Option.bind (header_str parts ''x-forwarded-for'') (\<lambda>f. parse (trim (hd (split_on CHR '','' f)))) of
               Some ip \<Rightarrow> ip
             | None \<Rightarrow>
                 (case Option.bind (header_str parts ''x-real-ip'') (\<lambda>r. parse (trim r)) of
                    Some ip \<Rightarrow> ip
                  | None \<Rightarrow> (case connect_ip of Some ip \<Rightarrow> ip | None \<Rightarrow> localhost)))
      in case connect_ip of
           Some ip \<Rightarrow>
             if trusted_proxies \<noteq> [] \<and> \<not> list_ex (\<lambda>net. contains net ip) trusted_proxies then ip else from_headers
         | None \<Rightarrow> from_headers)"

text \<open>\<^verbatim>\<open>ClientIpMiddleware::call\<close>: the inner service gets the address as an extension.\<close>

definition client_ip_call ::
  "(string \<Rightarrow> 'ip option) \<Rightarrow> ('net \<Rightarrow> 'ip \<Rightarrow> bool) \<Rightarrow> 'ip \<Rightarrow> 'net list \<Rightarrow> (parts \<Rightarrow> 'ip \<Rightarrow> 'a) \<Rightarrow> parts \<Rightarrow> 'ip option \<Rightarrow> 'a" where
  "client_ip_call parse contains localhost trusted_proxies inner parts connect_ip =
     inner parts (extract_client_ip parse contains localhost parts trusted_proxies connect_ip)"

section \<open>Tenants\<close>

datatype tenant_id = Slug string | Domain string | TId string | TApiKey string

fun tenant_id_str :: "tenant_id \<Rightarrow> string" where
  "tenant_id_str (Slug s) = s"
| "tenant_id_str (Domain s) = s"
| "tenant_id_str (TId s) = s"
| "tenant_id_str (TApiKey s) = s"

fun tenant_id_display :: "tenant_id \<Rightarrow> string" where
  "tenant_id_display (Slug s) = ''slug:'' @ s"
| "tenant_id_display (Domain s) = ''domain:'' @ s"
| "tenant_id_display (TId s) = ''id:'' @ s"
| "tenant_id_display (TApiKey _) = ''apikey:[REDACTED]''"

text \<open>What a strategy sees of a request: headers and query, the path, and the router's path
  parameters (\<^const>\<open>None\<close> when there are none to extract).\<close>

record tenant_parts =
  tp_parts :: parts
  tp_path :: string
  tp_params :: "(string \<times> string) list option"

type_synonym tenant_strategy = "tenant_parts \<Rightarrow> tenant_id result \<times> tenant_parts"

definition host_from_parts :: "tenant_parts \<Rightarrow> string result" where
  "host_from_parts tp =
     bind_res (ok_or (bad_request ''missing Host header'') (header_get (tp_parts tp) ''host'')) (\<lambda>v.
     bind_res (ok_or (bad_request ''invalid Host header'') (header_to_str v)) (\<lambda>host.
     Inr (map to_ascii_lowercase (strip_port host))))"

text \<open>The part of a host before \<^verbatim>\<open>.base\<close>, which must be one label.\<close>

definition one_label :: "string \<Rightarrow> string \<Rightarrow> tenant_id result" where
  "one_label host suffix =
     (let subdomain = take (length host - length suffix) host
      in if subdomain = [] then Inl (bad_request ''no subdomain in host'')
         else if CHR ''.'' \<in> set subdomain then Inl (bad_request ''multi-level subdomains not allowed'')
         else Inr (Slug subdomain))"

definition subdomain_extract :: "string \<Rightarrow> tenant_strategy" where
  "subdomain_extract base_domain tp =
     (bind_res (host_from_parts tp) (\<lambda>host.
        let suffix = ''.'' @ base_domain
        in if \<not> ends_with suffix host then Inl (bad_request ''host is not a subdomain of base domain'')
           else one_label host suffix), tp)"

definition subdomain_strategy :: "(string \<Rightarrow> string) \<Rightarrow> string \<Rightarrow> tenant_strategy" where
  "subdomain_strategy lower base_domain = subdomain_extract (lower base_domain)"

definition domain_extract :: tenant_strategy where
  "domain_extract tp = (bind_res (host_from_parts tp) (\<lambda>host. Inr (Domain host)), tp)"

definition subdomain_or_domain_extract :: "string \<Rightarrow> tenant_strategy" where
  "subdomain_or_domain_extract base_domain tp =
     (bind_res (host_from_parts tp) (\<lambda>host.
        let suffix = ''.'' @ base_domain
        in if host = base_domain then Inl (bad_request ''base domain is not a valid tenant identifier'')
           else if ends_with suffix host then one_label host suffix
           else Inr (Domain host)), tp)"

definition subdomain_or_domain_strategy :: "(string \<Rightarrow> string) \<Rightarrow> string \<Rightarrow> tenant_strategy" where
  "subdomain_or_domain_strategy lower base_domain = subdomain_or_domain_extract (lower base_domain)"

text \<open>A \<^verbatim>\<open>HeaderName\<close> is lower case; \<open>valid\<close> says which texts it accepts.\<close>

definition header_name :: "(string \<Rightarrow> bool) \<Rightarrow> string \<Rightarrow> string option" where
  "header_name valid name = (if valid name then Some (map to_ascii_lowercase name) else None)"

definition header_extract :: "string \<Rightarrow> tenant_strategy" where
  "header_extract name tp =
     (bind_res (ok_or (bad_request (''missing '' @ name @ '' header'')) (header_get (tp_parts tp) name)) (\<lambda>v.
      bind_res (ok_or (bad_request (''invalid '' @ name @ '' header value'')) (header_to_str v)) (\<lambda>value.
      Inr (TId value))), tp)"

definition api_key_header_extract :: "string \<Rightarrow> tenant_strategy" where
  "api_key_header_extract name tp =
     (bind_res (ok_or (bad_request (''missing '' @ name @ '' header'')) (header_get (tp_parts tp) name)) (\<lambda>v.
      bind_res (ok_or (bad_request (''invalid '' @ name @ '' header value'')) (header_to_str v)) (\<lambda>value.
      Inr (TApiKey value))), tp)"

text \<open>\<open>build\<close> is \<^verbatim>\<open>Uri::builder().path_and_query(..).build()\<close>: the path and the query of the text.\<close>

definition path_prefix_extract :: "(string \<Rightarrow> string + string \<times> string option) \<Rightarrow> string \<Rightarrow> tenant_strategy" where
  "path_prefix_extract build pre tp =
     (let path = tp_path tp
      in if \<not> starts_with pre path
         then (Inl (bad_request (''path does not start with prefix '' @ [CHR 0x27] @ pre @ [CHR 0x27])), tp)
         else case strip_prefix ''/'' (drop (length pre) path) of
           None \<Rightarrow> (Inl (bad_request ''no tenant segment after prefix''), tp)
         | Some after_prefix \<Rightarrow>
             if after_prefix = [] then (Inl (bad_request ''no tenant segment after prefix''), tp)
             else
               (let (slug, remaining) =
                      (case split_once CHR ''/'' after_prefix of
                         Some (s, r) \<Rightarrow> (s, CHR ''/'' # r)
                       | None \<Rightarrow> (after_prefix, ''/''))
                in if slug = [] then (Inl (bad_request ''empty tenant slug in path''), tp)
                   else
                     (case build (case p_query (tp_parts tp) of Some q \<Rightarrow> remaining @ ''?'' @ q | None \<Rightarrow> remaining) of
                        Inl e \<Rightarrow> (Inl (internal (''failed to rewrite URI: '' @ e)), tp)
                      | Inr (new_path, new_query) \<Rightarrow>
                          (Inr (Slug slug), tp\<lparr>tp_path := new_path, tp_parts := (tp_parts tp)\<lparr>p_query := new_query\<rparr>\<rparr>))))"

definition path_param_extract :: "string \<Rightarrow> tenant_strategy" where
  "path_param_extract param_name tp =
     ((case tp_params tp of
         None \<Rightarrow> Inl (internal ''path parameters not available (use route_layer instead of layer)'')
       | Some params \<Rightarrow>
           (case map_of params param_name of
              Some value \<Rightarrow> Inr (Slug value)
            | None \<Rightarrow> Inl (internal (''path parameter '' @ [CHR 0x27] @ param_name @ [CHR 0x27] @ '' not found in route'')))), tp)"

text \<open>\<^verbatim>\<open>TenantMiddleware::call\<close>: the tenant with which the inner service is called, and the parts it sees.\<close>

definition tenant_call ::
  "tenant_strategy \<Rightarrow> (tenant_id \<Rightarrow> 'st \<Rightarrow> 't result \<times> 'st) \<Rightarrow> (tenant_parts \<Rightarrow> 't \<Rightarrow> 'st \<Rightarrow> 'a \<times> 'st) \<Rightarrow>
   tenant_parts \<Rightarrow> 'st \<Rightarrow> (error_response + 'a) \<times> 'st" where
  "tenant_call strategy resolve inner tp st =
     (case strategy tp of
        (Inl e, tp') \<Rightarrow> (Inl (into_response e), st)
      | (Inr tid, tp') \<Rightarrow>
          (case resolve tid st of
             (Inl e, st') \<Rightarrow> (Inl (into_response e), st')
           | (Inr tenant, st') \<Rightarrow> (case inner tp' tenant st' of (a, st'') \<Rightarrow> (Inr a, st''))))"

definition tenant_from_parts :: "'t option \<Rightarrow> 't result" where
  "tenant_from_parts ext = ok_or (internal ''Tenant middleware not applied'') ext"

section \<open>What a built router does\<close>

text \<open>A router built by a chain of \<^verbatim>\<open>host\<close> calls, and the form in which a pattern is stored.\<close>

fun host_router_build :: "(string \<Rightarrow> string) \<Rightarrow> (string \<times> 'r) list \<Rightarrow> 'r host_router \<Rightarrow> 'r host_router option" where
  "host_router_build lower [] hr = Some hr"
| "host_router_build lower ((p, r) # regs) hr = Option.bind (host_router_host lower p r hr) (host_router_build lower regs)"

definition host_pattern :: "(string \<Rightarrow> string) \<Rightarrow> string \<Rightarrow> string" where
  "host_pattern lower p = lower (strip_port (str_trim p))"

definition holds_regs :: "(string \<Rightarrow> string) \<Rightarrow> (string \<times> 'r) list \<Rightarrow> 'r host_router \<Rightarrow> bool" where
  "holds_regs lower regs hr \<longleftrightarrow>
     (\<forall>k r. hr_exact hr k = Some r \<longleftrightarrow> (\<exists>p. (p, r) \<in> set regs \<and> host_pattern lower p = k \<and> \<not> starts_with ''*.'' k)) \<and>
     (\<forall>k w r. hr_wildcard hr k = Some (w, r) \<longleftrightarrow> w = ''*.'' @ k \<and> (\<exists>p. (p, r) \<in> set regs \<and> host_pattern lower p = w))"

lemma holds_regs_host:
  assumes "holds_regs lower regs hr" "host_router_host lower p r hr = Some hr'"
  shows "holds_regs lower (regs @ [(p, r)]) hr'"
proof (cases "strip_prefix ''*.'' (host_pattern lower p)")
  case None
  let ?p = "host_pattern lower p"
  have n: "hr_exact hr ?p = None" "hr' = hr\<lparr>hr_exact := (hr_exact hr)(?p \<mapsto> r)\<rparr>"
    using assms(2) None by (auto simp: host_router_host_def host_pattern_def Let_def split: if_splits)
  have np: "\<not> starts_with ''*.'' ?p" using None by (simp add: strip_prefix_iff(2))
  have free: "(q, v) \<notin> set regs" if "host_pattern lower q = ?p" for q v
    using assms(1) n(1) np that unfolding holds_regs_def by (metis option.distinct(1))
  show ?thesis
    using assms(1) np free unfolding n(2) holds_regs_def by (auto simp: starts_with_def)
next
  case (Some k)
  let ?p = "host_pattern lower p"
  have n: "hr_wildcard hr k = None" "hr' = hr\<lparr>hr_wildcard := (hr_wildcard hr)(k \<mapsto> (''*.'' @ k, r))\<rparr>"
    using assms(2) Some by (auto simp: host_router_host_def host_pattern_def Let_def simp del: not_None_eq split: if_splits)
  have p: "?p = ''*.'' @ k" using Some by (simp add: strip_prefix_iff(1))
  have free: "(q, v) \<notin> set regs" if "host_pattern lower q = ''*.'' @ k" for q v
    using assms(1) n(1) that unfolding holds_regs_def by (metis option.distinct(1))
  show ?thesis
    using assms(1) p free unfolding n(2) holds_regs_def by (auto simp: starts_with_def)
qed

lemma holds_regs_build:
  "holds_regs lower regs0 hr \<Longrightarrow> host_router_build lower regs hr = Some hr' \<Longrightarrow> holds_regs lower (regs0 @ regs) hr'"
proof (induction lower regs hr arbitrary: regs0 rule: host_router_build.induct)
  case (2 lower p r regs hr)
  then obtain hr1 where "host_router_host lower p r hr = Some hr1" "host_router_build lower regs hr1 = Some hr'"
    by (auto simp: bind_eq_Some_conv)
  with 2 holds_regs_host show ?case by fastforce
qed simp

lemma holds_regs_new: "holds_regs lower [] host_router_new"
  by (simp add: holds_regs_def host_router_new_def)

lemma host_router_build_fallback:
  "host_router_build lower regs hr = Some hr' \<Longrightarrow> hr_fallback hr' = hr_fallback hr"
  by (induction lower regs hr rule: host_router_build.induct)
    (auto simp: host_router_host_def bind_eq_Some_conv Let_def split: option.splits if_splits)

lemma match_host_cases:
  "match_host hr h = MExact r \<longleftrightarrow> hr_exact hr h = Some r"
  "match_host hr h = MWildcard r sub pat \<longleftrightarrow>
     hr_exact hr h = None \<and> (\<exists>k. split_once CHR ''.'' h = Some (sub, k) \<and> hr_wildcard hr k = Some (pat, r))"
  by (auto simp: match_host_def Let_def split: option.splits)

lemma match_host_built:
  assumes "host_router_build lower regs host_router_new = Some hr"
  shows "match_host hr h = MExact r \<longleftrightarrow> (\<exists>p. (p, r) \<in> set regs \<and> host_pattern lower p = h \<and> \<not> starts_with ''*.'' h)"
    and "match_host hr h = MWildcard r sub pat \<longleftrightarrow>
       (\<nexists>p q. (p, q) \<in> set regs \<and> host_pattern lower p = h \<and> \<not> starts_with ''*.'' h) \<and>
       (\<exists>p suffix. (p, r) \<in> set regs \<and> host_pattern lower p = pat \<and> pat = ''*.'' @ suffix \<and>
          h = sub @ ''.'' @ suffix \<and> CHR ''.'' \<notin> set sub)"
proof -
  have holds: "holds_regs lower regs hr" using holds_regs_build [OF holds_regs_new assms] by simp
  then have ex: "hr_exact hr h = Some q \<longleftrightarrow> (\<exists>p. (p, q) \<in> set regs \<and> host_pattern lower p = h \<and> \<not> starts_with ''*.'' h)"
    and wi: "hr_wildcard hr k = Some (w, q) \<longleftrightarrow> w = ''*.'' @ k \<and> (\<exists>p. (p, q) \<in> set regs \<and> host_pattern lower p = w)" for q k w
    unfolding holds_regs_def by blast+
  have "hr_exact hr h = None \<longleftrightarrow> (\<nexists>p q. (p, q) \<in> set regs \<and> host_pattern lower p = h \<and> \<not> starts_with ''*.'' h)"
    using ex by (metis not_None_eq)
  with wi show "match_host hr h = MWildcard r sub pat \<longleftrightarrow>
       (\<nexists>p q. (p, q) \<in> set regs \<and> host_pattern lower p = h \<and> \<not> starts_with ''*.'' h) \<and>
       (\<exists>p suffix. (p, r) \<in> set regs \<and> host_pattern lower p = pat \<and> pat = ''*.'' @ suffix \<and>
          h = sub @ ''.'' @ suffix \<and> CHR ''.'' \<notin> set sub)"
    unfolding match_host_cases by (auto simp: split_once_Some)
  show "match_host hr h = MExact r \<longleftrightarrow> (\<exists>p. (p, r) \<in> set regs \<and> host_pattern lower p = h \<and> \<not> starts_with ''*.'' h)"
    using ex by (simp add: match_host_cases)
qed

section \<open>Properties\<close>

text \<open>C26. Host routing does what its patterns say, whatever the order of the calls that registered them: a
  router built without a panic sends a host to the router of an exact pattern just when one of
  the registered patterns, trimmed, without its port and in lower case, is that host; and to
  the router of a wildcard just when no exact pattern is that host and the host is exactly one label,
  without a dot, in front of the suffix of a registered wildcard, which label and pattern it
  reports.\<close>

theorem host_router_patterns:
  assumes "host_router_build lower regs host_router_new = Some hr"
  shows "(match_host hr h = MExact r \<longleftrightarrow>
       (\<exists>p. (p, r) \<in> set regs \<and> host_pattern lower p = h \<and> \<not> starts_with ''*.'' h)) \<and>
     (match_host hr h = MWildcard r sub pat \<longleftrightarrow>
       (\<nexists>p q. (p, q) \<in> set regs \<and> host_pattern lower p = h \<and> \<not> starts_with ''*.'' h) \<and>
       (\<exists>p suffix. (p, r) \<in> set regs \<and> host_pattern lower p = pat \<and> pat = ''*.'' @ suffix \<and>
          h = sub @ ''.'' @ suffix \<and> CHR ''.'' \<notin> set sub))"
  using match_host_built [OF assms] by blast

definition demo_hosts :: "(string \<times> nat) list" where
  "demo_hosts = [('' Acme.com:443'', 1), (''*.example.com'', 2), (''app.example.com'', 3)]"

definition demo_router :: "nat host_router" where
  "demo_router = the (host_router_build (map to_ascii_lowercase) demo_hosts host_router_new)"

lemma demo_router_built: "host_router_build (map to_ascii_lowercase) demo_hosts host_router_new = Some demo_router"
proof -
  have "case host_router_build (map to_ascii_lowercase) demo_hosts host_router_new of None \<Rightarrow> False | Some _ \<Rightarrow> True"
    by code_simp
  then show ?thesis by (simp add: demo_router_def split: option.splits)
qed

theorem host_router_patterns_witness:
  "match_host demo_router ''acme.com'' = MExact 1 \<and> match_host demo_router ''a.example.com'' = MWildcard 2 ''a'' ''*.example.com''"
proof -
  have p: "host_pattern (map to_ascii_lowercase) '' Acme.com:443'' = ''acme.com''"
    "host_pattern (map to_ascii_lowercase) ''*.example.com'' = ''*.example.com''"
    "host_pattern (map to_ascii_lowercase) ''app.example.com'' = ''app.example.com''"
    "\<not> starts_with ''*.'' ''acme.com''" by code_simp+
  have "match_host demo_router ''acme.com'' = MExact 1"
    using host_router_patterns [OF demo_router_built] p(1,4) by (force simp: demo_hosts_def)
  moreover have "match_host demo_router ''a.example.com'' = MWildcard 2 ''a'' ''*.example.com''"
    using host_router_patterns [OF demo_router_built] p(1-3) by (force simp: demo_hosts_def)
  ultimately show ?thesis ..
qed

text \<open>The router and the tenant layer agree on a request that came without proxy headers: when the
  router sends it to a wildcard \<^verbatim>\<open>*.base\<close>, the subdomain strategy for \<^verbatim>\<open>base\<close> reads as tenant exactly the label
  the router reports, and refuses the request when that label is empty.\<close>

theorem wildcard_host_is_tenant:
  assumes "host_router_build lower regs host_router_new = Some hr"
    "header_get parts ''forwarded'' = None" "header_get parts ''x-forwarded-host'' = None"
    "header_str parts ''host'' = Some v" "trim v = v"
    "host_router_call hr parts = Inr (r, Some mh)" "mh_pattern mh = ''*.'' @ base" "tp_parts tp = parts"
  shows "subdomain_extract base tp =
     (if mh_subdomain mh = [] then Inl (bad_request ''no subdomain in host'') else Inr (Slug (mh_subdomain mh)), tp)"
proof -
  let ?h = "map to_ascii_lowercase (strip_port v)"
  have hv: "header_get parts ''host'' = Some v" "header_to_str v = Some v"
    using assms(4) by (auto simp: header_str_def header_to_str_def bind_eq_Some_conv split: if_splits)
  have "match_host hr ?h = MWildcard r (mh_subdomain mh) (mh_pattern mh)"
    using assms(2-6) by (auto simp: host_router_call_def resolve_host_def nonempty_header_def header_str_def
        split: sum.splits host_match.splits if_splits option.splits)
  then have h: "?h = mh_subdomain mh @ ''.'' @ base" "CHR ''.'' \<notin> set (mh_subdomain mh)"
    using match_host_built(2) [OF assms(1)] assms(7) by auto
  have "host_from_parts tp = Inr ?h" using hv assms(8) by (simp add: host_from_parts_def result_simps)
  then have "subdomain_extract base tp = (one_label (mh_subdomain mh @ ''.'' @ base) (''.'' @ base), tp)"
    unfolding subdomain_extract_def h(1) using ends_with_append [of "''.'' @ base"] by (simp add: result_simps Let_def)
  then show ?thesis using h(2) by (simp add: one_label_def Let_def)
qed

definition demo_host_parts :: parts where
  "demo_host_parts = \<lparr>p_headers = [(''host'', ''Blue.example.com:8080'')], p_query = None\<rparr>"

theorem wildcard_host_is_tenant_witness:
  "subdomain_extract ''example.com'' \<lparr>tp_parts = demo_host_parts, tp_path = ''/'', tp_params = None\<rparr> =
     (Inr (Slug ''blue''), \<lparr>tp_parts = demo_host_parts, tp_path = ''/'', tp_params = None\<rparr>)"
proof -
  have f: "header_get demo_host_parts ''forwarded'' = None" "header_get demo_host_parts ''x-forwarded-host'' = None"
    "header_str demo_host_parts ''host'' = Some ''Blue.example.com:8080''" "trim ''Blue.example.com:8080'' = ''Blue.example.com:8080''"
    "host_router_call demo_router demo_host_parts = Inr (2, Some \<lparr>mh_subdomain = ''blue'', mh_pattern = ''*.example.com''\<rparr>)"
    by code_simp+
  show ?thesis using wildcard_host_is_tenant [OF demo_router_built f, of "''example.com''"] by simp
qed

text \<open>The path prefix strategy takes the tenant out of the path and nothing else: when it succeeds, the
  path was the prefix, a slash, a non-empty slug without slashes, and a rest that is empty or
  starts with a slash; the request goes on with the URI built from that rest (a single slash when
  it is empty) and the unchanged query.\<close>

theorem path_prefix_rewrites:
  assumes "path_prefix_extract build pre tp = (Inr tid, tp')"
  shows "\<exists>slug rest. tid = Slug slug \<and> tp_path tp = pre @ ''/'' @ slug @ rest \<and> slug \<noteq> [] \<and> CHR ''/'' \<notin> set slug \<and>
     (rest = [] \<or> hd rest = CHR ''/'') \<and>
     build ((if rest = [] then ''/'' else rest) @ (case p_query (tp_parts tp) of Some q \<Rightarrow> ''?'' @ q | None \<Rightarrow> []))
       = Inr (tp_path tp', p_query (tp_parts tp')) \<and>
     p_headers (tp_parts tp') = p_headers (tp_parts tp)"
proof -
  obtain after where a: "tp_path tp = pre @ ''/'' @ after" "after \<noteq> []"
    using assms by (auto simp: path_prefix_extract_def Let_def starts_with_iff strip_prefix_iff(1) split: if_splits option.splits)
  show ?thesis
  proof (cases "split_once CHR ''/'' after")
    case None
    then have "CHR ''/'' \<notin> set after" by (simp add: split_once_None)
    moreover have "tid = Slug after \<and> build (''/'' @ (case p_query (tp_parts tp) of Some q \<Rightarrow> ''?'' @ q | None \<Rightarrow> []))
       = Inr (tp_path tp', p_query (tp_parts tp')) \<and> p_headers (tp_parts tp') = p_headers (tp_parts tp)"
      using assms a None
      by (auto simp: path_prefix_extract_def starts_with_def strip_prefix_def split: sum.splits option.splits)
    ultimately show ?thesis using a by (intro exI [of _ after] exI [of _ "[]"]) simp
  next
    case (Some sr)
    obtain s r where sr: "split_once CHR ''/'' after = Some (s, r)" using Some by (cases sr) auto
    then have "after = s @ CHR ''/'' # r" "CHR ''/'' \<notin> set s" by (simp_all add: split_once_Some)
    moreover have "s \<noteq> [] \<and> tid = Slug s \<and> build ((CHR ''/'' # r) @ (case p_query (tp_parts tp) of Some q \<Rightarrow> ''?'' @ q | None \<Rightarrow> []))
       = Inr (tp_path tp', p_query (tp_parts tp')) \<and> p_headers (tp_parts tp') = p_headers (tp_parts tp)"
      using assms a sr
      by (auto simp: path_prefix_extract_def starts_with_def strip_prefix_def split: sum.splits option.splits if_splits)
    ultimately show ?thesis using a by (intro exI [of _ s] exI [of _ "CHR ''/'' # r"]) simp
  qed
qed

theorem path_prefix_rewrites_witness:
  "\<exists>slug rest. ''/t/acme/users'' = ''/t'' @ ''/'' @ slug @ rest \<and> slug \<noteq> [] \<and> CHR ''/'' \<notin> set slug"
proof -
  let ?tp = "\<lparr>tp_parts = \<lparr>p_headers = [], p_query = Some ''q''\<rparr>, tp_path = ''/t/acme/users'', tp_params = None\<rparr>"
  let ?build = "\<lambda>u. Inr (case split_once CHR ''?'' u of Some (p, q) \<Rightarrow> (p, Some q) | None \<Rightarrow> (u, None))"
  have "path_prefix_extract ?build ''/t'' ?tp =
     (Inr (Slug ''acme''), \<lparr>tp_parts = \<lparr>p_headers = [], p_query = Some ''q''\<rparr>, tp_path = ''/users'', tp_params = None\<rparr>)"
    by code_simp
  from path_prefix_rewrites [OF this] show ?thesis by (simp only: tenant_parts.select_convs) blast
qed

end
