(* ===== verification/Domains.thy ===== *)
theory Domains
  imports Database Text "HOL-Library.Sublist" "HOL-Library.List_Lexorder" "HOL-Library.Char_ord"
begin

text \<open>
  DNS lookups and domain verification (\<^verbatim>\<open>src/src/dns\<close>) and the custom domains of tenants
  (\<^verbatim>\<open>src/src/tenant/domain.rs\<close>). What simple_dns does with a packet and what the network answers are the fields
  of \<open>dns_env\<close>; chrono's text format, \<^verbatim>\<open>to_lowercase\<close> and the constraints of the application's table, those of
  \<open>domain_env\<close>. Where a query has \<^verbatim>\<open>LIMIT 1\<close> and no order, the first row in table order is taken; the
  theorems hold for every row that matches.
\<close>

section \<open>DNS packets\<close>

datatype rdata = RTxt "(string \<times> string option) list" | RCname string | ROther

datatype rcode = NoError | NameError | ServerFailure | Refused | OtherRcode

record dns_packet =
  pk_id :: "16 word"
  pk_rcode :: rcode
  pk_answers :: "rdata list"

datatype record_type = Txt | Cname

datatype udp_outcome = BindFails | SendFails | TimesOut | RecvFails | Received "u8 list"

record dns_env =
  dns_name_ok :: "string \<Rightarrow> bool"
  dns_build :: "16 word \<Rightarrow> string \<Rightarrow> record_type \<Rightarrow> u8 list option"
  dns_parse :: "u8 list \<Rightarrow> dns_packet option"
  dns_net :: "u8 list \<Rightarrow> udp_outcome"

definition dns_err :: "error \<Rightarrow> dns_error \<Rightarrow> error" where
  "dns_err e kind = with_code (dns_error_code kind) (chain (SrcDns kind) e)"

definition build_query :: "dns_env \<Rightarrow> 16 word \<Rightarrow> string \<Rightarrow> record_type \<Rightarrow> (16 word \<times> u8 list) result" where
  "build_query env rnd domain rt =
     (let qid = rnd OR 1
      in if \<not> dns_name_ok env domain then Inl (bad_request (''invalid domain name: '' @ domain))
         else bind_res (ok_or (internal ''failed to build dns query packet'') (dns_build env qid domain rt))
                (\<lambda>bytes. Inr (qid, bytes)))"

definition validate_response :: "dns_env \<Rightarrow> u8 list \<Rightarrow> 16 word \<Rightarrow> dns_packet result" where
  "validate_response env data expected_id =
     (case dns_parse env data of
        None \<Rightarrow> Inl (dns_err (bad_gateway ''dns response malformed'') DnsMalformed)
      | Some packet \<Rightarrow>
          if pk_id packet \<noteq> expected_id then Inl (dns_err (bad_gateway ''dns response id mismatch'') DnsMalformed)
          else (case pk_rcode packet of
                  NoError \<Rightarrow> Inr packet
                | NameError \<Rightarrow> Inr packet
                | ServerFailure \<Rightarrow> Inl (dns_err (bad_gateway ''dns server failure'') DnsServerFailure)
                | Refused \<Rightarrow> Inl (dns_err (bad_gateway ''dns query refused'') DnsRefused)
                | OtherRcode \<Rightarrow> Inl (dns_err (bad_gateway ''dns query failed'') DnsServerFailure)))"

fun txt_values :: "rdata \<Rightarrow> string list" where
  "txt_values (RTxt attrs) = map (\<lambda>(k, v). case v of Some val \<Rightarrow> k @ ''='' @ val | None \<Rightarrow> k) attrs"
| "txt_values _ = []"

definition extract_txt_records :: "dns_packet \<Rightarrow> string list" where
  "extract_txt_records packet = concat (map txt_values (pk_answers packet))"

fun extract_cname :: "rdata list \<Rightarrow> string option" where
  "extract_cname [] = None"
| "extract_cname (RCname c # answers) = Some c"
| "extract_cname (_ # answers) = extract_cname answers"

definition extract_cname_target :: "dns_packet \<Rightarrow> string option" where
  "extract_cname_target packet = extract_cname (pk_answers packet)"

section \<open>UdpDnsResolver\<close>

text \<open>The buffer has 512 bytes.\<close>

definition send_and_receive :: "dns_env \<Rightarrow> u8 list \<Rightarrow> u8 list result" where
  "send_and_receive env query_bytes =
     (case dns_net env query_bytes of
        BindFails \<Rightarrow> Inl (dns_err (bad_gateway ''dns network error'') DnsNetworkError)
      | SendFails \<Rightarrow> Inl (dns_err (bad_gateway ''dns network error'') DnsNetworkError)
      | TimesOut \<Rightarrow> Inl (dns_err (gateway_timeout ''dns query timed out'') DnsTimeout)
      | RecvFails \<Rightarrow> Inl (dns_err (bad_gateway ''dns network error'') DnsNetworkError)
      | Received bytes \<Rightarrow> Inr (take 512 bytes))"

definition resolve_txt :: "dns_env \<Rightarrow> 16 word \<Rightarrow> string \<Rightarrow> string list result" where
  "resolve_txt env rnd domain =
     bind_res (build_query env rnd domain Txt) (\<lambda>(qid, query_bytes).
     bind_res (send_and_receive env query_bytes) (\<lambda>response_bytes.
     bind_res (validate_response env response_bytes qid) (\<lambda>packet.
     Inr (extract_txt_records packet))))"

definition resolve_cname :: "dns_env \<Rightarrow> 16 word \<Rightarrow> string \<Rightarrow> string option result" where
  "resolve_cname env rnd domain =
     bind_res (build_query env rnd domain Cname) (\<lambda>(qid, query_bytes).
     bind_res (send_and_receive env query_bytes) (\<lambda>response_bytes.
     bind_res (validate_response env response_bytes qid) (\<lambda>packet.
     Inr (extract_cname_target packet))))"

section \<open>DomainVerifier\<close>

record domain_status =
  txt_verified :: bool
  cname_verified :: bool

definition check_txt :: "dns_env \<Rightarrow> 16 word \<Rightarrow> string \<Rightarrow> string \<Rightarrow> string \<Rightarrow> bool result" where
  "check_txt env rnd txt_prefix domain expected_token =
     (if domain = [] then Inl (dns_err (bad_request ''domain must not be empty'') DnsInvalidInput)
      else if expected_token = [] then Inl (dns_err (bad_request ''token must not be empty'') DnsInvalidInput)
      else bind_res (resolve_txt env rnd (txt_prefix @ ''.'' @ domain)) (\<lambda>records.
             Inr (list_ex (\<lambda>r. r = expected_token) records)))"

definition normalize_domain :: "(string \<Rightarrow> string) \<Rightarrow> string \<Rightarrow> string" where
  "normalize_domain lower domain = rev (dropWhile (\<lambda>c. c = CHR ''.'') (rev (lower domain)))"

definition check_cname ::
  "(string \<Rightarrow> string) \<Rightarrow> dns_env \<Rightarrow> 16 word \<Rightarrow> string \<Rightarrow> string \<Rightarrow> bool result" where
  "check_cname lower env rnd domain expected_target =
     (if domain = [] then Inl (dns_err (bad_request ''domain must not be empty'') DnsInvalidInput)
      else if expected_target = [] then Inl (dns_err (bad_request ''target must not be empty'') DnsInvalidInput)
      else bind_res (resolve_cname env rnd domain) (\<lambda>target.
             Inr (case target of
                    Some resolved \<Rightarrow> normalize_domain lower resolved = normalize_domain lower expected_target
                  | None \<Rightarrow> False)))"

definition verify_domain ::
  "(string \<Rightarrow> string) \<Rightarrow> dns_env \<Rightarrow> 16 word \<Rightarrow> 16 word \<Rightarrow> string \<Rightarrow> string \<Rightarrow> string \<Rightarrow> string \<Rightarrow> domain_status result" where
  "verify_domain lower env rnd1 rnd2 txt_prefix domain expected_token expected_cname =
     bind_res (check_txt env rnd1 txt_prefix domain expected_token) (\<lambda>txt.
     bind_res (check_cname lower env rnd2 domain expected_cname) (\<lambda>cname.
     Inr \<lparr>txt_verified = txt, cname_verified = cname\<rparr>))"

section \<open>Claims\<close>

datatype claim_status = ClaimPending | ClaimVerified | ClaimFailed

fun claim_status_str :: "claim_status \<Rightarrow> string" where
  "claim_status_str ClaimPending = ''pending''"
| "claim_status_str ClaimVerified = ''verified''"
| "claim_status_str ClaimFailed = ''failed''"

definition claim_status_from_str :: "string \<Rightarrow> claim_status result" where
  "claim_status_from_str s =
     (if s = ''pending'' then Inr ClaimPending
      else if s = ''verified'' then Inr ClaimVerified
      else if s = ''failed'' then Inr ClaimFailed
      else Inl (internal (''unknown claim status: '' @ s)))"

record domain_claim =
  dc_id :: string
  dc_tenant_id :: string
  dc_domain :: string
  dc_token :: string
  dc_status :: claim_status
  dc_use_for_email :: bool
  dc_use_for_routing :: bool
  dc_created_at :: string
  dc_verified_at :: "string option"

record domain_row =
  dr_id :: string
  dr_tenant_id :: string
  dr_domain :: string
  dr_token :: string
  dr_status :: string
  dr_use_for_email :: bool
  dr_use_for_routing :: bool
  dr_created_at :: string
  dr_verified_at :: "string option"

record tenant_match =
  tm_tenant_id :: string
  tm_domain :: string

record domain_env =
  de_lower :: "string \<Rightarrow> string"
  de_to_rfc3339 :: "int \<Rightarrow> string"
  de_parse_rfc3339 :: "string \<Rightarrow> int option"
  de_check :: "domain_row list \<Rightarrow> libsql_error option"
  de_txt_prefix :: string

type_synonym domain_db = "domain_row db"

definition VERIFICATION_EXPIRY_HOURS :: int where
  "VERIFICATION_EXPIRY_HOURS = 48"

definition hours :: "int \<Rightarrow> int" where
  "hours n = n * 3600000000000"

definition is_expired :: "domain_env \<Rightarrow> int \<Rightarrow> string \<Rightarrow> bool" where
  "is_expired env now created_at =
     (case de_parse_rfc3339 env created_at of
        None \<Rightarrow> False
      | Some created \<Rightarrow> hours VERIFICATION_EXPIRY_HOURS < now - created)"

definition into_claim :: "domain_row \<Rightarrow> domain_claim result" where
  "into_claim r =
     bind_res (claim_status_from_str (dr_status r)) (\<lambda>status.
     Inr \<lparr>dc_id = dr_id r, dc_tenant_id = dr_tenant_id r, dc_domain = dr_domain r, dc_token = dr_token r,
          dc_status = status, dc_use_for_email = dr_use_for_email r, dc_use_for_routing = dr_use_for_routing r,
          dc_created_at = dr_created_at r, dc_verified_at = dr_verified_at r\<rparr>)"

definition into_claim_with_expiry :: "domain_env \<Rightarrow> int \<Rightarrow> domain_row \<Rightarrow> domain_claim result" where
  "into_claim_with_expiry env now r =
     bind_res (into_claim r) (\<lambda>claim.
     Inr (if dc_status claim = ClaimPending \<and> is_expired env now (dc_created_at claim)
          then claim\<lparr>dc_status := ClaimFailed\<rparr> else claim))"

section \<open>Domain names\<close>

fun check_labels :: "string list \<Rightarrow> unit result" where
  "check_labels [] = Inr ()"
| "check_labels (label # labels) =
     (if label = [] then Inl (bad_request ''domain labels must not be empty'')
      else if 63 < length label then Inl (bad_request ''domain labels must not exceed 63 characters'')
      else if starts_with ''-'' label \<or> ends_with ''-'' label
        then Inl (bad_request ''domain labels must not start or end with a hyphen'')
      else if \<not> list_all (\<lambda>c. is_ascii_alphanumeric c \<or> c = CHR ''-'') label
        then Inl (bad_request ''domain labels must contain only alphanumeric characters and hyphens'')
      else check_labels labels)"

definition validate_domain :: "(string \<Rightarrow> string) \<Rightarrow> string \<Rightarrow> string result" where
  "validate_domain lower d =
     (let domain = lower (str_trim d)
      in if domain = [] then Inl (bad_request ''domain must not be empty'')
         else if CHR ''.'' \<notin> set domain then Inl (bad_request ''domain must contain at least one dot'')
         else if starts_with ''.'' domain \<or> ends_with ''.'' domain
           then Inl (bad_request ''domain must not start or end with a dot'')
         else if 253 < length domain then Inl (bad_request ''domain must not exceed 253 characters'')
         else bind_res (check_labels (split_on CHR ''.'' domain)) (\<lambda>_. Inr domain))"

definition extract_email_domain :: "(string \<Rightarrow> string) \<Rightarrow> string \<Rightarrow> string result" where
  "extract_email_domain lower email =
     (case splitn 2 CHR ''@'' (str_trim email) of
        [local_part, domain] \<Rightarrow>
          if local_part = [] \<or> domain = [] then Inl (bad_request ''invalid email address'')
          else validate_domain lower domain
      | _ \<Rightarrow> Inl (bad_request ''invalid email address''))"

section \<open>DomainService\<close>

text \<open>\<open>new_id\<close> and \<open>token\<close> are what the generators return; \<open>t1\<close> and \<open>t2\<close> are the readings of the clock.\<close>

definition register_domain ::
  "domain_env \<Rightarrow> string \<Rightarrow> string \<Rightarrow> string \<Rightarrow> string \<Rightarrow> int \<Rightarrow> int \<Rightarrow> (domain_row, domain_claim) dbm" where
  "register_domain env tenant_id d new_id token t1 t2 =
     db_bind (db_lift (validate_domain (de_lower env) d)) (\<lambda>domain.
     db_bind (query_optional Inr (filter (\<lambda>r. dr_tenant_id r = tenant_id \<and> dr_domain r = domain \<and> dr_status r = ''pending'')))
       (\<lambda>existing.
     db_bind (db_lift (case existing of
                         Some row \<Rightarrow> bind_res (into_claim_with_expiry env t1 row) (\<lambda>claim. Inr (Some claim))
                       | None \<Rightarrow> Inr None)) (\<lambda>known.
     let fresh =
       db_bind (db_execute error_from_libsql (sql_insert (de_check env)
           \<lparr>dr_id = new_id, dr_tenant_id = tenant_id, dr_domain = domain, dr_token = token, dr_status = ''pending'',
            dr_use_for_email = False, dr_use_for_routing = False, dr_created_at = de_to_rfc3339 env t2, dr_verified_at = None\<rparr>))
         (\<lambda>_. db_lift (Inr
           \<lparr>dc_id = new_id, dc_tenant_id = tenant_id, dc_domain = domain, dc_token = token, dc_status = ClaimPending,
            dc_use_for_email = False, dc_use_for_routing = False, dc_created_at = de_to_rfc3339 env t2, dc_verified_at = None\<rparr>))
     in case known of
          Some claim \<Rightarrow> if dc_status claim = ClaimPending then db_lift (Inr claim) else fresh
        | None \<Rightarrow> fresh)))"

definition set_where_id :: "domain_env \<Rightarrow> string \<Rightarrow> (domain_row \<Rightarrow> domain_row) \<Rightarrow> (domain_row, nat) dbm" where
  "set_where_id env i f = db_execute error_from_libsql (sql_update (de_check env) (\<lambda>r. dr_id r = i) f)"

definition verify_claim ::
  "domain_env \<Rightarrow> dns_env \<Rightarrow> 16 word \<Rightarrow> string \<Rightarrow> int \<Rightarrow> int \<Rightarrow> (domain_row, domain_claim) dbm" where
  "verify_claim env dns rnd i t1 t2 =
     db_bind (query_one Inr (filter (\<lambda>r. dr_id r = i))) (\<lambda>row.
     db_bind (db_lift (into_claim row)) (\<lambda>claim.
     if dc_status claim = ClaimVerified then db_lift (Inr claim)
     else if is_expired env t1 (dc_created_at claim)
     then db_bind (set_where_id env i (\<lambda>r. r\<lparr>dr_status := ''failed''\<rparr>))
            (\<lambda>_. db_lift (Inl (bad_request ''verification window has expired (48 hours)'')))
     else db_bind (db_lift (check_txt dns rnd (de_txt_prefix env) (dc_domain claim) (dc_token claim))) (\<lambda>txt_ok.
          if \<not> txt_ok then db_lift (Inl (bad_request ''DNS TXT record not found or does not match verification token''))
          else db_bind (set_where_id env i (\<lambda>r. r\<lparr>dr_status := ''verified'', dr_verified_at := Some (de_to_rfc3339 env t2)\<rparr>))
                 (\<lambda>_. db_lift (Inr (claim\<lparr>dc_status := ClaimVerified, dc_verified_at := Some (de_to_rfc3339 env t2)\<rparr>))))))"

definition remove_claim :: "string \<Rightarrow> (domain_row, unit) dbm" where
  "remove_claim i =
     db_bind (db_execute error_from_libsql (sql_delete (\<lambda>r. dr_id r = i))) (\<lambda>_. db_lift (Inr ()))"

definition require_verified :: "string \<Rightarrow> (domain_row, unit) dbm" where
  "require_verified i =
     db_bind (query_one_map (\<lambda>r. Inr (dr_status r)) (filter (\<lambda>r. dr_id r = i))) (\<lambda>status.
     if status \<noteq> ''verified'' then db_lift (Inl (bad_request ''domain must be verified before enabling features''))
     else db_lift (Inr ()))"

definition enable_email :: "domain_env \<Rightarrow> string \<Rightarrow> (domain_row, unit) dbm" where
  "enable_email env i =
     db_bind (require_verified i) (\<lambda>_.
     db_bind (set_where_id env i (\<lambda>r. r\<lparr>dr_use_for_email := True\<rparr>)) (\<lambda>_. db_lift (Inr ())))"

definition disable_email :: "domain_env \<Rightarrow> string \<Rightarrow> (domain_row, unit) dbm" where
  "disable_email env i =
     db_bind (set_where_id env i (\<lambda>r. r\<lparr>dr_use_for_email := False\<rparr>)) (\<lambda>_. db_lift (Inr ()))"

definition enable_routing :: "domain_env \<Rightarrow> string \<Rightarrow> (domain_row, unit) dbm" where
  "enable_routing env i =
     db_bind (require_verified i) (\<lambda>_.
     db_bind (set_where_id env i (\<lambda>r. r\<lparr>dr_use_for_routing := True\<rparr>)) (\<lambda>_. db_lift (Inr ())))"

definition disable_routing :: "domain_env \<Rightarrow> string \<Rightarrow> (domain_row, unit) dbm" where
  "disable_routing env i =
     db_bind (set_where_id env i (\<lambda>r. r\<lparr>dr_use_for_routing := False\<rparr>)) (\<lambda>_. db_lift (Inr ()))"

definition match_row :: "domain_row \<Rightarrow> tenant_match result" where
  "match_row r = Inr \<lparr>tm_tenant_id = dr_tenant_id r, tm_domain = dr_domain r\<rparr>"

definition lookup_email_domain :: "domain_env \<Rightarrow> string \<Rightarrow> (domain_row, tenant_match option) dbm" where
  "lookup_email_domain env email =
     db_bind (db_lift (extract_email_domain (de_lower env) email)) (\<lambda>domain.
     query_optional match_row (filter (\<lambda>r. dr_domain r = domain \<and> dr_status r = ''verified'' \<and> dr_use_for_email r)))"

definition lookup_routing_domain :: "domain_env \<Rightarrow> string \<Rightarrow> (domain_row, tenant_match option) dbm" where
  "lookup_routing_domain env d =
     db_bind (db_lift (validate_domain (de_lower env) d)) (\<lambda>domain.
     query_optional match_row (filter (\<lambda>r. dr_domain r = domain \<and> dr_status r = ''verified'' \<and> dr_use_for_routing r)))"

definition resolve_tenant :: "domain_env \<Rightarrow> string \<Rightarrow> (domain_row, string option) dbm" where
  "resolve_tenant env d = db_bind (lookup_routing_domain env d) (\<lambda>m. db_lift (Inr (map_option tm_tenant_id m)))"

text \<open>\<^verbatim>\<open>ORDER BY created_at DESC\<close>; rows created at the same instant come in table order.\<close>

definition list_claims :: "domain_env \<Rightarrow> string \<Rightarrow> int \<Rightarrow> (domain_row, domain_claim list) dbm" where
  "list_claims env tenant_id now =
     db_bind (query_all Inr (\<lambda>rows. rev (sort_key dr_created_at (rev (filter (\<lambda>r. dr_tenant_id r = tenant_id) rows)))))
       (\<lambda>rows. db_lift (collect_res (into_claim_with_expiry env now) rows))"

section \<open>Histories\<close>

text \<open>The calls that write, with what the outside world contributed to each, and their effect on the table.\<close>

datatype domain_op =
    DRegister string string string string int int
  | DVerify string dns_env "16 word" int int
  | DRemove string
  | DEnableEmail string | DDisableEmail string | DEnableRouting string | DDisableRouting string

fun domain_exec :: "domain_env \<Rightarrow> domain_op \<Rightarrow> domain_db \<Rightarrow> domain_db" where
  "domain_exec env (DRegister tenant d i token t1 t2) db = snd (register_domain env tenant d i token t1 t2 db)"
| "domain_exec env (DVerify i dns rnd t1 t2) db = snd (verify_claim env dns rnd i t1 t2 db)"
| "domain_exec env (DRemove i) db = snd (remove_claim i db)"
| "domain_exec env (DEnableEmail i) db = snd (enable_email env i db)"
| "domain_exec env (DDisableEmail i) db = snd (disable_email env i db)"
| "domain_exec env (DEnableRouting i) db = snd (enable_routing env i db)"
| "domain_exec env (DDisableRouting i) db = snd (disable_routing env i db)"

text \<open>The primary key of \<^verbatim>\<open>tenant_domains\<close>.\<close>

definition primary_key :: "domain_env \<Rightarrow> bool" where
  "primary_key env \<longleftrightarrow> (\<forall>rows. de_check env rows = None \<longrightarrow> distinct (map dr_id rows))"

text \<open>The registration a row stems from, and the verification that found its token.\<close>

definition registered_by :: "domain_env \<Rightarrow> domain_row \<Rightarrow> domain_op \<Rightarrow> bool" where
  "registered_by env r op \<longleftrightarrow>
     (\<exists>d t1 t2. op = DRegister (dr_tenant_id r) d (dr_id r) (dr_token r) t1 t2 \<and>
        validate_domain (de_lower env) d = Inr (dr_domain r) \<and> dr_created_at r = de_to_rfc3339 env t2)"

definition verified_by :: "domain_env \<Rightarrow> domain_row \<Rightarrow> domain_op \<Rightarrow> bool" where
  "verified_by env r op \<longleftrightarrow>
     (\<exists>dns rnd t1 t2. op = DVerify (dr_id r) dns rnd t1 t2 \<and>
        check_txt dns rnd (de_txt_prefix env) (dr_domain r) (dr_token r) = Inr True \<and>
        \<not> is_expired env t1 (dr_created_at r))"

definition row_history :: "domain_env \<Rightarrow> domain_op list \<Rightarrow> domain_row \<Rightarrow> bool" where
  "row_history env ops r \<longleftrightarrow>
     (\<exists>R. registered_by env r R \<and> subseq [R] ops) \<and>
     (dr_status r = ''verified'' \<longrightarrow>
        (\<exists>R V. registered_by env r R \<and> verified_by env r V \<and> subseq [R, V] ops)) \<and>
     (dr_use_for_email r \<longrightarrow> dr_status r = ''verified'' \<and>
        (\<exists>R V. registered_by env r R \<and> verified_by env r V \<and> subseq [R, V, DEnableEmail (dr_id r)] ops)) \<and>
     (dr_use_for_routing r \<longrightarrow> dr_status r = ''verified'' \<and>
        (\<exists>R V. registered_by env r R \<and> verified_by env r V \<and> subseq [R, V, DEnableRouting (dr_id r)] ops))"

definition domains_inv :: "domain_env \<Rightarrow> domain_op list \<Rightarrow> domain_row list \<Rightarrow> bool" where
  "domains_inv env ops rows \<longleftrightarrow> distinct (map dr_id rows) \<and> (\<forall>r \<in> set rows. row_history env ops r)"

lemma subseq_later: "subseq xs ops \<Longrightarrow> subseq xs (ops @ [op])"
  by (meson subseq_order.trans subseq_rev_drop_many subseq_order.refl list_emb_append2 list_emb_append_mono) 

lemma subseq_now: "subseq xs ops \<Longrightarrow> subseq (xs @ [op]) (ops @ [op])"
  by (simp add: list_emb_append_mono)

lemma row_history_later: "row_history env ops r \<Longrightarrow> row_history env (ops @ [op]) r"
  unfolding row_history_def using subseq_later by blast

lemma domains_inv_later: "domains_inv env ops rows \<Longrightarrow> domains_inv env (ops @ [op]) rows"
  unfolding domains_inv_def using row_history_later by blast

lemma db_bind_rows_lift: "db_rows (snd (db_bind m (\<lambda>x. db_lift (g x)) db)) = db_rows (snd (m db))"
  by (simp add: db_bind_def split: prod.split sum.split)

lemma set_where_id_inv:
  assumes "domains_inv env ops (db_rows db)" "primary_key env"
    "\<And>r. r \<in> set (db_rows db) \<Longrightarrow> dr_id r = i \<Longrightarrow> row_history env (ops @ [op]) (f r)"
  shows "domains_inv env (ops @ [op]) (db_rows (snd (set_where_id env i f db)))"
  unfolding set_where_id_def
proof (rule db_execute_rows)
  show "domains_inv env (ops @ [op]) (db_rows db)" using assms(1) by (rule domains_inv_later)
next
  fix n rows'
  assume "sql_update (de_check env) (\<lambda>r. dr_id r = i) f (db_rows db) = Inr (n, rows')"
  then have "rows' = map (\<lambda>r. if dr_id r = i then f r else r) (db_rows db)" "distinct (map dr_id rows')"
    using assms(2) unfolding sql_update_Inr primary_key_def by blast+
  with assms(1,3) row_history_later show "domains_inv env (ops @ [op]) rows'"
    unfolding domains_inv_def by fastforce
qed

lemma query_one_Inr:
  assumes "query_one fr sel db = (Inr x, db')"
  shows "db_rows db' = db_rows db \<and> (\<exists>w ws. sel (db_rows db) = w # ws \<and> fr w = Inr x)"
  using assms by (auto simp: query_one_def query_raw_def split: option.splits list.splits)

lemma query_one_rows: "db_rows (snd (query_one fr sel db)) = db_rows db"
  using query_raw_rows [of sel db] by (auto simp: query_one_def split: prod.splits sum.splits list.splits)

lemma query_one_map_Inr:
  assumes "query_one_map fr sel db = (Inr x, db')"
  shows "db_rows db' = db_rows db \<and> (\<exists>w ws. sel (db_rows db) = w # ws \<and> fr w = Inr x)"
  using assms by (auto simp: query_one_map_def query_raw_def split: option.splits list.splits)

lemma query_one_map_same_rows: "db_rows (snd (query_one_map fr sel db)) = db_rows db"
  using query_raw_rows [of sel db] by (auto simp: query_one_map_def split: prod.splits sum.splits list.splits)

lemma row_unique:
  assumes "domains_inv env ops rows" "filter (\<lambda>r. dr_id r = i) rows = w # ws" "r \<in> set rows" "dr_id r = i"
  shows "r = w"
proof -
  have "w \<in> set rows" "dr_id w = i" using assms(2) by (auto simp: filter_eq_Cons_iff)
  then show ?thesis using assms(1,3,4) by (auto simp: domains_inv_def distinct_map inj_on_def)
qed

lemma require_verified_Inr:
  assumes "require_verified i db = (Inr u, db')"
  shows "db_rows db' = db_rows db \<and> (\<exists>w ws. filter (\<lambda>r. dr_id r = i) (db_rows db) = w # ws \<and> dr_status w = ''verified'')"
  using assms by (auto simp: require_verified_def db_bind_eq_Inr dest!: query_one_map_Inr split: if_splits)

lemma require_verified_rows: "db_rows (snd (require_verified i db)) = db_rows db"
  unfolding require_verified_def
  by (rule db_bind_rows [where P = "\<lambda>rows. rows = db_rows db"]) (auto simp: query_one_map_same_rows)

lemma enable_inv:
  assumes "domains_inv env ops (db_rows db)" "primary_key env"
    "\<And>r. r \<in> set (db_rows db) \<Longrightarrow> dr_id r = i \<Longrightarrow> dr_status r = ''verified'' \<Longrightarrow> row_history env (ops @ [op]) (f r)"
  shows "domains_inv env (ops @ [op]) (db_rows (snd
    (db_bind (require_verified i) (\<lambda>_. db_bind (set_where_id env i f) (\<lambda>_. db_lift (Inr ()))) db)))"
proof (rule db_bind_rows)
  show "domains_inv env (ops @ [op]) (db_rows (snd (require_verified i db)))"
    using domains_inv_later [OF assms(1)] by (simp add: require_verified_rows)
next
  fix u db'
  assume v: "require_verified i db = (Inr u, db')"
  then obtain w ws where w: "db_rows db' = db_rows db" "filter (\<lambda>r. dr_id r = i) (db_rows db) = w # ws" "dr_status w = ''verified''"
    using require_verified_Inr by blast
  have "domains_inv env (ops @ [op]) (db_rows (snd (set_where_id env i f db')))"
    by (rule set_where_id_inv) (use w assms row_unique [OF assms(1) w(2)] in auto)
  then show "domains_inv env (ops @ [op]) (db_rows (snd (db_bind (set_where_id env i f) (\<lambda>_. db_lift (Inr ())) db')))"
    by (simp add: db_bind_rows_lift)
qed

lemma row_history_verified:
  assumes "row_history env ops r" "verified_by env r V" 
  shows "row_history env (ops @ [V]) (r\<lparr>dr_status := ''verified'', dr_verified_at := t\<rparr>)"
proof -
  have upd: "registered_by env (r\<lparr>dr_status := s, dr_verified_at := t\<rparr>) = registered_by env r"
    "verified_by env (r\<lparr>dr_status := s, dr_verified_at := t\<rparr>) = verified_by env r" for s
    by (simp_all add: registered_by_def verified_by_def fun_eq_iff)
  have "\<exists>R. registered_by env r R \<and> subseq [R, V] (ops @ [V])"
    using assms(1) subseq_now [of "[_]" ops V] unfolding row_history_def by auto
  with row_history_later [OF assms(1), of V] assms(2) show ?thesis
    unfolding row_history_def upd by auto
qed

lemma row_history_flags:
  "row_history env ops r \<Longrightarrow> row_history env ops (r\<lparr>dr_use_for_email := False\<rparr>)"
  "row_history env ops r \<Longrightarrow> row_history env ops (r\<lparr>dr_use_for_routing := False\<rparr>)"
  by (simp_all add: row_history_def registered_by_def verified_by_def)

lemma row_history_failed:
  assumes "row_history env ops r" "dr_status r \<noteq> ''verified''"
  shows "row_history env ops (r\<lparr>dr_status := ''failed''\<rparr>)"
  using assms by (simp add: row_history_def registered_by_def verified_by_def)

lemma row_history_enabled:
  assumes "row_history env ops r" "dr_status r = ''verified''"
  shows "row_history env (ops @ [DEnableEmail (dr_id r)]) (r\<lparr>dr_use_for_email := True\<rparr>)"
    and "row_history env (ops @ [DEnableRouting (dr_id r)]) (r\<lparr>dr_use_for_routing := True\<rparr>)"
proof -
  have upd: "registered_by env (r\<lparr>dr_use_for_email := b\<rparr>) = registered_by env r" "verified_by env (r\<lparr>dr_use_for_email := b\<rparr>) = verified_by env r"
    "registered_by env (r\<lparr>dr_use_for_routing := b\<rparr>) = registered_by env r" "verified_by env (r\<lparr>dr_use_for_routing := b\<rparr>) = verified_by env r" for b
    by (simp_all add: registered_by_def verified_by_def fun_eq_iff)
  have "\<exists>R V. registered_by env r R \<and> verified_by env r V \<and> subseq [R, V, op] (ops @ [op])" for op
    using assms subseq_now [of "[_, _]" ops op] unfolding row_history_def by auto
  note now = this
  show "row_history env (ops @ [DEnableEmail (dr_id r)]) (r\<lparr>dr_use_for_email := True\<rparr>)"
    using row_history_later [OF assms(1), of "DEnableEmail (dr_id r)"] now [of "DEnableEmail (dr_id r)"] assms(2)
    unfolding row_history_def upd by simp
  show "row_history env (ops @ [DEnableRouting (dr_id r)]) (r\<lparr>dr_use_for_routing := True\<rparr>)"
    using row_history_later [OF assms(1), of "DEnableRouting (dr_id r)"] now [of "DEnableRouting (dr_id r)"] assms(2)
    unfolding row_history_def upd by simp
qed

lemma into_claim_Inr:
  "into_claim r = Inr c \<Longrightarrow> dc_domain c = dr_domain r \<and> dc_token c = dr_token r \<and> dc_created_at c = dr_created_at r \<and>
     (dc_status c = ClaimVerified \<longleftrightarrow> dr_status r = ''verified'')"
  by (auto simp: into_claim_def claim_status_from_str_def result_simps split: if_splits)

lemma verify_inv:
  assumes "domains_inv env ops (db_rows db)" "primary_key env"
  shows "domains_inv env (ops @ [DVerify i dns rnd t1 t2]) (db_rows (snd (verify_claim env dns rnd i t1 t2 db)))"
  unfolding verify_claim_def
proof (rule db_bind_rows)
  let ?op = "DVerify i dns rnd t1 t2"
  have later: "domains_inv env (ops @ [?op]) (db_rows db)" using assms(1) by (rule domains_inv_later)
  then show "domains_inv env (ops @ [?op]) (db_rows (snd (query_one Inr (filter (\<lambda>r. dr_id r = i)) db)))"
    by (simp add: query_one_rows)
  fix row db'
  assume "query_one Inr (filter (\<lambda>r. dr_id r = i)) db = (Inr row, db')"
  then obtain ws where w: "db_rows db' = db_rows db" "filter (\<lambda>r. dr_id r = i) (db_rows db) = row # ws"
    using query_one_Inr by fastforce
  note only = row_unique [OF assms(1) w(2)]
  have row: "row_history env ops row" "dr_id row = i"
    using assms(1) w(2) by (auto simp: domains_inv_def filter_eq_Cons_iff)
  have set_inv: "domains_inv env (ops @ [?op]) (db_rows (snd (set_where_id env i f db')))"
    if "row_history env (ops @ [?op]) (f row)" for f
    by (rule set_where_id_inv) (use w assms only that in auto)
  have good: "row_history env (ops @ [?op]) (row\<lparr>dr_status := ''verified'', dr_verified_at := t\<rparr>)"
    if "check_txt dns rnd (de_txt_prefix env) (dr_domain row) (dr_token row) = Inr True" "\<not> is_expired env t1 (dr_created_at row)" for t
    by (rule row_history_verified [OF row(1)]) (use that row(2) in \<open>auto simp: verified_by_def\<close>)
  have bad: "row_history env (ops @ [?op]) (row\<lparr>dr_status := ''failed''\<rparr>)" if "dr_status row \<noteq> ''verified''"
    using row_history_failed [OF row_history_later [OF row(1)] that] .
  show "domains_inv env (ops @ [?op]) (db_rows (snd (db_bind (db_lift (into_claim row)) (\<lambda>claim.
     if dc_status claim = ClaimVerified then db_lift (Inr claim)
     else if is_expired env t1 (dc_created_at claim)
     then db_bind (set_where_id env i (\<lambda>r. r\<lparr>dr_status := ''failed''\<rparr>))
            (\<lambda>_. db_lift (Inl (bad_request ''verification window has expired (48 hours)'')))
     else db_bind (db_lift (check_txt dns rnd (de_txt_prefix env) (dc_domain claim) (dc_token claim))) (\<lambda>txt_ok.
          if \<not> txt_ok then db_lift (Inl (bad_request ''DNS TXT record not found or does not match verification token''))
          else db_bind (set_where_id env i (\<lambda>r. r\<lparr>dr_status := ''verified'', dr_verified_at := Some (de_to_rfc3339 env t2)\<rparr>))
                 (\<lambda>_. db_lift (Inr (claim\<lparr>dc_status := ClaimVerified, dc_verified_at := Some (de_to_rfc3339 env t2)\<rparr>))))) db')))"
  proof (cases "into_claim row")
    case (Inr c)
    note c = into_claim_Inr [OF Inr]
    consider e where "check_txt dns rnd (de_txt_prefix env) (dr_domain row) (dr_token row) = Inl e"
      | b where "check_txt dns rnd (de_txt_prefix env) (dr_domain row) (dr_token row) = Inr b" by (metis sum.exhaust)
    then show ?thesis
      by cases (use later w(1) Inr c good bad set_inv in \<open>auto simp: db_bind_rows_lift\<close>)
  qed (use later w(1) in simp)
qed

lemma register_inv:
  assumes "domains_inv env ops (db_rows db)" "primary_key env"
  shows "domains_inv env (ops @ [DRegister tenant d i token t1 t2]) (db_rows (snd (register_domain env tenant d i token t1 t2 db)))"
proof -
  let ?op = "DRegister tenant d i token t1 t2"
  have later: "domains_inv env (ops @ [?op]) (db_rows db)" using assms(1) by (rule domains_inv_later)
  have ins: "domains_inv env (ops @ [?op]) (db_rows (snd (db_execute error_from_libsql (sql_insert (de_check env)
     \<lparr>dr_id = i, dr_tenant_id = tenant, dr_domain = domain, dr_token = token, dr_status = ''pending'',
      dr_use_for_email = False, dr_use_for_routing = False, dr_created_at = de_to_rfc3339 env t2, dr_verified_at = None\<rparr>) db')))"
    (is "domains_inv _ _ (db_rows (snd (db_execute _ (sql_insert _ ?r) _)))")
    if "db_rows db' = db_rows db" "validate_domain (de_lower env) d = Inr domain" for db' domain
  proof (rule db_execute_rows)
    fix n rows'
    assume "sql_insert (de_check env) ?r (db_rows db') = Inr (n, rows')"
    then have r: "rows' = db_rows db @ [?r]" "distinct (map dr_id rows')"
      using assms(2) that(1) unfolding sql_insert_Inr primary_key_def by metis+
    have "row_history env (ops @ [?op]) ?r"
      using that(2) subseq_now [of "[]" ops ?op] by (auto simp: row_history_def registered_by_def)
    with later r show "domains_inv env (ops @ [?op]) rows'" by (simp add: domains_inv_def)
  qed (use later that in simp)
  show ?thesis
    unfolding register_domain_def
  proof (rule db_bind_rows, goal_cases)
    case (2 domain db1)
    then have 1: "db1 = db" "validate_domain (de_lower env) d = Inr domain" by auto
    show ?case
    proof (rule db_bind_rows, goal_cases)
      case (2 existing db2)
      then have 3: "db_rows db2 = db_rows db" using query_optional_Inr 1(1) by blast
      have "domains_inv env (ops @ [?op]) (db_rows db2)" using later 3 by simp
      then show ?case by (rule_tac db_bind_rows) (auto simp: db_bind_rows_lift Let_def ins [OF 3 1(2)] split: option.split)
    qed (use later 1 in simp)
  qed (use later in simp)
qed

lemma domain_exec_inv:
  assumes "domains_inv env ops (db_rows db)" "primary_key env"
  shows "domains_inv env (ops @ [op]) (db_rows (domain_exec env op db))"
proof (cases op)
  case (DRemove i)
  have "domains_inv env (ops @ [op]) (db_rows (snd (db_execute error_from_libsql (sql_delete (\<lambda>r. dr_id r = i)) db)))"
    by (rule db_execute_rows) (use domains_inv_later [OF assms(1), of op] in \<open>auto simp: domains_inv_def distinct_map_filter\<close>)
  then show ?thesis by (simp add: DRemove remove_claim_def db_bind_rows_lift)
next
  case (DEnableEmail i)
  show ?thesis unfolding DEnableEmail domain_exec.simps enable_email_def
    by (rule enable_inv [OF assms]) (use assms(1) row_history_enabled(1) in \<open>fastforce simp: domains_inv_def\<close>)
next
  case (DEnableRouting i)
  show ?thesis unfolding DEnableRouting domain_exec.simps enable_routing_def
    by (rule enable_inv [OF assms]) (use assms(1) row_history_enabled(2) in \<open>fastforce simp: domains_inv_def\<close>)
next
  case (DDisableEmail i)
  have "domains_inv env (ops @ [op]) (db_rows (snd (set_where_id env i (\<lambda>r. r\<lparr>dr_use_for_email := False\<rparr>) db)))"
    by (rule set_where_id_inv [OF assms])
      (use assms(1) row_history_flags(1) row_history_later in \<open>fastforce simp: domains_inv_def\<close>)
  then show ?thesis by (simp add: DDisableEmail disable_email_def db_bind_rows_lift)
next
  case (DDisableRouting i)
  have "domains_inv env (ops @ [op]) (db_rows (snd (set_where_id env i (\<lambda>r. r\<lparr>dr_use_for_routing := False\<rparr>) db)))"
    by (rule set_where_id_inv [OF assms])
      (use assms(1) row_history_flags(2) row_history_later in \<open>fastforce simp: domains_inv_def\<close>)
  then show ?thesis by (simp add: DDisableRouting disable_routing_def db_bind_rows_lift)
qed (use assms register_inv verify_inv in simp_all)

lemma domain_run_inv:
  "primary_key env \<Longrightarrow> db_rows db = [] \<Longrightarrow> domains_inv env ops (db_rows (fold (domain_exec env) ops db))"
proof (induction ops rule: rev_induct)
  case (snoc op ops)
  then show ?case using domain_exec_inv [of env ops "fold (domain_exec env) ops db" op] by simp
qed (simp add: domains_inv_def)

section \<open>Properties\<close>

text \<open>C24. A host name is only ever routed to a tenant that proved control of it: if, after any sequence of
  calls on an empty table, failing ones included, \<^verbatim>\<open>lookup_routing_domain\<close> answers with a tenant, then that
  tenant registered the name and got a token, a later verification found exactly that token
  in the TXT records of the name, not more than 48 hours after the registration's time stamp,
  and routing was enabled for the claim after that.\<close>

theorem routed_domain_verified:
  assumes "primary_key env" "db_rows db = []"
    "lookup_routing_domain env d (fold (domain_exec env) ops db) = (Inr (Some m), db')"
  shows "validate_domain (de_lower env) d = Inr (tm_domain m) \<and>
     (\<exists>i d0 token dns rnd t1 t2 t3 t4.
        subseq [DRegister (tm_tenant_id m) d0 i token t1 t2, DVerify i dns rnd t3 t4, DEnableRouting i] ops \<and>
        validate_domain (de_lower env) d0 = Inr (tm_domain m) \<and>
        check_txt dns rnd (de_txt_prefix env) (tm_domain m) token = Inr True \<and>
        \<not> is_expired env t3 (de_to_rfc3339 env t2))"
proof -
  obtain domain where v: "validate_domain (de_lower env) d = Inr domain"
    and q: "query_optional match_row (filter (\<lambda>r. dr_domain r = domain \<and> dr_status r = ''verified'' \<and> dr_use_for_routing r))
        (fold (domain_exec env) ops db) = (Inr (Some m), db')"
    using assms(3) by (auto simp: lookup_routing_domain_def db_lift_eq)
  obtain r rs where "filter (\<lambda>r. dr_domain r = domain \<and> dr_status r = ''verified'' \<and> dr_use_for_routing r)
        (db_rows (fold (domain_exec env) ops db)) = r # rs" and mr: "match_row r = Inr m"
    using query_optional_Inr [OF q] by (auto split: list.splits)
  then have "r \<in> set (filter (\<lambda>r. dr_domain r = domain \<and> dr_status r = ''verified'' \<and> dr_use_for_routing r)
        (db_rows (fold (domain_exec env) ops db)))" by simp
  then have r: "r \<in> set (db_rows (fold (domain_exec env) ops db))" "dr_domain r = domain" "dr_use_for_routing r" by auto
  have m: "m = \<lparr>tm_tenant_id = dr_tenant_id r, tm_domain = domain\<rparr>" using mr r(2) by (simp add: match_row_def)
  have "row_history env ops r" using domain_run_inv [OF assms(1,2)] r(1) by (simp add: domains_inv_def)
  with r(3) obtain R V where RV: "registered_by env r R" "verified_by env r V" "subseq [R, V, DEnableRouting (dr_id r)] ops"
    unfolding row_history_def by blast
  then show ?thesis using v m r(2) unfolding registered_by_def verified_by_def by fastforce
qed

definition demo_domain_env :: domain_env where
  "demo_domain_env =
     \<lparr>de_lower = map to_ascii_lowercase, de_to_rfc3339 = (\<lambda>t. replicate (nat t) CHR ''x''),
      de_parse_rfc3339 = (\<lambda>s. Some (int (length s))),
      de_check = (\<lambda>rows. if distinct (map dr_id rows) then None else Some (SqliteFailure 1555 ''UNIQUE'')),
      de_txt_prefix = ''_modo-verify''\<rparr>"

definition demo_dns :: dns_env where
  "demo_dns =
     \<lparr>dns_name_ok = (\<lambda>_. True), dns_build = (\<lambda>qid d rt. Some [1]),
      dns_parse = (\<lambda>_. Some \<lparr>pk_id = 1, pk_rcode = NoError, pk_answers = [RTxt [(''tok1'', None), (''tok2'', None)]]\<rparr>),
      dns_net = (\<lambda>q. Received q)\<rparr>"

definition demo_domain_ops :: "domain_op list" where
  "demo_domain_ops =
     [DRegister ''acme'' ''Shop.Acme.com'' ''c1'' ''tok1'' 0 0, DVerify ''c1'' demo_dns 0 5 6, DEnableRouting ''c1'']"

definition demo_domain_db :: domain_db where
  "demo_domain_db = \<lparr>db_rows = [], db_faults = []\<rparr>"

lemma demo_primary_key: "primary_key demo_domain_env"
  by (simp add: primary_key_def demo_domain_env_def)

theorem routed_domain_verified_witness:
  "\<exists>i d0 token dns rnd. validate_domain (map to_ascii_lowercase) d0 = Inr ''shop.acme.com'' \<and>
     check_txt dns rnd ''_modo-verify'' ''shop.acme.com'' token = Inr True"
proof -
  let ?l = "lookup_routing_domain demo_domain_env ''SHOP.acme.com'' (fold (domain_exec demo_domain_env) demo_domain_ops demo_domain_db)"
  have f: "fst ?l = Inr (Some \<lparr>tm_tenant_id = ''acme'', tm_domain = ''shop.acme.com''\<rparr>)" "db_rows demo_domain_db = []" by code_simp+
  then have "?l = (Inr (Some \<lparr>tm_tenant_id = ''acme'', tm_domain = ''shop.acme.com''\<rparr>), snd ?l)" by (metis prod.collapse)
  from routed_domain_verified [OF demo_primary_key f(2) this] show ?thesis
    by (auto simp: demo_domain_env_def)
qed

definition label_ok :: "string \<Rightarrow> bool" where
  "label_ok l \<longleftrightarrow> l \<noteq> [] \<and> length l \<le> 63 \<and> hd l \<noteq> CHR ''-'' \<and> last l \<noteq> CHR ''-'' \<and>
     list_all (\<lambda>c. is_ascii_alphanumeric c \<or> c = CHR ''-'') l"

definition ascii_lower :: "char \<Rightarrow> bool" where
  "ascii_lower c \<longleftrightarrow> \<not> (65 \<le> (of_char c :: nat) \<and> (of_char c :: nat) \<le> 90)"

lemma hyphen_ends:
  "starts_with ''-'' l \<longleftrightarrow> l \<noteq> [] \<and> hd l = CHR ''-''" "ends_with ''-'' l \<longleftrightarrow> l \<noteq> [] \<and> last l = CHR ''-''"
proof -
  show "starts_with ''-'' l \<longleftrightarrow> l \<noteq> [] \<and> hd l = CHR ''-''" by (cases l) (auto simp: starts_with_def)
  show "ends_with ''-'' l \<longleftrightarrow> l \<noteq> [] \<and> last l = CHR ''-''" by (cases l rule: rev_cases) (auto simp: ends_with_def)
qed

lemma check_labels_Inr: "check_labels ls = Inr u \<longleftrightarrow> list_all label_ok ls"
  by (induction ls) (auto simp: label_ok_def hyphen_ends)

lemma validate_domain_Inr:
  "validate_domain lower d = Inr x \<longleftrightarrow>
     x = lower (str_trim d) \<and> x \<noteq> [] \<and> CHR ''.'' \<in> set x \<and> \<not> starts_with ''.'' x \<and> \<not> ends_with ''.'' x \<and>
     length x \<le> 253 \<and> list_all label_ok (split_on CHR ''.'' x)"
proof (cases "check_labels (split_on CHR ''.'' (lower (str_trim d)))")
  case (Inl e)
  then show ?thesis using check_labels_Inr [of "split_on CHR ''.'' (lower (str_trim d))"] by (auto simp: validate_domain_def Let_def)
next
  case (Inr u)
  then show ?thesis using check_labels_Inr [of "split_on CHR ''.'' (lower (str_trim d))"] by (auto simp: validate_domain_def Let_def)
qed

lemma labels_bytes:
  assumes "list_all label_ok (split_on CHR ''.'' x)" "c \<in> set x"
  shows "45 \<le> (of_char c :: nat) \<and> (of_char c :: nat) \<le> 122"
proof (cases "c = CHR ''.''")
  case False
  then obtain l where "l \<in> set (split_on CHR ''.'' x)" "c \<in> set l" using split_on_cover assms(2) by metis
  then have "is_ascii_alphanumeric c \<or> c = CHR ''-''" using assms(1) by (auto simp: list_all_iff label_ok_def)
  then show ?thesis using alphanumeric_range [of c] by auto
qed simp

lemma ascii_lower_fixed: "list_all ascii_lower s \<Longrightarrow> map to_ascii_lowercase s = s"
  by (induction s) (auto simp: ascii_lower_def to_ascii_lowercase_def Let_def)

text \<open>C25. Domain names are stored in one canonical form: what \<^verbatim>\<open>validate_domain\<close> accepts it turns into at least
  two labels of 1 to 63 lower-case letters, digits and hyphens, with no hyphen at either
  end, at most 253 bytes in all, and validating that form again gives it back; under the laws
  that lower-casing an ASCII text works letter by letter and never leaves an upper-case ASCII letter.\<close>

theorem validated_domain_canonical:
  assumes "validate_domain lower d = Inr x"
    "\<And>s. list_all (\<lambda>c. of_char c < (128 :: nat)) s \<Longrightarrow> lower s = map to_ascii_lowercase s" "\<And>s. list_all ascii_lower (lower s)"
  shows "validate_domain lower x = Inr x \<and> length x \<le> 253 \<and> 2 \<le> length (split_on CHR ''.'' x) \<and>
     (\<forall>l \<in> set (split_on CHR ''.'' x). l \<noteq> [] \<and> length l \<le> 63 \<and> hd l \<noteq> CHR ''-'' \<and> last l \<noteq> CHR ''-'' \<and>
        (\<forall>c \<in> set l. is_ascii_alphanumeric c \<and> ascii_lower c \<or> c = CHR ''-''))"
proof -
  have x: "x = lower (str_trim d)" "CHR ''.'' \<in> set x" "length x \<le> 253" "list_all label_ok (split_on CHR ''.'' x)"
    using assms(1) unfolding validate_domain_Inr by blast+
  have bytes: "45 \<le> (of_char c :: nat) \<and> (of_char c :: nat) \<le> 122" if "c \<in> set x" for c
    using labels_bytes [OF x(4) that] .
  have low: "list_all ascii_lower x" using assms(3) x(1) by simp
  have "str_trim x = x"
  proof (rule str_trim_none)
    show "\<not> ws_byte c" if "c \<in> set x" for c using bytes [OF that] ws_byte_range [of c] by linarith
  qed
  moreover have "list_all (\<lambda>c. of_char c < (128 :: nat)) x"
    unfolding list_all_iff
  proof
    show "of_char c < (128 :: nat)" if "c \<in> set x" for c using bytes [OF that] by linarith
  qed
  then have "lower x = x" using assms(2) ascii_lower_fixed [OF low] by simp
  ultimately have "x = lower (str_trim x)" by simp
  then have "validate_domain lower x = Inr x" using assms(1) unfolding validate_domain_Inr by blast
  moreover have "ascii_lower c" if "l \<in> set (split_on CHR ''.'' x)" "c \<in> set l" for l c
    using low split_on_pieces [OF that(1)] that(2) by (auto simp: list_all_iff)
  ultimately show ?thesis
    using x(3) split_on_two [OF x(2)] x(4) by (auto simp: list_all_iff label_ok_def)
qed

lemma ascii_lower_map: "list_all ascii_lower (map to_ascii_lowercase s)"
proof -
  have "ascii_lower (to_ascii_lowercase c)" for c
    by (auto simp: ascii_lower_def to_ascii_lowercase_def Let_def)
  then show ?thesis by (simp add: list_all_iff)
qed

theorem validated_domain_canonical_witness:
  "validate_domain (map to_ascii_lowercase) ''my-shop.example'' = Inr ''my-shop.example''"
proof -
  have "validate_domain (map to_ascii_lowercase) '' My-Shop.example '' = Inr ''my-shop.example''" by code_simp
  from validated_domain_canonical [OF this _ ascii_lower_map] show ?thesis by blast
qed

section \<open>One domain, two tenants\<close>

text \<open>With no more than the primary key, two tenants that publish their tokens in turn both hold the domain
  as verified, and the lookup answers with either.\<close>

lemma domain_verified_twice:
  "map dr_tenant_id (filter (\<lambda>r. dr_domain r = ''shop.acme.com'' \<and> dr_status r = ''verified'')
     (db_rows (fold (domain_exec demo_domain_env)
        [DRegister ''acme'' ''shop.acme.com'' ''c1'' ''tok1'' 0 0, DRegister ''evil'' ''shop.acme.com'' ''c2'' ''tok2'' 0 0,
         DVerify ''c1'' demo_dns 0 5 6, DVerify ''c2'' demo_dns 0 5 6] demo_domain_db))) = [''acme'', ''evil'']"
  by code_simp

end
