(* ===== verification/Webhook.thy ===== *)
theory Webhook
  imports Text Encoding
begin

text \<open>
  Signed webhooks (\<^verbatim>\<open>src/src/webhook\<close>): secrets, signatures over id, time stamp and body, the headers that
  carry them, and the sender. HMAC-SHA256 and the base64 crate are the fields of \<open>webhook_env\<close>; the HTTP
  client that delivers is a function.
\<close>

record webhook_env =
  wh_hmac :: "u8 list \<Rightarrow> u8 list \<Rightarrow> u8 list"
  wh_encode :: "u8 list \<Rightarrow> string"
  wh_decode :: "string \<Rightarrow> string + u8 list"

section \<open>Secrets\<close>

datatype webhook_secret = WebhookSecret (secret_bytes: "u8 list")

definition WHSEC_PREFIX :: string where
  "WHSEC_PREFIX = ''whsec_''"

text \<open>\<open>rnd\<close> are the 24 random bytes.\<close>

definition webhook_secret_generate :: "u8 list \<Rightarrow> webhook_secret" where
  "webhook_secret_generate rnd = WebhookSecret (take 24 rnd)"

definition webhook_secret_from_str :: "webhook_env \<Rightarrow> string \<Rightarrow> webhook_secret result" where
  "webhook_secret_from_str env s =
     bind_res (ok_or (bad_request (''webhook secret must start with '' @ [CHR 0x27] @ ''whsec_'' @ [CHR 0x27])) (strip_prefix WHSEC_PREFIX s)) (\<lambda>encoded.
     bind_res (map_err (\<lambda>e. bad_request (''invalid base64 in webhook secret: '' @ e)) (wh_decode env encoded)) (\<lambda>key.
     Inr (WebhookSecret key)))"

definition webhook_secret_display :: "webhook_env \<Rightarrow> webhook_secret \<Rightarrow> string" where
  "webhook_secret_display env s = WHSEC_PREFIX @ wh_encode env (secret_bytes s)"

section \<open>Signatures\<close>

definition webhook_sign :: "webhook_env \<Rightarrow> webhook_secret \<Rightarrow> u8 list \<Rightarrow> string" where
  "webhook_sign env s content = wh_encode env (wh_hmac env (secret_bytes s) content)"

definition webhook_verify :: "webhook_env \<Rightarrow> webhook_secret \<Rightarrow> u8 list \<Rightarrow> string \<Rightarrow> bool" where
  "webhook_verify env s content signature =
     (case wh_decode env signature of
        Inl _ \<Rightarrow> False
      | Inr sig_bytes \<Rightarrow> wh_hmac env (secret_bytes s) content = sig_bytes)"

record signed_headers =
  sh_webhook_id :: string
  sh_webhook_timestamp :: int
  sh_webhook_signature :: string

definition build_signed_content :: "string \<Rightarrow> int \<Rightarrow> u8 list \<Rightarrow> u8 list" where
  "build_signed_content wid timestamp body = as_bytes (wid @ ''.'' @ int_dec timestamp @ ''.'') @ body"

text \<open>No secret is a panic.\<close>

definition sign_headers :: "webhook_env \<Rightarrow> webhook_secret list \<Rightarrow> string \<Rightarrow> int \<Rightarrow> u8 list \<Rightarrow> signed_headers option" where
  "sign_headers env secrets wid timestamp body =
     (if secrets = [] then None
      else
        (let content = build_signed_content wid timestamp body;
             sigs = map (\<lambda>s. ''v1,'' @ webhook_sign env s content) secrets
         in Some \<lparr>sh_webhook_id = wid, sh_webhook_timestamp = timestamp, sh_webhook_signature = join_with '' '' sigs\<rparr>))"

definition webhook_header :: "parts \<Rightarrow> string \<Rightarrow> string result" where
  "webhook_header parts name =
     bind_res (ok_or (bad_request (''missing '' @ name @ '' header'')) (header_get parts name)) (\<lambda>v.
     ok_or (bad_request (''invalid '' @ name @ '' header encoding'')) (header_to_str v))"

text \<open>Every \<^verbatim>\<open>v1\<close> entry against every secret.\<close>

fun any_signature :: "webhook_env \<Rightarrow> webhook_secret list \<Rightarrow> u8 list \<Rightarrow> string list \<Rightarrow> bool" where
  "any_signature env secrets content [] = False"
| "any_signature env secrets content (entry # entries) =
     (case strip_prefix ''v1,'' entry of
        None \<Rightarrow> any_signature env secrets content entries
      | Some raw_sig \<Rightarrow>
          if list_ex (\<lambda>s. webhook_verify env s content raw_sig) secrets then True
          else any_signature env secrets content entries)"

definition verify_headers ::
  "webhook_env \<Rightarrow> webhook_secret list \<Rightarrow> parts \<Rightarrow> u8 list \<Rightarrow> nat \<Rightarrow> int \<Rightarrow> unit result" where
  "verify_headers env secrets parts body tolerance_secs now =
     bind_res (webhook_header parts ''webhook-id'') (\<lambda>wid.
     bind_res (webhook_header parts ''webhook-timestamp'') (\<lambda>ts_str.
     bind_res (webhook_header parts ''webhook-signature'') (\<lambda>sig_header.
     bind_res (ok_or (bad_request ''invalid webhook-timestamp'') (parse_i64 ts_str)) (\<lambda>timestamp.
     let diff = nat \<bar>i64_wrap (now - timestamp)\<bar>
     in if tolerance_secs < diff then Inl (bad_request ''webhook timestamp outside tolerance'')
        else if any_signature env secrets (build_signed_content wid timestamp body) (split_on CHR '' '' sig_header)
        then Inr () else Inl (bad_request ''no valid webhook signature found'')))))"

section \<open>Sending\<close>

text \<open>\<open>url_error\<close> is the error text of parsing the URL; \<open>post\<close> delivers the request.\<close>

definition parse_header_value :: "error \<Rightarrow> string \<Rightarrow> string result" where
  "parse_header_value e v = (if list_all header_value_byte v then Inr v else Inl e)"

definition with_user_agent :: "string \<Rightarrow> string \<Rightarrow> string" where
  "with_user_agent ua old = (if list_all header_value_byte ua then ua else old)"

definition webhook_send ::
  "webhook_env \<Rightarrow> (string \<Rightarrow> string option) \<Rightarrow> (string \<Rightarrow> (string \<times> string) list \<Rightarrow> u8 list \<Rightarrow> 'r result) \<Rightarrow> string \<Rightarrow>
   int \<Rightarrow> string \<Rightarrow> string \<Rightarrow> u8 list \<Rightarrow> webhook_secret list \<Rightarrow> 'r result" where
  "webhook_send env url_error post user_agent now url wid body secrets =
     (if secrets = [] then Inl (bad_request ''at least one secret required'')
      else if wid = [] then Inl (bad_request ''webhook id must not be empty'')
      else case url_error url of
        Some e \<Rightarrow> Inl (bad_request (''invalid webhook url: '' @ e))
      | None \<Rightarrow>
          (case sign_headers env secrets wid now body of
             None \<Rightarrow> Inl (bad_request ''at least one secret required'')
           | Some sh \<Rightarrow>
               bind_res (parse_header_value (internal ''invalid user-agent header value'') user_agent) (\<lambda>ua.
               bind_res (parse_header_value (bad_request ''webhook id contains invalid header characters'') (sh_webhook_id sh)) (\<lambda>idv.
               bind_res (parse_header_value (internal ''generated invalid webhook-signature header'') (sh_webhook_signature sh)) (\<lambda>sv.
               post url [(''content-type'', ''application/json''), (''user-agent'', ua), (''webhook-id'', idv),
                         (''webhook-timestamp'', int_dec (sh_webhook_timestamp sh)), (''webhook-signature'', sv)] body)))))"

section \<open>Lemmas\<close>

lemma any_signature_iff:
  "any_signature env secrets content entries \<longleftrightarrow>
     (\<exists>raw s. ''v1,'' @ raw \<in> set entries \<and> s \<in> set secrets \<and> webhook_verify env s content raw)"
proof (induction env secrets content entries rule: any_signature.induct)
  case (2 env secrets content entry entries)
  note strip = strip_prefix_iff(1) [of "''v1,''" entry]
  show ?case
  proof (cases "strip_prefix ''v1,'' entry")
    case None
    then have "entry \<noteq> ''v1,'' @ raw" for raw using strip by auto
    with 2(1) None show ?thesis by auto
  next
    case (Some raw)
    then have e: "entry = ''v1,'' @ raw" using strip by blast
    show ?thesis
    proof (cases "list_ex (\<lambda>s. webhook_verify env s content raw) secrets")
      case True
      then show ?thesis using Some e by (auto simp: list_ex_iff)
    next
      case False
      then show ?thesis using 2(2) [OF Some] Some e by (auto simp: list_ex_iff)
    qed
  qed
qed simp

text \<open>In the range of real clocks the wrap-around cannot bring a far time stamp near.\<close>

lemma i64_wrap_near:
  assumes "0 \<le> now" "now < 2 ^ 62" "- (2 ^ 63) \<le> t" "t < 2 ^ 63" "\<bar>i64_wrap (now - t)\<bar> \<le> d" "d < 2 ^ 62"
  shows "i64_wrap (now - t) = now - t"
proof (cases "now - t < 2 ^ 63")
  case True
  then show ?thesis using assms(1,4) by (simp add: i64_wrap_def)
next
  case False
  have "now - t + 2 ^ 63 = (now - t - 2 ^ 63) + 2 ^ 64" by simp
  then have "(now - t + 2 ^ 63) mod 2 ^ 64 = ((now - t - 2 ^ 63) + 2 ^ 64) mod 2 ^ 64" by metis
  also have "\<dots> = now - t - 2 ^ 63"
    unfolding mod_add_self2 using False assms(2,3) by (intro mod_pos_pos_trivial) simp_all
  finally have "i64_wrap (now - t) = now - t - 2 ^ 64" by (simp add: i64_wrap_def)
  then show ?thesis using assms(2,3,5,6) by simp
qed

lemma parse_i64_range: "parse_i64 s = Some i \<Longrightarrow> - (2 ^ 63) \<le> i \<and> i < 2 ^ 63"
  by (auto simp: parse_i64_def Let_def bind_eq_Some_conv split: list.splits if_splits)

section \<open>Properties\<close>

text \<open>C29. A webhook that verifies is authentic and fresh: the signature header has a \<^verbatim>\<open>v1\<close> entry that decodes to
  the HMAC, under one of the receiver's secrets, of exactly the id and the time stamp of the
  headers and the body received, and that time stamp is within the tolerance of the receiver's
  clock; the subtraction of the two does not wrap for clocks and tolerances below \<^verbatim>\<open>2^62\<close> seconds.\<close>

theorem webhook_authentic:
  assumes "verify_headers env secrets parts body tolerance now = Inr ()"
    "0 \<le> now" "now < 2 ^ 62" "tolerance < 2 ^ 62"
  shows "\<exists>wid ts sigs raw t s. header_str parts ''webhook-id'' = Some wid \<and> header_str parts ''webhook-timestamp'' = Some ts \<and>
     header_str parts ''webhook-signature'' = Some sigs \<and> parse_i64 ts = Some t \<and> \<bar>now - t\<bar> \<le> int tolerance \<and>
     ''v1,'' @ raw \<in> set (split_on CHR '' '' sigs) \<and> s \<in> set secrets \<and>
     wh_decode env raw = Inr (wh_hmac env (secret_bytes s) (build_signed_content wid t body))"
proof -
  have hdr: "webhook_header parts name = Inr v \<longleftrightarrow> header_str parts name = Some v" for name v
    by (auto simp: webhook_header_def header_str_def result_simps bind_eq_Some_conv split: option.splits)
  obtain wid ts sigs t where h: "header_str parts ''webhook-id'' = Some wid" "header_str parts ''webhook-timestamp'' = Some ts"
     "header_str parts ''webhook-signature'' = Some sigs" "parse_i64 ts = Some t"
    and d: "nat \<bar>i64_wrap (now - t)\<bar> \<le> tolerance" "any_signature env secrets (build_signed_content wid t body) (split_on CHR '' '' sigs)"
    using assms(1) by (auto simp: verify_headers_def result_simps hdr Let_def split: option.splits if_splits)
  have w: "\<bar>i64_wrap (now - t)\<bar> \<le> int tolerance" "int tolerance < 2 ^ 62" using d(1) assms(4) by auto
  have r: "- (2 ^ 63) \<le> t" "t < 2 ^ 63" using parse_i64_range [OF h(4)] by blast+
  have "\<bar>now - t\<bar> \<le> int tolerance" using i64_wrap_near [OF assms(2,3) r w] w(1) by simp
  moreover obtain raw s where "''v1,'' @ raw \<in> set (split_on CHR '' '' sigs)" "s \<in> set secrets"
      "webhook_verify env s (build_signed_content wid t body) raw"
    using d(2) unfolding any_signature_iff by blast
  ultimately show ?thesis using h by (auto simp: webhook_verify_def split: sum.splits)
qed

definition demo_webhook :: webhook_env where
  "demo_webhook = \<lparr>wh_hmac = (\<lambda>key content. take 4 (key @ content)), wh_encode = base64url_encode,
     wh_decode = (\<lambda>s. map_err err_message (base64url_decode s))\<rparr>"

theorem webhook_authentic_witness:
  "\<exists>raw s. wh_decode demo_webhook raw = Inr (wh_hmac demo_webhook (secret_bytes s) (build_signed_content ''m1'' 100 [9]))"
proof -
  let ?parts = "\<lparr>p_headers = [(''webhook-id'', ''m1''), (''webhook-timestamp'', ''100''), (''webhook-signature'', ''v0,x v1,AQIDbQ'')], p_query = None\<rparr>"
  have v: "verify_headers demo_webhook [WebhookSecret [1, 2, 3]] ?parts [9] 5 103 = Inr ()" by code_simp
  have n: "(0 :: int) \<le> 103" "(103 :: int) < 2 ^ 62" "(5 :: nat) < 2 ^ 62" by simp_all
  have "header_str ?parts ''webhook-id'' = Some ''m1''" "header_str ?parts ''webhook-timestamp'' = Some ''100''" "parse_i64 ''100'' = Some 100"
    by code_simp+
  moreover obtain wid ts raw t s where "header_str ?parts ''webhook-id'' = Some wid" "header_str ?parts ''webhook-timestamp'' = Some ts"
     "parse_i64 ts = Some t" "wh_decode demo_webhook raw = Inr (wh_hmac demo_webhook (secret_bytes s) (build_signed_content wid t [9]))"
    using webhook_authentic [OF v n] by blast
  ultimately show ?thesis by (metis option.inject)
qed

text \<open>The headers a sender produces, as the receiver's request.\<close>

definition signed_parts :: "signed_headers \<Rightarrow> parts" where
  "signed_parts sh =
     \<lparr>p_headers = [(''webhook-id'', sh_webhook_id sh), (''webhook-timestamp'', int_dec (sh_webhook_timestamp sh)),
        (''webhook-signature'', sh_webhook_signature sh)], p_query = None\<rparr>"

lemma signed_parts_headers:
  "list_all visible_ascii (sh_webhook_id sh) \<Longrightarrow> webhook_header (signed_parts sh) ''webhook-id'' = Inr (sh_webhook_id sh)"
  "list_all visible_ascii (int_dec (sh_webhook_timestamp sh)) \<Longrightarrow>
     webhook_header (signed_parts sh) ''webhook-timestamp'' = Inr (int_dec (sh_webhook_timestamp sh))"
  "list_all visible_ascii (sh_webhook_signature sh) \<Longrightarrow>
     webhook_header (signed_parts sh) ''webhook-signature'' = Inr (sh_webhook_signature sh)"
proof -
  have low: "map to_ascii_lowercase ''webhook-id'' = ''webhook-id''" "map to_ascii_lowercase ''webhook-timestamp'' = ''webhook-timestamp''"
    "map to_ascii_lowercase ''webhook-signature'' = ''webhook-signature''" by code_simp+
  have "header_get (signed_parts sh) ''webhook-id'' = Some (sh_webhook_id sh)"
    "header_get (signed_parts sh) ''webhook-timestamp'' = Some (int_dec (sh_webhook_timestamp sh))"
    "header_get (signed_parts sh) ''webhook-signature'' = Some (sh_webhook_signature sh)"
    unfolding header_get_def low signed_parts_def by simp_all
  then show "list_all visible_ascii (sh_webhook_id sh) \<Longrightarrow> webhook_header (signed_parts sh) ''webhook-id'' = Inr (sh_webhook_id sh)"
    "list_all visible_ascii (int_dec (sh_webhook_timestamp sh)) \<Longrightarrow>
       webhook_header (signed_parts sh) ''webhook-timestamp'' = Inr (int_dec (sh_webhook_timestamp sh))"
    "list_all visible_ascii (sh_webhook_signature sh) \<Longrightarrow>
       webhook_header (signed_parts sh) ''webhook-signature'' = Inr (sh_webhook_signature sh)"
    by (simp_all add: webhook_header_def header_to_str_def result_simps)
qed

text \<open>C30. Sender and receiver agree: what \<^verbatim>\<open>sign_headers\<close> produces with a list of secrets verifies at a receiver
  that has any one of them, also while secrets are rotated, as long as the time stamp is within the receiver's
  tolerance. The base64 crate's laws are that it decodes what it encodes and that its texts
  are visible characters other than the space.\<close>

theorem webhook_roundtrip:
  assumes "sign_headers env senders wid t body = Some sh" "s \<in> set senders" "s \<in> set receivers"
    "list_all visible_ascii wid" "- (2 ^ 63) \<le> t" "t < 2 ^ 63" "- (2 ^ 63) \<le> now - t" "now - t < 2 ^ 63" "\<bar>now - t\<bar> \<le> int tolerance"
    "\<And>b. wh_decode env (wh_encode env b) = Inr b" "\<And>b. list_all (\<lambda>c. visible_ascii c \<and> c \<noteq> CHR '' '') (wh_encode env b)"
  shows "verify_headers env receivers (signed_parts sh) body tolerance now = Inr ()"
proof -
  let ?c = "build_signed_content wid t body"
  let ?sigs = "map (\<lambda>s. ''v1,'' @ webhook_sign env s ?c) senders"
  have sh: "sh = \<lparr>sh_webhook_id = wid, sh_webhook_timestamp = t, sh_webhook_signature = join_with '' '' ?sigs\<rparr>" "senders \<noteq> []"
    using assms(1) by (auto simp: sign_headers_def Let_def split: if_splits)
  have vis: "list_all (\<lambda>c. visible_ascii c \<and> c \<noteq> CHR '' '') sg" if "sg \<in> set ?sigs" for sg
    using that assms(11) by (auto simp: webhook_sign_def visible_ascii_def Let_def)
  have "list_all (list_all visible_ascii) ?sigs" using vis unfolding list_all_iff by blast
  moreover have "list_all visible_ascii '' ''" by code_simp
  ultimately have vsig: "list_all visible_ascii (join_with '' '' ?sigs)" by (intro list_all_join)
  have "is_ascii_digit c \<Longrightarrow> visible_ascii c" for c by (auto simp: visible_ascii_def is_ascii_digit_def Let_def)
  then have vdec: "list_all visible_ascii (nat_dec n)" for n using nat_dec_digits [of n] by (auto simp: list_all_iff)
  have "visible_ascii CHR ''-''" by code_simp
  then have vts: "list_all visible_ascii (int_dec t)" using vdec by (simp add: int_dec_def)
  have flds: "sh_webhook_id sh = wid" "sh_webhook_timestamp sh = t" "sh_webhook_signature sh = join_with '' '' ?sigs"
    unfolding sh(1) signed_headers.select_convs by (rule refl)+
  have hdrs: "webhook_header (signed_parts sh) ''webhook-id'' = Inr wid"
    "webhook_header (signed_parts sh) ''webhook-timestamp'' = Inr (int_dec t)"
    "webhook_header (signed_parts sh) ''webhook-signature'' = Inr (join_with '' '' ?sigs)"
    using signed_parts_headers [of sh, unfolded flds] assms(4) vsig vts by blast+
  have "list_all (\<lambda>x. CHR '' '' \<notin> set x) ?sigs" using vis unfolding list_all_iff by blast
  moreover have "?sigs \<noteq> []" using sh(2) by simp
  ultimately have "split_on CHR '' '' (join_with '' '' ?sigs) = ?sigs" by (intro split_on_join)
  moreover have "webhook_verify env s ?c (webhook_sign env s ?c)" by (simp add: webhook_verify_def webhook_sign_def assms(10))
  ultimately have "any_signature env receivers ?c (split_on CHR '' '' (join_with '' '' ?sigs))"
    using assms(2,3) unfolding any_signature_iff by auto
  moreover have "nat \<bar>i64_wrap (now - t)\<bar> \<le> tolerance" using i64_wrap_in [OF assms(7,8)] assms(9) by simp
  ultimately show ?thesis
    using hdrs parse_int_dec [OF assms(5,6)] by (simp add: verify_headers_def result_simps)
qed

theorem webhook_roundtrip_witness:
  "verify_headers demo_webhook [WebhookSecret [5], WebhookSecret [1, 2, 3]]
     (signed_parts (the (sign_headers demo_webhook [WebhookSecret [1, 2, 3], WebhookSecret [4]] ''m1'' 100 [9]))) [9] 5 103 = Inr ()"
proof (rule webhook_roundtrip [where s = "WebhookSecret [1, 2, 3]" and t = 100])
  show "sign_headers demo_webhook [WebhookSecret [1, 2, 3], WebhookSecret [4]] ''m1'' 100 [9] =
      Some (the (sign_headers demo_webhook [WebhookSecret [1, 2, 3], WebhookSecret [4]] ''m1'' 100 [9]))"
    by (simp add: sign_headers_def Let_def)
  show "wh_decode demo_webhook (wh_encode demo_webhook b) = Inr b" for b
    by (simp add: demo_webhook_def b64.decode_encode result_simps)
  show "list_all (\<lambda>c. visible_ascii c \<and> c \<noteq> CHR '' '') (wh_encode demo_webhook b)" for b
  proof -
    have "set (base64url_encode b) \<subseteq> set ALPHABET64"
      using b64.encode_chars [of _ b] nth_mem [of _ ALPHABET64] by (fastforce simp: length_ALPHABET64)
    moreover have "list_all (\<lambda>c. visible_ascii c \<and> c \<noteq> CHR '' '') ALPHABET64" by code_simp
    ultimately show ?thesis by (auto simp: demo_webhook_def list_all_iff)
  qed
qed (simp_all add: visible_ascii_def)

end
