(* ===== verification/Totp.thy ===== *)
theory Totp
  imports Ids Text
begin

text \<open>
  One-time passwords: \<^verbatim>\<open>src/src/auth/totp.rs\<close> and \<^verbatim>\<open>src/src/auth/otp.rs\<close>. HMAC-SHA1, SHA-256 and percent-encoding are
  parameters, and so are the clock and the random bytes. \<^const>\<open>None\<close> is a panic: a step of zero seconds, or a number of
  digits at which the modulus, a \<^verbatim>\<open>u32\<close>, wraps around to zero.
\<close>

section \<open>TOTP\<close>

record totp_config =
  tc_digits :: nat
  tc_step_secs :: nat
  tc_window :: nat

definition totp_config_default :: totp_config where
  "totp_config_default = \<lparr>tc_digits = 6, tc_step_secs = 30, tc_window = 1\<rparr>"

record totp =
  tt_secret :: "u8 list"
  tt_config :: totp_config

definition totp_new :: "u8 list \<Rightarrow> totp_config \<Rightarrow> totp" where
  "totp_new secret config = \<lparr>tt_secret = secret, tt_config = config\<rparr>"

definition totp_generate_secret :: "u8 list \<Rightarrow> string" where
  "totp_generate_secret rnd = base32_encode (take 20 rnd)"

definition totp_from_base32 :: "string \<Rightarrow> totp_config \<Rightarrow> totp result" where
  "totp_from_base32 encoded config =
     bind_res (map_err (\<lambda>_. bad_request ''invalid base32 secret'') (base32_decode encoded)) (\<lambda>bytes.
     Inr (totp_new bytes config))"

definition to_be_bytes64 :: "nat \<Rightarrow> u8 list" where
  "to_be_bytes64 n = map (\<lambda>i. word_of_nat (n div 256 ^ (7 - i))) [0..<8]"

text \<open>The four bytes at the offset, without the sign bit, modulo a power of ten.\<close>

definition hotp :: "(u8 list \<Rightarrow> u8 list \<Rightarrow> u8 list) \<Rightarrow> u8 list \<Rightarrow> nat \<Rightarrow> nat \<Rightarrow> nat option" where
  "hotp hmac secret counter digits =
     (let result = hmac secret (to_be_bytes64 counter);
          offset = unat (result ! 19 AND 0x0f);
          code = from_be_bytes [result ! offset AND 0x7f, result ! (offset + 1), result ! (offset + 2), result ! (offset + 3)];
          modulus = unat ((10 :: u32) ^ digits)
      in if modulus = 0 then None else Some (code mod modulus))"

text \<open>\<^verbatim>\<open>format!("{:0>width$}", code)\<close>.\<close>

definition pad_code :: "nat \<Rightarrow> nat \<Rightarrow> string" where
  "pad_code width code = replicate (width - length (nat_dec code)) CHR ''0'' @ nat_dec code"

definition generate_at :: "(u8 list \<Rightarrow> u8 list \<Rightarrow> u8 list) \<Rightarrow> totp \<Rightarrow> nat \<Rightarrow> string option" where
  "generate_at hmac t timestamp =
     (if tc_step_secs (tt_config t) = 0 then None
      else map_option (pad_code (tc_digits (tt_config t)))
             (hotp hmac (tt_secret t) (timestamp div tc_step_secs (tt_config t)) (tc_digits (tt_config t))))"

text \<open>The loop looks at every step, without leaving early.\<close>

fun match_steps :: "(u8 list \<Rightarrow> u8 list \<Rightarrow> u8 list) \<Rightarrow> totp \<Rightarrow> string \<Rightarrow> bool \<Rightarrow> nat list \<Rightarrow> bool option" where
  "match_steps hmac t code found [] = Some found"
| "match_steps hmac t code found (step # steps) =
     (case hotp hmac (tt_secret t) step (tc_digits (tt_config t)) of
        None \<Rightarrow> None
      | Some expected \<Rightarrow>
          match_steps hmac t code (found \<or> code = pad_code (tc_digits (tt_config t)) expected) steps)"

definition verify_at :: "(u8 list \<Rightarrow> u8 list \<Rightarrow> u8 list) \<Rightarrow> totp \<Rightarrow> string \<Rightarrow> nat \<Rightarrow> bool option" where
  "verify_at hmac t code timestamp =
     (if tc_step_secs (tt_config t) = 0 then None
      else
        (let current_step = timestamp div tc_step_secs (tt_config t);
             window = tc_window (tt_config t);
             first = current_step - window;
             end_step = (current_step + window) mod 2 ^ 64
         in match_steps hmac t code False [first..<Suc end_step]))"

definition otpauth_uri :: "(string \<Rightarrow> string) \<Rightarrow> totp \<Rightarrow> string \<Rightarrow> string \<Rightarrow> string" where
  "otpauth_uri urlencode t issuer account =
     ''otpauth://totp/'' @ urlencode issuer @ '':'' @ urlencode account @ ''?secret='' @ base32_encode (tt_secret t) @
     ''&issuer='' @ urlencode issuer @ ''&digits='' @ nat_dec (tc_digits (tt_config t)) @
     ''&period='' @ nat_dec (tc_step_secs (tt_config t))"

section \<open>One-time codes by mail\<close>

definition OTP_DIGITS :: string where
  "OTP_DIGITS = ''0123456789''"

definition otp_generate :: "(u8 list \<Rightarrow> u8 list) \<Rightarrow> nat \<Rightarrow> u8 list \<Rightarrow> ((string \<times> string) \<times> u8 list) option" where
  "otp_generate digest len bytes =
     map_option (\<lambda>(code, rest). ((code, hex_sha256 digest (as_bytes code)), rest)) (random_string OTP_DIGITS len bytes)"

definition otp_verify :: "(u8 list \<Rightarrow> u8 list) \<Rightarrow> string \<Rightarrow> string \<Rightarrow> bool" where
  "otp_verify digest code stored_hash = verify_sha256_hex digest (as_bytes code) stored_hash"

section \<open>Lemmas\<close>

lemma pow10_u32: "d \<le> 9 \<Longrightarrow> unat ((10 :: u32) ^ d) = 10 ^ d"
proof -
  assume d: "d \<le> 9"
  have "(10 :: nat) ^ d \<le> 10 ^ 9" using d by (intro power_increasing) simp_all
  also have "\<dots> < 2 ^ 32" by simp
  finally have "(10 :: nat) ^ d < 2 ^ 32" .
  moreover have "(10 :: u32) ^ d = of_nat (10 ^ d)" by simp
  ultimately show ?thesis by (simp only: unat_of_nat take_bit_nat_eq_self_iff) simp
qed

lemma hotp_Some: "d \<le> 9 \<Longrightarrow> \<exists>c < 10 ^ d. hotp hmac secret counter d = Some c"
  by (simp add: hotp_def pow10_u32 Let_def)

lemma length_nat_dec: "n < 10 ^ d \<Longrightarrow> 0 < d \<Longrightarrow> length (nat_dec n) \<le> d"
proof (induction n arbitrary: d rule: nat_dec.induct)
  case (1 n)
  show ?case
  proof (cases "n < 10")
    case True
    then show ?thesis using 1 by (simp add: nat_dec.simps [of n])
  next
    case False
    then obtain e where d: "d = Suc e" "0 < e" using 1(2,3) by (cases d; cases "d - 1") auto
    then have "n div 10 < 10 ^ e" using 1(2) by (simp add: less_mult_imp_div_less mult.commute)
    with 1 False d show ?thesis by (simp add: nat_dec.simps [of n])
  qed
qed

text \<open>The code of a step, and the loop as a search.\<close>

definition step_code :: "(u8 list \<Rightarrow> u8 list \<Rightarrow> u8 list) \<Rightarrow> totp \<Rightarrow> nat \<Rightarrow> string" where
  "step_code hmac t step = pad_code (tc_digits (tt_config t)) (the (hotp hmac (tt_secret t) step (tc_digits (tt_config t))))"

lemma match_steps_ex:
  "tc_digits (tt_config t) \<le> 9 \<Longrightarrow>
   match_steps hmac t code found steps = Some (found \<or> (\<exists>s \<in> set steps. code = step_code hmac t s))"
proof (induction steps arbitrary: found)
  case (Cons s steps)
  obtain c where "hotp hmac (tt_secret t) s (tc_digits (tt_config t)) = Some c" using hotp_Some [OF Cons.prems] by blast
  with Cons show ?case by (auto simp: step_code_def)
qed simp

lemma generate_at_step:
  "0 < tc_step_secs (tt_config t) \<Longrightarrow> tc_digits (tt_config t) \<le> 9 \<Longrightarrow>
   generate_at hmac t ts = Some (step_code hmac t (ts div tc_step_secs (tt_config t)))"
  using hotp_Some [of "tc_digits (tt_config t)" hmac "tt_secret t" "ts div tc_step_secs (tt_config t)"]
  by (auto simp: generate_at_def step_code_def)

lemma verify_at_steps:
  assumes "0 < tc_step_secs (tt_config t)" "tc_digits (tt_config t) \<le> 9"
    "ts div tc_step_secs (tt_config t) + tc_window (tt_config t) < 2 ^ 64"
  shows "verify_at hmac t code ts =
     Some (code \<in> step_code hmac t ` {ts div tc_step_secs (tt_config t) - tc_window (tt_config t)..ts div tc_step_secs (tt_config t) + tc_window (tt_config t)})"
  using assms by (auto simp: verify_at_def match_steps_ex Let_def)

section \<open>Properties\<close>

text \<open>C31. Verification tolerates exactly the configured clock drift: with a positive step and at most nine
  digits (and no overflow of the step counter) it never panics, it accepts a code just when it is the code generated
  for one of the steps from \<^verbatim>\<open>window\<close> before to \<^verbatim>\<open>window\<close> after the current one, and so it accepts
  at most \<^verbatim>\<open>2 * window + 1\<close> different codes at any time.\<close>

theorem totp_window:
  assumes "0 < tc_step_secs (tt_config t)" "tc_digits (tt_config t) \<le> 9"
    "ts div tc_step_secs (tt_config t) + tc_window (tt_config t) < 2 ^ 64"
  shows "(\<exists>b. verify_at hmac t code ts = Some b \<and>
       (b \<longleftrightarrow> (\<exists>ts'. generate_at hmac t ts' = Some code \<and>
          \<bar>int (ts' div tc_step_secs (tt_config t)) - int (ts div tc_step_secs (tt_config t))\<bar> \<le> int (tc_window (tt_config t))))) \<and>
     card {c. verify_at hmac t c ts = Some True} \<le> 2 * tc_window (tt_config t) + 1"
proof -
  let ?s = "tc_step_secs (tt_config t)" and ?w = "tc_window (tt_config t)"
  let ?I = "{ts div ?s - ?w..ts div ?s + ?w}"
  note v = verify_at_steps [OF assms]
  have near: "step \<in> ?I \<longleftrightarrow> \<bar>int step - int (ts div ?s)\<bar> \<le> int ?w" for step by auto
  have "code \<in> step_code hmac t ` ?I \<longleftrightarrow>
     (\<exists>ts'. generate_at hmac t ts' = Some code \<and> \<bar>int (ts' div ?s) - int (ts div ?s)\<bar> \<le> int ?w)"
  proof
    assume "code \<in> step_code hmac t ` ?I"
    then obtain step where "step \<in> ?I" "code = step_code hmac t step" by blast
    moreover have "step * ?s div ?s = step" using assms(1) by simp
    ultimately have "generate_at hmac t (step * ?s) = Some code" "\<bar>int (step * ?s div ?s) - int (ts div ?s)\<bar> \<le> int ?w"
      using near [of step] by (simp_all add: generate_at_step [OF assms(1,2)])
    then show "\<exists>ts'. generate_at hmac t ts' = Some code \<and> \<bar>int (ts' div ?s) - int (ts div ?s)\<bar> \<le> int ?w" by blast
  next
    assume "\<exists>ts'. generate_at hmac t ts' = Some code \<and> \<bar>int (ts' div ?s) - int (ts div ?s)\<bar> \<le> int ?w"
    then obtain ts' where "code = step_code hmac t (ts' div ?s)" "ts' div ?s \<in> ?I"
      unfolding near by (auto simp: generate_at_step [OF assms(1,2)])
    then show "code \<in> step_code hmac t ` ?I" by blast
  qed
  moreover have "card {c. verify_at hmac t c ts = Some True} \<le> 2 * ?w + 1"
  proof -
    have "{c. verify_at hmac t c ts = Some True} = step_code hmac t ` ?I" using v by auto
    then have "card {c. verify_at hmac t c ts = Some True} \<le> card ?I" using card_image_le [of ?I] by simp
    also have "\<dots> \<le> 2 * ?w + 1" by simp
    finally show ?thesis .
  qed
  ultimately show ?thesis using v by blast
qed

definition demo_totp :: totp where
  "demo_totp = totp_new [1, 2, 3] totp_config_default"

definition demo_hmac :: "u8 list \<Rightarrow> u8 list \<Rightarrow> u8 list" where
  "demo_hmac key msg = take 20 (key @ msg @ msg @ msg)"

theorem totp_window_witness:
  "card {c. verify_at demo_hmac demo_totp c 1000 = Some True} \<le> 3"
proof -
  have c: "0 < tc_step_secs (tt_config demo_totp)" "tc_digits (tt_config demo_totp) \<le> 9"
    "1000 div tc_step_secs (tt_config demo_totp) + tc_window (tt_config demo_totp) < 2 ^ 64" "tc_window (tt_config demo_totp) = 1"
    by (simp_all add: demo_totp_def totp_new_def totp_config_default_def)
  have "card {c. verify_at demo_hmac demo_totp c 1000 = Some True} \<le> 2 * tc_window (tt_config demo_totp) + 1"
    using totp_window [OF c(1-3)] by blast
  then show ?thesis unfolding c(4) by simp
qed

text \<open>A code is what an authenticator shows: with one to nine digits, \<^verbatim>\<open>generate_at\<close> gives a text of exactly
  that many decimal digits, at every time.\<close>

theorem totp_code_shape:
  assumes "0 < tc_step_secs (tt_config t)" "0 < tc_digits (tt_config t)" "tc_digits (tt_config t) \<le> 9"
  shows "\<exists>code. generate_at hmac t ts = Some code \<and> length code = tc_digits (tt_config t) \<and> list_all is_ascii_digit code"
proof -
  let ?d = "tc_digits (tt_config t)"
  obtain c where c: "c < 10 ^ ?d" "hotp hmac (tt_secret t) (ts div tc_step_secs (tt_config t)) ?d = Some c"
    using hotp_Some [OF assms(3)] by blast
  have "generate_at hmac t ts = Some (pad_code ?d c)" using c(2) assms(1) by (simp add: generate_at_def)
  moreover have "length (pad_code ?d c) = ?d" using length_nat_dec [OF c(1) assms(2)] by (simp add: pad_code_def)
  moreover have "list_all is_ascii_digit (pad_code ?d c)"
    using nat_dec_digits [of c] by (auto simp: pad_code_def list_all_iff is_ascii_digit_def)
  ultimately show ?thesis by blast
qed

theorem totp_code_shape_witness:
  "\<exists>code. generate_at demo_hmac demo_totp 59 = Some code \<and> length code = 6"
  using totp_code_shape [of demo_totp demo_hmac 59] by (auto simp: demo_totp_def totp_new_def totp_config_default_def)

section \<open>Many digits\<close>

text \<open>From 32 digits on the modulus wraps around to zero and every call panics; between 10 and 31 it is not a
  power of ten.\<close>

lemma hotp_panics: "32 \<le> d \<Longrightarrow> hotp hmac secret counter d = None"
proof -
  assume "32 \<le> d"
  then have "(2 :: nat) ^ 32 dvd 10 ^ d" by (intro dvd_power_le) simp_all
  then have "(of_nat (10 ^ d) :: u32) = 0" unfolding word_of_nat_eq_0_iff by simp
  then have "(10 :: u32) ^ d = 0" by simp
  then show ?thesis by (simp add: hotp_def Let_def)
qed

end
