(* ===== verification/Csrf_Flash.thy ===== *)
theory Csrf_Flash
  imports Cookie_Session
begin

text \<open>
  The other users of signed cookies: the CSRF middleware (\<^verbatim>\<open>src/src/middleware/csrf.rs\<close>) and flash messages
  (\<^verbatim>\<open>src/src/flash\<close>). The cookie crate is the \<open>cookie_env\<close> of the sessions; serde's text of a list of
  messages is given by two functions. The service behind a middleware is a function on a state.
\<close>

text \<open>The loop over the pairs of the \<^verbatim>\<open>Cookie\<close> header that both middlewares have: the value of the first
  pair with the name.\<close>

fun find_cookie :: "string \<Rightarrow> string list \<Rightarrow> string option" where
  "find_cookie name [] = None"
| "find_cookie name (pair # pairs) =
     (case split_once CHR ''='' (trim pair) of
        Some (n, value) \<Rightarrow> if trim n = name then Some (trim value) else find_cookie name pairs
      | None \<Rightarrow> find_cookie name pairs)"

section \<open>CSRF\<close>

record csrf_config =
  csrf_cookie_name :: string
  csrf_header_name :: string
  csrf_field_name :: string
  csrf_ttl_secs :: nat
  csrf_exempt_methods :: "string list"

definition csrf_config_default :: csrf_config where
  "csrf_config_default =
     \<lparr>csrf_cookie_name = ''_csrf'', csrf_header_name = ''X-CSRF-Token'', csrf_field_name = ''_csrf_token'',
      csrf_ttl_secs = 21600, csrf_exempt_methods = [''GET'', ''HEAD'', ''OPTIONS'']\<rparr>"

definition sign_token :: "cookie_env \<Rightarrow> csrf_config \<Rightarrow> string \<Rightarrow> string \<Rightarrow> string" where
  "sign_token env config key token = cke_sign env key (csrf_cookie_name config) token"

definition verify_token :: "cookie_env \<Rightarrow> csrf_config \<Rightarrow> string \<Rightarrow> string \<Rightarrow> string option" where
  "verify_token env config key signed_value = cke_verify env key (csrf_cookie_name config) signed_value"

definition build_set_cookie :: "cookie_env \<Rightarrow> csrf_config \<Rightarrow> string \<Rightarrow> string" where
  "build_set_cookie env config signed_value =
     cke_render env
       \<lparr>sc_name = csrf_cookie_name config, sc_value = signed_value, sc_path = ''/'', sc_secure = False,
        sc_http_only = True, sc_same_site = SameLax, sc_max_age = u64_as_i64 (csrf_ttl_secs config)\<rparr>"

definition is_exempt :: "csrf_config \<Rightarrow> string \<Rightarrow> bool" where
  "is_exempt config http_method = list_ex (\<lambda>m. eq_ignore_ascii_case m http_method) (csrf_exempt_methods config)"

definition extract_submitted_token :: "csrf_config \<Rightarrow> parts \<Rightarrow> string option" where
  "extract_submitted_token config parts = header_str parts (csrf_header_name config)"

definition extract_cookie_value :: "csrf_config \<Rightarrow> parts \<Rightarrow> string option" where
  "extract_cookie_value config parts =
     Option.bind (header_str parts ''cookie'') (\<lambda>h. find_cookie (csrf_cookie_name config) (split_on CHR '';'' h))"

text \<open>The answer: a rejection, or what the inner service returned, with the \<^verbatim>\<open>Set-Cookie\<close> headers and the token of the
  response's extensions.\<close>

datatype ('e, 'b) csrf_reply = CsrfDenied error_response | CsrfPassed "'e + 'b \<times> string list \<times> string option"

definition csrf_call ::
  "cookie_env \<Rightarrow> csrf_config \<Rightarrow> string \<Rightarrow> string \<Rightarrow> (string option \<Rightarrow> 'st \<Rightarrow> ('e + 'b \<times> string list) \<times> 'st) \<Rightarrow>
   string \<Rightarrow> parts \<Rightarrow> 'st \<Rightarrow> ('e, 'b) csrf_reply \<times> 'st" where
  "csrf_call env config key new_ulid inner http_method parts st =
     (if is_exempt config http_method
      then
        (let existing = Option.bind (extract_cookie_value config parts) (verify_token env config key);
             (token, set_cookie_value) =
               (case existing of
                  Some t \<Rightarrow> (t, None)
                | None \<Rightarrow> (new_ulid, Some (build_set_cookie env config (sign_token env config key new_ulid))))
         in case inner (Some token) st of
              (Inl e, st') \<Rightarrow> (CsrfPassed (Inl e), st')
            | (Inr (body, hs), st') \<Rightarrow>
                (CsrfPassed (Inr (body,
                   (case set_cookie_value of
                      Some sc \<Rightarrow> if list_all header_value_byte sc then hs @ [sc] else hs
                    | None \<Rightarrow> hs), Some token)), st'))
      else
        (let verified =
               (case (Option.bind (extract_cookie_value config parts) (verify_token env config key), extract_submitted_token config parts) of
                  (Some cookie_token, Some header_token) \<Rightarrow> cookie_token = header_token
                | _ \<Rightarrow> False)
         in if verified
            then (case inner None st of
                    (Inl e, st') \<Rightarrow> (CsrfPassed (Inl e), st')
                  | (Inr (body, hs), st') \<Rightarrow> (CsrfPassed (Inr (body, hs, None)), st'))
            else (CsrfDenied (into_response (forbidden (''CSRF validation failed: missing or invalid '' @ csrf_header_name config))), st)))"

section \<open>Flash messages\<close>

record flash_entry =
  fe_level :: string
  fe_message :: string

record flash_state =
  fs_incoming :: "flash_entry list"
  fs_outgoing :: "flash_entry list"
  fs_read :: bool

definition flash_state_new :: "flash_entry list \<Rightarrow> flash_state" where
  "flash_state_new incoming = \<lparr>fs_incoming = incoming, fs_outgoing = [], fs_read = False\<rparr>"

definition flash_push :: "string \<Rightarrow> string \<Rightarrow> flash_state \<Rightarrow> flash_state" where
  "flash_push level message s = s\<lparr>fs_outgoing := fs_outgoing s @ [\<lparr>fe_level = level, fe_message = message\<rparr>]\<rparr>"

definition drain_outgoing :: "flash_state \<Rightarrow> flash_entry list \<times> flash_state" where
  "drain_outgoing s = (fs_outgoing s, s\<lparr>fs_outgoing := []\<rparr>)"

definition mark_read :: "flash_state \<Rightarrow> flash_state" where
  "mark_read s = s\<lparr>fs_read := True\<rparr>"

definition incoming_as_template_value :: "flash_state \<Rightarrow> (string \<times> string) list" where
  "incoming_as_template_value s = map (\<lambda>e. (fe_level e, fe_message e)) (fs_incoming s)"

definition flash_set :: "string \<Rightarrow> string \<Rightarrow> flash_state \<Rightarrow> flash_state" where
  "flash_set level message s = flash_push level message s"

definition flash_messages :: "flash_state \<Rightarrow> flash_entry list \<times> flash_state" where
  "flash_messages s = (fs_incoming s, mark_read s)"

definition flash_from_parts :: "flash_state option \<Rightarrow> flash_state result" where
  "flash_from_parts ext = ok_or (internal ''flash middleware not applied'') ext"

definition FLASH_COOKIE_NAME :: string where
  "FLASH_COOKIE_NAME = ''flash''"

definition FLASH_MAX_AGE_SECS :: int where
  "FLASH_MAX_AGE_SECS = 300"

text \<open>serde's text of a list of messages.\<close>

record flash_json =
  fj_to :: "flash_entry list \<Rightarrow> string option"
  fj_from :: "string \<Rightarrow> flash_entry list option"

definition read_flash_cookie :: "cookie_env \<Rightarrow> flash_json \<Rightarrow> parts \<Rightarrow> string \<Rightarrow> flash_entry list" where
  "read_flash_cookie env js parts key =
     (case Option.bind (header_str parts ''cookie'') (\<lambda>h. find_cookie FLASH_COOKIE_NAME (split_on CHR '';'' h)) of
        None \<Rightarrow> []
      | Some value \<Rightarrow>
          (case Option.bind (cke_verify env key FLASH_COOKIE_NAME value) (fj_from js) of
             Some entries \<Rightarrow> entries
           | None \<Rightarrow> []))"

definition flash_set_cookie :: "cookie_env \<Rightarrow> string \<Rightarrow> int \<Rightarrow> cookie_config \<Rightarrow> string \<Rightarrow> string list \<Rightarrow> string list" where
  "flash_set_cookie env value max_age_secs config key hs =
     (let text = cke_render env
            \<lparr>sc_name = FLASH_COOKIE_NAME, sc_value = cke_sign env key FLASH_COOKIE_NAME value, sc_path = ''/'',
             sc_secure = cc_secure config, sc_http_only = cc_http_only config,
             sc_same_site = same_site_of (cc_same_site config), sc_max_age = max_age_secs\<rparr>
      in if list_all header_value_byte text then hs @ [text] else hs)"

definition write_flash_cookie :: "cookie_env \<Rightarrow> flash_json \<Rightarrow> flash_entry list \<Rightarrow> cookie_config \<Rightarrow> string \<Rightarrow> string list \<Rightarrow> string list" where
  "write_flash_cookie env js entries config key hs =
     (case fj_to js entries of
        None \<Rightarrow> hs
      | Some text \<Rightarrow> flash_set_cookie env text FLASH_MAX_AGE_SECS config key hs)"

definition remove_flash_cookie :: "cookie_env \<Rightarrow> cookie_config \<Rightarrow> string \<Rightarrow> string list \<Rightarrow> string list" where
  "remove_flash_cookie env config key hs = flash_set_cookie env [] 0 config key hs"

definition flash_call ::
  "cookie_env \<Rightarrow> flash_json \<Rightarrow> cookie_config \<Rightarrow> string \<Rightarrow>
   (flash_state \<Rightarrow> 'st \<Rightarrow> ('e + 'b \<times> string list) \<times> flash_state \<times> 'st) \<Rightarrow> parts \<Rightarrow> 'st \<Rightarrow> ('e + 'b \<times> string list) \<times> 'st" where
  "flash_call env js config key inner parts st =
     (case inner (flash_state_new (read_flash_cookie env js parts key)) st of
        (Inl e, s, st') \<Rightarrow> (Inl e, st')
      | (Inr (body, hs), s, st') \<Rightarrow>
          (let (outgoing, s1) = drain_outgoing s
           in (Inr (body,
                 (if outgoing \<noteq> [] then write_flash_cookie env js outgoing config key hs
                  else if fs_read s1 then remove_flash_cookie env config key hs
                  else hs)), st')))"

section \<open>A cookie that comes back\<close>

text \<open>A value that survives the way through the browser: visible ASCII, no semicolon, no white space at either end.\<close>

definition cookie_value_text :: "string \<Rightarrow> bool" where
  "cookie_value_text v \<longleftrightarrow> list_all (\<lambda>c. visible_ascii c \<and> c \<noteq> CHR '';'') v \<and> trim v = v"

lemma trim_start_fixed: "trim v = v \<Longrightarrow> dropWhile is_whitespace v = v"
proof -
  assume "trim v = v"
  then have "length v \<le> length (dropWhile is_whitespace v)"
    unfolding trim_def trim_end_def trim_start_def
    by (metis length_dropWhile_le length_rev)
  moreover have "dropWhile is_whitespace v = drop (length (takeWhile is_whitespace v)) v" by (rule dropWhile_eq_drop)
  ultimately show ?thesis by (metis append_eq_conv_conj append_Nil diff_le_self length_drop takeWhile_dropWhile_id
    drop0 le_antisym length_append length_0_conv add_diff_cancel_right' cancel_comm_monoid_add_class.diff_cancel)
qed

lemma trim_end_fixed: "trim v = v \<Longrightarrow> dropWhile is_whitespace (rev v) = rev v"
proof -
  assume t: "trim v = v"
  then have "rev (dropWhile is_whitespace (rev v)) = v"
    using trim_start_fixed [OF t] by (simp add: trim_def trim_end_def trim_start_def)
  then show ?thesis by (metis rev_rev_ident)
qed

lemma trim_pair:
  assumes "cookie_text name" "name \<noteq> []" "trim v = v"
  shows "trim (name @ ''='' @ v) = name @ ''='' @ v"
proof -
  obtain c n where n: "name = c # n" "\<not> is_whitespace c" using assms(1,2) by (cases name) (auto simp: cookie_text_def)
  have eq: "\<not> is_whitespace CHR ''=''" by code_simp
  have "dropWhile is_whitespace (rev v @ ''='' @ rev name) = rev v @ ''='' @ rev name"
  proof (cases "rev v")
    case Nil
    then show ?thesis using eq by simp
  next
    case (Cons a w)
    then have "dropWhile is_whitespace (a # w) = a # w" using trim_end_fixed [OF assms(3)] by simp
    then have "\<not> is_whitespace a" by (metis dropWhile.simps(2) impossible_Cons length_dropWhile_le)
    then show ?thesis using Cons by simp
  qed
  then show ?thesis using n by (simp add: trim_def trim_start_def trim_end_def)
qed

lemma find_cookie_pair:
  assumes "cookie_text name" "name \<noteq> []" "CHR ''='' \<notin> set name" "cookie_value_text v"
  shows "find_cookie name (split_on CHR '';'' (name @ ''='' @ v)) = Some v"
    and "header_str \<lparr>p_headers = (''cookie'', name @ ''='' @ v) # rest, p_query = q\<rparr> ''cookie'' = Some (name @ ''='' @ v)"
proof -
  have v: "trim v = v" "list_all visible_ascii v" "CHR '';'' \<notin> set v" using assms(4) by (auto simp: cookie_value_text_def list_all_iff)
  have n: "trim name = name" "list_all visible_ascii name" "CHR '';'' \<notin> set name"
    using trim_cookie_text [OF assms(1)] assms(1) by (auto simp: cookie_text_def list_all_iff)
  have "split_on CHR '';'' (name @ ''='' @ v) = [name @ ''='' @ v]" using n(3) v(3) by (intro split_on_single) simp
  then show "find_cookie name (split_on CHR '';'' (name @ ''='' @ v)) = Some v"
    using trim_pair [OF assms(1,2) v(1)] n(1) v(1) assms(3) by simp
  have "map to_ascii_lowercase ''cookie'' = ''cookie''" by code_simp
  then show "header_str \<lparr>p_headers = (''cookie'', name @ ''='' @ v) # rest, p_query = q\<rparr> ''cookie'' = Some (name @ ''='' @ v)"
    using n(2) v(2) by (simp add: header_str_def header_get_def header_to_str_def visible_ascii_def)
qed

lemma is_exempt_case: "map to_ascii_lowercase m = map to_ascii_lowercase m' \<Longrightarrow> is_exempt config m = is_exempt config m'"
  by (simp add: is_exempt_def eq_ignore_ascii_case_def)

section \<open>Properties\<close>

text \<open>An unsafe request gets past the CSRF layer just when it carries, in the configured header, exactly the
  token that its own signed cookie verifies to; otherwise it is answered with 403 and the inner
  service is not called, so its state does not change.\<close>

theorem csrf_unsafe_requests:
  assumes "\<not> is_exempt config http_method"
  shows "(\<exists>signed_value token. extract_cookie_value config parts = Some signed_value \<and>
       cke_verify env key (csrf_cookie_name config) signed_value = Some token \<and> header_str parts (csrf_header_name config) = Some token \<and>
       (\<exists>x. csrf_call env config key u inner http_method parts st = (CsrfPassed x, snd (inner None st)))) \<or>
     (\<nexists>signed_value token. extract_cookie_value config parts = Some signed_value \<and>
       cke_verify env key (csrf_cookie_name config) signed_value = Some token \<and> header_str parts (csrf_header_name config) = Some token) \<and>
     (\<exists>e. csrf_call env config key u inner http_method parts st = (CsrfDenied e, st) \<and> resp_status e = 403)"
proof -
  have deny: "resp_status (into_response (forbidden m)) = 403" for m
    by (simp add: into_response_def forbidden_def error_new_def Let_def)
  have pass: "\<exists>x. (case inner None st of (Inl e, st') \<Rightarrow> (CsrfPassed (Inl e), st')
       | (Inr (body, hs), st') \<Rightarrow> (CsrfPassed (Inr (body, hs, None)), st')) = (CsrfPassed x, snd (inner None st))"
    by (auto split: prod.splits sum.splits)
  show ?thesis
    using assms deny pass
    by (cases "extract_cookie_value config parts"; cases "header_str parts (csrf_header_name config)")
      (auto simp: csrf_call_def verify_token_def extract_submitted_token_def Let_def split: option.splits)
qed

definition demo_post :: parts where
  "demo_post = \<lparr>p_headers = [(''cookie'', ''_csrf=kT1''), (''x-csrf-token'', ''T1'')], p_query = None\<rparr>"

theorem csrf_unsafe_requests_witness:
  "\<exists>x. csrf_call demo_cookies csrf_config_default ''k'' ''T2'' (\<lambda>t n. (Inr (n, []) :: unit + nat \<times> string list, n + 1)) ''POST'' demo_post (3 :: nat)
     = (CsrfPassed x, 4)"
proof -
  have f: "\<not> is_exempt csrf_config_default ''POST''" "extract_cookie_value csrf_config_default demo_post = Some ''kT1''"
    "cke_verify demo_cookies ''k'' (csrf_cookie_name csrf_config_default) ''kT1'' = Some ''T1''"
    "header_str demo_post (csrf_header_name csrf_config_default) = Some ''T1''" by code_simp+
  show ?thesis
    using csrf_unsafe_requests [OF f(1), where parts = demo_post and env = demo_cookies and key = "''k''" and u = "''T2''"
        and inner = "\<lambda>t n. (Inr (n, []) :: unit + nat \<times> string list, n + 1)" and st = 3] f(2-4) by auto
qed

text \<open>C32. The double submit works: a first visit gets a token and a cookie, and a later unsafe request that sends back
  the cookie and puts the token into the header passes. This is under the cookie crate's law that it verifies what it
  signs, for a cookie name and a signed value that a browser returns unchanged.\<close>

theorem csrf_double_submit:
  assumes "is_exempt config get_method" "\<not> is_exempt config post_method" "extract_cookie_value config first = None"
    "csrf_call env config key token inner get_method first st = (CsrfPassed (Inr (body, hs, t)), st')"
    "signed_value = sign_token env config key token" "cke_verify env key (csrf_cookie_name config) signed_value = Some token"
    "cookie_text (csrf_cookie_name config)" "csrf_cookie_name config \<noteq> []" "CHR ''='' \<notin> set (csrf_cookie_name config)"
    "cookie_value_text signed_value"
    "parts = \<lparr>p_headers = [(''cookie'', csrf_cookie_name config @ ''='' @ signed_value), (map to_ascii_lowercase (csrf_header_name config), token)], p_query = q\<rparr>"
    "map to_ascii_lowercase (csrf_header_name config) \<noteq> ''cookie''" "list_all visible_ascii token"
  shows "t = Some token \<and>
     (list_all header_value_byte (build_set_cookie env config signed_value) \<longrightarrow> build_set_cookie env config signed_value \<in> set hs) \<and>
     (\<exists>x. csrf_call env config key u inner post_method parts st2 = (CsrfPassed x, snd (inner None st2)))"
proof -
  have first: "t = Some token" "list_all header_value_byte (build_set_cookie env config signed_value) \<longrightarrow> build_set_cookie env config signed_value \<in> set hs"
    using assms(1,3,4,5) by (auto simp: csrf_call_def Let_def split: prod.splits sum.splits if_splits)
  have "extract_cookie_value config parts = Some signed_value"
    using find_cookie_pair [OF assms(7-10)] assms(11) by (simp add: extract_cookie_value_def)
  moreover have "header_str parts (csrf_header_name config) = Some token"
    using assms(11-13) by (simp add: header_str_def header_get_def header_to_str_def)
  ultimately show ?thesis
    using first assms(2,6)
    by (auto simp: csrf_call_def verify_token_def extract_submitted_token_def Let_def split: prod.splits sum.splits)
qed

definition demo_csrf :: csrf_config where
  "demo_csrf = \<lparr>csrf_cookie_name = ''_csrf'', csrf_header_name = ''X-CSRF-Token'', csrf_field_name = ''f'',
     csrf_ttl_secs = 60, csrf_exempt_methods = [''GET'']\<rparr>"

theorem csrf_double_submit_witness:
  "\<exists>x. csrf_call demo_cookies demo_csrf ''k'' ''T2'' (\<lambda>t n. (Inr (n, []) :: unit + nat \<times> string list, n + 1)) ''POST''
     \<lparr>p_headers = [(''cookie'', ''_csrf'' @ ''='' @ ''kT1''), (''x-csrf-token'', ''T1'')], p_query = None\<rparr> (8 :: nat) = (CsrfPassed x, 9)"
proof -
  let ?inner = "\<lambda>t n. (Inr (n, []) :: unit + nat \<times> string list, n + 1 :: nat)"
  let ?first = "\<lparr>p_headers = [], p_query = None\<rparr>"
  have c: "is_exempt demo_csrf ''GET''" "\<not> is_exempt demo_csrf ''POST''" "extract_cookie_value demo_csrf ?first = None"
    "''kT1'' = sign_token demo_cookies demo_csrf ''k'' ''T1''"
    "cke_verify demo_cookies ''k'' (csrf_cookie_name demo_csrf) ''kT1'' = Some ''T1''"
    "cookie_text (csrf_cookie_name demo_csrf)" "csrf_cookie_name demo_csrf \<noteq> []"
    "CHR ''='' \<notin> set (csrf_cookie_name demo_csrf)" "cookie_value_text ''kT1''"
    "map to_ascii_lowercase (csrf_header_name demo_csrf) \<noteq> ''cookie''" "list_all visible_ascii ''T1''" by code_simp+
  have call: "csrf_call demo_cookies demo_csrf ''k'' ''T1'' ?inner ''GET'' ?first 3 =
     (CsrfPassed (Inr (3, if list_all header_value_byte (build_set_cookie demo_cookies demo_csrf (sign_token demo_cookies demo_csrf ''k'' ''T1''))
        then [build_set_cookie demo_cookies demo_csrf (sign_token demo_cookies demo_csrf ''k'' ''T1'')] else [], Some ''T1'')), 4)"
    using c(1,3) by (simp add: csrf_call_def)
  have n: "csrf_cookie_name demo_csrf = ''_csrf''" "map to_ascii_lowercase (csrf_header_name demo_csrf) = ''x-csrf-token''"
    by code_simp+
  show ?thesis
    using csrf_double_submit [OF c(1-3) call c(4-9) refl c(10,11), where q = None and u = "''T2''" and ?st2.0 = 8, unfolded n] by (simp only: snd_conv) simp
qed

text \<open>Flash messages survive one redirect: what a handler queues is sent in the response's cookie, the next
  request that returns the cookie sees exactly these messages in order, and when its handler reads them and queues
  nothing, its response clears the cookie. This is under the laws that the cookie crate verifies what it signs
  and serde parses what it prints, for a signed value that a browser returns unchanged.\<close>

theorem flash_survives_redirect:
  fixes inner :: "flash_state \<Rightarrow> 'st \<Rightarrow> ('e + 'b \<times> string list) \<times> flash_state \<times> 'st"
  assumes "inner (flash_state_new (read_flash_cookie env js parts key)) st = (Inr (body, hs), s, st')" "fs_outgoing s \<noteq> []"
    "fj_to js (fs_outgoing s) = Some text" "fj_from js text = Some (fs_outgoing s)"
    "v = cke_sign env key FLASH_COOKIE_NAME text" "cke_verify env key FLASH_COOKIE_NAME v = Some text" "cookie_value_text v"
    "cookie = \<lparr>sc_name = FLASH_COOKIE_NAME, sc_value = v, sc_path = ''/'', sc_secure = cc_secure config,
       sc_http_only = cc_http_only config, sc_same_site = same_site_of (cc_same_site config), sc_max_age = FLASH_MAX_AGE_SECS\<rparr>"
    "list_all header_value_byte (cke_render env cookie)"
    "next_parts = \<lparr>p_headers = [(''cookie'', FLASH_COOKIE_NAME @ ''='' @ v)], p_query = q\<rparr>"
  shows "flash_call env js config key inner parts st = (Inr (body, hs @ [cke_render env cookie]), st') \<and>
     flash_call env js config key (\<lambda>s st. (Inr (fst (flash_messages s), []) :: 'e + flash_entry list \<times> string list, snd (flash_messages s), st)) next_parts st2
       = (Inr (fs_outgoing s, remove_flash_cookie env config key []), st2)"
proof -
  have n: "cookie_text FLASH_COOKIE_NAME" "FLASH_COOKIE_NAME \<noteq> []" "CHR ''='' \<notin> set FLASH_COOKIE_NAME" by code_simp+
  have "read_flash_cookie env js next_parts key = fs_outgoing s"
    using find_cookie_pair [OF n assms(7)] assms(4,6,10) by (simp add: read_flash_cookie_def)
  then have "flash_call env js config key (\<lambda>s st. (Inr (fst (flash_messages s), []) :: 'e + flash_entry list \<times> string list, snd (flash_messages s), st)) next_parts st2
       = (Inr (fs_outgoing s, remove_flash_cookie env config key []), st2)"
    by (simp add: flash_call_def flash_messages_def mark_read_def flash_state_new_def drain_outgoing_def)
  moreover have "flash_call env js config key inner parts st = (Inr (body, hs @ [cke_render env cookie]), st')"
    using assms(1-3,5,8,9)
    by (simp add: flash_call_def drain_outgoing_def write_flash_cookie_def flash_set_cookie_def)
  ultimately show ?thesis by blast
qed

definition demo_json :: flash_json where
  "demo_json = \<lparr>fj_to = (\<lambda>es. Some (concat (map fe_message es))), fj_from = (\<lambda>t. Some [\<lparr>fe_level = ''info'', fe_message = t\<rparr>])\<rparr>"

theorem flash_survives_redirect_witness:
  "fst (flash_call demo_cookies demo_json cookie_config_default ''k''
      (\<lambda>s st. (Inr (fst (flash_messages s), []) :: unit + flash_entry list \<times> string list, snd (flash_messages s), st))
      \<lparr>p_headers = [(''cookie'', FLASH_COOKIE_NAME @ ''='' @ ''khi'')], p_query = None\<rparr> (0 :: nat))
     = Inr ([\<lparr>fe_level = ''info'', fe_message = ''hi''\<rparr>], remove_flash_cookie demo_cookies cookie_config_default ''k'' [])"
proof -
  let ?inner = "\<lambda>s (st :: nat). (Inr ((), []) :: unit + unit \<times> string list, flash_set ''info'' ''hi'' s, st)"
  let ?p = "\<lparr>p_headers = [], p_query = None\<rparr>"
  let ?s = "flash_set ''info'' ''hi'' (flash_state_new (read_flash_cookie demo_cookies demo_json ?p ''k''))"
  have out: "fs_outgoing ?s = [\<lparr>fe_level = ''info'', fe_message = ''hi''\<rparr>]" by code_simp
  have f: "fj_to demo_json (fs_outgoing ?s) = Some ''hi''" "fj_from demo_json ''hi'' = Some (fs_outgoing ?s)"
    "''khi'' = cke_sign demo_cookies ''k'' FLASH_COOKIE_NAME ''hi''" "cke_verify demo_cookies ''k'' FLASH_COOKIE_NAME ''khi'' = Some ''hi''"
    "cookie_value_text ''khi''"
    "list_all header_value_byte (cke_render demo_cookies \<lparr>sc_name = FLASH_COOKIE_NAME, sc_value = ''khi'', sc_path = ''/'',
       sc_secure = cc_secure cookie_config_default, sc_http_only = cc_http_only cookie_config_default,
       sc_same_site = same_site_of (cc_same_site cookie_config_default), sc_max_age = FLASH_MAX_AGE_SECS\<rparr>)"
    by code_simp+
  have "fs_outgoing ?s \<noteq> []" using out by simp
  from flash_survives_redirect [where inner = ?inner and st = 0 and ?st2.0 = "0 :: nat", OF refl this f(1-5) refl f(6) refl, of None]
  show ?thesis unfolding out by simp
qed

section \<open>Messages beyond ASCII\<close>

text \<open>A flash message goes into the cookie as it is, and a \<^verbatim>\<open>Cookie\<close> header with a byte beyond ASCII is unreadable as a
  whole: the next request sees no flash message, no CSRF cookie and no session.\<close>

lemma non_ascii_cookie_hides_all:
  assumes "header_get parts ''cookie'' = Some h" "c \<in> set h" "127 < (of_char c :: nat)"
  shows "read_flash_cookie env js parts key = [] \<and> extract_cookie_value config parts = None \<and> read_signed_cookie env parts name key = None"
proof -
  have "\<not> visible_ascii c" using assms(3) by (simp add: visible_ascii_def Let_def)
  then have "header_str parts ''cookie'' = None" using assms(1,2) by (auto simp: header_str_def header_to_str_def list_all_iff)
  then show ?thesis by (simp add: read_flash_cookie_def extract_cookie_value_def read_signed_cookie_def)
qed

text \<open>A message with a semicolon is cut there by the browser and by the reader.\<close>

lemma semicolon_cuts_cookie: "split_on CHR '';'' (FLASH_COOKIE_NAME @ ''=a;b'') = [FLASH_COOKIE_NAME @ ''=a'', ''b'']"
  by code_simp

end
