(* ===== verification/Query.thy ===== *)
theory Query
  imports Database Text "HOL-Library.List_Lexorder" "HOL-Library.Char_ord"
begin

text \<open>
  Filters from query strings, the select builder and pagination (\<^verbatim>\<open>src/src/db/filter.rs\<close>, \<^verbatim>\<open>select.rs\<close>, \<^verbatim>\<open>page.rs\<close>). The
  builder's result is SQL text with its parameters; what a connection answers to them is a function.
  Rust's hash maps are lists of entries with distinct keys, in the order in which they are iterated, which the
  theorems leave open. Parsing a float and percent-decoding are parameters.
\<close>

section \<open>Filters\<close>

datatype field_type = FText | FInt | FFloat | FDate | FBool

record filter_schema =
  fsch_fields :: "string \<rightharpoonup> field_type"
  fsch_sort_fields :: "string list"

definition filter_schema_new :: filter_schema where
  "filter_schema_new = \<lparr>fsch_fields = Map.empty, fsch_sort_fields = []\<rparr>"

definition schema_field :: "string \<Rightarrow> field_type \<Rightarrow> filter_schema \<Rightarrow> filter_schema" where
  "schema_field name typ s = s\<lparr>fsch_fields := (fsch_fields s)(name \<mapsto> typ)\<rparr>"

definition schema_sort_fields :: "string list \<Rightarrow> filter_schema \<Rightarrow> filter_schema" where
  "schema_sort_fields names s = s\<lparr>fsch_sort_fields := names\<rparr>"

datatype filter_operator = OpEq | OpNe | OpGt | OpGte | OpLt | OpLte | OpLike | OpIsNull bool | OpIn

record filter_condition =
  fc_column :: string
  fc_operator :: filter_operator
  fc_values :: "string list"

record query_filter =
  fl_conditions :: "filter_condition list"
  fl_sort :: "string list"

datatype sql_value = VInteger int | VReal string | VText string | VNull | VBlob "u8 list"

record validated_filter =
  vf_clauses :: "string list"
  vf_params :: "sql_value list"
  vf_sort_clause :: "string option"

definition parse_operator :: "string \<Rightarrow> string list \<Rightarrow> filter_operator option" where
  "parse_operator op_str vals =
     (if op_str = ''ne'' then Some OpNe
      else if op_str = ''gt'' then Some OpGt
      else if op_str = ''gte'' then Some OpGte
      else if op_str = ''lt'' then Some OpLt
      else if op_str = ''lte'' then Some OpLte
      else if op_str = ''like'' then Some OpLike
      else if op_str = ''null'' then Some (OpIsNull (case vals of v # _ \<Rightarrow> v = ''true'' | [] \<Rightarrow> True))
      else None)"

definition parse_condition :: "string \<Rightarrow> string list \<Rightarrow> filter_condition option" where
  "parse_condition key vals =
     (case rsplit_once CHR ''.'' key of
        Some (col, op_str) \<Rightarrow>
          map_option (\<lambda>op. \<lparr>fc_column = col, fc_operator = op, fc_values = vals\<rparr>) (parse_operator op_str vals)
      | None \<Rightarrow> Some \<lparr>fc_column = key, fc_operator = (if 1 < length vals then OpIn else OpEq), fc_values = vals\<rparr>)"

definition is_pagination_key :: "string \<Rightarrow> bool" where
  "is_pagination_key key \<longleftrightarrow> key = ''page'' \<or> key = ''per_page'' \<or> key = ''after''"

fun from_query_params :: "(string \<times> string list) list \<Rightarrow> query_filter" where
  "from_query_params [] = \<lparr>fl_conditions = [], fl_sort = []\<rparr>"
| "from_query_params ((key, vals) # params) =
     (let f = from_query_params params
      in if key = ''sort'' then f\<lparr>fl_sort := vals\<rparr>
         else if is_pagination_key key then f
         else case parse_condition key vals of
           Some c \<Rightarrow> f\<lparr>fl_conditions := c # fl_conditions f\<rparr>
         | None \<Rightarrow> f)"

definition convert_value :: "(string \<Rightarrow> string option) \<Rightarrow> string \<Rightarrow> field_type \<Rightarrow> sql_value result" where
  "convert_value parse_f64 val typ =
     (case typ of
        FText \<Rightarrow> Inr (VText val)
      | FDate \<Rightarrow> Inr (VText val)
      | FInt \<Rightarrow>
          (case parse_i64 val of
             Some n \<Rightarrow> Inr (VInteger n)
           | None \<Rightarrow> Inl (bad_request (''invalid integer value: '' @ [CHR 0x27] @ val @ [CHR 0x27])))
      | FFloat \<Rightarrow>
          (case parse_f64 val of
             Some x \<Rightarrow> Inr (VReal x)
           | None \<Rightarrow> Inl (bad_request (''invalid float value: '' @ [CHR 0x27] @ val @ [CHR 0x27])))
      | FBool \<Rightarrow>
          if val \<in> {''true'', ''1'', ''yes''} then Inr (VInteger 1)
          else if val \<in> {''false'', ''0'', ''no''} then Inr (VInteger 0)
          else Inl (bad_request (''invalid boolean value: '' @ [CHR 0x27] @ val @ [CHR 0x27] @ '' (expected true/false, 1/0, yes/no)'')))"

text \<open>A column in double quotes.\<close>

definition quoted :: "string \<Rightarrow> string" where
  "quoted col = [CHR 0x22] @ col @ [CHR 0x22]"

fun sql_operator :: "filter_operator \<Rightarrow> string" where
  "sql_operator OpNe = ''!=''"
| "sql_operator OpGt = ''>''"
| "sql_operator OpGte = ''>=''"
| "sql_operator OpLt = ''<''"
| "sql_operator OpLte = ''<=''"
| "sql_operator OpLike = ''LIKE''"
| "sql_operator _ = ''=''"

definition validate_condition ::
  "(string \<Rightarrow> string option) \<Rightarrow> field_type \<Rightarrow> filter_condition \<Rightarrow> (string \<times> sql_value list) result" where
  "validate_condition parse_f64 typ c =
     (case fc_operator c of
        OpIsNull is_null \<Rightarrow> Inr (quoted (fc_column c) @ (if is_null then '' IS NULL'' else '' IS NOT NULL''), [])
      | OpIn \<Rightarrow>
          bind_res (collect_res (\<lambda>v. convert_value parse_f64 v typ) (fc_values c)) (\<lambda>ps.
          Inr (quoted (fc_column c) @ '' IN ('' @ join_with '', '' (map (\<lambda>_. ''?'') (fc_values c)) @ '')'', ps))
      | op \<Rightarrow>
          (case fc_values c of
             [] \<Rightarrow> Inl (bad_request (''missing value for filter '' @ [CHR 0x27] @ fc_column c @ [CHR 0x27]))
           | v # _ \<Rightarrow>
               bind_res (convert_value parse_f64 v typ) (\<lambda>p.
               Inr (quoted (fc_column c) @ '' '' @ sql_operator op @ '' ?'', [p]))))"

fun validate_conditions ::
  "(string \<Rightarrow> string option) \<Rightarrow> filter_schema \<Rightarrow> filter_condition list \<Rightarrow> (string list \<times> sql_value list) result" where
  "validate_conditions parse_f64 schema [] = Inr ([], [])"
| "validate_conditions parse_f64 schema (c # cs) =
     (case fsch_fields schema (fc_column c) of
        None \<Rightarrow> validate_conditions parse_f64 schema cs
      | Some typ \<Rightarrow>
          bind_res (validate_condition parse_f64 typ c) (\<lambda>(clause, ps).
          bind_res (validate_conditions parse_f64 schema cs) (\<lambda>(clauses, qs).
          Inr (clause # clauses, ps @ qs))))"

text \<open>\<open>seen\<close> holds the sort fields already used.\<close>

fun sort_parts :: "filter_schema \<Rightarrow> string list \<Rightarrow> string list \<Rightarrow> string list" where
  "sort_parts schema seen [] = []"
| "sort_parts schema seen (s # ss) =
     (let (field, desc) = (case strip_prefix ''-'' s of Some stripped \<Rightarrow> (stripped, True) | None \<Rightarrow> (s, False))
      in if field \<in> set (fsch_sort_fields schema) \<and> field \<notin> set seen
         then (quoted field @ (if desc then '' DESC'' else '' ASC'')) # sort_parts schema (field # seen) ss
         else sort_parts schema seen ss)"

definition validate_filter :: "(string \<Rightarrow> string option) \<Rightarrow> filter_schema \<Rightarrow> query_filter \<Rightarrow> validated_filter result" where
  "validate_filter parse_f64 schema f =
     bind_res (validate_conditions parse_f64 schema (sort_key fc_column (fl_conditions f))) (\<lambda>(clauses, params).
     let parts = sort_parts schema [] (fl_sort f)
     in Inr \<lparr>vf_clauses = clauses, vf_params = params,
             vf_sort_clause = (if parts = [] then None else Some (join_with '', '' parts))\<rparr>)"

text \<open>\<^verbatim>\<open>params.entry(key).or_default().push(value)\<close>, and the extractor. \<open>decode\<close> is urlencoding's.\<close>

fun push_param :: "string \<Rightarrow> string \<Rightarrow> (string \<times> string list) list \<Rightarrow> (string \<times> string list) list" where
  "push_param k v [] = [(k, [v])]"
| "push_param k v ((a, vs) # ps) = (if a = k then (a, vs @ [v]) # ps else (a, vs) # push_param k v ps)"

definition query_pair :: "(string \<Rightarrow> string option) \<Rightarrow> string \<Rightarrow> string \<times> string" where
  "query_pair decode pair =
     (let (k, v) = (case split_once CHR ''='' pair of Some kv \<Rightarrow> kv | None \<Rightarrow> (pair, []));
          dec = (\<lambda>s. case decode s of Some t \<Rightarrow> t | None \<Rightarrow> s)
      in (dec k, dec v))"

definition filter_from_parts :: "(string \<Rightarrow> string option) \<Rightarrow> parts \<Rightarrow> query_filter" where
  "filter_from_parts decode parts =
     (let query = (case p_query parts of Some q \<Rightarrow> q | None \<Rightarrow> []);
          pairs = map (query_pair decode) (List.filter (\<lambda>p. p \<noteq> []) (split_on CHR ''&'' query))
      in from_query_params (fold (\<lambda>(k, v). push_param k v) pairs []))"

section \<open>Pagination\<close>

record pagination_config =
  default_per_page :: int
  max_per_page :: int

definition pagination_config_default :: pagination_config where
  "pagination_config_default = \<lparr>default_per_page = 20, max_per_page = 100\<rparr>"

record 'a page =
  pg_items :: "'a list"
  pg_total :: int
  pg_page :: int
  pg_per_page :: int
  pg_total_pages :: int
  pg_has_next :: bool
  pg_has_prev :: bool

definition page_new :: "'a list \<Rightarrow> int \<Rightarrow> int \<Rightarrow> int \<Rightarrow> 'a page" where
  "page_new items n page per_page =
     (let total_pages = (if n = 0 \<or> per_page = 0 then 0 else i64_div (i64_wrap (n + per_page - 1)) per_page)
      in \<lparr>pg_items = items, pg_total = n, pg_page = page, pg_per_page = per_page, pg_total_pages = total_pages,
          pg_has_next = (page < total_pages), pg_has_prev = (1 < page)\<rparr>)"

record 'a cursor_page =
  cp_items :: "'a list"
  cp_next_cursor :: "string option"
  cp_has_more :: bool
  cp_per_page :: int

definition cursor_page_new :: "'a list \<Rightarrow> string option \<Rightarrow> int \<Rightarrow> 'a cursor_page" where
  "cursor_page_new items next_cursor per_page =
     \<lparr>cp_items = items, cp_next_cursor = next_cursor, cp_has_more = (next_cursor \<noteq> None), cp_per_page = per_page\<rparr>"

record page_request =
  pr_page :: int
  pr_per_page :: int

definition clamp_per_page :: "pagination_config \<Rightarrow> int \<Rightarrow> int" where
  "clamp_per_page config n =
     (let m = (if n < 1 then default_per_page config else n)
      in if max_per_page config < m then max_per_page config else m)"

definition page_request_clamp :: "pagination_config \<Rightarrow> page_request \<Rightarrow> page_request" where
  "page_request_clamp config r =
     \<lparr>pr_page = (if pr_page r < 1 then 1 else pr_page r), pr_per_page = clamp_per_page config (pr_per_page r)\<rparr>"

definition page_offset :: "page_request \<Rightarrow> int" where
  "page_offset r = i64_wrap ((pr_page r - 1) * pr_per_page r)"

record cursor_request =
  cr_after :: "string option"
  cr_per_page :: int

definition cursor_request_clamp :: "pagination_config \<Rightarrow> cursor_request \<Rightarrow> cursor_request" where
  "cursor_request_clamp config r = r\<lparr>cr_per_page := clamp_per_page config (cr_per_page r)\<rparr>"

text \<open>\<open>query\<close> is axum's \<^verbatim>\<open>Query\<close> on the request, with the text of its error.\<close>

definition page_request_from_parts :: "pagination_config option \<Rightarrow> string + page_request \<Rightarrow> page_request result" where
  "page_request_from_parts ext query =
     bind_res (map_err (\<lambda>e. bad_request (''invalid pagination params: '' @ e)) query) (\<lambda>req.
     Inr (page_request_clamp (case ext of Some c \<Rightarrow> c | None \<Rightarrow> pagination_config_default) req))"

definition cursor_request_from_parts :: "pagination_config option \<Rightarrow> string + cursor_request \<Rightarrow> cursor_request result" where
  "cursor_request_from_parts ext query =
     bind_res (map_err (\<lambda>e. bad_request (''invalid pagination params: '' @ e)) query) (\<lambda>req.
     Inr (cursor_request_clamp (case ext of Some c \<Rightarrow> c | None \<Rightarrow> pagination_config_default) req))"

section \<open>SelectBuilder\<close>

record select_builder =
  sb_base_sql :: string
  sb_filter :: "validated_filter option"
  sb_order_by :: "string option"
  sb_cursor_column :: string
  sb_cursor_desc :: bool

definition select_new :: "string \<Rightarrow> select_builder" where
  "select_new sql =
     \<lparr>sb_base_sql = sql, sb_filter = None, sb_order_by = None, sb_cursor_column = ''id'', sb_cursor_desc = True\<rparr>"

definition select_filter :: "validated_filter \<Rightarrow> select_builder \<Rightarrow> select_builder" where
  "select_filter f b = b\<lparr>sb_filter := Some f\<rparr>"

definition select_order_by :: "string \<Rightarrow> select_builder \<Rightarrow> select_builder" where
  "select_order_by o_sql b = b\<lparr>sb_order_by := Some o_sql\<rparr>"

definition cursor_column :: "string \<Rightarrow> select_builder \<Rightarrow> select_builder" where
  "cursor_column col b = b\<lparr>sb_cursor_column := col\<rparr>"

definition oldest_first :: "select_builder \<Rightarrow> select_builder" where
  "oldest_first b = b\<lparr>sb_cursor_desc := False\<rparr>"

definition build_where :: "select_builder \<Rightarrow> string \<times> sql_value list" where
  "build_where b =
     (case sb_filter b of
        Some f \<Rightarrow> if vf_clauses f \<noteq> [] then ('' WHERE '' @ join_with '' AND '' (vf_clauses f), vf_params f) else ([], [])
      | None \<Rightarrow> ([], []))"

definition resolve_order :: "select_builder \<Rightarrow> string option" where
  "resolve_order b =
     (case Option.bind (sb_filter b) vf_sort_clause of Some o_sql \<Rightarrow> Some o_sql | None \<Rightarrow> sb_order_by b)"

definition order_sql :: "select_builder \<Rightarrow> string" where
  "order_sql b = (case resolve_order b of Some o_sql \<Rightarrow> '' ORDER BY '' @ o_sql | None \<Rightarrow> [])"

text \<open>A connection: what it answers to a statement with its parameters, the first column of a row as an
  integer, a row's value in a named column (\<^const>\<open>None\<close>: no such column), and the text of a real.\<close>

record 'r connection =
  cn_query :: "string \<Rightarrow> sql_value list \<Rightarrow> libsql_error + 'r list"
  cn_first_int :: "'r \<Rightarrow> libsql_error + int"
  cn_column :: "'r \<Rightarrow> string \<Rightarrow> (libsql_error + sql_value) option"

definition select_page :: "'r connection \<Rightarrow> ('r \<Rightarrow> 'a result) \<Rightarrow> select_builder \<Rightarrow> page_request \<Rightarrow> 'a page result" where
  "select_page conn from_row b req =
     (let (where_sql, params) = build_where b;
          count_sql = ''SELECT COUNT(*) FROM ('' @ sb_base_sql b @ where_sql @ '') AS _count'';
          data_sql = sb_base_sql b @ where_sql @ order_sql b @ '' LIMIT ? OFFSET ?''
      in bind_res (map_err error_from_libsql (cn_query conn count_sql params)) (\<lambda>count_rows.
         bind_res (case count_rows of
             [] \<Rightarrow> Inl (internal ''count query returned no rows'')
           | r # _ \<Rightarrow> map_err error_from_libsql (cn_first_int conn r)) (\<lambda>n.
         bind_res (map_err error_from_libsql
             (cn_query conn data_sql (params @ [VInteger (pr_per_page req), VInteger (page_offset req)]))) (\<lambda>rows.
         bind_res (collect_res from_row rows) (\<lambda>items.
         Inr (page_new items n (pr_page req) (pr_per_page req)))))))"

definition cursor_sql :: "select_builder \<Rightarrow> string option \<Rightarrow> string" where
  "cursor_sql b after =
     (let where_sql = fst (build_where b); col = sb_cursor_column b;
          (op, dir) = (if sb_cursor_desc b then (''<'', ''DESC'') else (''>'', ''ASC''));
          cursor_condition =
            (case after of
               Some _ \<Rightarrow> (if where_sql = [] then '' WHERE '' else '' AND '') @ quoted col @ '' '' @ op @ '' ?''
             | None \<Rightarrow> [])
      in sb_base_sql b @ where_sql @ cursor_condition @ '' ORDER BY '' @ quoted col @ '' '' @ dir @ '' LIMIT ?'')"

definition cursor_params :: "select_builder \<Rightarrow> cursor_request \<Rightarrow> sql_value list" where
  "cursor_params b req =
     snd (build_where b) @ (case cr_after req of Some a \<Rightarrow> [VText a] | None \<Rightarrow> []) @ [VInteger (i64_wrap (cr_per_page req + 1))]"

fun cursor_text :: "libsql_error + sql_value \<Rightarrow> string option" where
  "cursor_text (Inr (VText s)) = Some s"
| "cursor_text (Inr (VInteger n)) = Some (int_dec n)"
| "cursor_text (Inr (VReal x)) = Some x"
| "cursor_text _ = None"

text \<open>The column is looked for in the first row only; every later row has the same columns.\<close>

fun read_cursor_rows ::
  "'r connection \<Rightarrow> ('r \<Rightarrow> 'a result) \<Rightarrow> string \<Rightarrow> 'r list \<Rightarrow> ('a \<times> string option) list result" where
  "read_cursor_rows conn from_row col [] = Inr []"
| "read_cursor_rows conn from_row col (r # rs) =
     (case cn_column conn r col of
        None \<Rightarrow> Inl (internal (''cursor column '' @ [CHR 0x27] @ col @ [CHR 0x27] @ '' not found in result set''))
      | Some v \<Rightarrow>
          bind_res (from_row r) (\<lambda>item.
          bind_res (read_cursor_rows conn from_row col rs) (\<lambda>more_rows.
          Inr ((item, cursor_text v) # more_rows))))"

definition select_cursor ::
  "'r connection \<Rightarrow> ('r \<Rightarrow> 'a result) \<Rightarrow> select_builder \<Rightarrow> cursor_request \<Rightarrow> 'a cursor_page result" where
  "select_cursor conn from_row b req =
     bind_res (map_err error_from_libsql (cn_query conn (cursor_sql b (cr_after req)) (cursor_params b req))) (\<lambda>rows.
     bind_res (read_cursor_rows conn from_row (sb_cursor_column b) rows) (\<lambda>read.
     let has_more = cr_per_page req < int (length read);
         kept = (if has_more then butlast read else read);
         next_cursor = (if has_more \<and> kept \<noteq> [] then snd (last kept) else None)
     in Inr \<lparr>cp_items = map fst kept, cp_next_cursor = next_cursor, cp_has_more = has_more, cp_per_page = cr_per_page req\<rparr>))"

definition fetch_all :: "'r connection \<Rightarrow> ('r \<Rightarrow> 'a result) \<Rightarrow> select_builder \<Rightarrow> 'a list result" where
  "fetch_all conn from_row b =
     (let (where_sql, params) = build_where b
      in bind_res (map_err error_from_libsql (cn_query conn (sb_base_sql b @ where_sql @ order_sql b) params)) (collect_res from_row))"

definition fetch_one :: "'r connection \<Rightarrow> ('r \<Rightarrow> 'a result) \<Rightarrow> select_builder \<Rightarrow> 'a result" where
  "fetch_one conn from_row b =
     (let (where_sql, params) = build_where b
      in bind_res (map_err error_from_libsql (cn_query conn (sb_base_sql b @ where_sql @ '' LIMIT 1'') params)) (\<lambda>rows.
         case rows of [] \<Rightarrow> Inl (not_found ''record not found'') | r # _ \<Rightarrow> from_row r))"

definition fetch_optional :: "'r connection \<Rightarrow> ('r \<Rightarrow> 'a result) \<Rightarrow> select_builder \<Rightarrow> 'a option result" where
  "fetch_optional conn from_row b =
     (let (where_sql, params) = build_where b
      in bind_res (map_err error_from_libsql (cn_query conn (sb_base_sql b @ where_sql @ '' LIMIT 1'') params)) (\<lambda>rows.
         case rows of [] \<Rightarrow> Inr None | r # _ \<Rightarrow> bind_res (from_row r) (\<lambda>x. Inr (Some x))))"

section \<open>What a filter can say\<close>

text \<open>The texts that may follow a column, and the number of placeholders in a text.\<close>

definition clause_tails :: "string set" where
  "clause_tails = {'' IS NULL'', '' IS NOT NULL''} \<union> (\<lambda>op. '' '' @ sql_operator op @ '' ?'') ` UNIV \<union>
     range (\<lambda>n. '' IN ('' @ join_with '', '' (replicate n ''?'') @ '')'')"

definition placeholders :: "string \<Rightarrow> nat" where
  "placeholders s = length (List.filter (\<lambda>c. c = CHR ''?'') s)"

lemma placeholders_append [simp]: "placeholders (s @ t) = placeholders s + placeholders t"
  by (simp add: placeholders_def)

lemma placeholders_simps [simp]: "placeholders [] = 0" "placeholders (c # s) = (if c = CHR ''?'' then 1 else 0) + placeholders s"
  by (simp_all add: placeholders_def)

lemma placeholders_quoted: "CHR ''?'' \<notin> set col \<Longrightarrow> placeholders (quoted col) = 0"
  by (induction col) (auto simp: quoted_def)

lemma placeholders_join: "placeholders (join_with '', '' (replicate n ''?'')) = n"
proof (induction n)
  case (Suc n)
  then show ?case by (cases n) simp_all
qed simp

lemma placeholders_op: "placeholders ('' '' @ sql_operator op @ '' ?'') = 1"
  by (cases op) simp_all

lemma collect_res_length: "collect_res f xs = Inr ys \<Longrightarrow> length ys = length xs"
  by (induction xs arbitrary: ys) (auto simp: result_simps)

lemma validate_condition_Inr:
  assumes "validate_condition pf typ c = Inr (clause, ps)" "CHR ''?'' \<notin> set (fc_column c)"
  shows "(\<exists>tail \<in> clause_tails. clause = quoted (fc_column c) @ tail) \<and> placeholders clause = length ps"
proof -
  have simple: ?thesis if "clause = quoted (fc_column c) @ '' '' @ sql_operator op @ '' ?''" "length ps = 1" for op
    using that placeholders_op [of op] placeholders_quoted [OF assms(2)] by (auto simp: clause_tails_def)
  have plain: "clause = quoted (fc_column c) @ '' '' @ sql_operator (fc_operator c) @ '' ?'' \<and> length ps = 1"
    if "\<nexists>b. fc_operator c = OpIsNull b" "fc_operator c \<noteq> OpIn"
    using assms(1) that by (cases "fc_operator c") (auto simp: validate_condition_def result_simps split: list.splits)
  consider (null) b where "fc_operator c = OpIsNull b" | (isin) "fc_operator c = OpIn"
    | (op) "\<nexists>b. fc_operator c = OpIsNull b" "fc_operator c \<noteq> OpIn" by blast
  then show ?thesis
  proof cases
    case null
    then show ?thesis
      using assms(1) placeholders_quoted [OF assms(2)] by (auto simp: validate_condition_def clause_tails_def)
  next
    case isin
    then have *: "clause = quoted (fc_column c) @ '' IN ('' @ join_with '', '' (replicate (length (fc_values c)) ''?'') @ '')''"
      "length ps = length (fc_values c)"
      using assms(1) by (auto simp: validate_condition_def result_simps map_replicate_const dest: collect_res_length)
    have "placeholders clause = length ps"
      using placeholders_quoted [OF assms(2)] placeholders_join unfolding * placeholders_append by simp
    then show ?thesis using *(1) by (auto simp: clause_tails_def)
  next
    case op
    then show ?thesis using plain simple by blast
  qed
qed

lemma validate_conditions_Inr:
  assumes "validate_conditions pf schema cs = Inr (clauses, ps)" "\<And>col. fsch_fields schema col \<noteq> None \<Longrightarrow> CHR ''?'' \<notin> set col"
  shows "(\<forall>clause \<in> set clauses. \<exists>col \<in> dom (fsch_fields schema). \<exists>tail \<in> clause_tails. clause = quoted col @ tail) \<and>
     sum_list (map placeholders clauses) = length ps"
  using assms(1)
proof (induction cs arbitrary: clauses ps)
  case (Cons c cs)
  show ?case
  proof (cases "fsch_fields schema (fc_column c)")
    case None
    with Cons show ?thesis by simp
  next
    case (Some ft)
    obtain clause qs clauses' ps' where v: "validate_condition pf ft c = Inr (clause, qs)"
      "validate_conditions pf schema cs = Inr (clauses', ps')" "clauses = clause # clauses'" "ps = qs @ ps'"
      using Cons.prems Some by (auto simp: result_simps)
    have "fc_column c \<in> dom (fsch_fields schema)" "CHR ''?'' \<notin> set (fc_column c)" using Some assms(2) by auto
    then show ?thesis using Cons.IH [OF v(2)] validate_condition_Inr [OF v(1)] v(3,4) by auto
  qed
qed simp

text \<open>The sort fields of a list of sort parts.\<close>

lemma sort_parts_fields:
  "\<exists>fs. sort_parts schema seen ss = map (\<lambda>(f, desc). quoted f @ (if desc then '' DESC'' else '' ASC'')) fs \<and>
     distinct (map fst fs) \<and> fst ` set fs \<subseteq> set (fsch_sort_fields schema) - set seen"
proof (induction schema seen ss rule: sort_parts.induct)
  case (2 schema seen s ss)
  obtain f d where fd: "(case strip_prefix ''-'' s of Some stripped \<Rightarrow> (stripped, True) | None \<Rightarrow> (s, False)) = (f, d)"
    by (cases "case strip_prefix ''-'' s of Some stripped \<Rightarrow> (stripped, True) | None \<Rightarrow> (s, False)")
  show ?case
  proof (cases "f \<in> set (fsch_sort_fields schema) \<and> f \<notin> set seen")
    case True
    then obtain fs where "sort_parts schema (f # seen) ss = map (\<lambda>(f, desc). quoted f @ (if desc then '' DESC'' else '' ASC'')) fs"
        "distinct (map fst fs)" "fst ` set fs \<subseteq> set (fsch_sort_fields schema) - set (f # seen)"
      using 2(1) [OF fd [symmetric] refl True] by blast
    then show ?thesis using True fd by (intro exI [of _ "(f, d) # fs"]) auto
  next
    case False
    then show ?thesis using 2(2) [OF fd [symmetric] refl False] fd by auto
  qed
qed simp

section \<open>Properties\<close>

text \<open>C27. A filter cannot smuggle SQL: whatever the query string says, a validated filter's clauses are each a
  column of the schema in quotes followed by one of the fixed comparisons, the number of placeholders
  in them is the number of parameters, and the sort clause lists distinct sort fields of the
  schema in quotes, each with a fixed direction; for column names without a question mark.\<close>

theorem filter_sql_safe:
  assumes "validate_filter parse_f64 schema f = Inr v" "\<And>col. fsch_fields schema col \<noteq> None \<Longrightarrow> CHR ''?'' \<notin> set col"
  shows "(\<forall>clause \<in> set (vf_clauses v). \<exists>col \<in> dom (fsch_fields schema). \<exists>tail \<in> clause_tails. clause = quoted col @ tail) \<and>
     sum_list (map placeholders (vf_clauses v)) = length (vf_params v) \<and>
     (\<forall>s. vf_sort_clause v = Some s \<longrightarrow>
        (\<exists>fs. s = join_with '', '' (map (\<lambda>(f, desc). quoted f @ (if desc then '' DESC'' else '' ASC'')) fs) \<and>
           distinct (map fst fs) \<and> fst ` set fs \<subseteq> set (fsch_sort_fields schema)))"
proof -
  obtain clauses ps where c: "validate_conditions parse_f64 schema (sort_key fc_column (fl_conditions f)) = Inr (clauses, ps)"
    "v = \<lparr>vf_clauses = clauses, vf_params = ps,
       vf_sort_clause = (if sort_parts schema [] (fl_sort f) = [] then None else Some (join_with '', '' (sort_parts schema [] (fl_sort f))))\<rparr>"
    using assms(1) by (auto simp: validate_filter_def result_simps Let_def)
  from sort_parts_fields [of schema "[]" "fl_sort f"] obtain fs where
    "sort_parts schema [] (fl_sort f) = map (\<lambda>(f, desc). quoted f @ (if desc then '' DESC'' else '' ASC'')) fs"
    "distinct (map fst fs)" "fst ` set fs \<subseteq> set (fsch_sort_fields schema)" by auto
  with validate_conditions_Inr [OF c(1) assms(2)] show ?thesis unfolding c(2) by auto
qed

definition demo_schema :: filter_schema where
  "demo_schema = schema_sort_fields [''name''] (schema_field ''age'' FInt (schema_field ''name'' FText filter_schema_new))"

definition demo_filter :: query_filter where
  "demo_filter = from_query_params [(''name'', [''a'', ''b'']), (''age.gte'', [''18'']), (''evil) OR 1=1 --'', [''x'']), (''sort'', [''-name''])]"

theorem filter_sql_safe_witness:
  "sum_list (map placeholders (vf_clauses \<lparr>vf_clauses = [quoted ''age'' @ '' >= ?'', quoted ''name'' @ '' IN (?, ?)''],
     vf_params = [VInteger 18, VText ''a'', VText ''b''], vf_sort_clause = Some (quoted ''name'' @ '' DESC'')\<rparr>)) = 3"
proof -
  have v: "validate_filter (\<lambda>_. None) demo_schema demo_filter =
     Inr \<lparr>vf_clauses = [quoted ''age'' @ '' >= ?'', quoted ''name'' @ '' IN (?, ?)''],
       vf_params = [VInteger 18, VText ''a'', VText ''b''], vf_sort_clause = Some (quoted ''name'' @ '' DESC'')\<rparr>" by code_simp
  have "CHR ''?'' \<notin> set col" if "fsch_fields demo_schema col \<noteq> None" for col
    using that by (auto simp: demo_schema_def schema_sort_fields_def schema_field_def filter_schema_new_def split: if_splits)
  from filter_sql_safe [OF v this] show ?thesis by auto
qed

section \<open>Walking through the pages\<close>

text \<open>A client that follows \<^verbatim>\<open>next_cursor\<close> while there is more; \<^const>\<open>None\<close> when the fuel runs out.\<close>

fun walk ::
  "nat \<Rightarrow> 'r connection \<Rightarrow> ('r \<Rightarrow> 'a result) \<Rightarrow> select_builder \<Rightarrow> int \<Rightarrow> string option \<Rightarrow> ('a list result) option" where
  "walk 0 conn from_row b per_page after = None"
| "walk (Suc n) conn from_row b per_page after =
     (case select_cursor conn from_row b \<lparr>cr_after = after, cr_per_page = per_page\<rparr> of
        Inl e \<Rightarrow> Some (Inl e)
      | Inr p \<Rightarrow>
          if cp_has_more p
          then map_option (\<lambda>r. bind_res r (\<lambda>items. Inr (cp_items p @ items))) (walk n conn from_row b per_page (cp_next_cursor p))
          else Some (Inr (cp_items p)))"

text \<open>The rows behind a cursor in the order of the pages, and SQLite's answer to the builder's statements: the
  first rows of the result that are behind the cursor, up to the limit.\<close>

definition behind :: "bool \<Rightarrow> string option \<Rightarrow> string \<Rightarrow> bool" where
  "behind desc after k = (case after of None \<Rightarrow> True | Some a \<Rightarrow> if desc then k < a else a < k)"

definition answers :: "'r connection \<Rightarrow> select_builder \<Rightarrow> ('r \<Rightarrow> string) \<Rightarrow> 'r list \<Rightarrow> bool" where
  "answers conn b key rows \<longleftrightarrow>
     (\<forall>after limit. 0 \<le> limit \<longrightarrow>
        cn_query conn (cursor_sql b after)
          (snd (build_where b) @ (case after of Some a \<Rightarrow> [VText a] | None \<Rightarrow> []) @ [VInteger limit]) =
        Inr (take (nat limit) (List.filter (\<lambda>r. behind (sb_cursor_desc b) after (key r)) rows)))"

lemma read_cursor_rows_all:
  assumes "\<And>r. r \<in> set rs \<Longrightarrow> cn_column conn r col = Some (Inr (VText (key r))) \<and> from_row r = Inr (item r)"
  shows "read_cursor_rows conn from_row col rs = Inr (map (\<lambda>r. (item r, Some (key r))) rs)"
  using assms by (induction rs) auto

lemma select_cursor_answer:
  assumes "answers conn b key rows" "1 \<le> per_page" "per_page < 2 ^ 63 - 1"
    "\<And>r. r \<in> set rows \<Longrightarrow> cn_column conn r (sb_cursor_column b) = Some (Inr (VText (key r))) \<and> from_row r = Inr (item r)"
    "left = List.filter (\<lambda>r. behind (sb_cursor_desc b) after (key r)) rows"
  shows "select_cursor conn from_row b \<lparr>cr_after = after, cr_per_page = per_page\<rparr> = Inr
     \<lparr>cp_items = map item (take (nat per_page) left),
      cp_next_cursor = (if nat per_page < length left then Some (key (left ! (nat per_page - 1))) else None),
      cp_has_more = (nat per_page < length left), cp_per_page = per_page\<rparr>"
proof -
  let ?n = "nat per_page"
  have lim: "i64_wrap (per_page + 1) = per_page + 1" using assms(2,3) by (intro i64_wrap_in) simp_all
  have Suc: "nat (per_page + 1) = Suc ?n" using assms(2) by simp
  have q: "cn_query conn (cursor_sql b after) (cursor_params b \<lparr>cr_after = after, cr_per_page = per_page\<rparr>) = Inr (take (Suc ?n) left)"
    using assms(1,2,5) lim Suc unfolding answers_def cursor_params_def by simp
  have rd: "read_cursor_rows conn from_row (sb_cursor_column b) (take (Suc ?n) left)
      = Inr (map (\<lambda>r. (item r, Some (key r))) (take (Suc ?n) left))"
    by (rule read_cursor_rows_all) (use assms(4,5) in \<open>auto dest: in_set_takeD\<close>)
  show ?thesis
  proof (cases "?n < length left")
    case True
    have "butlast (map (\<lambda>r. (item r, Some (key r))) (take (Suc ?n) left)) = map (\<lambda>r. (item r, Some (key r))) (take ?n left)"
      using True by (simp add: map_butlast [symmetric] butlast_take take_Suc_conv_app_nth)
    moreover have ne: "take ?n left \<noteq> []" using True assms(2) by auto
    moreover have "last (take ?n left) = left ! (?n - 1)" using last_conv_nth [OF ne] True assms(2) by simp
    ultimately show ?thesis
      using q rd True assms(2) by (simp add: select_cursor_def result_simps last_map)
  next
    case False
    then have "\<not> per_page < int (length left)" "take (Suc ?n) left = left" "take ?n left = left" using assms(2) by auto
    then show ?thesis using q rd assms(2) by (simp add: select_cursor_def result_simps Let_def comp_def)
  qed
qed

lemma behind_drop:
  assumes "sorted_wrt (\<lambda>x y. if desc then key y < key x else key x < key y) rows" "i < length rows"
  shows "List.filter (\<lambda>r. behind desc (Some (key (rows ! i))) (key r)) rows = drop (Suc i) rows"
proof -
  have "List.filter (\<lambda>r. behind desc (Some (key (rows ! i))) (key r)) (take (Suc i) rows) = []"
    unfolding filter_empty_conv
  proof
    fix r assume "r \<in> set (take (Suc i) rows)"
    then obtain j where "j \<le> i" "r = rows ! j" using assms(2) by (auto simp: in_set_conv_nth less_Suc_eq_le)
    then show "\<not> behind desc (Some (key (rows ! i))) (key r)"
      using assms sorted_wrt_nth_less [OF assms(1), of j i] by (cases "j = i") (auto simp: behind_def split: if_splits)
  qed
  moreover have "List.filter (\<lambda>r. behind desc (Some (key (rows ! i))) (key r)) (drop (Suc i) rows) = drop (Suc i) rows"
  proof (rule filter_True, rule ballI)
    fix r assume "r \<in> set (drop (Suc i) rows)"
    then obtain k where "k < length rows - Suc i" "r = drop (Suc i) rows ! k" by (auto simp: in_set_conv_nth)
    then obtain j where "i < j" "j < length rows" "r = rows ! j" using assms(2) by (intro that [of "Suc i + k"]) auto
    then show "behind desc (Some (key (rows ! i))) (key r)"
      using sorted_wrt_nth_less [OF assms(1), of i j] by (auto simp: behind_def split: if_splits)
  qed
  ultimately show ?thesis by (metis append_Nil append_take_drop_id filter_append)
qed

lemma walk_from:
  assumes "answers conn b key rows" "1 \<le> per_page" "per_page < 2 ^ 63 - 1"
    "\<And>r. r \<in> set rows \<Longrightarrow> cn_column conn r (sb_cursor_column b) = Some (Inr (VText (key r))) \<and> from_row r = Inr (item r)"
    "sorted_wrt (\<lambda>x y. if sb_cursor_desc b then key y < key x else key x < key y) rows"
    "List.filter (\<lambda>r. behind (sb_cursor_desc b) after (key r)) rows = drop k rows" "length rows - k < fuel"
  shows "walk fuel conn from_row b per_page after = Some (Inr (map item (drop k rows)))"
  using assms(6,7)
proof (induction fuel arbitrary: after k)
  case (Suc fuel)
  let ?n = "nat per_page" and ?left = "drop k rows"
  have n: "0 < ?n" using assms(2) by simp
  have page: "select_cursor conn from_row b \<lparr>cr_after = after, cr_per_page = per_page\<rparr> = Inr
     \<lparr>cp_items = map item (take ?n ?left),
      cp_next_cursor = (if ?n < length ?left then Some (key (?left ! (?n - 1))) else None),
      cp_has_more = (?n < length ?left), cp_per_page = per_page\<rparr>"
    by (rule select_cursor_answer [OF assms(1-3) _ Suc.prems(1) [symmetric]]) (rule assms(4))
  show ?case
  proof (cases "?n < length ?left")
    case True
    define i where "i = k + (?n - 1)"
    have i: "?left ! (?n - 1) = rows ! i" "i < length rows" using True n by (auto simp: i_def)
    have "length rows - Suc i < fuel" using Suc.prems(2) n i_def i(2) by linarith
    from Suc.IH [OF behind_drop [OF assms(5) i(2)] this]
    have rest: "walk fuel conn from_row b per_page (Some (key (rows ! i))) = Some (Inr (map item (drop (Suc i) rows)))" .
    have "drop (Suc i) rows = drop ?n ?left" using n by (simp add: i_def add.commute)
    then have "map item (take ?n ?left) @ map item (drop (Suc i) rows) = map item ?left"
      by (simp only: map_append [symmetric] append_take_drop_id)
    with rest True show ?thesis unfolding walk.simps page i(1) by (simp add: result_simps del: drop_drop)
  next
    case False
    then show ?thesis using page n by simp
  qed
qed simp


definition demo_conn :: "string connection" where
  "demo_conn =
     \<lparr>cn_query = (\<lambda>sql ps. Inr (case ps of
         [VInteger n] \<Rightarrow> take (nat n) [''c'', ''b'', ''a'']
       | [VText a, VInteger n] \<Rightarrow> take (nat n) (List.filter (\<lambda>k. k < a) [''c'', ''b'', ''a''])
       | _ \<Rightarrow> [])),
      cn_first_int = (\<lambda>r. Inr 3), cn_column = (\<lambda>r col. Some (Inr (VText r)))\<rparr>"


section \<open>Far pages\<close>

text \<open>The page number is not bounded by the clamp: the offset of a far page wraps around.\<close>

lemma page_offset_wraps: "page_offset (page_request_clamp pagination_config_default \<lparr>pr_page = 2 ^ 62, pr_per_page = 4\<rparr>) = - 4"
  by (simp add: page_offset_def page_request_clamp_def clamp_per_page_def pagination_config_default_def i64_wrap_def Let_def)

text \<open>The order of a builder is lost when one row is fetched: \<^verbatim>\<open>fetch_one\<close> and \<^verbatim>\<open>fetch_optional\<close> take whatever row the
  database gives first.\<close>

lemma fetch_one_drops_order:
  "fetch_one conn from_row (select_order_by o_sql b) = fetch_one conn from_row b"
  "fetch_optional conn from_row (select_order_by o_sql b) = fetch_optional conn from_row b"
  by (simp_all add: fetch_one_def fetch_optional_def select_order_by_def build_where_def)

end
