(* ===== verification/S3.thy ===== *)
theory S3
  imports Ids Text
begin

text \<open>
  The S3 client of \<^verbatim>\<open>src/src/storage\<close>: percent encoding and AWS signatures (\<^verbatim>\<open>signing.rs\<close>), presigned URLs
  (\<^verbatim>\<open>presign.rs\<close>) and the remote backend (\<^verbatim>\<open>client.rs\<close>). HMAC-SHA256, SHA-256 and chrono's formats are the
  fields of \<open>sig_env\<close>. The network is a record of functions on the state of the world: what the server answers
  to a request, and the clock.
\<close>

section \<open>Percent encoding\<close>

definition upper_hex :: "nat \<Rightarrow> char" where
  "upper_hex n = ''0123456789ABCDEF'' ! n"

definition unreserved :: "char \<Rightarrow> bool" where
  "unreserved c \<longleftrightarrow> is_ascii_alphanumeric c \<or> c \<in> {CHR ''_'', CHR ''-'', CHR ''.'', CHR ''~''}"

definition uri_byte :: "bool \<Rightarrow> char \<Rightarrow> string" where
  "uri_byte encode_slash c =
     (if unreserved c then [c]
      else if c = CHR ''/'' \<and> \<not> encode_slash then ''/''
      else [CHR ''%'', upper_hex (of_char c div 16), upper_hex (of_char c mod 16)])"

definition uri_encode :: "string \<Rightarrow> bool \<Rightarrow> string" where
  "uri_encode input encode_slash = concat (map (uri_byte encode_slash) input)"

section \<open>Signatures\<close>

record sig_env =
  se_hmac :: "u8 list \<Rightarrow> u8 list \<Rightarrow> u8 list"
  se_digest :: "u8 list \<Rightarrow> u8 list"
  se_date_stamp :: "int \<Rightarrow> string"
  se_amz_date :: "int \<Rightarrow> string"

record signing_params =
  sp_access_key :: string
  sp_secret_key :: string
  sp_region :: string
  sp_method :: string
  sp_canonical_uri :: string
  sp_host :: string
  sp_query_string :: string
  sp_extra_headers :: "(string \<times> string) list"
  sp_payload_hash :: string
  sp_now :: int

definition derive_signing_key :: "sig_env \<Rightarrow> string \<Rightarrow> string \<Rightarrow> string \<Rightarrow> u8 list" where
  "derive_signing_key env secret_key date_stamp region =
     (let k_date = se_hmac env (as_bytes (''AWS4'' @ secret_key)) (as_bytes date_stamp);
          k_region = se_hmac env k_date (as_bytes region);
          k_service = se_hmac env k_region (as_bytes ''s3'')
      in se_hmac env k_service (as_bytes ''aws4_request''))"

definition scope_of :: "string \<Rightarrow> string \<Rightarrow> string" where
  "scope_of date_stamp region = date_stamp @ ''/'' @ region @ ''/s3/aws4_request''"

definition string_to_sign :: "sig_env \<Rightarrow> string \<Rightarrow> string \<Rightarrow> string \<Rightarrow> string" where
  "string_to_sign env amz_date scope canonical_request =
     ''AWS4-HMAC-SHA256'' @ [CHR 0x0A] @ amz_date @ [CHR 0x0A] @ scope @ [CHR 0x0A] @
     hex_sha256 (se_digest env) (as_bytes canonical_request)"

text \<open>The names of the extra headers are ASCII literals of the client, so \<^verbatim>\<open>to_lowercase\<close> is the ASCII one.\<close>

definition signed_header_list :: "sig_env \<Rightarrow> signing_params \<Rightarrow> (string \<times> string) list" where
  "signed_header_list env p =
     sort_key fst
       ([(''host'', sp_host p), (''x-amz-content-sha256'', sp_payload_hash p), (''x-amz-date'', se_amz_date env (sp_now p))] @
        map (\<lambda>(k, v). (map to_ascii_lowercase k, v)) (sp_extra_headers p))"

definition sorted_query :: "string \<Rightarrow> string" where
  "sorted_query q = (if q = [] then [] else join_with ''&'' (sort (split_on CHR ''&'' q)))"

definition canonical_request :: "signing_params \<Rightarrow> (string \<times> string) list \<Rightarrow> string" where
  "canonical_request p hs =
     join_with [CHR 0x0A]
       [sp_method p, sp_canonical_uri p, sorted_query (sp_query_string p),
        concat (map (\<lambda>(k, v). k @ '':'' @ v @ [CHR 0x0A]) hs), join_with '';'' (map fst hs), sp_payload_hash p]"

definition sign_request :: "sig_env \<Rightarrow> signing_params \<Rightarrow> string \<times> (string \<times> string) list" where
  "sign_request env p =
     (let date_stamp = se_date_stamp env (sp_now p);
          amz_date = se_amz_date env (sp_now p);
          scope = scope_of date_stamp (sp_region p);
          hs = signed_header_list env p;
          to_sign = string_to_sign env amz_date scope (canonical_request p hs);
          signing_key = derive_signing_key env (sp_secret_key p) date_stamp (sp_region p);
          signature = hex_encode (se_hmac env signing_key (as_bytes to_sign))
      in (''AWS4-HMAC-SHA256 Credential='' @ sp_access_key p @ ''/'' @ scope @ '',SignedHeaders='' @ join_with '';'' (map fst hs) @
          '',Signature='' @ signature, hs))"

section \<open>The remote backend\<close>

record remote_backend =
  rb_bucket :: string
  rb_endpoint :: string
  rb_endpoint_host :: string
  rb_access_key :: string
  rb_secret_key :: string
  rb_region :: string
  rb_path_style :: bool

definition EMPTY_SHA256 :: string where
  "EMPTY_SHA256 = ''e3b0c44298fc1c149afbf4c8996fb92427ae41e4649b934ca495991b7852b855''"

definition strip_scheme :: "string \<Rightarrow> string" where
  "strip_scheme endpoint =
     (case strip_prefix ''https://'' endpoint of
        Some h \<Rightarrow> h
      | None \<Rightarrow> (case strip_prefix ''http://'' endpoint of Some h \<Rightarrow> h | None \<Rightarrow> endpoint))"

definition remote_backend_new :: "string \<Rightarrow> string \<Rightarrow> string \<Rightarrow> string \<Rightarrow> string \<Rightarrow> bool \<Rightarrow> remote_backend result" where
  "remote_backend_new bucket endpoint access_key secret_key region path_style =
     Inr \<lparr>rb_bucket = bucket, rb_endpoint = endpoint, rb_endpoint_host = strip_scheme endpoint, rb_access_key = access_key,
          rb_secret_key = secret_key, rb_region = region, rb_path_style = path_style\<rparr>"

definition build_url_and_host :: "string \<Rightarrow> string \<Rightarrow> string \<Rightarrow> string \<Rightarrow> bool \<Rightarrow> string \<times> string" where
  "build_url_and_host endpoint endpoint_host bucket key path_style =
     (let encoded_key = uri_encode key False
      in if path_style then (endpoint @ ''/'' @ bucket @ ''/'' @ encoded_key, endpoint_host)
         else (''https://'' @ bucket @ ''.'' @ endpoint_host @ ''/'' @ encoded_key, bucket @ ''.'' @ endpoint_host))"

definition build_canonical_uri :: "string \<Rightarrow> string \<Rightarrow> bool \<Rightarrow> string" where
  "build_canonical_uri bucket key path_style =
     (let encoded_key = uri_encode key False
      in if path_style then ''/'' @ bucket @ ''/'' @ encoded_key else ''/'' @ encoded_key)"

definition url_and_host :: "remote_backend \<Rightarrow> string \<Rightarrow> string \<times> string" where
  "url_and_host b key = build_url_and_host (rb_endpoint b) (rb_endpoint_host b) (rb_bucket b) key (rb_path_style b)"

definition canonical_uri :: "remote_backend \<Rightarrow> string \<Rightarrow> string" where
  "canonical_uri b key = build_canonical_uri (rb_bucket b) key (rb_path_style b)"

text \<open>A request on the wire, a response with its body as \<^verbatim>\<open>text().unwrap_or_default()\<close> and as
  \<^verbatim>\<open>bytes()\<close> read lossily give it, and the client: sending, the clock, and the text of a status.\<close>

record wire_request =
  wq_method :: string
  wq_url :: string
  wq_headers :: "(string \<times> string) list"
  wq_body :: "u8 list"

record wire_response =
  wr_status :: nat
  wr_text :: string
  wr_lossy :: "string + string"

record 's s3_client =
  sc_send :: "wire_request \<Rightarrow> 's \<Rightarrow> (string + wire_response) \<times> 's"
  sc_now :: "'s \<Rightarrow> int"
  sc_status_text :: "nat \<Rightarrow> string"

definition is_success :: "nat \<Rightarrow> bool" where
  "is_success status \<longleftrightarrow> 200 \<le> status \<and> status < 300"

definition signing_params_of ::
  "remote_backend \<Rightarrow> string \<Rightarrow> string \<Rightarrow> string \<Rightarrow> string \<Rightarrow> (string \<times> string) list \<Rightarrow> string \<Rightarrow> int \<Rightarrow> signing_params" where
  "signing_params_of b mthd uri host query extra payload_hash now =
     \<lparr>sp_access_key = rb_access_key b, sp_secret_key = rb_secret_key b, sp_region = rb_region b, sp_method = mthd,
      sp_canonical_uri = uri, sp_host = host, sp_query_string = query, sp_extra_headers = extra,
      sp_payload_hash = payload_hash, sp_now = now\<rparr>"

definition signed_request :: "sig_env \<Rightarrow> signing_params \<Rightarrow> string \<Rightarrow> (string \<times> string) list \<Rightarrow> u8 list \<Rightarrow> wire_request" where
  "signed_request env p url more_headers body =
     (let (auth, hs) = sign_request env p
      in \<lparr>wq_method = sp_method p, wq_url = url, wq_headers = hs @ [(''authorization'', auth)] @ more_headers, wq_body = body\<rparr>)"

datatype acl = Private | PublicRead

fun as_header_value :: "acl \<Rightarrow> string" where
  "as_header_value Private = ''private''"
| "as_header_value PublicRead = ''public-read''"

record put_options =
  po_content_disposition :: "string option"
  po_cache_control :: "string option"
  po_content_type :: "string option"
  po_acl :: "acl option"

definition put_options_default :: put_options where
  "put_options_default = \<lparr>po_content_disposition = None, po_cache_control = None, po_content_type = None, po_acl = None\<rparr>"

definition put_headers :: "string \<Rightarrow> put_options \<Rightarrow> (string \<times> string) list" where
  "put_headers content_type opts =
     [(''content-type'', content_type)] @
     (case po_content_disposition opts of Some cd \<Rightarrow> [(''content-disposition'', cd)] | None \<Rightarrow> []) @
     (case po_cache_control opts of Some cc \<Rightarrow> [(''cache-control'', cc)] | None \<Rightarrow> []) @
     (case po_acl opts of Some a \<Rightarrow> [(''x-amz-acl'', as_header_value a)] | None \<Rightarrow> [])"

definition remote_put ::
  "sig_env \<Rightarrow> 's s3_client \<Rightarrow> remote_backend \<Rightarrow> string \<Rightarrow> u8 list \<Rightarrow> string \<Rightarrow> put_options \<Rightarrow> 's \<Rightarrow> unit result \<times> 's" where
  "remote_put env cl b key data content_type opts w =
     (let (url, host) = url_and_host b key;
          p = signing_params_of b ''PUT'' (canonical_uri b key) host [] (put_headers content_type opts) ''UNSIGNED-PAYLOAD'' (sc_now cl w);
          (answer, w') = sc_send cl (signed_request env p url [(''content-length'', nat_dec (length data))] data) w
      in (bind_res (map_err (\<lambda>e. internal (''PUT request failed: '' @ e)) answer) (\<lambda>r.
          if is_success (wr_status r) then Inr ()
          else Inl (internal (''PUT failed ('' @ sc_status_text cl (wr_status r) @ ''): '' @ wr_text r))), w'))"

definition remote_delete :: "sig_env \<Rightarrow> 's s3_client \<Rightarrow> remote_backend \<Rightarrow> string \<Rightarrow> 's \<Rightarrow> unit result \<times> 's" where
  "remote_delete env cl b key w =
     (let (url, host) = url_and_host b key;
          p = signing_params_of b ''DELETE'' (canonical_uri b key) host [] [] EMPTY_SHA256 (sc_now cl w);
          (answer, w') = sc_send cl (signed_request env p url [] []) w
      in (bind_res (map_err (\<lambda>e. internal (''DELETE request failed: '' @ e)) answer) (\<lambda>r.
          if is_success (wr_status r) then Inr ()
          else Inl (internal (''DELETE failed ('' @ sc_status_text cl (wr_status r) @ ''): '' @ wr_text r))), w'))"

definition remote_exists :: "sig_env \<Rightarrow> 's s3_client \<Rightarrow> remote_backend \<Rightarrow> string \<Rightarrow> 's \<Rightarrow> bool result \<times> 's" where
  "remote_exists env cl b key w =
     (let (url, host) = url_and_host b key;
          p = signing_params_of b ''HEAD'' (canonical_uri b key) host [] [] EMPTY_SHA256 (sc_now cl w);
          (answer, w') = sc_send cl (signed_request env p url [] []) w
      in (bind_res (map_err (\<lambda>e. internal (''HEAD request failed: '' @ e)) answer) (\<lambda>r.
          if is_success (wr_status r) then Inr True
          else if wr_status r = 404 then Inr False
          else Inl (internal (''HEAD failed ('' @ sc_status_text cl (wr_status r) @ '')''))), w'))"

text \<open>Listing reads the answer's XML by hand.\<close>

fun find_sub :: "string \<Rightarrow> string \<Rightarrow> nat option" where
  "find_sub p [] = (if p = [] then Some 0 else None)"
| "find_sub p (c # s) = (if starts_with p (c # s) then Some 0 else map_option Suc (find_sub p s))"

function extract_xml_values :: "string \<Rightarrow> string \<Rightarrow> string list" where
  "extract_xml_values xml tag =
     (case find_sub (''<'' @ tag @ ''>'') xml of
        None \<Rightarrow> []
      | Some start \<Rightarrow>
          (let rest = drop (start + length (''<'' @ tag @ ''>'')) xml
           in case find_sub (''</'' @ tag @ ''>'') rest of
                None \<Rightarrow> []
              | Some e \<Rightarrow> take e rest # extract_xml_values (drop (e + length (''</'' @ tag @ ''>'')) rest) tag))"
  by pat_completeness auto
termination
proof (relation "measure (length \<circ> fst)")
  fix xml tag rest :: string and start e
  assume "find_sub (''<'' @ tag @ ''>'') xml = Some start" and r: "rest = drop (start + length (''<'' @ tag @ ''>'')) xml"
  then have "xml \<noteq> []" by (cases xml) auto
  then show "((drop (e + length (''</'' @ tag @ ''>'')) rest, tag), (xml, tag)) \<in> measure (length \<circ> fst)" using r by simp
qed simp

declare extract_xml_values.simps [simp del]

definition extract_xml_value :: "string \<Rightarrow> string \<Rightarrow> string option" where
  "extract_xml_value xml tag = (case extract_xml_values xml tag of [] \<Rightarrow> None | v # _ \<Rightarrow> Some v)"

definition list_query :: "string \<Rightarrow> string option \<Rightarrow> string" where
  "list_query prefix token =
     ''list-type=2&prefix='' @ uri_encode prefix True @
     (case token of Some t \<Rightarrow> ''&continuation-token='' @ uri_encode t True | None \<Rightarrow> [])"

definition list_request :: "sig_env \<Rightarrow> remote_backend \<Rightarrow> string \<Rightarrow> string option \<Rightarrow> int \<Rightarrow> wire_request" where
  "list_request env b prefix token now =
     (let query = list_query prefix token;
          (base_url, host) =
            (if rb_path_style b then (rb_endpoint b @ ''/'' @ rb_bucket b @ ''?'' @ query, rb_endpoint_host b)
             else (''https://'' @ rb_bucket b @ ''.'' @ rb_endpoint_host b @ ''/?'' @ query, rb_bucket b @ ''.'' @ rb_endpoint_host b));
          uri = (if rb_path_style b then ''/'' @ rb_bucket b else ''/'')
      in signed_request env (signing_params_of b ''GET'' uri host query [] EMPTY_SHA256 now) base_url [] [])"

text \<open>One answer: its keys, whether there is more, and the next token.\<close>

definition read_listing :: "'s s3_client \<Rightarrow> string + wire_response \<Rightarrow> (string list \<times> bool \<times> string option) result" where
  "read_listing cl answer =
     bind_res (map_err (\<lambda>e. internal (''LIST request failed: '' @ e)) answer) (\<lambda>r.
     bind_res (map_err (\<lambda>e. internal (''failed to read response: '' @ e)) (wr_lossy r)) (\<lambda>body.
     if \<not> is_success (wr_status r)
     then Inl (internal (''LIST failed ('' @ sc_status_text cl (wr_status r) @ ''): '' @ body))
     else Inr (extract_xml_values body ''Key'', extract_xml_value body ''IsTruncated'' = Some ''true'',
               extract_xml_value body ''NextContinuationToken'')))"

text \<open>The loop may go on for ever; \<^const>\<open>None\<close>: more than \<open>fuel\<close> answers.\<close>

fun list_loop ::
  "nat \<Rightarrow> sig_env \<Rightarrow> 's s3_client \<Rightarrow> remote_backend \<Rightarrow> string \<Rightarrow> string option \<Rightarrow> string list \<Rightarrow> 's \<Rightarrow>
   (string list result \<times> 's) option" where
  "list_loop 0 env cl b prefix token all_keys w = None"
| "list_loop (Suc fuel) env cl b prefix token all_keys w =
     (let (answer, w') = sc_send cl (list_request env b prefix token (sc_now cl w)) w
      in case read_listing cl answer of
           Inl e \<Rightarrow> Some (Inl e, w')
         | Inr (keys, is_truncated, next_token) \<Rightarrow>
             if is_truncated then list_loop fuel env cl b prefix next_token (all_keys @ keys) w'
             else Some (Inr (all_keys @ keys), w'))"

definition remote_list :: "nat \<Rightarrow> sig_env \<Rightarrow> 's s3_client \<Rightarrow> remote_backend \<Rightarrow> string \<Rightarrow> 's \<Rightarrow> (string list result \<times> 's) option" where
  "remote_list fuel env cl b prefix w = list_loop fuel env cl b prefix None [] w"

section \<open>Presigned URLs\<close>

definition presign_query :: "sig_env \<Rightarrow> remote_backend \<Rightarrow> nat \<Rightarrow> int \<Rightarrow> string" where
  "presign_query env b expires now =
     (let scope = scope_of (se_date_stamp env now) (rb_region b);
          credential = rb_access_key b @ ''/'' @ scope
      in ''X-Amz-Algorithm=AWS4-HMAC-SHA256&X-Amz-Credential='' @ uri_encode credential True @
         ''&X-Amz-Date='' @ se_amz_date env now @ ''&X-Amz-Expires='' @ nat_dec expires @ ''&X-Amz-SignedHeaders=host'')"

definition presign_url :: "sig_env \<Rightarrow> remote_backend \<Rightarrow> string \<Rightarrow> nat \<Rightarrow> int \<Rightarrow> string" where
  "presign_url env b key expires now =
     (let date_stamp = se_date_stamp env now;
          amz_date = se_amz_date env now;
          scope = scope_of date_stamp (rb_region b);
          (base_url, host) = url_and_host b key;
          query_string = presign_query env b expires now;
          request = ''GET'' @ [CHR 0x0A] @ canonical_uri b key @ [CHR 0x0A] @ query_string @ [CHR 0x0A] @ ''host:'' @ host @
                    [CHR 0x0A, CHR 0x0A] @ ''host'' @ [CHR 0x0A] @ ''UNSIGNED-PAYLOAD'';
          signing_key = derive_signing_key env (rb_secret_key b) date_stamp (rb_region b);
          signature = hex_encode (se_hmac env signing_key (as_bytes (string_to_sign env amz_date scope request)))
      in base_url @ ''?'' @ query_string @ ''&X-Amz-Signature='' @ signature)"

definition remote_presigned_url :: "sig_env \<Rightarrow> 's s3_client \<Rightarrow> remote_backend \<Rightarrow> string \<Rightarrow> nat \<Rightarrow> 's \<Rightarrow> string result \<times> 's" where
  "remote_presigned_url env cl b key expires_in w = (Inr (presign_url env b key expires_in (sc_now cl w)), w)"

section \<open>Percent encoding loses nothing\<close>

text \<open>What a server reads: the escapes replaced by the bytes they stand for.\<close>

definition hex_digit :: "char \<Rightarrow> nat option" where
  "hex_digit c = map_option (\<lambda>i. i) (find (\<lambda>i. upper_hex i = c) [0..<16])"

fun percent_decode :: "string \<Rightarrow> string option" where
  "percent_decode [] = Some []"
| "percent_decode (c # s) =
     (if c \<noteq> CHR ''%'' then map_option ((#) c) (percent_decode s)
      else case s of
        a # b # t \<Rightarrow>
          (case (hex_digit a, hex_digit b) of
             (Some x, Some y) \<Rightarrow> map_option ((#) (char_of (16 * x + y))) (percent_decode t)
           | _ \<Rightarrow> None)
      | _ \<Rightarrow> None)"

lemma hex_digit_upper: "n < 16 \<Longrightarrow> hex_digit (upper_hex n) = Some n"
proof -
  have "\<forall>n \<in> set [0..<16]. hex_digit (upper_hex n) = Some n" by code_simp
  then show "n < 16 \<Longrightarrow> hex_digit (upper_hex n) = Some n" by simp
qed

lemma of_char_halves: "(of_char c :: nat) div 16 < 16" "(of_char c :: nat) mod 16 < 16"
proof -
  have "(of_char c :: nat) < 2 ^ 8" unfolding of_char_def by (simp add: horner_sum_bound)
  then have "(of_char c :: nat) < 16 * 16" by simp
  then show "(of_char c :: nat) div 16 < 16" by (rule less_mult_imp_div_less)
qed simp

lemma unreserved_percent: "unreserved c \<Longrightarrow> c \<noteq> CHR ''%'' \<and> c \<noteq> CHR ''/''"
  by (auto simp: unreserved_def is_ascii_alphanumeric_def)

lemma percent_decode_byte: "percent_decode (uri_byte b c @ s) = map_option ((#) c) (percent_decode s)"
proof -
  have "hex_digit (upper_hex (of_char c div 16)) = Some (of_char c div 16)"
    "hex_digit (upper_hex (of_char c mod 16)) = Some (of_char c mod 16)" using of_char_halves [of c] by (simp_all add: hex_digit_upper)
  then show ?thesis
    using unreserved_percent [of c] by (simp add: uri_byte_def mult.commute [of 16])
qed

lemma percent_decode_encode: "percent_decode (uri_encode s b) = Some s"
  by (induction s) (simp_all add: uri_encode_def percent_decode_byte)

lemma unreserved_hex: "unreserved (upper_hex (of_char x div 16))" "unreserved (upper_hex (of_char x mod 16))"
proof -
  have up: "\<forall>n \<in> set [0..<16]. unreserved (upper_hex n)" by code_simp
  then show "unreserved (upper_hex (of_char x div 16))" "unreserved (upper_hex (of_char x mod 16))"
    using of_char_halves [of x] by simp_all
qed

text \<open>Percent encoding loses nothing: decoding the encoded text gives it back, so different keys never meet in one URL,
  and the encoded text consists of unreserved characters and escapes, with a slash only where slashes are kept.\<close>

theorem uri_encode_roundtrip:
  "percent_decode (uri_encode s b) = Some s \<and>
   list_all (\<lambda>c. unreserved c \<or> c = CHR ''%'' \<or> c = CHR ''/'' \<and> \<not> b) (uri_encode s b)"
proof
  show "percent_decode (uri_encode s b) = Some s" by (rule percent_decode_encode)
  show "list_all (\<lambda>c. unreserved c \<or> c = CHR ''%'' \<or> c = CHR ''/'' \<and> \<not> b) (uri_encode s b)"
    by (auto simp: uri_encode_def uri_byte_def list_all_iff unreserved_hex split: if_splits)
qed

section \<open>Requests\<close>

text \<open>A backend signs what it requests: for an endpoint with a scheme, the URL of an object is a scheme, the host
  under the signed \<^verbatim>\<open>host\<close> header, and exactly the canonical URI that is signed, in path style and in virtual-host style; and no
  two keys have the same URL.\<close>

theorem signed_url_is_requested:
  assumes "remote_backend_new bucket endpoint ak sk region style = Inr b"
    "starts_with ''https://'' endpoint \<or> starts_with ''http://'' endpoint"
  shows "(\<exists>scheme. (scheme = ''https://'' \<or> scheme = ''http://'') \<and>
      fst (url_and_host b key) = scheme @ snd (url_and_host b key) @ canonical_uri b key) \<and>
     (fst (url_and_host b key) = fst (url_and_host b key') \<longleftrightarrow> key = key')"
proof
  obtain scheme where s: "scheme = ''https://'' \<or> scheme = ''http://''" "endpoint = scheme @ strip_scheme endpoint"
    using assms(2) by (auto simp: strip_scheme_def starts_with_iff strip_prefix_def)
  have b: "rb_endpoint b = endpoint" "rb_endpoint_host b = strip_scheme endpoint" "rb_bucket b = bucket" "rb_path_style b = style"
    using assms(1) by (auto simp: remote_backend_new_def)
  show "\<exists>scheme. (scheme = ''https://'' \<or> scheme = ''http://'') \<and>
      fst (url_and_host b key) = scheme @ snd (url_and_host b key) @ canonical_uri b key"
  proof (cases style)
    case True
    then have "fst (url_and_host b key) = scheme @ snd (url_and_host b key) @ canonical_uri b key"
      using s(2) b by (simp add: url_and_host_def build_url_and_host_def canonical_uri_def build_canonical_uri_def)
    with s(1) show ?thesis by blast
  next
    case False
    then show ?thesis using b by (simp add: url_and_host_def build_url_and_host_def canonical_uri_def build_canonical_uri_def)
  qed
  have "uri_encode key False = uri_encode key' False \<longleftrightarrow> key = key'"
    by (metis option.inject percent_decode_encode)
  then show "fst (url_and_host b key) = fst (url_and_host b key') \<longleftrightarrow> key = key'"
    by (simp add: url_and_host_def build_url_and_host_def Let_def)
qed

definition demo_backend :: remote_backend where
  "demo_backend = \<lparr>rb_bucket = ''b'', rb_endpoint = ''http://h'', rb_endpoint_host = ''h'', rb_access_key = ''ak'', rb_secret_key = ''sk'',
     rb_region = ''us-east-1'', rb_path_style = True\<rparr>"

theorem signed_url_is_requested_witness: "fst (url_and_host demo_backend ''a b'') \<noteq> fst (url_and_host demo_backend ''a+b'')"
proof -
  have "remote_backend_new ''b'' ''http://h'' ''ak'' ''sk'' ''us-east-1'' True = Inr demo_backend" by code_simp
  moreover have "starts_with ''http://'' ''http://h''" by code_simp
  ultimately show ?thesis using signed_url_is_requested [of _ _ _ _ _ _ demo_backend "''a b''" "''a+b''"] by blast
qed

section \<open>Listings\<close>

text \<open>The answer of the service to a listing, with the elements the client looks for.\<close>

definition contents_xml :: "string \<Rightarrow> string" where
  "contents_xml key = ''<Contents><Key>'' @ key @ ''</Key></Contents>''"

definition listing_xml :: "string list \<Rightarrow> string option \<Rightarrow> string" where
  "listing_xml keys next_token =
     ''<ListBucketResult>'' @
     (case next_token of
        Some t \<Rightarrow> ''<IsTruncated>true</IsTruncated><NextContinuationToken>'' @ t @ ''</NextContinuationToken>''
      | None \<Rightarrow> ''<IsTruncated>false</IsTruncated>'') @
     concat (map contents_xml keys) @ ''</ListBucketResult>''"

lemma find_sub_text:
  "CHR ''<'' \<notin> set v \<Longrightarrow> find_sub (CHR ''<'' # p) (v @ s) = map_option ((+) (length v)) (find_sub (CHR ''<'' # p) s)"
proof (induction v)
  case Nil
  then show ?case by (cases "find_sub (CHR ''<'' # p) s") simp_all
next
  case (Cons c v)
  then show ?case by (cases "find_sub (CHR ''<'' # p) s") (auto simp: starts_with_def)
qed


text \<open>Markup that is no value: it starts with another tag.\<close>

lemma extract_skip:
  assumes "find_sub (''<'' @ tag @ ''>'') (u @ s) = map_option ((+) (length u)) (find_sub (''<'' @ tag @ ''>'') s)"
  shows "extract_xml_values (u @ s) tag = extract_xml_values s tag"
  using assms by (cases "find_sub (''<'' @ tag @ ''>'') s") (simp_all add: extract_xml_values.simps [of "u @ s"] extract_xml_values.simps [of s] add.assoc)

lemma extract_value:
  assumes "CHR ''<'' \<notin> set v" "CHR ''<'' \<notin> set tag"
  shows "extract_xml_values (''<'' @ tag @ ''>'' @ v @ ''</'' @ tag @ ''>'' @ s) tag = v # extract_xml_values s tag"
proof -
  have "find_sub (''<'' @ tag @ ''>'') (''<'' @ tag @ ''>'' @ v @ ''</'' @ tag @ ''>'' @ s) = Some 0"
    by (simp add: starts_with_def)
  moreover have "find_sub (''</'' @ tag @ ''>'') (v @ ''</'' @ tag @ ''>'' @ s) = Some (length v)"
    using find_sub_text [OF assms(1), of "''/'' @ tag @ ''>''" "''</'' @ tag @ ''>'' @ s"] by (simp add: starts_with_def)
  ultimately show ?thesis
    by (simp add: extract_xml_values.simps [of "CHR ''<'' # tag @ CHR ''>'' # v @ CHR ''<'' # CHR ''/'' # tag @ CHR ''>'' # s"] numeral_3_eq_3 del: find_sub.simps)
qed

lemma extract_none: "find_sub (''<'' @ tag @ ''>'') s = None \<Longrightarrow> extract_xml_values s tag = []"
  by (simp add: extract_xml_values.simps [of s])

lemma keys_listed:
  assumes "list_all (\<lambda>k. CHR ''<'' \<notin> set k) keys"
  shows "extract_xml_values (concat (map contents_xml keys) @ ''</ListBucketResult>'') ''Key'' = keys"
  using assms
proof (induction keys)
  case Nil
  show ?case by (rule extract_none) (simp add: starts_with_def)
next
  case (Cons k keys)
  let ?s = "concat (map contents_xml keys) @ ''</ListBucketResult>''"
  have "extract_xml_values (''<Contents>'' @ ''<Key>'' @ k @ ''</Key>'' @ ''</Contents>'' @ ?s) ''Key''
      = extract_xml_values (''<Key>'' @ k @ ''</Key>'' @ ''</Contents>'' @ ?s) ''Key''"
    by (rule extract_skip) (simp add: starts_with_def)
  also have "\<dots> = k # extract_xml_values (''</Contents>'' @ ?s) ''Key''"
    using Cons.prems extract_value [of k "''Key''" "''</Contents>'' @ ?s"] by simp
  also have "extract_xml_values (''</Contents>'' @ ?s) ''Key'' = extract_xml_values ?s ''Key''"
    by (rule extract_skip) (cases "find_sub ''<Key>'' ?s", simp_all add: starts_with_def)
  also have "\<dots> = keys" using Cons.IH Cons.prems by simp
  moreover have "concat (map contents_xml (k # keys)) @ ''</ListBucketResult>'' = ''<Contents>'' @ ''<Key>'' @ k @ ''</Key>'' @ ''</Contents>'' @ ?s"
    by (simp add: contents_xml_def)
  ultimately show ?case by (simp only:)
qed

lemma listing_read:
  assumes "list_all (\<lambda>k. CHR ''<'' \<notin> set k) keys" "\<And>t. next_token = Some t \<Longrightarrow> CHR ''<'' \<notin> set t"
  shows "extract_xml_values (listing_xml keys next_token) ''Key'' = keys"
    and "extract_xml_value (listing_xml keys next_token) ''IsTruncated'' = Some (if next_token = None then ''false'' else ''true'')"
    and "\<And>t. next_token = Some t \<Longrightarrow> extract_xml_value (listing_xml keys next_token) ''NextContinuationToken'' = Some t"
proof -
  let ?s = "concat (map contents_xml keys) @ ''</ListBucketResult>''"
  define flag where "flag = (if next_token = None then ''false'' else ''true'')"
  define tok where "tok = (case next_token of Some t \<Rightarrow> ''<NextContinuationToken>'' @ t @ ''</NextContinuationToken>'' | None \<Rightarrow> [])"
  have xml: "listing_xml keys next_token = ''<ListBucketResult>'' @ ''<IsTruncated>'' @ flag @ ''</IsTruncated>'' @ tok @ ?s"
    by (simp add: listing_xml_def flag_def tok_def split: option.split)
  have f: "CHR ''<'' \<notin> set flag" by (simp add: flag_def)
  have "extract_xml_values (listing_xml keys next_token) ''IsTruncated''
      = extract_xml_values (''<IsTruncated>'' @ flag @ ''</IsTruncated>'' @ tok @ ?s) ''IsTruncated''"
    unfolding xml by (rule extract_skip) (simp add: starts_with_def)
  also have "\<dots> = flag # extract_xml_values (tok @ ?s) ''IsTruncated''"
    using extract_value [OF f, of "''IsTruncated''" "tok @ ?s"] by simp
  finally show "extract_xml_value (listing_xml keys next_token) ''IsTruncated'' = Some (if next_token = None then ''false'' else ''true'')"
    by (simp add: extract_xml_value_def flag_def)
  have skip1: "extract_xml_values (listing_xml keys next_token) tag = extract_xml_values (tok @ ?s) tag"
    if "tag = ''Key'' \<or> tag = ''NextContinuationToken''" for tag
  proof -
    have "extract_xml_values ((''<ListBucketResult>'' @ ''<IsTruncated>'' @ flag @ ''</IsTruncated>'') @ tok @ ?s) tag = extract_xml_values (tok @ ?s) tag"
    proof (rule extract_skip)
      show "find_sub (''<'' @ tag @ ''>'') ((''<ListBucketResult>'' @ ''<IsTruncated>'' @ flag @ ''</IsTruncated>'') @ tok @ ?s) =
         map_option ((+) (length (''<ListBucketResult>'' @ ''<IsTruncated>'' @ flag @ ''</IsTruncated>''))) (find_sub (''<'' @ tag @ ''>'') (tok @ ?s))"
        using that by (cases "find_sub (''<'' @ tag @ ''>'') (tok @ ?s)") (auto simp: flag_def starts_with_def)
    qed
    then show ?thesis unfolding xml by simp
  qed
  show "extract_xml_value (listing_xml keys next_token) ''NextContinuationToken'' = Some t" if t: "next_token = Some t" for t
    using extract_value [of t "''NextContinuationToken''" ?s] assms(2) [OF t] t skip1 [of "''NextContinuationToken''"]
    by (simp add: extract_xml_value_def tok_def)
  have "extract_xml_values (tok @ ?s) ''Key'' = extract_xml_values ?s ''Key''"
  proof (cases next_token)
    case None
    then show ?thesis by (simp add: tok_def)
  next
    case (Some t)
    have "extract_xml_values (''<NextContinuationToken>'' @ t @ ''</NextContinuationToken>'' @ ?s) ''Key''
        = extract_xml_values (t @ ''</NextContinuationToken>'' @ ?s) ''Key''"
      by (rule extract_skip) (cases "find_sub ''<Key>'' (t @ ''</NextContinuationToken>'' @ ?s)", simp_all add: starts_with_def)
    also have "\<dots> = extract_xml_values (''</NextContinuationToken>'' @ ?s) ''Key''"
      using find_sub_text [OF assms(2) [OF Some], of "''Key>''"] by (intro extract_skip) simp
    also have "\<dots> = extract_xml_values ?s ''Key''"
      by (rule extract_skip) (cases "find_sub ''<Key>'' ?s", simp_all add: starts_with_def)
    finally show ?thesis using Some by (simp add: tok_def)
  qed
  then show "extract_xml_values (listing_xml keys next_token) ''Key'' = keys"
    using skip1 [of "''Key''"] keys_listed [OF assms(1)] by simp
qed

text \<open>A service that answers the token \<open>tok\<close> with the keys and the next token of \<open>page tok\<close>, and the pages that
  following the tokens gives.\<close>

fun follows :: "(string option \<Rightarrow> string list \<times> string option) \<Rightarrow> string option \<Rightarrow> string list list \<Rightarrow> bool" where
  "follows page tok [] = False"
| "follows page tok (ks # kss) \<longleftrightarrow>
     fst (page tok) = ks \<and> (case snd (page tok) of None \<Rightarrow> kss = [] | Some t \<Rightarrow> follows page (Some t) kss)"

definition serves ::
  "sig_env \<Rightarrow> 's s3_client \<Rightarrow> remote_backend \<Rightarrow> string \<Rightarrow> (string option \<Rightarrow> string list \<times> string option) \<Rightarrow> bool" where
  "serves env cl b prefix page \<longleftrightarrow>
     (\<forall>tok w. \<exists>text. fst (sc_send cl (list_request env b prefix tok (sc_now cl w)) w) =
        Inr \<lparr>wr_status = 200, wr_text = text, wr_lossy = Inr (listing_xml (fst (page tok)) (snd (page tok)))\<rparr>)"

definition plain_page :: "string list \<times> string option \<Rightarrow> bool" where
  "plain_page p \<longleftrightarrow> list_all (\<lambda>k. CHR ''<'' \<notin> set k) (fst p) \<and> (\<forall>t. snd p = Some t \<longrightarrow> CHR ''<'' \<notin> set t)"

lemma list_loop_follows:
  assumes "serves env cl b prefix page" "\<And>tok. plain_page (page tok)"
  shows "follows page tok kss \<Longrightarrow> \<exists>w'. list_loop (length kss) env cl b prefix tok acc w = Some (Inr (acc @ concat kss), w')"
proof (induction kss arbitrary: tok acc w)
  case (Cons ks kss)
  obtain body w' where send: "sc_send cl (list_request env b prefix tok (sc_now cl w)) w =
      (Inr \<lparr>wr_status = 200, wr_text = body, wr_lossy = Inr (listing_xml ks (snd (page tok)))\<rparr>, w')"
    using assms(1) Cons.prems unfolding serves_def by (metis follows.simps(2) prod.collapse)
  note plain = assms(2) [of tok, unfolded plain_page_def]
  have ks: "fst (page tok) = ks" using Cons.prems by simp
  show ?case
  proof (cases "snd (page tok)")
    case None
    then show ?thesis
      using Cons.prems send plain listing_read(1,2) [of ks None] ks by (simp add: read_listing_def is_success_def)
  next
    case (Some t)
    from Cons.IH [of "Some t" "acc @ ks" w'] Cons.prems Some
    obtain w'' where "list_loop (length kss) env cl b prefix (Some t) (acc @ ks) w' = Some (Inr (acc @ ks @ concat kss), w'')" by auto
    then show ?thesis
      using Some send plain listing_read [of ks "Some t"] ks by (simp add: read_listing_def is_success_def)
  qed
qed simp


definition demo_page :: "string option \<Rightarrow> string list \<times> string option" where
  "demo_page tok = (if tok = None then ([''a/1'', ''a/2''], Some ''t'') else ([''a/3''], None))"

definition demo_sig :: sig_env where
  "demo_sig = \<lparr>se_hmac = (\<lambda>k m. k @ m), se_digest = id, se_date_stamp = (\<lambda>_. ''20240101''), se_amz_date = (\<lambda>_. ''20240101T000000Z'')\<rparr>"

definition demo_client :: "unit s3_client" where
  "demo_client =
     \<lparr>sc_send = (\<lambda>rq w. (Inr \<lparr>wr_status = 200, wr_text = [], wr_lossy = Inr
          (if wq_url rq = ''http://h/b?list-type=2&prefix=a%2F'' then listing_xml [''a/1'', ''a/2''] (Some ''t'') else listing_xml [''a/3''] None)\<rparr>, w)),
      sc_now = (\<lambda>_. 0), sc_status_text = nat_dec\<rparr>"


text \<open>An answer that claims to be truncated without a token makes the loop ask for the first page again, for ever; and
  the entities of the XML are not decoded, so a key with an ampersand comes back as another one.\<close>

lemma list_never_ends:
  assumes "\<And>rq w. sc_send cl rq w = (Inr \<lparr>wr_status = 200, wr_text = [], wr_lossy = Inr ''<IsTruncated>true</IsTruncated>''\<rparr>, w)"
  shows "remote_list fuel env cl b prefix w = None"
proof -
  have r: "read_listing cl (Inr \<lparr>wr_status = 200, wr_text = [], wr_lossy = Inr ''<IsTruncated>true</IsTruncated>''\<rparr>) = Inr ([], True, None)"
  proof -
    have "extract_xml_values ''<IsTruncated>true</IsTruncated>'' ''Key'' = []"
      "extract_xml_value ''<IsTruncated>true</IsTruncated>'' ''IsTruncated'' = Some ''true''"
      "extract_xml_value ''<IsTruncated>true</IsTruncated>'' ''NextContinuationToken'' = None" by code_simp+
    then show ?thesis by (simp add: read_listing_def is_success_def)
  qed
  have "list_loop fuel env cl b prefix None [] w = None"
    by (induction fuel arbitrary: w) (simp_all add: assms r)
  then show ?thesis by (simp add: remote_list_def)
qed

lemma entities_not_decoded: "extract_xml_values (listing_xml [''a&amp;b''] None) ''Key'' = [''a&amp;b'']"
  by code_simp

end
