(* ===== verification/Storage.thy ===== *)
theory Storage
  imports S3
begin

text \<open>
  File storage (\<^verbatim>\<open>src/src/storage\<close>: \<^verbatim>\<open>path.rs\<close>, \<^verbatim>\<open>config.rs\<close>, \<^verbatim>\<open>memory.rs\<close>, \<^verbatim>\<open>fetch.rs\<close>, \<^verbatim>\<open>facade.rs\<close>, \<^verbatim>\<open>buckets.rs\<close>,
  \<^verbatim>\<open>bridge.rs\<close>) and uploaded files (\<^verbatim>\<open>src/src/extractor/multipart.rs\<close>, \<^verbatim>\<open>upload_validator.rs\<close>). \<^verbatim>\<open>BackendKind\<close> is a record of
  the operations of a backend on the state of the world; the remote backend of \<^verbatim>\<open>S3\<close> and the memory backend
  provide it, and the locale \<open>object_store\<close> is what the facade relies on.
\<close>

section \<open>Paths and keys\<close>

text \<open>\<^verbatim>\<open>char::is_control\<close> on UTF-8: the bytes below 32, 127, and the two-byte sequences of U+0080 to U+009F.\<close>

fun has_control :: "string \<Rightarrow> bool" where
  "has_control [] = False"
| "has_control (c # s) =
     (let n = of_char c :: nat
      in n < 32 \<or> n = 127 \<or> n = 0xC2 \<and> (case s of [] \<Rightarrow> False | d # _ \<Rightarrow> 0x80 \<le> (of_char d :: nat) \<and> (of_char d :: nat) \<le> 0x9F) \<or>
         has_control s)"

definition validate_path :: "string \<Rightarrow> unit result" where
  "validate_path path =
     (if path = [] then Inl (bad_request ''storage path must not be empty'')
      else if hd path = CHR ''/'' then Inl (bad_request (''storage path must not start with '' @ [CHR 0x27] @ ''/'' @ [CHR 0x27]))
      else if ''..'' \<in> set (split_on CHR ''/'' path)
      then Inl (bad_request (''storage path must not contain '' @ [CHR 0x27] @ ''..'' @ [CHR 0x27] @ '' segments''))
      else if has_control path then Inl (bad_request ''storage path must not contain control characters'')
      else Inr ())"

text \<open>\<open>ms\<close> and \<open>rnd\<close> are the clock and the random bytes of the new ULID.\<close>

definition generate_key :: "nat \<Rightarrow> u8 list \<Rightarrow> string \<Rightarrow> string option \<Rightarrow> string" where
  "generate_key ms rnd prefix extension =
     (let i = ulid ms rnd
      in case extension of
           Some ext \<Rightarrow> if ext \<noteq> [] then prefix @ i @ ''.'' @ ext else prefix @ i
         | None \<Rightarrow> prefix @ i)"

section \<open>Configuration\<close>

record bucket_config =
  bc_name :: string
  bc_bucket :: string
  bc_region :: "string option"
  bc_endpoint :: string
  bc_access_key :: string
  bc_secret_key :: string
  bc_public_url :: "string option"
  bc_max_file_size :: "string option"
  bc_path_style :: bool

definition bucket_config_default :: bucket_config where
  "bucket_config_default = \<lparr>bc_name = [], bc_bucket = [], bc_region = None, bc_endpoint = [], bc_access_key = [], bc_secret_key = [],
     bc_public_url = None, bc_max_file_size = None, bc_path_style = True\<rparr>"

definition size_unit :: "string \<Rightarrow> string \<times> nat" where
  "size_unit s =
     (case strip_suffix ''gb'' s of
        Some n \<Rightarrow> (n, 1024 * 1024 * 1024)
      | None \<Rightarrow>
          (case strip_suffix ''mb'' s of
             Some n \<Rightarrow> (n, 1024 * 1024)
           | None \<Rightarrow>
               (case strip_suffix ''kb'' s of
                  Some n \<Rightarrow> (n, 1024)
                | None \<Rightarrow> (case strip_suffix ''b'' s of Some n \<Rightarrow> (n, 1) | None \<Rightarrow> (s, 1)))))"

definition parse_size :: "string \<Rightarrow> nat result" where
  "parse_size s0 =
     (let s = map to_ascii_lowercase (str_trim s0); in_quotes = [CHR 0x22] @ s @ [CHR 0x22]
      in if s = [] then Inl (internal ''empty size string'')
         else
           (let (num_str, multiplier) = size_unit s
            in bind_res (ok_or (internal (''invalid size string: '' @ in_quotes)) (parse_usize (str_trim num_str))) (\<lambda>num.
               if 2 ^ 64 \<le> num * multiplier then Inl (internal (''size value overflows: '' @ in_quotes))
               else if num * multiplier = 0 then Inl (internal (''size must be greater than 0: '' @ in_quotes))
               else Inr (num * multiplier))))"

definition bucket_config_validate :: "bucket_config \<Rightarrow> unit result" where
  "bucket_config_validate c =
     (if bc_bucket c = [] then Inl (internal ''bucket name is required'')
      else if bc_endpoint c = [] then Inl (internal ''endpoint is required'')
      else case bc_max_file_size c of
        Some size_str \<Rightarrow> bind_res (parse_size size_str) (\<lambda>_. Inr ())
      | None \<Rightarrow> Inr ())"

definition normalized_public_url :: "bucket_config \<Rightarrow> string option" where
  "normalized_public_url c =
     (case map_option str_trim (bc_public_url c) of
        Some s \<Rightarrow> if s \<noteq> [] then Some (rev (dropWhile (\<lambda>ch. ch = CHR ''/'') (rev s))) else None
      | None \<Rightarrow> None)"

definition max_file_size_bytes :: "bucket_config \<Rightarrow> nat option result" where
  "max_file_size_bytes c =
     (case bc_max_file_size c of Some s \<Rightarrow> bind_res (parse_size s) (\<lambda>n. Inr (Some n)) | None \<Rightarrow> Inr None)"

section \<open>Backends\<close>

record 's backend =
  bk_put :: "string \<Rightarrow> u8 list \<Rightarrow> string \<Rightarrow> put_options \<Rightarrow> 's \<Rightarrow> unit result \<times> 's"
  bk_delete :: "string \<Rightarrow> 's \<Rightarrow> unit result \<times> 's"
  bk_exists :: "string \<Rightarrow> 's \<Rightarrow> bool result \<times> 's"
  bk_list :: "string \<Rightarrow> 's \<Rightarrow> (string list result \<times> 's) option"
  bk_presigned_url :: "string \<Rightarrow> nat \<Rightarrow> 's \<Rightarrow> string result \<times> 's"

text \<open>\<open>fuel\<close> bounds the pages of one listing.\<close>

definition remote_kind :: "nat \<Rightarrow> sig_env \<Rightarrow> 's s3_client \<Rightarrow> remote_backend \<Rightarrow> 's backend" where
  "remote_kind fuel env cl b =
     \<lparr>bk_put = remote_put env cl b, bk_delete = remote_delete env cl b, bk_exists = remote_exists env cl b,
      bk_list = remote_list fuel env cl b, bk_presigned_url = remote_presigned_url env cl b\<rparr>"

record stored_object =
  so_data :: "u8 list"
  so_content_type :: string
  so_acl :: "acl option"

type_synonym memory = "(string \<times> stored_object) list"

definition memory_put :: "string \<Rightarrow> u8 list \<Rightarrow> string \<Rightarrow> put_options \<Rightarrow> memory \<Rightarrow> unit result \<times> memory" where
  "memory_put key data content_type opts m =
     (Inr (), (key, \<lparr>so_data = data, so_content_type = content_type, so_acl = po_acl opts\<rparr>) # List.filter (\<lambda>(k, _). k \<noteq> key) m)"

definition memory_delete :: "string \<Rightarrow> memory \<Rightarrow> unit result \<times> memory" where
  "memory_delete key m = (Inr (), List.filter (\<lambda>(k, _). k \<noteq> key) m)"

definition memory_exists :: "string \<Rightarrow> memory \<Rightarrow> bool result \<times> memory" where
  "memory_exists key m = (Inr (map_of m key \<noteq> None), m)"

definition memory_list :: "string \<Rightarrow> memory \<Rightarrow> (string list result \<times> memory) option" where
  "memory_list prefix m = Some (Inr (List.filter (starts_with prefix) (map fst m)), m)"

definition memory_presigned_url :: "string \<Rightarrow> nat \<Rightarrow> memory \<Rightarrow> string result \<times> memory" where
  "memory_presigned_url key expires_in m = (Inr (''https://memory.test/'' @ key @ ''?expires='' @ nat_dec expires_in), m)"

definition memory_kind :: "memory backend" where
  "memory_kind =
     \<lparr>bk_put = memory_put, bk_delete = memory_delete, bk_exists = memory_exists, bk_list = memory_list,
      bk_presigned_url = memory_presigned_url\<rparr>"

section \<open>Fetching\<close>

text \<open>\<open>parse_uri\<close> is the http crate's, with the scheme of a URI or the text of the error; \<open>fetch_get\<close> sends the request: the
  status, the \<^verbatim>\<open>content-type\<close> header and the chunks of the body, each of which may fail.\<close>

record fetch_response =
  fr_status :: nat
  fr_content_type :: "string option"
  fr_chunks :: "(string + u8 list) list"

record 's fetch_client =
  fetch_parse :: "string \<Rightarrow> string + string option"
  fetch_get :: "string \<Rightarrow> 's \<Rightarrow> (string + fetch_response) \<times> 's"
  fetch_status_text :: "nat \<Rightarrow> string"

record fetch_result =
  ft_data :: "u8 list"
  ft_content_type :: string

definition validate_url :: "'s fetch_client \<Rightarrow> string \<Rightarrow> unit result" where
  "validate_url fc url =
     bind_res (map_err (\<lambda>e. bad_request (''invalid URL: '' @ e)) (fetch_parse fc url)) (\<lambda>scheme.
     case scheme of
       Some s \<Rightarrow> if s = ''http'' \<or> s = ''https'' then Inr ()
                 else Inl (bad_request (''URL must use http or https scheme, got '' @ s))
     | None \<Rightarrow> Inl (bad_request ''URL must use http or https scheme''))"

fun read_chunks :: "nat option \<Rightarrow> u8 list \<Rightarrow> (string + u8 list) list \<Rightarrow> u8 list result" where
  "read_chunks max_size buf [] = Inr buf"
| "read_chunks max_size buf (Inl e # chunks) = Inl (internal (''failed to read response body: '' @ e))"
| "read_chunks max_size buf (Inr chunk # chunks) =
     (let buf' = buf @ chunk
      in case max_size of
           Some m \<Rightarrow> if m < length buf' then Inl (payload_too_large (''fetched file size exceeds maximum '' @ nat_dec m))
                     else read_chunks max_size buf' chunks
         | None \<Rightarrow> read_chunks max_size buf' chunks)"

definition fetch_url :: "'s fetch_client \<Rightarrow> string \<Rightarrow> nat option \<Rightarrow> 's \<Rightarrow> fetch_result result \<times> 's" where
  "fetch_url fc url max_size w =
     (case validate_url fc url of
        Inl e \<Rightarrow> (Inl e, w)
      | Inr _ \<Rightarrow>
          (let (answer, w') = fetch_get fc url w
           in (bind_res (map_err (\<lambda>e. internal (''failed to fetch URL: '' @ e)) answer) (\<lambda>r.
               if \<not> is_success (fr_status r)
               then Inl (bad_request (''failed to fetch URL ('' @ fetch_status_text fc (fr_status r) @ '')''))
               else
                 (let content_type = (case Option.bind (fr_content_type r) header_to_str of Some t \<Rightarrow> t | None \<Rightarrow> ''application/octet-stream'')
                  in bind_res (read_chunks max_size [] (fr_chunks r)) (\<lambda>data.
                     Inr \<lparr>ft_data = data, ft_content_type = content_type\<rparr>))), w')))"

section \<open>The facade\<close>

record put_input =
  pi_data :: "u8 list"
  pi_prefix :: string
  pi_filename :: "string option"
  pi_content_type :: string

definition last_piece :: "char \<Rightarrow> string \<Rightarrow> string" where
  "last_piece c s = (case rsplit_once c s of Some (_, e) \<Rightarrow> e | None \<Rightarrow> s)"

definition put_extension :: "put_input \<Rightarrow> string option" where
  "put_extension input =
     (case pi_filename input of
        None \<Rightarrow> None
      | Some name \<Rightarrow>
          if name = [] then None
          else (let ext = last_piece CHR ''.'' name in if ext = name then None else Some (map to_ascii_lowercase ext)))"

record put_from_url_input =
  pu_url :: string
  pu_prefix :: string
  pu_filename :: "string option"

record 's storage =
  st_backend :: "'s backend"
  st_public_url :: "string option"
  st_max_file_size :: "nat option"
  st_fetch_client :: "'s fetch_client option"

text \<open>\<open>mk\<close> makes the operations of a remote backend, \<open>fc\<close> is the client built without redirects, or the error of building it.\<close>

definition storage_with_client :: "(remote_backend \<Rightarrow> 's backend) \<Rightarrow> string + 's fetch_client \<Rightarrow> bucket_config \<Rightarrow> 's storage result" where
  "storage_with_client mk fc c =
     bind_res (bucket_config_validate c) (\<lambda>_.
     let region = (case bc_region c of Some r \<Rightarrow> r | None \<Rightarrow> ''us-east-1'')
     in bind_res (remote_backend_new (bc_bucket c) (bc_endpoint c) (bc_access_key c) (bc_secret_key c) region (bc_path_style c)) (\<lambda>b.
        bind_res (map_err (\<lambda>e. internal (''failed to build fetch HTTP client: '' @ e)) fc) (\<lambda>fetch.
        bind_res (max_file_size_bytes c) (\<lambda>mx.
        Inr \<lparr>st_backend = mk b, st_public_url = normalized_public_url c, st_max_file_size = mx, st_fetch_client = Some fetch\<rparr>))))"

definition storage_memory :: "memory storage" where
  "storage_memory = \<lparr>st_backend = memory_kind, st_public_url = Some ''https://test.example.com'', st_max_file_size = None, st_fetch_client = None\<rparr>"

definition put_inner ::
  "'s storage \<Rightarrow> nat \<Rightarrow> u8 list \<Rightarrow> put_input \<Rightarrow> put_options \<Rightarrow> 's \<Rightarrow> string result \<times> 's" where
  "put_inner st ms rnd input opts w =
     (case validate_path (pi_prefix input) of
        Inl e \<Rightarrow> (Inl e, w)
      | Inr _ \<Rightarrow>
          if (case st_max_file_size st of Some m \<Rightarrow> m < length (pi_data input) | None \<Rightarrow> False)
          then (Inl (payload_too_large (''file size '' @ nat_dec (length (pi_data input)) @ '' exceeds maximum '' @
                  nat_dec (the (st_max_file_size st)))), w)
          else
            (let key = generate_key ms rnd (pi_prefix input) (put_extension input);
                 content_type = (case po_content_type opts of Some t \<Rightarrow> t | None \<Rightarrow> pi_content_type input)
             in case bk_put (st_backend st) key (pi_data input) content_type opts w of
                  (Inl e, w1) \<Rightarrow> (Inl e, snd (bk_delete (st_backend st) key w1))
                | (Inr _, w1) \<Rightarrow> (Inr key, w1)))"

definition put :: "'s storage \<Rightarrow> nat \<Rightarrow> u8 list \<Rightarrow> put_input \<Rightarrow> 's \<Rightarrow> string result \<times> 's" where
  "put st ms rnd input w = put_inner st ms rnd input put_options_default w"

text \<open>An error inside another error's text, and the result of a backend operation with its error rewritten.\<close>

definition map_err_st :: "('e \<Rightarrow> 'f) \<Rightarrow> ('e + 'a) \<times> 's \<Rightarrow> ('f + 'a) \<times> 's" where
  "map_err_st g r = (map_err g (fst r), snd r)"

definition storage_delete :: "'s storage \<Rightarrow> string \<Rightarrow> 's \<Rightarrow> unit result \<times> 's" where
  "storage_delete st key w =
     (case validate_path key of
        Inl e \<Rightarrow> (Inl e, w)
      | Inr _ \<Rightarrow> map_err_st (\<lambda>e. internal (''failed to delete file: '' @ err_message e)) (bk_delete (st_backend st) key w))"

fun delete_keys :: "'s backend \<Rightarrow> string list \<Rightarrow> 's \<Rightarrow> unit result \<times> 's" where
  "delete_keys b [] w = (Inr (), w)"
| "delete_keys b (key # keys) w =
     (case bk_delete b key w of
        (Inl e, w1) \<Rightarrow> (Inl (internal (''failed to delete '' @ key @ '': '' @ err_message e)), w1)
      | (Inr _, w1) \<Rightarrow> delete_keys b keys w1)"

definition delete_prefix :: "'s storage \<Rightarrow> string \<Rightarrow> 's \<Rightarrow> (unit result \<times> 's) option" where
  "delete_prefix st prefix w =
     (case validate_path prefix of
        Inl e \<Rightarrow> Some (Inl e, w)
      | Inr _ \<Rightarrow>
          map_option (\<lambda>(r, w1).
            case r of
              Inl e \<Rightarrow> (Inl (internal (''failed to list prefix: '' @ err_message e)), w1)
            | Inr keys \<Rightarrow> delete_keys (st_backend st) keys w1) (bk_list (st_backend st) prefix w))"

definition storage_url :: "'s storage \<Rightarrow> string \<Rightarrow> string result" where
  "storage_url st key =
     bind_res (validate_path key) (\<lambda>_.
     bind_res (ok_or (internal ''public_url not configured'') (st_public_url st)) (\<lambda>base.
     Inr (base @ ''/'' @ key)))"

definition storage_presigned_url :: "'s storage \<Rightarrow> string \<Rightarrow> nat \<Rightarrow> 's \<Rightarrow> string result \<times> 's" where
  "storage_presigned_url st key expires_in w =
     (case validate_path key of
        Inl e \<Rightarrow> (Inl e, w)
      | Inr _ \<Rightarrow> map_err_st (\<lambda>e. internal (''failed to generate presigned URL: '' @ err_message e))
                   (bk_presigned_url (st_backend st) key expires_in w))"

definition storage_exists :: "'s storage \<Rightarrow> string \<Rightarrow> 's \<Rightarrow> bool result \<times> 's" where
  "storage_exists st key w =
     (case validate_path key of
        Inl e \<Rightarrow> (Inl e, w)
      | Inr _ \<Rightarrow> map_err_st (\<lambda>e. internal (''failed to check existence: '' @ err_message e)) (bk_exists (st_backend st) key w))"

definition put_from_url_inner ::
  "'s storage \<Rightarrow> nat \<Rightarrow> u8 list \<Rightarrow> put_from_url_input \<Rightarrow> put_options \<Rightarrow> 's \<Rightarrow> string result \<times> 's" where
  "put_from_url_inner st ms rnd input opts w =
     (case st_fetch_client st of
        None \<Rightarrow> (Inl (internal ''URL fetch not supported in memory backend''), w)
      | Some fc \<Rightarrow>
          (case fetch_url fc (pu_url input) (st_max_file_size st) w of
             (Inl e, w1) \<Rightarrow> (Inl e, w1)
           | (Inr fetched, w1) \<Rightarrow>
               put_inner st ms rnd
                 \<lparr>pi_data = ft_data fetched, pi_prefix = pu_prefix input, pi_filename = pu_filename input,
                  pi_content_type = ft_content_type fetched\<rparr> opts w1))"

section \<open>Buckets\<close>

fun buckets_loop :: "(bucket_config \<Rightarrow> 's storage result) \<Rightarrow> (string \<times> 's storage) list \<Rightarrow> bucket_config list \<Rightarrow> (string \<times> 's storage) list result" where
  "buckets_loop new m [] = Inr m"
| "buckets_loop new m (c # cs) =
     (if bc_name c = [] then Inl (internal ''bucket config must have a name when used with Buckets'')
      else if map_of m (bc_name c) \<noteq> None
      then Inl (internal (''duplicate bucket name '' @ [CHR 0x27] @ bc_name c @ [CHR 0x27]))
      else bind_res (new c) (\<lambda>st. buckets_loop new (m @ [(bc_name c, st)]) cs))"

definition buckets_new :: "(bucket_config \<Rightarrow> 's storage result) \<Rightarrow> bucket_config list \<Rightarrow> (string \<times> 's storage) list result" where
  "buckets_new new configs = buckets_loop new [] configs"

definition buckets_get :: "(string \<times> 's storage) list \<Rightarrow> string \<Rightarrow> 's storage result" where
  "buckets_get m name = ok_or (internal (''bucket '' @ [CHR 0x27] @ name @ [CHR 0x27] @ '' not configured'')) (map_of m name)"

section \<open>Uploaded files\<close>

record uploaded_file =
  uf_name :: string
  uf_content_type :: string
  uf_size :: nat
  uf_data :: "u8 list"

definition put_input_from_upload :: "uploaded_file \<Rightarrow> string \<Rightarrow> put_input" where
  "put_input_from_upload file prefix =
     \<lparr>pi_data = uf_data file, pi_prefix = prefix, pi_filename = (if uf_name file = [] then None else Some (uf_name file)),
      pi_content_type = uf_content_type file\<rparr>"

definition uploaded_extension :: "uploaded_file \<Rightarrow> string option" where
  "uploaded_extension file =
     (let ext = last_piece CHR ''.'' (uf_name file) in if ext = uf_name file then None else Some (map to_ascii_lowercase ext))"

text \<open>A field of a multipart body: its name, file name, content type, and the bytes and the text of its body.\<close>

record field =
  fd_name :: "string option"
  fd_file_name :: "string option"
  fd_content_type :: "string option"
  fd_bytes :: "string + u8 list"
  fd_text :: "string + string"

definition from_field :: "field \<Rightarrow> uploaded_file result" where
  "from_field fd =
     bind_res (map_err (\<lambda>e. bad_request (''failed to read file field: '' @ e)) (fd_bytes fd)) (\<lambda>data.
     Inr \<lparr>uf_name = (case fd_file_name fd of Some n \<Rightarrow> n | None \<Rightarrow> ''unnamed''),
          uf_content_type = (case fd_content_type fd of Some t \<Rightarrow> t | None \<Rightarrow> ''application/octet-stream''),
          uf_size = length data, uf_data = data\<rparr>)"

type_synonym files = "string \<rightharpoonup> uploaded_file list"

definition files_get :: "files \<Rightarrow> string \<Rightarrow> uploaded_file option" where
  "files_get fs name = (case fs name of Some (f # _) \<Rightarrow> Some f | _ \<Rightarrow> None)"

definition files_file :: "string \<Rightarrow> files \<Rightarrow> uploaded_file option \<times> files" where
  "files_file name fs =
     (case fs name of
        Some (f # rest) \<Rightarrow> (Some f, if rest = [] then fs(name := None) else fs(name \<mapsto> rest))
      | _ \<Rightarrow> (None, fs))"

definition files_files :: "string \<Rightarrow> files \<Rightarrow> uploaded_file list \<times> files" where
  "files_files name fs = ((case fs name of Some l \<Rightarrow> l | None \<Rightarrow> []), fs(name := None))"

fun read_fields :: "(string + field) list \<Rightarrow> (string \<times> string) list \<Rightarrow> files \<Rightarrow> ((string \<times> string) list \<times> files) result" where
  "read_fields [] texts fs = Inr (texts, fs)"
| "read_fields (Inl e # fds) texts fs = Inl (bad_request (''failed to read multipart field: '' @ e))"
| "read_fields (Inr fd # fds) texts fs =
     (let field_name = (case fd_name fd of Some n \<Rightarrow> n | None \<Rightarrow> [])
      in if fd_file_name fd \<noteq> None
         then bind_res (from_field fd) (\<lambda>u.
              read_fields fds texts (fs(field_name \<mapsto> (case fs field_name of Some l \<Rightarrow> l | None \<Rightarrow> []) @ [u])))
         else bind_res (map_err (\<lambda>e. bad_request (''failed to read text field: '' @ e)) (fd_text fd)) (\<lambda>t.
              read_fields fds (texts @ [(field_name, t)]) fs))"

text \<open>\<open>encode\<close> and \<open>decode\<close> are serde's, on the application's type, and \<open>sanitize\<close> its own method.\<close>

definition multipart_from_request ::
  "((string \<times> string) list \<Rightarrow> string + string) \<Rightarrow> (string \<Rightarrow> string + 't) \<Rightarrow> ('t \<Rightarrow> 't) \<Rightarrow> string + (string + field) list \<Rightarrow> ('t \<times> files) result" where
  "multipart_from_request encode decode sanitize multipart =
     bind_res (map_err (\<lambda>e. bad_request (''invalid multipart request: '' @ e)) multipart) (\<lambda>fds.
     bind_res (read_fields fds [] Map.empty) (\<lambda>(texts, fs).
     bind_res (map_err (\<lambda>e. bad_request (''failed to encode multipart text fields: '' @ e)) (encode texts)) (\<lambda>encoded.
     bind_res (map_err (\<lambda>e. bad_request (''failed to deserialize multipart text fields: '' @ e)) (decode encoded)) (\<lambda>value.
     Inr (sanitize value, fs)))))"

definition mime_matches :: "string \<Rightarrow> string \<Rightarrow> bool" where
  "mime_matches content_type0 pattern =
     (let content_type = str_trim (hd (split_on CHR '';'' content_type0))
      in if pattern = ''*/*'' then True
         else case strip_suffix ''/*'' pattern of
           Some prefix \<Rightarrow>
             starts_with prefix content_type \<and> length prefix < length content_type \<and> content_type ! length prefix = CHR ''/''
         | None \<Rightarrow> content_type = pattern)"

definition format_size :: "nat \<Rightarrow> string" where
  "format_size bytes =
     (if 1024 * 1024 * 1024 \<le> bytes \<and> bytes mod (1024 * 1024 * 1024) = 0 then nat_dec (bytes div (1024 * 1024 * 1024)) @ ''GB''
      else if 1024 * 1024 \<le> bytes \<and> bytes mod (1024 * 1024) = 0 then nat_dec (bytes div (1024 * 1024)) @ ''MB''
      else if 1024 \<le> bytes \<and> bytes mod 1024 = 0 then nat_dec (bytes div 1024) @ ''KB''
      else nat_dec bytes @ ''B'')"

record upload_validator =
  uv_file :: uploaded_file
  uv_errors :: "string list"

definition validator_new :: "uploaded_file \<Rightarrow> upload_validator" where
  "validator_new file = \<lparr>uv_file = file, uv_errors = []\<rparr>"

definition max_size :: "nat \<Rightarrow> upload_validator \<Rightarrow> upload_validator" where
  "max_size m v =
     (if m < uf_size (uv_file v) then v\<lparr>uv_errors := uv_errors v @ [''file exceeds maximum size of '' @ format_size m]\<rparr> else v)"

definition accept :: "string \<Rightarrow> upload_validator \<Rightarrow> upload_validator" where
  "accept pattern v =
     (if \<not> mime_matches (uf_content_type (uv_file v)) pattern
      then v\<lparr>uv_errors := uv_errors v @ [''file type must match '' @ pattern]\<rparr> else v)"

definition check_upload :: "upload_validator \<Rightarrow> unit result" where
  "check_upload v =
     (if uv_errors v = [] then Inr ()
      else Inl (with_details (JObject [(uf_name (uv_file v), JArray (map JString (uv_errors v)))]) (unprocessable_entity ''upload validation failed'')))"

section \<open>Keys\<close>

lemma ulid_length: "length (ulid ms rnd) = 26"
  by (simp add: ulid_def length_encode_digits)

lemma split_on_append:
  "c \<notin> set u \<Longrightarrow> split_on c (u @ s) = (u @ hd (split_on c s)) # tl (split_on c s)"
proof -
  assume u: "c \<notin> set u"
  show ?thesis
  proof (cases "split_once c s")
    case None
    then have "split_once c (u @ s) = None" using u by (simp add: split_once_None)
    with None show ?thesis by (simp add: split_on.simps [of c s] split_on.simps [of c "u @ s"])
  next
    case (Some pr)
    obtain p r where pr: "pr = (p, r)" by (cases pr)
    with Some have "split_once c (u @ s) = Some (u @ p, r)" using u by (auto simp: split_once_Some)
    with Some pr show ?thesis by (simp add: split_on.simps [of c s] split_on.simps [of c "u @ s"])
  qed
qed

text \<open>The segments of a path with a text added: the segments before the last stay, the last one grows.\<close>

lemma split_on_extend:
  "\<exists>ss p. split_on c s = ss @ [p] \<and> c \<notin> set p \<and> split_on c (s @ t) = ss @ split_on c (p @ t)"
proof (induction c s rule: split_on.induct)
  case (1 c s)
  show ?case
  proof (cases "split_once c s")
    case None
    have "split_on c s = [s]" "c \<notin> set s" using None split_once_None [of c s] by (simp_all add: split_on.simps [of c s] del: split_once_None)
    then show ?thesis by (intro exI [of _ "[]"] exI [of _ s]) simp
  next
    case (Some pr)
    obtain q r where pr: "pr = (q, r)" by (cases pr)
    with 1 [OF Some] obtain ss p where "split_on c r = ss @ [p]" "c \<notin> set p" "split_on c (r @ t) = ss @ split_on c (p @ t)" by auto
    moreover have "split_once c (s @ t) = Some (q, r @ t)" using Some pr by (auto simp: split_once_Some)
    ultimately show ?thesis
      using Some pr by (intro exI [of _ "q # ss"] exI [of _ p]) (simp add: split_on.simps [of c s] split_on.simps [of c "s @ t"])
  qed
qed

text \<open>A text of visible ASCII characters in the middle keeps control characters of both sides apart.\<close>

lemma has_control_around:
  assumes "u \<noteq> []" "list_all (\<lambda>c. 32 < (of_char c :: nat) \<and> (of_char c :: nat) < 127) u"
  shows "has_control (s @ u @ t) \<longleftrightarrow> has_control s \<or> has_control t"
proof -
  have mid: "has_control (u @ t) \<longleftrightarrow> has_control t"
    using assms(2) by (induction u) (auto simp: Let_def)
  obtain c cs where u: "u = c # cs" using assms(1) by (cases u) auto
  show ?thesis
  proof (induction s)
    case Nil
    show ?case using mid by simp
  next
    case (Cons a s)
    show ?case
    proof (cases s)
      case Nil
      have "\<not> (0x80 \<le> (of_char c :: nat) \<and> (of_char c :: nat) \<le> 0x9F)" using assms(2) u by simp
      then show ?thesis using Cons.IH mid Nil u by (auto simp: Let_def)
    qed (use Cons.IH in \<open>auto simp: Let_def\<close>)
  qed
qed

lemma crockford_visible: "list_all (\<lambda>c. 32 < (of_char c :: nat) \<and> (of_char c :: nat) < 127 \<and> c \<noteq> CHR ''/'') CROCKFORD"
  by (simp add: CROCKFORD_def)

lemma ulid_visible:
  "ulid ms rnd \<noteq> []" "CHR ''/'' \<notin> set (ulid ms rnd)"
  "list_all (\<lambda>c. 32 < (of_char c :: nat) \<and> (of_char c :: nat) < 127) (ulid ms rnd)"
proof -
  show "ulid ms rnd \<noteq> []" using ulid_length [of ms rnd] by (cases "ulid ms rnd") simp_all
  have "list_all (\<lambda>c. 32 < (of_char c :: nat) \<and> (of_char c :: nat) < 127 \<and> c \<noteq> CHR ''/'') (ulid ms rnd)"
    using ulid_chars [of ms rnd] crockford_visible unfolding list_all_iff by blast
  then show "CHR ''/'' \<notin> set (ulid ms rnd)" "list_all (\<lambda>c. 32 < (of_char c :: nat) \<and> (of_char c :: nat) < 127) (ulid ms rnd)"
    unfolding list_all_iff by blast+
qed

definition key_tail :: "put_input \<Rightarrow> string" where
  "key_tail input = (case put_extension input of Some ext \<Rightarrow> if ext \<noteq> [] then CHR ''.'' # ext else [] | None \<Rightarrow> [])"

lemma generate_key_tail: "generate_key ms rnd prefix (put_extension input) = prefix @ ulid ms rnd @ key_tail input"
  by (simp add: generate_key_def key_tail_def split: option.split)

lemma to_ascii_lowercase_dot: "to_ascii_lowercase c = CHR ''.'' \<longleftrightarrow> c = CHR ''.''"
proof -
  have "char_of ((of_char c :: nat) + 32) \<noteq> CHR ''.''" if "65 \<le> (of_char c :: nat)" "(of_char c :: nat) \<le> 90"
  proof
    assume "char_of ((of_char c :: nat) + 32) = CHR ''.''"
    then have "(of_char (char_of ((of_char c :: nat) + 32) :: char) :: nat) = 46" by simp
    then show False using that by simp
  qed
  then show ?thesis by (auto simp: to_ascii_lowercase_def Let_def)
qed

lemma put_extension_no_dot: "put_extension input = Some ext \<Longrightarrow> CHR ''.'' \<notin> set ext"
proof -
  assume e: "put_extension input = Some ext"
  then obtain name where n: "last_piece CHR ''.'' name \<noteq> name" "ext = map to_ascii_lowercase (last_piece CHR ''.'' name)"
    by (auto simp: put_extension_def Let_def split: option.splits if_splits)
  then have "CHR ''.'' \<notin> set (last_piece CHR ''.'' name)"
    by (auto simp: last_piece_def rsplit_once_Some split: option.splits)
  then show ?thesis unfolding n(2) set_map using to_ascii_lowercase_dot by (metis imageE)
qed

lemma tail_segments: "x \<in> set (tl (split_on CHR ''/'' (key_tail input))) \<Longrightarrow> CHR ''.'' \<notin> set x"
proof (cases "key_tail input = []")
  case True
  assume "x \<in> set (tl (split_on CHR ''/'' (key_tail input)))"
  then show ?thesis using True by (simp add: split_on.simps [of _ "[]"] split_once_def)
next
  case False
  assume x: "x \<in> set (tl (split_on CHR ''/'' (key_tail input)))"
  from False obtain ext where e: "put_extension input = Some ext" "key_tail input = [CHR ''.''] @ ext"
    by (auto simp: key_tail_def split: option.splits if_splits)
  then have "x \<in> set (split_on CHR ''/'' ext)"
    using x split_on_append [of "CHR ''/''" "[CHR ''.'']" ext] by (cases "split_on CHR ''/'' ext") auto
  then show ?thesis using split_on_pieces put_extension_no_dot [OF e(1)] by blast
qed

lemma key_segments:
  assumes "''..'' \<notin> set (split_on CHR ''/'' prefix)"
  shows "''..'' \<notin> set (split_on CHR ''/'' (prefix @ ulid ms rnd @ key_tail input))"
proof -
  obtain ss p where sp: "split_on CHR ''/'' prefix = ss @ [p]" "CHR ''/'' \<notin> set p"
    "split_on CHR ''/'' (prefix @ ulid ms rnd @ key_tail input) = ss @ split_on CHR ''/'' (p @ ulid ms rnd @ key_tail input)"
    using split_on_extend [of "CHR ''/''" prefix "ulid ms rnd @ key_tail input"] by auto
  let ?t = "split_on CHR ''/'' (key_tail input)"
  have "split_on CHR ''/'' (p @ ulid ms rnd @ key_tail input) = ((p @ ulid ms rnd) @ hd ?t) # tl ?t"
    using split_on_append [of "CHR ''/''" "p @ ulid ms rnd"] sp(2) ulid_visible(2) by simp
  moreover have "(p @ ulid ms rnd) @ hd ?t \<noteq> ''..''"
  proof
    assume "(p @ ulid ms rnd) @ hd ?t = ''..''"
    then have "length ((p @ ulid ms rnd) @ hd ?t) = length ''..''" by simp
    then show False using ulid_length [of ms rnd] by simp
  qed
  moreover have "''..'' \<notin> set (tl ?t)" using tail_segments [of "''..''" input] by auto
  ultimately show ?thesis using assms sp by auto
qed

lemma put_key_path:
  assumes "put_inner st ms rnd input opts w = (Inr key, w')"
  shows "starts_with (pi_prefix input) key" "hd key \<noteq> CHR ''/''" "''..'' \<notin> set (split_on CHR ''/'' key)"
    "validate_path key = Inr () \<longleftrightarrow> \<not> has_control (key_tail input)"
proof -
  have ok: "validate_path (pi_prefix input) = Inr ()" and key: "key = pi_prefix input @ ulid ms rnd @ key_tail input"
    using assms by (auto simp: put_inner_def Let_def generate_key_tail split: sum.splits if_splits prod.splits)
  then have p: "pi_prefix input \<noteq> []" "hd (pi_prefix input) \<noteq> CHR ''/''" "''..'' \<notin> set (split_on CHR ''/'' (pi_prefix input))"
    "\<not> has_control (pi_prefix input)" by (auto simp: validate_path_def split: if_splits)
  have "''..'' \<notin> set (split_on CHR ''/'' key)" unfolding key by (rule key_segments [OF p(3)])
  moreover have "has_control key \<longleftrightarrow> has_control (key_tail input)"
    unfolding key using has_control_around [OF ulid_visible(1,3)] p(4) by simp
  moreover have ne: "key \<noteq> []" "hd key \<noteq> CHR ''/''" "starts_with (pi_prefix input) key" using key p(1,2) by (auto simp: starts_with_iff)
  ultimately show "starts_with (pi_prefix input) key" "hd key \<noteq> CHR ''/''" "''..'' \<notin> set (split_on CHR ''/'' key)"
    "validate_path key = Inr () \<longleftrightarrow> \<not> has_control (key_tail input)" by (simp_all add: validate_path_def)
qed

text \<open>C35. A stored file stays under its prefix: every key that an upload returns starts with the requested prefix, does not
  start with a slash and has no \<^verbatim>\<open>..\<close> segment, whatever the file name of the client is; and the other
  operations accept the key unless the file's extension has a control character.\<close>

theorem put_key_safe:
  assumes "put_inner st ms rnd input opts w = (Inr key, w')"
  shows "starts_with (pi_prefix input) key \<and> hd key \<noteq> CHR ''/'' \<and> ''..'' \<notin> set (split_on CHR ''/'' key) \<and>
     (validate_path key = Inr () \<longleftrightarrow> \<not> has_control (key_tail input))"
  using put_key_path [OF assms] by simp

definition demo_upload :: put_input where
  "demo_upload = \<lparr>pi_data = [1, 2], pi_prefix = ''avatars/'', pi_filename = Some ''../../etc/x.PNG'', pi_content_type = ''image/png''\<rparr>"

lemma demo_upload_put:
  "put_inner storage_memory 7 [1] demo_upload put_options_default [] = (Inr (''avatars/'' @ ulid 7 [1] @ ''.png''),
     [(''avatars/'' @ ulid 7 [1] @ ''.png'', \<lparr>so_data = [1, 2], so_content_type = ''image/png'', so_acl = None\<rparr>)])"
  and demo_upload_tail: "\<not> has_control (key_tail demo_upload)"
proof -
  have "key_tail demo_upload = ''.png''" "validate_path (pi_prefix demo_upload) = Inr ()" by code_simp+
  moreover have "pi_prefix demo_upload = ''avatars/''" "pi_data demo_upload = [1, 2]" "pi_content_type demo_upload = ''image/png''"
    by (simp_all add: demo_upload_def)
  ultimately show "put_inner storage_memory 7 [1] demo_upload put_options_default [] = (Inr (''avatars/'' @ ulid 7 [1] @ ''.png''),
     [(''avatars/'' @ ulid 7 [1] @ ''.png'', \<lparr>so_data = [1, 2], so_content_type = ''image/png'', so_acl = None\<rparr>)])"
    by (simp add: put_inner_def storage_memory_def memory_kind_def memory_put_def put_options_default_def generate_key_tail Let_def)
  show "\<not> has_control (key_tail demo_upload)" by code_simp
qed

theorem put_key_safe_witness: "validate_path (''avatars/'' @ ulid 7 [1] @ ''.png'') = Inr ()"
  using put_key_safe [OF demo_upload_put] demo_upload_tail by blast

text \<open>An extension with a control character: the file is stored under a key that no other operation accepts.\<close>

lemma control_extension_strands_file:
  assumes "put_inner st ms rnd input opts w = (Inr key, w')" "has_control (key_tail input)"
  shows "\<exists>e. storage_delete st key w' = (Inl e, w') \<and> storage_exists st key w' = (Inl e, w') \<and> storage_url st key = Inl e"
proof -
  have "validate_path key \<noteq> Inr ()" using put_key_path [OF assms(1)] assms(2) by blast
  then show ?thesis by (cases "validate_path key") (auto simp: storage_delete_def storage_exists_def storage_url_def)
qed

section \<open>What the facade relies on\<close>

text \<open>The contract of a backend, on the set of the keys it holds: an operation touches its key only, also when it fails; what a
  successful one did can be seen; and a listing has exactly the keys with the prefix.\<close>

locale object_store =
  fixes b :: "'s backend" and objs :: "'s \<Rightarrow> string set"
  assumes put_law: "bk_put b key data ct opts w = (r, w') \<Longrightarrow> objs w' - {key} = objs w - {key} \<and> (r = Inr () \<longrightarrow> key \<in> objs w')"
    and delete_law: "bk_delete b key w = (r, w') \<Longrightarrow> objs w' - {key} = objs w - {key} \<and> objs w' \<subseteq> objs w \<and> (r = Inr () \<longrightarrow> key \<notin> objs w')"
    and exists_law: "bk_exists b key w = (re, w') \<Longrightarrow> objs w' = objs w \<and> (\<forall>x. re = Inr x \<longrightarrow> x = (key \<in> objs w))"
    and list_law: "bk_list b prefix w = Some (rl, w') \<Longrightarrow> objs w' = objs w \<and> (\<forall>ks. rl = Inr ks \<longrightarrow> set ks = {k \<in> objs w. starts_with prefix k})"
begin

lemma delete_keys_objs:
  "delete_keys b ks w = (r, w') \<Longrightarrow> objs w - set ks \<subseteq> objs w' \<and> objs w' \<subseteq> objs w \<and> (r = Inr () \<longrightarrow> objs w' = objs w - set ks)"
proof (induction ks arbitrary: w)
  case (Cons k ks)
  obtain r1 w1 where d: "bk_delete b k w = (r1, w1)" by (cases "bk_delete b k w")
  from delete_law [OF d] have l: "objs w1 - {k} = objs w - {k}" "objs w1 \<subseteq> objs w" "r1 = Inr () \<Longrightarrow> k \<notin> objs w1" by auto
  show ?case
  proof (cases r1)
    case (Inl e)
    then show ?thesis using Cons.prems d l by auto
  next
    case (Inr u)
    then have "delete_keys b ks w1 = (r, w')" using Cons.prems d by simp
    from Cons.IH [OF this] show ?thesis using l Inr by auto
  qed
qed auto

lemma upload_objs:
  assumes "st_backend st = b" "put_inner st ms rnd input opts w = (r, w')"
  shows "case r of
     Inr key \<Rightarrow> objs w' = insert key (objs w)
   | Inl e \<Rightarrow> objs w' - {generate_key ms rnd (pi_prefix input) (put_extension input)} = objs w - {generate_key ms rnd (pi_prefix input) (put_extension input)}"
proof -
  define key where "key = generate_key ms rnd (pi_prefix input) (put_extension input)"
  define ct where "ct = (case po_content_type opts of Some t \<Rightarrow> t | None \<Rightarrow> pi_content_type input)"
  obtain r1 w1 where p: "bk_put b key (pi_data input) ct opts w = (r1, w1)" by (cases "bk_put b key (pi_data input) ct opts w")
  obtain r2 w2 where d: "bk_delete b key w1 = (r2, w2)" by (cases "bk_delete b key w1")
  from put_law [OF p] delete_law [OF d] show ?thesis
    using assms p d unfolding put_inner_def key_def [symmetric] ct_def [symmetric]
    by (auto simp: Let_def split: sum.splits if_splits prod.splits)
qed

lemma delete_prefix_objs:
  assumes "st_backend st = b" "delete_prefix st prefix w = Some (r, w')"
  shows "{k \<in> objs w. \<not> starts_with prefix k} \<subseteq> objs w' \<and> objs w' \<subseteq> objs w \<and> (r = Inr () \<longrightarrow> objs w' = {k \<in> objs w. \<not> starts_with prefix k})"
proof (cases "validate_path prefix")
  case (Inl e)
  then show ?thesis using assms by (auto simp: delete_prefix_def)
next
  case (Inr u)
  then obtain r1 w1 where l: "bk_list b prefix w = Some (r1, w1)" using assms by (auto simp: delete_prefix_def)
  show ?thesis
  proof (cases r1)
    case (Inl e)
    then show ?thesis using assms l Inr list_law [OF l] by (auto simp: delete_prefix_def)
  next
    case (Inr ks)
    then have "delete_keys b ks w1 = (r, w')" using assms l \<open>validate_path prefix = Inr u\<close> by (simp add: delete_prefix_def)
    from delete_keys_objs [OF this] list_law [OF l] Inr show ?thesis by auto
  qed
qed

end

definition memory_keys :: "memory \<Rightarrow> string set" where
  "memory_keys m = fst ` set m"

interpretation mem: object_store memory_kind memory_keys
proof
  fix key data ct opts and w w' :: memory and r
  assume "bk_put memory_kind key data ct opts w = (r, w')"
  then show "memory_keys w' - {key} = memory_keys w - {key} \<and> (r = Inr () \<longrightarrow> key \<in> memory_keys w')"
    by (auto simp: memory_kind_def memory_put_def memory_keys_def)
next
  fix key and w w' :: memory and r
  assume "bk_delete memory_kind key w = (r, w')"
  then show "memory_keys w' - {key} = memory_keys w - {key} \<and> memory_keys w' \<subseteq> memory_keys w \<and> (r = Inr () \<longrightarrow> key \<notin> memory_keys w')"
    by (auto simp: memory_kind_def memory_delete_def memory_keys_def)
next
  fix key and w w' :: memory and r
  assume "bk_exists memory_kind key w = (r, w')"
  then show "memory_keys w' = memory_keys w \<and> (\<forall>x. r = Inr x \<longrightarrow> x = (key \<in> memory_keys w))"
    using map_of_eq_None_iff [of w key] by (auto simp: memory_kind_def memory_exists_def memory_keys_def simp del: not_None_eq)
next
  fix prefix and w w' :: memory and r
  assume "bk_list memory_kind prefix w = Some (r, w')"
  then have "r = Inr (List.filter (starts_with prefix) (map fst w))" "w' = w" by (auto simp: memory_kind_def memory_list_def)
  then show "memory_keys w' = memory_keys w \<and> (\<forall>ks. r = Inr ks \<longrightarrow> set ks = {k \<in> memory_keys w. starts_with prefix k})"
    by (simp add: memory_keys_def)
qed

text \<open>C36. Storage operations touch what they name: on every backend that keeps the contract, an upload that succeeds adds
  exactly the key it returns and one that fails changes nothing but possibly its own new key; deleting a prefix that
  succeeds removes exactly the keys with that prefix, and one that stops half-way never removes another key.\<close>

theorem storage_touches_named_keys:
  assumes "object_store (st_backend st) objs" "put_inner st ms rnd input opts w = (r, w1)" "delete_prefix st prefix w1 = Some (d, w2)"
  shows "(case r of Inr key \<Rightarrow> objs w1 = insert key (objs w)
      | Inl e \<Rightarrow> objs w1 - {generate_key ms rnd (pi_prefix input) (put_extension input)} = objs w - {generate_key ms rnd (pi_prefix input) (put_extension input)}) \<and>
     (case d of Inr _ \<Rightarrow> objs w2 = {k \<in> objs w1. \<not> starts_with prefix k}
      | Inl e \<Rightarrow> {k \<in> objs w1. \<not> starts_with prefix k} \<subseteq> objs w2 \<and> objs w2 \<subseteq> objs w1)"
proof
  show "case r of Inr key \<Rightarrow> objs w1 = insert key (objs w)
      | Inl e \<Rightarrow> objs w1 - {generate_key ms rnd (pi_prefix input) (put_extension input)} = objs w - {generate_key ms rnd (pi_prefix input) (put_extension input)}"
    by (rule object_store.upload_objs [OF assms(1) refl assms(2)])
  show "case d of Inr _ \<Rightarrow> objs w2 = {k \<in> objs w1. \<not> starts_with prefix k}
      | Inl e \<Rightarrow> {k \<in> objs w1. \<not> starts_with prefix k} \<subseteq> objs w2 \<and> objs w2 \<subseteq> objs w1"
    using object_store.delete_prefix_objs [OF assms(1) refl assms(3)] by (auto split: sum.split)
qed

theorem storage_touches_named_keys_witness:
  "\<exists>w2. delete_prefix storage_memory ''avatars/'' (snd (put_inner storage_memory 7 [1] demo_upload put_options_default [])) = Some (Inr (), w2) \<and>
     memory_keys w2 = {}"
proof -
  let ?w1 = "snd (put_inner storage_memory 7 [1] demo_upload put_options_default [])"
  have "validate_path ''avatars/'' = Inr ()" by code_simp
  then have d: "delete_prefix storage_memory ''avatars/'' ?w1 = Some (Inr (), [])"
    unfolding demo_upload_put by (simp add: delete_prefix_def storage_memory_def memory_kind_def memory_list_def memory_delete_def starts_with_def)
  have "object_store (st_backend storage_memory) memory_keys" using mem.object_store_axioms by (simp add: storage_memory_def)
  from storage_touches_named_keys [OF this demo_upload_put, of "''avatars/''" "Inr ()" "[]"] d show ?thesis
    by (auto simp: demo_upload_put memory_keys_def)
qed

section \<open>Sizes\<close>

lemma read_chunks_bound: "read_chunks (Some m) buf chunks = Inr data \<Longrightarrow> length buf \<le> m \<Longrightarrow> length data \<le> m"
  by (induction "Some m" buf chunks rule: read_chunks.induct) (auto simp: Let_def split: if_splits)

lemma fetched_size_bounded:
  assumes "fetch_url fc url (Some m) w = (Inr f, w')"
  shows "length (ft_data f) \<le> m"
proof (cases "validate_url fc url")
  case (Inr u)
  then obtain chunks where "read_chunks (Some m) [] chunks = Inr (ft_data f)"
    using assms by (auto simp: fetch_url_def result_simps Let_def split: prod.splits if_splits)
  from read_chunks_bound [OF this] show ?thesis by simp
qed (use assms in \<open>simp add: fetch_url_def\<close>)

lemma digit_lowercase: "is_ascii_digit c \<Longrightarrow> to_ascii_lowercase c = c"
  by (simp add: is_ascii_digit_def to_ascii_lowercase_def Let_def)

lemma digits_not_ws: "list_all is_ascii_digit ds \<Longrightarrow> c \<in> set ds \<Longrightarrow> \<not> ws_byte c"
  using ws_byte_range by (fastforce simp: list_all_iff is_ascii_digit_def Let_def)

lemma digits_plain: "list_all is_ascii_digit ds \<Longrightarrow> str_trim ds = ds" "list_all is_ascii_digit ds \<Longrightarrow> map to_ascii_lowercase ds = ds"
  using digits_not_ws [of ds] by (auto intro: str_trim_none map_idI simp: digit_lowercase list_all_iff)

text \<open>The units, on a number with its unit in lower case.\<close>

lemma size_unit_units:
  assumes "list_all is_ascii_digit ds" "ds \<noteq> []"
  shows "size_unit (ds @ ''gb'') = (ds, 1024 * 1024 * 1024)" "size_unit (ds @ ''mb'') = (ds, 1024 * 1024)"
    "size_unit (ds @ ''kb'') = (ds, 1024)" "size_unit (ds @ ''b'') = (ds, 1)"
proof -
  obtain es d where ds: "ds = es @ [d]" using assms(2) by (cases ds rule: rev_cases) auto
  have d: "d \<noteq> CHR ''g''" "d \<noteq> CHR ''m''" "d \<noteq> CHR ''k''" using assms(1) ds by (auto simp: is_ascii_digit_def)
  show "size_unit (ds @ ''gb'') = (ds, 1024 * 1024 * 1024)" by (simp add: size_unit_def)
  have "\<not> ends_with ''gb'' (ds @ ''mb'')" "\<not> ends_with ''gb'' (ds @ ''kb'')" "\<not> ends_with ''mb'' (ds @ ''kb'')"
    by (auto simp: ends_with_iff)
  then show "size_unit (ds @ ''mb'') = (ds, 1024 * 1024)" "size_unit (ds @ ''kb'') = (ds, 1024)"
    by (simp_all add: size_unit_def strip_suffix_None)
  have "\<not> ends_with [x, CHR ''b''] (ds @ ''b'')" if "d \<noteq> x" for x
    using that ds by (auto simp: ends_with_iff append_eq_append_conv2 append_eq_Cons_conv)
  then show "size_unit (ds @ ''b'') = (ds, 1)" using d by (simp add: size_unit_def strip_suffix_None)
qed

lemma parse_size_unit:
  assumes "n * m < 2 ^ 64" "0 < n * m" "size_unit (nat_dec n @ u) = (nat_dec n, m)" "set u \<subseteq> set ''gmkb''"
    "map to_ascii_lowercase U = u" "set U \<subseteq> set ''GMKB''"
  shows "parse_size (nat_dec n @ U) = Inr (n * m)"
proof -
  have dg: "list_all is_ascii_digit (nat_dec n)" "nat_dec n \<noteq> []" using nat_dec_digits by auto
  have "\<not> ws_byte c" if "c \<in> set (nat_dec n @ U)" for c
    using that digits_not_ws [OF dg(1)] assms(6) ws_byte_range [of c] by auto
  then have "str_trim (nat_dec n @ U) = nat_dec n @ U" by (rule str_trim_none)
  then have low: "map to_ascii_lowercase (str_trim (nat_dec n @ U)) = nat_dec n @ u" using digits_plain(2) [OF dg(1)] assms(5) by simp
  have "n < 2 ^ 64" using assms(1,2) by (metis le_less_trans less_nat_zero_code mult_0_right mult_le_mono2 nat_less_le not_gr_zero Suc_leI mult.right_neutral One_nat_def)
  then have "parse_usize (str_trim (nat_dec n)) = Some n" using parse_usize_nat_dec digits_plain(1) [OF dg(1)] by simp
  then show ?thesis using assms(1,2) low dg(2) unfolding parse_size_def Let_def low assms(3) by simp
qed

text \<open>The sizes of error messages can be configured: parsing the printed form of a size gives the size back.\<close>

theorem size_roundtrip:
  assumes "0 < n" "n < 2 ^ 64"
  shows "parse_size (format_size n) = Inr n"
proof -
  have u: "size_unit (nat_dec k @ ''gb'') = (nat_dec k, 1024 * 1024 * 1024)" "size_unit (nat_dec k @ ''mb'') = (nat_dec k, 1024 * 1024)"
    "size_unit (nat_dec k @ ''kb'') = (nat_dec k, 1024)" "size_unit (nat_dec k @ ''b'') = (nat_dec k, 1)" for k
    using size_unit_units [of "nat_dec k"] nat_dec_digits [of k] by auto
  have l: "map to_ascii_lowercase ''GB'' = ''gb''" "map to_ascii_lowercase ''MB'' = ''mb''" "map to_ascii_lowercase ''KB'' = ''kb''"
    "map to_ascii_lowercase ''B'' = ''b''" by code_simp+
  have p: "parse_size (nat_dec (n div m) @ U) = Inr n"
    if "n mod m = 0" "size_unit (nat_dec (n div m) @ u) = (nat_dec (n div m), m)" "map to_ascii_lowercase U = u"
      "set u \<subseteq> set ''gmkb''" "set U \<subseteq> set ''GMKB''" for m u U
  proof -
    have "n div m * m = n" using that(1) by auto
    then show ?thesis using parse_size_unit [of "n div m" m u U] that assms by simp
  qed
  have "n mod (1024 * 1024 * 1024) = 0 \<Longrightarrow> parse_size (nat_dec (n div (1024 * 1024 * 1024)) @ ''GB'') = Inr n"
    "n mod (1024 * 1024) = 0 \<Longrightarrow> parse_size (nat_dec (n div (1024 * 1024)) @ ''MB'') = Inr n"
    "n mod 1024 = 0 \<Longrightarrow> parse_size (nat_dec (n div 1024) @ ''KB'') = Inr n"
    using p [OF _ u(1) l(1)] p [OF _ u(2) l(2)] p [OF _ u(3) l(3)] by simp_all
  moreover have "parse_size (nat_dec n @ ''B'') = Inr n"
    using parse_size_unit [of n 1 "''b''" "''B''"] u(4) l(4) assms by simp
  ultimately show ?thesis by (simp add: format_size_def)
qed

theorem size_roundtrip_witness: "parse_size (format_size 5242880) = Inr 5242880"
  by (rule size_roundtrip) simp_all

end
