(* ===== verification/I18n.thy ===== *)
theory I18n
  imports Cookie_Session Text
begin

text \<open>
  Translations (\<^verbatim>\<open>src/src/i18n\<close>): the store with its YAML files flattened into keys, plural forms and
  placeholders, the locale of a request, the layer and the translator. Reading directories and files, the YAML
  parser, language tags with their plural rules, and the parser of quality values are parameters; the
  quality values are ordered (a NaN is left out).
\<close>

section \<open>Entries\<close>

datatype entry =
    Plain string
  | Plural "string option" "string option" "string option" "string option" "string option" string

fun entry_to_string :: "entry \<Rightarrow> string" where
  "entry_to_string (Plain s) = s"
| "entry_to_string (Plural zero one two few many other) = other"

text \<open>A \<^verbatim>\<open>{\<close> reads up to the next \<^verbatim>\<open>}\<close>, or to the end of the template.\<close>

function interpolate :: "string \<Rightarrow> (string \<times> string) list \<Rightarrow> string" where
  "interpolate [] kwargs = []"
| "interpolate (ch # cs) kwargs =
     (if ch = CHR ''{''
      then (case split_once CHR ''}'' cs of
              Some (key, rest) \<Rightarrow>
                (if key \<noteq> []
                 then (case find (\<lambda>(k, _). k = key) kwargs of
                         Some (_, val) \<Rightarrow> val
                       | None \<Rightarrow> ''{'' @ key @ ''}'')
                 else ''{'') @ interpolate rest kwargs
            | None \<Rightarrow> ''{'' @ cs)
      else ch # interpolate cs kwargs)"
  by pat_completeness auto
termination by (relation "measure (length \<circ> fst)") (auto simp: split_once_Some)

section \<open>YAML\<close>

datatype yaml = YString string | YMapping "(yaml \<times> yaml) list" | YOther

fun yaml_as_str :: "yaml \<Rightarrow> string option" where
  "yaml_as_str (YString s) = Some s"
| "yaml_as_str _ = None"

definition plural_keys :: "string list" where
  "plural_keys = [''zero'', ''one'', ''two'', ''few'', ''many'', ''other'']"

definition is_plural_entry :: "(yaml \<times> yaml) list \<Rightarrow> bool" where
  "is_plural_entry m \<longleftrightarrow>
     map_of m (YString ''other'') \<noteq> None \<and>
     list_all (\<lambda>k. case yaml_as_str k of Some s \<Rightarrow> s \<in> set plural_keys | None \<Rightarrow> False) (map fst m)"

definition get_str :: "(yaml \<times> yaml) list \<Rightarrow> string \<Rightarrow> string option" where
  "get_str m key = Option.bind (map_of m (YString key)) yaml_as_str"

fun flatten_yaml :: "string \<Rightarrow> yaml \<Rightarrow> (string \<rightharpoonup> entry) \<Rightarrow> (string \<rightharpoonup> entry)"
and flatten_pairs :: "string \<Rightarrow> (yaml \<times> yaml) list \<Rightarrow> (string \<rightharpoonup> entry) \<Rightarrow> (string \<rightharpoonup> entry)" where
  "flatten_yaml prefix (YMapping m) entries =
     (if is_plural_entry m
      then entries(prefix \<mapsto> Plural (get_str m ''zero'') (get_str m ''one'') (get_str m ''two'') (get_str m ''few'') (get_str m ''many'')
                     (case get_str m ''other'' of Some s \<Rightarrow> s | None \<Rightarrow> []))
      else flatten_pairs prefix m entries)"
| "flatten_yaml prefix (YString s) entries = entries(prefix \<mapsto> Plain s)"
| "flatten_yaml prefix YOther entries = entries"
| "flatten_pairs prefix [] entries = entries"
| "flatten_pairs prefix ((k, v) # m) entries =
     flatten_pairs prefix m (case yaml_as_str k of Some key_str \<Rightarrow> flatten_yaml (prefix @ ''.'' @ key_str) v entries | None \<Rightarrow> entries)"

section \<open>Loading\<close>

text \<open>An entry of a directory as \<^verbatim>\<open>Path\<close> shows it; names that are no UTF-8 are \<^const>\<open>None\<close>.\<close>

record dir_entry =
  de_path :: string
  de_is_dir :: bool
  de_file_name :: "string option"
  de_extension :: "string option"
  de_file_stem :: "string option"

record i18n_env =
  ie_exists :: "string \<Rightarrow> bool"
  ie_read_dir :: "string \<Rightarrow> string + (string + dir_entry) list"
  ie_read_to_string :: "string \<Rightarrow> string + string"
  ie_parse_yaml :: "string \<Rightarrow> string + yaml"

datatype plural_category = ZERO | ONE | TWO | FEW | MANY | OTHER

fun load_files :: "i18n_env \<Rightarrow> (string + dir_entry) list \<Rightarrow> (string \<rightharpoonup> entry) \<Rightarrow> (string \<rightharpoonup> entry) result" where
  "load_files env [] entries = Inr entries"
| "load_files env (Inl e # des) entries = Inl (internal (''Failed to read directory entry: '' @ e))"
| "load_files env (Inr de # des) entries =
     (if de_extension de \<noteq> Some ''yaml'' \<and> de_extension de \<noteq> Some ''yml'' then load_files env des entries
      else case de_file_stem de of
        None \<Rightarrow> load_files env des entries
      | Some namespace \<Rightarrow>
          bind_res (map_err (\<lambda>e. internal (''Failed to read '' @ de_path de @ '': '' @ e)) (ie_read_to_string env (de_path de))) (\<lambda>content.
          bind_res (map_err (\<lambda>e. internal (''Failed to parse '' @ de_path de @ '': '' @ e)) (ie_parse_yaml env content)) (\<lambda>value.
          load_files env des (flatten_yaml namespace value entries))))"

definition load_locale_dir :: "i18n_env \<Rightarrow> string \<Rightarrow> (string \<rightharpoonup> entry) result" where
  "load_locale_dir env locale_path =
     bind_res (map_err (\<lambda>e. internal (''Failed to read locale directory '' @ locale_path @ '': '' @ e)) (ie_read_dir env locale_path)) (\<lambda>des.
     load_files env des Map.empty)"

fun load_locales :: "i18n_env \<Rightarrow> (string + dir_entry) list \<Rightarrow> (string \<times> (string \<rightharpoonup> entry)) list \<Rightarrow> (string \<times> (string \<rightharpoonup> entry)) list result" where
  "load_locales env [] ts = Inr ts"
| "load_locales env (Inl e # des) ts = Inl (internal (''Failed to read directory entry: '' @ e))"
| "load_locales env (Inr de # des) ts =
     (if \<not> de_is_dir de then load_locales env des ts
      else case de_file_name de of
        None \<Rightarrow> load_locales env des ts
      | Some locale \<Rightarrow>
          bind_res (load_locale_dir env (de_path de)) (\<lambda>es.
          load_locales env des ((locale, es) # List.filter (\<lambda>(l, _). l \<noteq> locale) ts)))"

text \<open>\<open>rules\<close> are the cardinal plural rules of a locale (\<^const>\<open>None\<close>: no language tag, or no rules for it), \<open>en\<close> the English ones.\<close>

record translation_store =
  ts_translations :: "(string \<times> (string \<rightharpoonup> entry)) list"
  ts_default_locale :: string
  ts_plural_rules :: "string \<Rightarrow> (nat \<Rightarrow> plural_category option) option"
  ts_fallback_rules :: "nat \<Rightarrow> plural_category option"

definition store_empty :: "(nat \<Rightarrow> plural_category option) \<Rightarrow> string \<Rightarrow> translation_store" where
  "store_empty en default_locale =
     \<lparr>ts_translations = [], ts_default_locale = default_locale, ts_plural_rules = (\<lambda>_. None), ts_fallback_rules = en\<rparr>"

definition store_load ::
  "i18n_env \<Rightarrow> (string \<Rightarrow> (nat \<Rightarrow> plural_category option) option) \<Rightarrow> (nat \<Rightarrow> plural_category option) \<Rightarrow> string \<Rightarrow> string \<Rightarrow> translation_store result" where
  "store_load env rules en path default_locale =
     bind_res (map_err (\<lambda>e. internal (''Failed to read locales directory '' @ path @ '': '' @ e)) (ie_read_dir env path)) (\<lambda>des.
     bind_res (load_locales env des []) (\<lambda>ts.
     Inr \<lparr>ts_translations = ts, ts_default_locale = default_locale,
          ts_plural_rules = (\<lambda>l. if l \<in> fst ` set ts then rules l else None), ts_fallback_rules = en\<rparr>))"

section \<open>Translating\<close>

definition lookup_entry :: "translation_store \<Rightarrow> string \<Rightarrow> string \<Rightarrow> entry option" where
  "lookup_entry st locale key = Option.bind (map_of (ts_translations st) locale) (\<lambda>es. es key)"

definition translate :: "translation_store \<Rightarrow> string \<Rightarrow> string \<Rightarrow> (string \<times> string) list \<Rightarrow> string result" where
  "translate st locale key kwargs =
     (case lookup_entry st locale key of
        Some e \<Rightarrow> Inr (interpolate (entry_to_string e) kwargs)
      | None \<Rightarrow>
          (case (if locale \<noteq> ts_default_locale st then lookup_entry st (ts_default_locale st) key else None) of
             Some e \<Rightarrow> Inr (interpolate (entry_to_string e) kwargs)
           | None \<Rightarrow> Inr key))"

definition plural_category_of :: "translation_store \<Rightarrow> string \<Rightarrow> int \<Rightarrow> plural_category" where
  "plural_category_of st locale cnt =
     (let abs_count = nat \<bar>cnt\<bar>;
          select = (case ts_plural_rules st locale of Some rules \<Rightarrow> rules | None \<Rightarrow> ts_fallback_rules st)
      in case select abs_count of Some c \<Rightarrow> c | None \<Rightarrow> OTHER)"

fun plural_form :: "plural_category \<Rightarrow> entry \<Rightarrow> string" where
  "plural_form c (Plain s) = s"
| "plural_form c (Plural zero one two few many other) =
     (case (case c of ZERO \<Rightarrow> zero | ONE \<Rightarrow> one | TWO \<Rightarrow> two | FEW \<Rightarrow> few | MANY \<Rightarrow> many | OTHER \<Rightarrow> Some other) of
        Some s \<Rightarrow> s | None \<Rightarrow> other)"

definition translate_plural :: "translation_store \<Rightarrow> string \<Rightarrow> string \<Rightarrow> int \<Rightarrow> (string \<times> string) list \<Rightarrow> string result" where
  "translate_plural st locale key cnt kwargs =
     (let found = (case lookup_entry st locale key of
                     Some e \<Rightarrow> Some e
                   | None \<Rightarrow> if locale \<noteq> ts_default_locale st then lookup_entry st (ts_default_locale st) key else None)
      in case found of
           None \<Rightarrow> Inr key
         | Some e \<Rightarrow>
             Inr (interpolate (plural_form (plural_category_of st locale cnt) e) (kwargs @ [(''count'', int_dec cnt)])))"

definition available_locales :: "translation_store \<Rightarrow> string list" where
  "available_locales st = map fst (ts_translations st)"

text \<open>The template function \<^verbatim>\<open>t()\<close>: its first argument, the template's \<^verbatim>\<open>locale\<close> variable and the keyword arguments
  as text, with \<^verbatim>\<open>count\<close> also as a number. \<^const>\<open>Inl\<close>: the error of the template engine.\<close>

definition t_function :: "translation_store \<Rightarrow> string list \<Rightarrow> string option \<Rightarrow> int option \<Rightarrow> (string \<times> string) list \<Rightarrow> string + string" where
  "t_function st args locale_var cnt kwargs =
     (case args of
        [] \<Rightarrow> Inl ''t() requires a translation key''
      | key # _ \<Rightarrow>
          (let locale = (case locale_var of Some s \<Rightarrow> if s = [] then ts_default_locale st else s | None \<Rightarrow> ts_default_locale st)
           in map_err err_message
                (case cnt of Some n \<Rightarrow> translate_plural st locale key n kwargs | None \<Rightarrow> translate st locale key kwargs)))"

section \<open>The locale of a request\<close>

text \<open>The parts of a request with the session that the session layer has put into its extensions.\<close>

type_synonym resolver = "parts \<Rightarrow> session_state option \<Rightarrow> string option"

fun query_param_loop :: "string \<Rightarrow> string list \<Rightarrow> string list \<Rightarrow> string option" where
  "query_param_loop param_name available [] = None"
| "query_param_loop param_name available (pair # pairs) =
     (case split_once CHR ''='' pair of
        Some (key, value) \<Rightarrow>
          if key = param_name \<and> (available = [] \<or> value \<in> set available) then Some value
          else query_param_loop param_name available pairs
      | None \<Rightarrow> query_param_loop param_name available pairs)"

definition query_param_resolve :: "string \<Rightarrow> string list \<Rightarrow> resolver" where
  "query_param_resolve param_name available parts sess =
     Option.bind (p_query parts) (\<lambda>query. query_param_loop param_name available (split_on CHR ''&'' query))"

fun cookie_loop :: "string \<Rightarrow> string list \<Rightarrow> string list \<Rightarrow> string option" where
  "cookie_loop wanted available [] = None"
| "cookie_loop wanted available (cookie # cookies) =
     (case split_once CHR ''='' (trim cookie) of
        Some (name, value0) \<Rightarrow>
          (let value = trim value0
           in if trim name = wanted \<and> (available = [] \<or> value \<in> set available) then Some value
              else cookie_loop wanted available cookies)
      | None \<Rightarrow> cookie_loop wanted available cookies)"

definition cookie_resolve :: "string \<Rightarrow> string list \<Rightarrow> resolver" where
  "cookie_resolve wanted available parts sess =
     Option.bind (header_str parts ''cookie'') (\<lambda>h. cookie_loop wanted available (split_on CHR '';'' h))"

definition session_resolve :: resolver where
  "session_resolve parts sess =
     Option.bind (Option.bind sess ss_current) (\<lambda>s. Option.bind (json_get (sd_data s) ''locale'') json_as_str)"

definition accept_entry :: "(string \<Rightarrow> 'q :: linordered_idom option) \<Rightarrow> string \<Rightarrow> string \<times> 'q" where
  "accept_entry parse_f32 entry0 =
     (let e = trim entry0;
          (lang, quality) = (case split_str '';q='' e of
             Some (l, q) \<Rightarrow> (trim l, case parse_f32 (trim q) of Some x \<Rightarrow> x | None \<Rightarrow> 0)
           | None \<Rightarrow> (e, 1))
      in (map to_ascii_lowercase (hd (split_on CHR ''-'' lang)), quality))"

definition accept_language_resolve :: "(string \<Rightarrow> 'q :: linordered_idom option) \<Rightarrow> string list \<Rightarrow> resolver" where
  "accept_language_resolve parse_f32 available parts sess =
     Option.bind (header_str parts ''accept-language'') (\<lambda>h.
       let langs = map (accept_entry parse_f32) (split_on CHR '','' h);
           sorted = rev (sort_key snd (rev langs))
       in map_option fst (find (\<lambda>(lang, _). lang \<in> set available) sorted))"

record i18n_config =
  ic_locales_path :: string
  ic_default_locale :: string
  ic_locale_cookie :: string
  ic_locale_query_param :: string

definition i18n_config_default :: i18n_config where
  "i18n_config_default = \<lparr>ic_locales_path = ''locales'', ic_default_locale = ''en'', ic_locale_cookie = ''lang'', ic_locale_query_param = ''lang''\<rparr>"

definition default_chain :: "(string \<Rightarrow> 'q :: linordered_idom option) \<Rightarrow> i18n_config \<Rightarrow> string list \<Rightarrow> resolver list" where
  "default_chain parse_f32 c available =
     [query_param_resolve (ic_locale_query_param c) available, cookie_resolve (ic_locale_cookie c) available,
      session_resolve, accept_language_resolve parse_f32 available]"

fun resolve_locale :: "resolver list \<Rightarrow> parts \<Rightarrow> session_state option \<Rightarrow> string option" where
  "resolve_locale [] parts sess = None"
| "resolve_locale (r # rs) parts sess = (case r parts sess of Some l \<Rightarrow> Some l | None \<Rightarrow> resolve_locale rs parts sess)"

section \<open>Layer and translator\<close>

record translator =
  tr_locale :: string
  tr_store :: translation_store

definition translator_t :: "translator \<Rightarrow> string \<Rightarrow> (string \<times> string) list \<Rightarrow> string" where
  "translator_t tr key kwargs = (case translate (tr_store tr) (tr_locale tr) key kwargs of Inr s \<Rightarrow> s | Inl _ \<Rightarrow> key)"

definition translator_t_plural :: "translator \<Rightarrow> string \<Rightarrow> int \<Rightarrow> (string \<times> string) list \<Rightarrow> string" where
  "translator_t_plural tr key cnt kwargs = (case translate_plural (tr_store tr) (tr_locale tr) key cnt kwargs of Inr s \<Rightarrow> s | Inl _ \<Rightarrow> key)"

definition translator_from_parts :: "translator option \<Rightarrow> translator result" where
  "translator_from_parts ext = ok_or (with_code ''i18n:layer_missing'' (internal ''I18nLayer not installed'')) ext"

record i18n =
  in_store :: translation_store
  in_chain :: "resolver list"
  in_default_locale :: string

definition i18n_new ::
  "i18n_env \<Rightarrow> (string \<Rightarrow> (nat \<Rightarrow> plural_category option) option) \<Rightarrow> (nat \<Rightarrow> plural_category option) \<Rightarrow>
   (string \<Rightarrow> 'q :: linordered_idom option) \<Rightarrow> i18n_config \<Rightarrow> i18n result" where
  "i18n_new env rules en parse_f32 c =
     bind_res (if ie_exists env (ic_locales_path c) then store_load env rules en (ic_locales_path c) (ic_default_locale c)
               else Inr (store_empty en (ic_default_locale c))) (\<lambda>st.
     Inr \<lparr>in_store = st, in_chain = default_chain parse_f32 c (available_locales st), in_default_locale = ic_default_locale c\<rparr>)"

text \<open>The handler \<open>inner\<close> gets the translator that the layer puts into the request.\<close>

definition i18n_call :: "i18n \<Rightarrow> (translator \<Rightarrow> 'r) \<Rightarrow> parts \<Rightarrow> session_state option \<Rightarrow> 'r" where
  "i18n_call i inner parts sess =
     (let resolved = (case resolve_locale (in_chain i) parts sess of Some l \<Rightarrow> l | None \<Rightarrow> in_default_locale i)
      in inner \<lparr>tr_locale = resolved, tr_store = in_store i\<rparr>)"

section \<open>Placeholders\<close>

text \<open>A template as a sequence of texts and placeholders, how it is written, and what it stands for.\<close>

datatype segment = Lit string | Placeholder string

fun write_segment :: "segment \<Rightarrow> string" where
  "write_segment (Lit s) = s"
| "write_segment (Placeholder k) = ''{'' @ k @ ''}''"

fun fill :: "(string \<times> string) list \<Rightarrow> segment \<Rightarrow> string" where
  "fill kwargs (Lit s) = s"
| "fill kwargs (Placeholder k) = (case map_of kwargs k of Some v \<Rightarrow> v | None \<Rightarrow> ''{'' @ k @ ''}'')"

fun plain_segment :: "segment \<Rightarrow> bool" where
  "plain_segment (Lit s) \<longleftrightarrow> CHR ''{'' \<notin> set s"
| "plain_segment (Placeholder k) \<longleftrightarrow> k \<noteq> [] \<and> CHR ''}'' \<notin> set k"

lemma find_map_of: "map_option snd (find (\<lambda>(k, _). k = key) kwargs) = map_of kwargs key"
  by (induction kwargs) auto

lemma interpolate_lit: "CHR ''{'' \<notin> set s \<Longrightarrow> interpolate (s @ t) kwargs = s @ interpolate t kwargs"
  by (induction s) auto

lemma interpolate_placeholder:
  assumes "k \<noteq> []" "CHR ''}'' \<notin> set k"
  shows "interpolate (CHR ''{'' # k @ CHR ''}'' # t) kwargs = fill kwargs (Placeholder k) @ interpolate t kwargs"
  using assms find_map_of [of k kwargs] by (auto split: option.splits)

text \<open>Interpolation replaces the placeholders and nothing else: every text of a template is kept, every placeholder
  with an argument becomes its value, word for word, without looking for placeholders inside the value, and a placeholder
  without an argument stays as written.\<close>

theorem interpolate_fills:
  assumes "list_all plain_segment segs"
  shows "interpolate (concat (map write_segment segs)) kwargs = concat (map (fill kwargs) segs)"
  using assms
proof (induction segs)
  case (Cons s segs)
  then show ?case
  proof (cases s)
    case (Lit t)
    then show ?thesis using Cons by (simp add: interpolate_lit)
  next
    case (Placeholder k)
    then show ?thesis using Cons interpolate_placeholder [of k "concat (map write_segment segs)" kwargs] by simp
  qed
qed simp

theorem interpolate_fills_witness: "interpolate ''Hi {name}, {x}!'' [(''name'', ''{x}'')] = ''Hi {x}, {x}!''"
  using interpolate_fills [of "[Lit ''Hi '', Placeholder ''name'', Lit '', '', Placeholder ''x'', Lit ''!'']" "[(''name'', ''{x}'')]"] by simp

text \<open>An empty pair of braces loses the second one.\<close>

lemma empty_braces: "interpolate ''a {} b'' kwargs = ''a { b''"
  by (simp add: split_once_def)

section \<open>Keys\<close>

definition key_of :: "string \<Rightarrow> string list \<Rightarrow> string" where
  "key_of prefix ks = prefix @ concat (map ((#) CHR ''.'') ks)"

text \<open>What a YAML tree has at a path of keys.\<close>

definition plural_of :: "(yaml \<times> yaml) list \<Rightarrow> entry" where
  "plural_of m = Plural (get_str m ''zero'') (get_str m ''one'') (get_str m ''two'') (get_str m ''few'') (get_str m ''many'')
     (case get_str m ''other'' of Some s \<Rightarrow> s | None \<Rightarrow> [])"

fun entry_at :: "yaml \<Rightarrow> string list \<Rightarrow> entry option" where
  "entry_at (YString s) [] = Some (Plain s)"
| "entry_at (YMapping m) [] = (if is_plural_entry m then Some (plural_of m) else None)"
| "entry_at (YMapping m) (k # ks) = (if is_plural_entry m then None else Option.bind (map_of m (YString k)) (\<lambda>v. entry_at v ks))"
| "entry_at _ _ = None"

fun yaml_ok :: "yaml \<Rightarrow> bool" where
  "yaml_ok (YMapping m) \<longleftrightarrow> distinct (map fst m) \<and> (\<forall>(k, v) \<in> set m. (case k of YString s \<Rightarrow> CHR ''.'' \<notin> set s | _ \<Rightarrow> True) \<and> yaml_ok v)"
| "yaml_ok _ = True"

text \<open>Flattening writes below its prefix only.\<close>

lemma flatten_below:
  "flatten_yaml p v es K \<noteq> es K \<Longrightarrow> \<exists>t. K = p @ t \<and> (t = [] \<or> hd t = CHR ''.'')"
  "flatten_pairs p m es K \<noteq> es K \<Longrightarrow> \<exists>t. K = p @ t \<and> t \<noteq> [] \<and> hd t = CHR ''.''"
proof (induction p v es and p m es rule: flatten_yaml_flatten_pairs.induct)
  case (5 p k v m es)
  show ?case
  proof (cases "yaml_as_str k")
    case None
    then show ?thesis using 5 by simp
  next
    case (Some s)
    let ?es = "flatten_yaml (p @ ''.'' @ s) v es"
    show ?thesis
    proof (cases "flatten_pairs p m ?es K = ?es K")
      case True
      then have "?es K \<noteq> es K" using 5 Some by simp
      from "5.IH"(1) [OF Some this] show ?thesis by auto
    next
      case False
      then show ?thesis using 5 Some by simp
    qed
  qed
qed (auto split: if_splits)

lemma dotless_cut:
  assumes "CHR ''.'' \<notin> set a" "CHR ''.'' \<notin> set b" "a @ s = b @ t" "s = [] \<or> hd s = CHR ''.''" "t = [] \<or> hd t = CHR ''.''"
  shows "a = b"
proof -
  have "takeWhile (\<lambda>c. c \<noteq> CHR ''.'') (x @ u) = x" if "CHR ''.'' \<notin> set x" "u = [] \<or> hd u = CHR ''.''" for x u
    using that by (induction x) (auto simp: takeWhile_eq_Nil_iff)
  then show ?thesis using assms by metis
qed

lemma flatten_sibling:
  assumes "CHR ''.'' \<notin> set k" "CHR ''.'' \<notin> set k'" "k \<noteq> k'"
  shows "flatten_yaml (p @ ''.'' @ k') v es (key_of p (k # ks)) = es (key_of p (k # ks))"
proof (rule ccontr)
  assume "flatten_yaml (p @ ''.'' @ k') v es (key_of p (k # ks)) \<noteq> es (key_of p (k # ks))"
  from flatten_below(1) [OF this] obtain t where "key_of p (k # ks) = (p @ ''.'' @ k') @ t" "t = [] \<or> hd t = CHR ''.''" by blast
  then have "k @ concat (map ((#) CHR ''.'') ks) = k' @ t" "t = [] \<or> hd t = CHR ''.''" by (auto simp: key_of_def)
  moreover have "concat (map ((#) CHR ''.'') ks) = [] \<or> hd (concat (map ((#) CHR ''.'') ks)) = CHR ''.''" by (cases ks) auto
  ultimately show False using dotless_cut [OF assms(1,2)] assms(3) by blast
qed

lemma key_of_simps:
  "key_of p [] = p" "key_of p (k # ks) = key_of (p @ ''.'' @ k) ks" "key_of p (k # ks) \<noteq> p"
  by (simp_all add: key_of_def)

definition or_else :: "'a option \<Rightarrow> 'a option \<Rightarrow> 'a option" where
  "or_else x y = (case x of Some a \<Rightarrow> Some a | None \<Rightarrow> y)"

lemma or_else_simps [simp]: "or_else (Some a) y = Some a" "or_else None y = y"
  by (simp_all add: or_else_def)

lemma flatten_entry_at:
  "yaml_ok v \<Longrightarrow> list_all (\<lambda>k. CHR ''.'' \<notin> set k) ks \<Longrightarrow>
     flatten_yaml p v es (key_of p ks) = or_else (entry_at v ks) (es (key_of p ks))"
  "yaml_ok (YMapping m) \<Longrightarrow> CHR ''.'' \<notin> set k \<Longrightarrow> list_all (\<lambda>k. CHR ''.'' \<notin> set k) ks \<Longrightarrow>
     flatten_pairs p m es (key_of p (k # ks)) =
     or_else (Option.bind (map_of m (YString k)) (\<lambda>v. entry_at v ks)) (es (key_of p (k # ks)))"
proof (induction p v es and p m es arbitrary: ks and k ks rule: flatten_yaml_flatten_pairs.induct)
  case (1 p m es)
  show ?case
  proof (cases ks)
    case Nil
    have "flatten_pairs p m es p = es p" using flatten_below(2) [of p m es p] by auto
    then show ?thesis using Nil by (simp add: key_of_simps plural_of_def)
  next
    case (Cons k ks')
    then show ?thesis using 1 key_of_simps(3) [of p k ks'] by auto
  qed
next
  case (2 p s es)
  then show ?case using key_of_simps(3) [of p] by (cases ks) (auto simp: key_of_simps(1))
next
  case (3 p es)
  then show ?case by (cases ks) simp_all
next
  case (4 p es)
  then show ?case by simp
next
  case (5 p a v m es)
  show ?case
  proof (cases "yaml_as_str a")
    case None
    then have "a \<noteq> YString k" by auto
    then show ?thesis using 5 None by auto
  next
    case (Some s)
    then have a: "a = YString s" by (cases a) auto
    let ?es = "flatten_yaml (p @ ''.'' @ s) v es"
    have rest: "flatten_pairs p m ?es (key_of p (k # ks)) =
        or_else (Option.bind (map_of m (YString k)) (\<lambda>v. entry_at v ks)) (?es (key_of p (k # ks)))"
      using "5.IH"(2) [of k ks] 5(3-5) Some by simp
    show ?thesis
    proof (cases "s = k")
      case True
      have "map_of m (YString k) = None" using 5(3) a True by (simp add: map_of_eq_None_iff)
      moreover have "?es (key_of p (k # ks)) = or_else (entry_at v ks) (es (key_of p (k # ks)))"
        using "5.IH"(1) [OF Some, of ks] 5(3,5) True by (simp add: key_of_simps(2))
      ultimately show ?thesis using rest Some a True by simp
    next
      case False
      have "?es (key_of p (k # ks)) = es (key_of p (k # ks))" using flatten_sibling [of k s] 5(3,4) a False by auto
      then show ?thesis using rest Some a False by simp
    qed
  qed
qed

text \<open>C38. Every translation is found under its path: in a YAML file without dots or duplicates in its keys, the key made of the
  file's name and the path of the keys, joined with dots, gives the text at that path (or the plural forms of a mapping
  with plural categories only), and paths that lead to no text give nothing.\<close>

theorem flatten_finds_texts:
  assumes "yaml_ok v" "list_all (\<lambda>k. CHR ''.'' \<notin> set k) ks"
  shows "flatten_yaml ns v Map.empty (key_of ns ks) = entry_at v ks"
  using flatten_entry_at(1) [OF assms, of ns Map.empty] by (cases "entry_at v ks") simp_all

theorem flatten_finds_texts_witness:
  "flatten_yaml ''auth'' (YMapping [(YString ''page'', YMapping [(YString ''title'', YString ''Log in'')])]) Map.empty ''auth.page.title'' = Some (Plain ''Log in'')"
proof -
  have "yaml_ok (YMapping [(YString ''page'', YMapping [(YString ''title'', YString ''Log in'')])])" by code_simp
  moreover have "entry_at (YMapping [(YString ''page'', YMapping [(YString ''title'', YString ''Log in'')])]) [''page'', ''title''] = Some (Plain ''Log in'')"
    by code_simp
  ultimately show ?thesis
    using flatten_finds_texts [of "YMapping [(YString ''page'', YMapping [(YString ''title'', YString ''Log in'')])]" "[''page'', ''title'']" "''auth''"]
    by (simp add: key_of_def)
qed

section \<open>Locales\<close>

lemma query_param_loop_available: "query_param_loop name av pairs = Some l \<Longrightarrow> av \<noteq> [] \<Longrightarrow> l \<in> set av"
  by (induction pairs) (auto split: option.splits if_splits)

lemma cookie_loop_available: "cookie_loop name av cookies = Some l \<Longrightarrow> av \<noteq> [] \<Longrightarrow> l \<in> set av"
  by (induction cookies) (auto simp: Let_def split: option.splits if_splits)

lemma find_satisfies: "find P xs = Some x \<Longrightarrow> P x"
  by (auto simp: find_Some_iff)

lemma accept_language_available: "accept_language_resolve parse_f32 av parts sess = Some l \<Longrightarrow> l \<in> set av"
  by (auto simp: accept_language_resolve_def Let_def bind_eq_Some_conv dest!: find_satisfies)

text \<open>The locale of a request is one that was loaded, unless the session names it: the session's value is not checked.\<close>

lemma resolved_locale_available:
  assumes "resolve_locale (default_chain parse_f32 c av) parts sess = Some l" "av \<noteq> []"
  shows "l \<in> set av \<or> session_resolve parts sess = Some l"
proof -
  have "query_param_resolve name av parts sess = Some l \<Longrightarrow> l \<in> set av" "cookie_resolve name av parts sess = Some l \<Longrightarrow> l \<in> set av" for name
    using assms(2) query_param_loop_available cookie_loop_available
    by (fastforce simp: query_param_resolve_def cookie_resolve_def bind_eq_Some_conv)+
  with assms(1) accept_language_available [of parse_f32 av parts sess l] show ?thesis
    by (auto simp: default_chain_def split: option.splits)
qed

text \<open>A space before the quality value hides the language.\<close>

lemma accept_space_hides: "accept_entry parse_f32 ''uk; q=0.9'' = (''uk; q=0.9'', 1)"
  by (simp add: accept_entry_def trim_def trim_start_def trim_end_def is_whitespace_def starts_with_def split_on.simps split_once_def to_ascii_lowercase_def Let_def)

end
