(* ===== verification/Sse.thy ===== *)
theory Sse
  imports Text
begin

text \<open>
  Server-sent events (\<^verbatim>\<open>src/src/sse\<close>): events, streams with their lag policies, and the broadcaster with its
  registry of channels. A stream is the list of what it yields. Tokio's broadcast channels are known by
  their numbers and the receivers that are alive; how a channel counts its receivers is a parameter.
\<close>

section \<open>Configuration and events\<close>

record sse_config =
  keep_alive_interval_secs :: nat

definition sse_config_default :: sse_config where
  "sse_config_default = \<lparr>keep_alive_interval_secs = 15\<rparr>"

record event =
  ev_id :: string
  ev_event :: string
  ev_data :: "string option"
  ev_retry :: "nat option"

definition validate_field :: "string \<Rightarrow> string \<Rightarrow> unit result" where
  "validate_field value field_name =
     (if CHR 0x0A \<in> set value \<or> CHR 0x0D \<in> set value
      then Inl (bad_request (''SSE '' @ field_name @ '' must not contain newline characters''))
      else Inr ())"

definition event_new :: "string \<Rightarrow> string \<Rightarrow> event result" where
  "event_new i name =
     bind_res (validate_field i ''id'') (\<lambda>_.
     bind_res (validate_field name ''event'') (\<lambda>_.
     Inr \<lparr>ev_id = i, ev_event = name, ev_data = None, ev_retry = None\<rparr>))"

definition event_data :: "string \<Rightarrow> event \<Rightarrow> event" where
  "event_data d e = e\<lparr>ev_data := Some d\<rparr>"

text \<open>\<open>to_json\<close> is serde's.\<close>

definition event_json :: "('a \<Rightarrow> string + string) \<Rightarrow> 'a \<Rightarrow> event \<Rightarrow> event result" where
  "event_json to_json d e =
     bind_res (map_err (\<lambda>m. internal (''SSE JSON serialization failed: '' @ m)) (to_json d)) (\<lambda>json.
     Inr (e\<lparr>ev_data := Some json\<rparr>))"

definition event_html :: "string \<Rightarrow> event \<Rightarrow> event" where
  "event_html html e = event_data html e"

definition event_retry :: "nat \<Rightarrow> event \<Rightarrow> event" where
  "event_retry duration e = e\<lparr>ev_retry := Some duration\<rparr>"

text \<open>The fields that axum's event gets, in order.\<close>

datatype sse_field = FId string | FEvent string | FData string | FRetry nat

definition axum_fields :: "event \<Rightarrow> sse_field list" where
  "axum_fields e =
     [FId (ev_id e), FEvent (ev_event e)] @
     (case ev_data e of Some d \<Rightarrow> [FData d] | None \<Rightarrow> []) @ (case ev_retry e of Some r \<Rightarrow> [FRetry r] | None \<Rightarrow> [])"

definition last_event_id :: "parts \<Rightarrow> string option" where
  "last_event_id parts = header_str parts ''last-event-id''"

text \<open>\<open>delivered\<close>: whether the client is still there when the event is sent.\<close>

definition sender_send :: "bool \<Rightarrow> unit result" where
  "sender_send delivered = (if delivered then Inr () else Inl (internal ''SSE client disconnected''))"

section \<open>Streams\<close>

datatype lag_policy = End | Skip

datatype 't recv = Item 't | RecvLagged nat | Closed

text \<open>The answers of \<^verbatim>\<open>recv\<close> in order; after \<^const>\<open>Closed\<close> the stream has ended.\<close>

fun unfold_default :: "'t recv list \<Rightarrow> 't result list" where
  "unfold_default [] = []"
| "unfold_default (Item x # rs) = Inr x # unfold_default rs"
| "unfold_default (RecvLagged n # rs) = Inl (lagged n) # unfold_default rs"
| "unfold_default (Closed # rs) = []"

fun apply_lag_policy :: "lag_policy \<Rightarrow> 't result list \<Rightarrow> 't result list" where
  "apply_lag_policy policy [] = []"
| "apply_lag_policy policy (Inr x # s) = Inr x # apply_lag_policy policy s"
| "apply_lag_policy policy (Inl e # s) =
     (if err_lagged e then (case policy of End \<Rightarrow> [] | Skip \<Rightarrow> apply_lag_policy policy s)
      else Inl e # apply_lag_policy policy s)"

definition replay :: "'t list \<Rightarrow> 't result list" where
  "replay items = map Inr items"

definition cast_events :: "('t \<Rightarrow> event result) \<Rightarrow> 't result list \<Rightarrow> event result list" where
  "cast_events f s = map (\<lambda>r. bind_res r f) s"

section \<open>The broadcaster\<close>

text \<open>A live stream: the key it was subscribed with, the channel of its receiver, and whether its cleanup has
  run. \<^verbatim>\<open>Drop::drop\<close> runs the cleanup while the receiver, a field of the stream, is still alive; the fields are dropped
  after it.\<close>

record 'k bstream =
  bs_id :: nat
  bs_key :: 'k
  bs_chan :: nat
  bs_cleaned :: bool

record 'k bcast =
  bc_channels :: "'k \<rightharpoonup> nat"
  bc_streams :: "'k bstream list"
  bc_next :: nat

type_synonym 'k counter = "'k bstream list \<Rightarrow> nat \<Rightarrow> nat"

definition broadcaster_new :: "'k bcast" where
  "broadcaster_new = \<lparr>bc_channels = Map.empty, bc_streams = [], bc_next = 0\<rparr>"

definition subscribe :: "'k \<Rightarrow> 'k bcast \<Rightarrow> nat \<times> 'k bcast" where
  "subscribe key b =
     (let n = bc_next b; (ch, chs) = (case bc_channels b key of Some c \<Rightarrow> (c, bc_channels b) | None \<Rightarrow> (n, (bc_channels b)(key \<mapsto> n)))
      in (n, \<lparr>bc_channels = chs,
              bc_streams = \<lparr>bs_id = n, bs_key = key, bs_chan = ch, bs_cleaned = False\<rparr> # bc_streams b, bc_next = Suc n\<rparr>))"

text \<open>\<open>receiver_count\<close>: the receivers of a channel among the streams that are alive.\<close>

definition cleanup :: "'k counter \<Rightarrow> 'k \<Rightarrow> 'k bcast \<Rightarrow> 'k bcast" where
  "cleanup receiver_count key b =
     (case bc_channels b key of
        Some ch \<Rightarrow> if receiver_count (bc_streams b) ch = 0 then b\<lparr>bc_channels := (bc_channels b)(key := None)\<rparr> else b
      | None \<Rightarrow> b)"

definition run_cleanup :: "'k counter \<Rightarrow> nat \<Rightarrow> 'k bcast \<Rightarrow> 'k bcast" where
  "run_cleanup receiver_count sid b =
     (case find (\<lambda>s. bs_id s = sid \<and> \<not> bs_cleaned s) (bc_streams b) of
        Some s \<Rightarrow>
          (let b' = cleanup receiver_count (bs_key s) b
           in b'\<lparr>bc_streams := map (\<lambda>s. if bs_id s = sid then s\<lparr>bs_cleaned := True\<rparr> else s) (bc_streams b')\<rparr>)
      | None \<Rightarrow> b)"

definition drop_fields :: "nat \<Rightarrow> 'k bcast \<Rightarrow> 'k bcast" where
  "drop_fields sid b = b\<lparr>bc_streams := List.filter (\<lambda>s. \<not> (bs_id s = sid \<and> bs_cleaned s)) (bc_streams b)\<rparr>"

definition drop_stream :: "'k counter \<Rightarrow> nat \<Rightarrow> 'k bcast \<Rightarrow> 'k bcast" where
  "drop_stream receiver_count sid b = drop_fields sid (run_cleanup receiver_count sid b)"

text \<open>\<^verbatim>\<open>Sender::send\<close> answers the number of receivers, or an error when there is none.\<close>

definition bc_send :: "'k counter \<Rightarrow> 'k \<Rightarrow> 'k bcast \<Rightarrow> nat \<times> 'k bcast" where
  "bc_send receiver_count key b =
     (case bc_channels b key of
        Some ch \<Rightarrow>
          (let n = receiver_count (bc_streams b) ch
           in if n \<noteq> 0 then (n, b) else (0, cleanup receiver_count key b))
      | None \<Rightarrow> (0, b))"

definition subscriber_count :: "'k counter \<Rightarrow> 'k \<Rightarrow> 'k bcast \<Rightarrow> nat" where
  "subscriber_count receiver_count key b =
     (case bc_channels b key of Some ch \<Rightarrow> receiver_count (bc_streams b) ch | None \<Rightarrow> 0)"

definition bc_remove :: "'k \<Rightarrow> 'k bcast \<Rightarrow> 'k bcast" where
  "bc_remove key b = b\<lparr>bc_channels := (bc_channels b)(key := None)\<rparr>"

text \<open>The steps of concurrent users: the cleanup of a stream and the drop of its receiver are two of them.\<close>

inductive bc_step :: "'k counter \<Rightarrow> 'k bcast \<Rightarrow> 'k bcast \<Rightarrow> bool" for receiver_count where
  Subscribe: "bc_step receiver_count b (snd (subscribe key b))"
| Cleanup: "bc_step receiver_count b (run_cleanup receiver_count sid b)"
| DropFields: "bc_step receiver_count b (drop_fields sid b)"
| Send: "bc_step receiver_count b (snd (bc_send receiver_count key b))"
| Remove: "bc_step receiver_count b (bc_remove key b)"

inductive_cases bc_stepE: "bc_step receiver_count b b'"

section \<open>Channels of different keys are different\<close>

definition bc_inv :: "'k bcast \<Rightarrow> bool" where
  "bc_inv b \<longleftrightarrow>
     (\<forall>k c. bc_channels b k = Some c \<longrightarrow> c < bc_next b) \<and>
     (\<forall>s \<in> set (bc_streams b). bs_id s < bc_next b \<and> bs_chan s < bc_next b) \<and>
     (\<forall>k k' c. bc_channels b k = Some c \<longrightarrow> bc_channels b k' = Some c \<longrightarrow> k = k') \<and>
     (\<forall>s \<in> set (bc_streams b). \<forall>k. bc_channels b k = Some (bs_chan s) \<longrightarrow> bs_key s = k)"

lemma bc_inv_new: "bc_inv broadcaster_new"
  by (simp add: bc_inv_def broadcaster_new_def)

lemma bc_inv_subscribe: "bc_inv b \<Longrightarrow> bc_inv (snd (subscribe key b))"
proof (cases "bc_channels b key")
  case None
  assume inv: "bc_inv b"
  have fresh: "bc_channels b k \<noteq> Some (bc_next b)" for k using inv by (auto simp: bc_inv_def)
  show ?thesis
    using inv None fresh unfolding bc_inv_def
    by (auto simp: subscribe_def Let_def less_Suc_eq split: if_splits)
next
  case (Some c)
  assume "bc_inv b"
  then show ?thesis
    using Some unfolding bc_inv_def by (auto simp: subscribe_def Let_def less_Suc_eq)
qed

text \<open>Fewer channels and fewer or other streams on the same channels keep the invariant.\<close>

lemma bc_inv_shrink:
  assumes "bc_inv b" "bc_channels b' \<subseteq>\<^sub>m bc_channels b" "bc_next b' = bc_next b"
    "\<And>s. s \<in> set (bc_streams b') \<Longrightarrow> \<exists>t \<in> set (bc_streams b). bs_id s = bs_id t \<and> bs_chan s = bs_chan t \<and> bs_key s = bs_key t"
  shows "bc_inv b'"
proof -
  have m: "bc_channels b' k = Some c \<Longrightarrow> bc_channels b k = Some c" for k c using assms(2) by (auto simp: map_le_def dom_def)
  show ?thesis
    unfolding bc_inv_def assms(3)
    using assms(1)[unfolded bc_inv_def] m assms(4) by (intro conjI ballI allI impI) (metis+)
qed

lemma cleanup_shrinks: "bc_channels (cleanup rc key b) \<subseteq>\<^sub>m bc_channels b"
  "bc_next (cleanup rc key b) = bc_next b" "bc_streams (cleanup rc key b) = bc_streams b"
  by (auto simp: cleanup_def map_le_def split: option.splits)

lemma bc_inv_step: "bc_step rc b b' \<Longrightarrow> bc_inv b \<Longrightarrow> bc_inv b'"
proof (induction rule: bc_step.induct)
  case (Subscribe b key)
  then show ?case by (rule bc_inv_subscribe)
next
  case (Cleanup b sid)
  then show ?case
    using cleanup_shrinks [of rc _ b] by (intro bc_inv_shrink [OF Cleanup]) (auto simp: run_cleanup_def Let_def split: option.splits if_splits)
next
  case (DropFields b sid)
  then show ?case by (intro bc_inv_shrink [OF DropFields]) (auto simp: drop_fields_def)
next
  case (Send b key)
  then show ?case
    using cleanup_shrinks [of rc _ b] by (intro bc_inv_shrink [OF Send]) (auto simp: bc_send_def Let_def split: option.splits if_splits)
next
  case (Remove b key)
  then show ?case by (intro bc_inv_shrink [OF Remove]) (auto simp: bc_remove_def map_le_def)
qed

definition bc_reach :: "'k counter \<Rightarrow> 'k bcast \<Rightarrow> bool" where
  "bc_reach rc b \<longleftrightarrow> (bc_step rc)\<^sup>*\<^sup>* broadcaster_new b"

lemma bc_reach_inv: "bc_reach rc b \<Longrightarrow> bc_inv b"
  unfolding bc_reach_def by (induction rule: rtranclp_induct) (auto intro: bc_inv_new bc_inv_step)

definition counts :: "'k counter \<Rightarrow> bool" where
  "counts rc \<longleftrightarrow> (\<forall>ss c. rc ss c = length (List.filter (\<lambda>s. bs_chan s = c) ss))"

text \<open>Messages stay with their key: whatever the order of subscriptions, drops, sends and removals, a message sent to a key
  goes to exactly the live streams on the key's current channel, all of them subscribed with that key, and their number is
  the answer.\<close>

theorem broadcast_isolated:
  assumes "bc_reach rc b" "counts rc"
  shows "fst (bc_send rc key b) = length (List.filter (\<lambda>s. bc_channels b key = Some (bs_chan s)) (bc_streams b)) \<and>
     List.filter (\<lambda>s. bc_channels b key = Some (bs_chan s) \<and> bs_key s \<noteq> key) (bc_streams b) = []"
proof
  show "fst (bc_send rc key b) = length (List.filter (\<lambda>s. bc_channels b key = Some (bs_chan s)) (bc_streams b))"
  proof (cases "bc_channels b key")
    case (Some ch)
    have "(\<lambda>s :: 'a bstream. Some ch = Some (bs_chan s)) = (\<lambda>s. bs_chan s = ch)" by auto
    then show ?thesis using Some assms(2) by (simp add: bc_send_def counts_def Let_def)
  qed (simp add: bc_send_def)
  show "List.filter (\<lambda>s. bc_channels b key = Some (bs_chan s) \<and> bs_key s \<noteq> key) (bc_streams b) = []"
    using bc_reach_inv [OF assms(1)] by (auto simp: bc_inv_def filter_empty_conv)
qed

definition demo_counter :: "string counter" where
  "demo_counter ss c = length (List.filter (\<lambda>s. bs_chan s = c) ss)"

theorem broadcast_isolated_witness:
  "fst (bc_send demo_counter ''a'' (snd (subscribe ''b'' (snd (subscribe ''a'' broadcaster_new))))) = 1"
proof -
  have "bc_reach demo_counter (snd (subscribe ''b'' (snd (subscribe ''a'' broadcaster_new))))"
    unfolding bc_reach_def by (meson bc_step.Subscribe rtranclp.rtrancl_into_rtrancl rtranclp.rtrancl_refl)
  moreover have "counts demo_counter" by (simp add: counts_def demo_counter_def)
  moreover have "length (List.filter (\<lambda>s. bc_channels (snd (subscribe ''b'' (snd (subscribe ''a'' broadcaster_new)))) ''a'' = Some (bs_chan s))
      (bc_streams (snd (subscribe ''b'' (snd (subscribe ''a'' broadcaster_new))))))  = 1" by code_simp
  ultimately show ?thesis using broadcast_isolated [of demo_counter] by simp
qed

section \<open>Unused channels\<close>



section \<open>Lag\<close>

fun items_until :: "('t recv \<Rightarrow> bool) \<Rightarrow> 't recv list \<Rightarrow> 't list" where
  "items_until stop [] = []"
| "items_until stop (r # rs) = (if stop r then [] else (case r of Item x \<Rightarrow> x # items_until stop rs | _ \<Rightarrow> items_until stop rs))"

text \<open>The lag policies: with \<^const>\<open>Skip\<close> a subscriber gets every message its channel still has, up to the end of the channel,
  and no error; with \<^const>\<open>End\<close> it gets the messages up to its first lag, so none is missing between those it got.\<close>

theorem lag_policies:
  "apply_lag_policy Skip (unfold_default rs) = map Inr (items_until (\<lambda>r. r = Closed) rs) \<and>
   apply_lag_policy End (unfold_default rs) = map Inr (items_until (\<lambda>r. case r of Item x \<Rightarrow> False | _ \<Rightarrow> True) rs)"
proof -
  have "err_lagged (lagged n)" for n by (simp add: lagged_def)
  then show ?thesis by (induction rs rule: unfold_default.induct) auto
qed

end
