(* ===== verification/Cron.thy ===== *)
theory Cron
  imports Text
begin

text \<open>
  Scheduled jobs (\<^verbatim>\<open>src/src/cron\<close>): schedules with their aliases and intervals (\<^verbatim>\<open>schedule.rs\<close>) and the loop of one
  job (\<^verbatim>\<open>scheduler.rs\<close>) as a state machine. Cron expressions are the croner crate's: \<open>croner\<close> parses one into
  the function that gives the next occurrence after an instant. Instants are seconds; the handler's own code is
  outside, and ends in one of the ways a task can end.
\<close>

section \<open>Schedules\<close>

datatype schedule = Cron "int \<Rightarrow> int option" | Interval nat

text \<open>The loop over the characters of a duration: the seconds so far, the digits read, and whether a unit was seen.
  Sums and products of \<^verbatim>\<open>u64\<close> wrap around.\<close>

definition bad_number :: "string \<Rightarrow> char \<Rightarrow> error" where
  "bad_number s u = unprocessable_entity (''invalid duration '' @ [CHR 0x27] @ s @ [CHR 0x27] @ '': bad number before '' @ [CHR 0x27, u, CHR 0x27])"

definition unit_secs :: "char \<Rightarrow> nat option" where
  "unit_secs ch = (if ch = CHR ''h'' then Some 3600 else if ch = CHR ''m'' then Some 60 else if ch = CHR ''s'' then Some 1 else None)"

fun duration_loop :: "string \<Rightarrow> string \<Rightarrow> nat \<Rightarrow> string \<Rightarrow> bool \<Rightarrow> (nat \<times> string \<times> bool) result" where
  "duration_loop s [] total_secs current_num found_any = Inr (total_secs, current_num, found_any)"
| "duration_loop s (ch # cs) total_secs current_num found_any =
     (if is_ascii_digit ch then duration_loop s cs total_secs (current_num @ [ch]) found_any
      else case unit_secs ch of
        Some u \<Rightarrow>
          bind_res (ok_or (bad_number s ch) (parse_usize current_num)) (\<lambda>n.
          duration_loop s cs ((total_secs + n * u mod 2 ^ 64) mod 2 ^ 64) [] True)
      | None \<Rightarrow>
          Inl (unprocessable_entity (''invalid duration '' @ [CHR 0x27] @ s @ [CHR 0x27] @ '': unexpected character '' @ [CHR 0x27, ch, CHR 0x27])))"

definition parse_duration :: "string \<Rightarrow> nat result" where
  "parse_duration s =
     bind_res (duration_loop s s 0 [] False) (\<lambda>(total_secs, current_num, found_any).
     if current_num \<noteq> []
     then Inl (unprocessable_entity (''invalid duration '' @ [CHR 0x27] @ s @ [CHR 0x27] @ '': trailing number without unit (use h, m, or s)''))
     else if \<not> found_any
     then Inl (unprocessable_entity (''invalid duration '' @ [CHR 0x27] @ s @ [CHR 0x27] @ '': no duration components found''))
     else Inr total_secs)"

definition parse_cron :: "(string \<Rightarrow> string + (int \<Rightarrow> int option)) \<Rightarrow> string \<Rightarrow> schedule result" where
  "parse_cron croner expr =
     bind_res (map_err (\<lambda>e. unprocessable_entity (''invalid cron expression '' @ [CHR 0x27] @ expr @ [CHR 0x27] @ '': '' @ e)) (croner expr)) (\<lambda>cron.
     Inr (Cron cron))"

definition schedule_parse :: "(string \<Rightarrow> string + (int \<Rightarrow> int option)) \<Rightarrow> string \<Rightarrow> schedule result" where
  "schedule_parse croner input =
     (let trimmed = str_trim input
      in if trimmed \<in> {''@yearly'', ''@annually''} then parse_cron croner ''0 0 0 1 1 *''
         else if trimmed = ''@monthly'' then parse_cron croner ''0 0 0 1 * *''
         else if trimmed = ''@weekly'' then parse_cron croner ''0 0 0 * * 0''
         else if trimmed \<in> {''@daily'', ''@midnight''} then parse_cron croner ''0 0 0 * * *''
         else if trimmed = ''@hourly'' then parse_cron croner ''0 0 * * * *''
         else case strip_prefix ''@every '' trimmed of
           Some dur_str \<Rightarrow> bind_res (parse_duration (str_trim dur_str)) (\<lambda>d. Inr (Interval d))
         | None \<Rightarrow> parse_cron croner trimmed)"

text \<open>An interval too long for chrono (milliseconds in an \<^verbatim>\<open>i64\<close>) is a panic, \<^const>\<open>None\<close> outside; adding it to the instant
  stays in chrono's range below that for all clocks.\<close>

fun next_tick :: "schedule \<Rightarrow> int \<Rightarrow> int option option" where
  "next_tick (Cron cron) from = Some (cron from)"
| "next_tick (Interval dur) from = (if dur \<le> 9223372036854775 then Some (Some (from + int dur)) else None)"

section \<open>The loop of a job\<close>

record cron_options =
  co_timeout_secs :: nat

definition cron_options_default :: cron_options where
  "cron_options_default = \<lparr>co_timeout_secs = 300\<rparr>"

text \<open>How a handler's task ends: with the handler's result, at the timeout, or by a panic, which ends the task before it
  resets the flag.\<close>

datatype outcome = Completed | Failed | TimedOut | Panicked

text \<open>The tasks in flight and those started so far are their ticks.\<close>

record job_loop =
  jl_running :: bool
  jl_next :: int
  jl_tasks :: "int list"
  jl_started :: "int list"
  jl_stopped :: bool

definition advance :: "schedule \<Rightarrow> int \<Rightarrow> job_loop \<Rightarrow> job_loop" where
  "advance sched now j =
     (case next_tick sched now of
        Some (Some t) \<Rightarrow> j\<lparr>jl_next := t\<rparr>
      | _ \<Rightarrow> j\<lparr>jl_stopped := True\<rparr>)"

definition job_loop_start :: "schedule \<Rightarrow> int \<Rightarrow> job_loop" where
  "job_loop_start sched now =
     advance sched now \<lparr>jl_running = False, jl_next = now, jl_tasks = [], jl_started = [], jl_stopped = False\<rparr>"

text \<open>The timer fires at or after \<open>jl_next\<close>.\<close>

definition tick :: "schedule \<Rightarrow> int \<Rightarrow> job_loop \<Rightarrow> job_loop" where
  "tick sched now j =
     (if jl_stopped j \<or> now < jl_next j then j
      else if jl_running j then advance sched now j
      else advance sched now
             (j\<lparr>jl_running := True, jl_tasks := jl_next j # jl_tasks j, jl_started := jl_next j # jl_started j\<rparr>))"

definition task_end :: "outcome \<Rightarrow> int \<Rightarrow> job_loop \<Rightarrow> job_loop" where
  "task_end out t j =
     (if t \<in> set (jl_tasks j)
      then j\<lparr>jl_tasks := remove1 t (jl_tasks j), jl_running := (if out = Panicked then jl_running j else False)\<rparr>
      else j)"

definition cancel_loop :: "job_loop \<Rightarrow> job_loop" where
  "cancel_loop j = j\<lparr>jl_stopped := True\<rparr>"

inductive cron_step :: "schedule \<Rightarrow> outcome set \<Rightarrow> job_loop \<Rightarrow> job_loop \<Rightarrow> bool" for sched outs where
  Tick: "cron_step sched outs j (tick sched now j)"
| TaskEnd: "out \<in> outs \<Longrightarrow> cron_step sched outs j (task_end out t j)"
| Cancel: "cron_step sched outs j (cancel_loop j)"

inductive_cases cron_stepE: "cron_step sched outs j j'"

definition cron_reach :: "schedule \<Rightarrow> outcome set \<Rightarrow> int \<Rightarrow> job_loop \<Rightarrow> bool" where
  "cron_reach sched outs now j \<longleftrightarrow> (cron_step sched outs)\<^sup>*\<^sup>* (job_loop_start sched now) j"

section \<open>Properties\<close>

lemma advance_fields [simp]:
  "jl_running (advance sched now j) = jl_running j" "jl_tasks (advance sched now j) = jl_tasks j" "jl_started (advance sched now j) = jl_started j"
  by (auto simp: advance_def split: option.splits)

definition one_at_a_time :: "job_loop \<Rightarrow> bool" where
  "one_at_a_time j \<longleftrightarrow> length (jl_tasks j) \<le> 1 \<and> (jl_tasks j \<noteq> [] \<longrightarrow> jl_running j)"

lemma one_at_a_time_step: "cron_step sched outs j j' \<Longrightarrow> one_at_a_time j \<Longrightarrow> one_at_a_time j'"
proof (induction rule: cron_step.induct)
  case (Tick j now)
  then show ?case by (auto simp: tick_def one_at_a_time_def)
next
  case (TaskEnd out j t)
  then show ?case by (cases "jl_tasks j") (auto simp: task_end_def one_at_a_time_def)
next
  case (Cancel j)
  then show ?case by (simp add: cancel_loop_def one_at_a_time_def)
qed

definition flag_exact :: "job_loop \<Rightarrow> bool" where
  "flag_exact j \<longleftrightarrow> (jl_running j \<longleftrightarrow> jl_tasks j \<noteq> [])"

lemma flag_exact_step: "cron_step sched outs j j' \<Longrightarrow> Panicked \<notin> outs \<Longrightarrow> one_at_a_time j \<and> flag_exact j \<Longrightarrow> flag_exact j'"
proof (induction rule: cron_step.induct)
  case (Tick j now)
  then show ?case by (auto simp: tick_def flag_exact_def)
next
  case (TaskEnd out j t)
  then show ?case by (cases "jl_tasks j") (auto simp: task_end_def one_at_a_time_def flag_exact_def)
next
  case (Cancel j)
  then show ?case by (simp add: cancel_loop_def flag_exact_def)
qed

lemma cron_reach_inv: "cron_reach sched outs now j \<Longrightarrow> one_at_a_time j \<and> (Panicked \<notin> outs \<longrightarrow> flag_exact j)"
  unfolding cron_reach_def
proof (induction rule: rtranclp_induct)
  case base
  show ?case by (simp add: job_loop_start_def one_at_a_time_def flag_exact_def)
next
  case (step j j')
  then show ?case using one_at_a_time_step flag_exact_step by blast
qed

text \<open>C33. Executions of a job do not overlap, and no tick is lost without a reason: in every reachable state at most one
  task of the job is in flight, also when handlers panic; and as long as none panics, a tick that is due starts
  the handler exactly when the previous execution has ended.\<close>

theorem cron_no_overlap:
  assumes "cron_reach sched outs start j"
  shows "length (jl_tasks j) \<le> 1 \<and>
     (Panicked \<notin> outs \<longrightarrow> \<not> jl_stopped j \<longrightarrow> jl_next j \<le> now \<longrightarrow>
        jl_started (tick sched now j) = (if jl_tasks j = [] then jl_next j # jl_started j else jl_started j))"
  using cron_reach_inv [OF assms] by (auto simp: one_at_a_time_def flag_exact_def tick_def)

theorem cron_no_overlap_witness:
  "jl_started (tick (Interval 60) 130 (task_end Completed 60 (tick (Interval 60) 61 (job_loop_start (Interval 60) 0)))) = [121, 60]"
proof -
  let ?j = "task_end Completed 60 (tick (Interval 60) 61 (job_loop_start (Interval 60) 0))"
  have "cron_reach (Interval 60) {Completed} 0 ?j"
    unfolding cron_reach_def
    by (meson cron_step.Tick cron_step.TaskEnd insertI1 rtranclp.rtrancl_into_rtrancl rtranclp.rtrancl_refl)
  moreover have "jl_tasks ?j = []" "jl_next ?j = 121" "\<not> jl_stopped ?j" "jl_started ?j = [60]"
    by (simp_all add: task_end_def tick_def job_loop_start_def advance_def)
  ultimately show ?thesis using cron_no_overlap [of "Interval 60" "{Completed}" 0 ?j 130] by simp
qed



section \<open>Durations\<close>

lemma duration_digits:
  "list_all is_ascii_digit ds \<Longrightarrow> duration_loop s (ds @ cs) tot num found = duration_loop s cs tot (num @ ds) found"
  by (induction ds arbitrary: num) auto

lemma duration_component:
  assumes "unit_secs u = Some k" "n < 2 ^ 64"
  shows "duration_loop s (nat_dec n @ u # cs) tot [] found = duration_loop s cs ((tot + n * k mod 2 ^ 64) mod 2 ^ 64) [] True"
proof -
  have "\<not> is_ascii_digit u" using assms(1) by (auto simp: unit_secs_def is_ascii_digit_def split: if_splits)
  then show ?thesis
    using assms nat_dec_digits [of n] parse_usize_nat_dec [OF assms(2)] by (simp add: duration_digits)
qed

text \<open>Durations mean what they say: hours, minutes and seconds add up, for all sums that fit into 64 bits.\<close>

theorem duration_sums:
  assumes "h * 3600 + m * 60 + s < 2 ^ 64"
  shows "parse_duration (nat_dec h @ ''h'' @ nat_dec m @ ''m'' @ nat_dec s @ ''s'') = Inr (h * 3600 + m * 60 + s)"
proof -
  have b: "h < 2 ^ 64" "m < 2 ^ 64" "s < 2 ^ 64" "h * 3600 < 2 ^ 64" "m * 60 < 2 ^ 64" "h * 3600 + m * 60 < 2 ^ 64" using assms by simp_all
  have u: "unit_secs CHR ''h'' = Some 3600" "unit_secs CHR ''m'' = Some 60" "unit_secs CHR ''s'' = Some 1" by (simp_all add: unit_secs_def)
  have "duration_loop t (nat_dec h @ CHR ''h'' # nat_dec m @ CHR ''m'' # nat_dec s @ [CHR ''s'']) 0 [] False = Inr (h * 3600 + m * 60 + s, [], True)" for t
    using assms b by (simp add: duration_component [OF u(1)] duration_component [OF u(2)] duration_component [OF u(3)])
  then show ?thesis by (simp add: parse_duration_def)
qed

theorem duration_sums_witness: "parse_duration (nat_dec 1 @ ''h'' @ nat_dec 30 @ ''m'' @ nat_dec 5 @ ''s'') = Inr 5405"
  using duration_sums [of 1 30 5] by simp

text \<open>Larger ones wrap around, and an interval of zero seconds makes every instant due.\<close>

lemma duration_wraps: "parse_duration (nat_dec 5124095576030432 @ ''h'') = Inr 3584"
  using duration_component [of "CHR ''h''" 3600 5124095576030432 "nat_dec 5124095576030432 @ ''h''" "[]" 0 False]
  by (simp add: parse_duration_def unit_secs_def)

lemma zero_interval_is_always_due: "jl_next (advance (Interval 0) now j) = now"
  by (simp add: advance_def)

end
