(* ===== verification/Sanitize.thy ===== *)
theory Sanitize
  imports Text
begin

text \<open>
  Input handling: the sanitizers of \<^verbatim>\<open>src/src/sanitize\<close>, the validator of \<^verbatim>\<open>src/src/validate\<close> and the substitution of environment
  variables in configuration files (\<^verbatim>\<open>src/src/config\<close>). Strings are UTF-8 bytes; lower-casing beyond ASCII, regular
  expressions, the process environment, files and YAML are parameters.
\<close>

section \<open>Characters\<close>

text \<open>A byte that continues a character, the number of characters, and the encoding of a code point.\<close>

definition continuation :: "char \<Rightarrow> bool" where
  "continuation c \<longleftrightarrow> 0x80 \<le> (of_char c :: nat) \<and> (of_char c :: nat) < 0xC0"

definition char_count :: "string \<Rightarrow> nat" where
  "char_count s = length (List.filter (\<lambda>c. \<not> continuation c) s)"

definition utf8_encode :: "nat \<Rightarrow> string" where
  "utf8_encode n =
     (if n < 0x80 then [char_of n]
      else if n < 0x800 then [char_of (0xC0 + n div 64), char_of (0x80 + n mod 64)]
      else if n < 0x10000 then [char_of (0xE0 + n div 4096), char_of (0x80 + n div 64 mod 64), char_of (0x80 + n mod 64)]
      else [char_of (0xF0 + n div 262144), char_of (0x80 + n div 4096 mod 64), char_of (0x80 + n div 64 mod 64), char_of (0x80 + n mod 64)])"

definition char_from_u32 :: "nat \<Rightarrow> string option" where
  "char_from_u32 n = (if n < 0xD800 \<or> 0xE000 \<le> n \<and> n < 0x110000 then Some (utf8_encode n) else None)"

section \<open>Sanitizers\<close>

definition san_trim :: "string \<Rightarrow> string" where
  "san_trim s = str_trim s"

definition trim_lowercase :: "(string \<Rightarrow> string) \<Rightarrow> string \<Rightarrow> string" where
  "trim_lowercase lower s = lower (str_trim s)"

text \<open>The loops over the characters, with the flag of the last one: a white-space character is skipped as a whole.\<close>

function collapse_loop :: "bool \<Rightarrow> string \<Rightarrow> string" where
  "collapse_loop prev_was_space s =
     (case ws_length ws_chars s of
        Some n \<Rightarrow> (if prev_was_space then [] else '' '') @ collapse_loop True (drop n s)
      | None \<Rightarrow> (case s of [] \<Rightarrow> [] | c # cs \<Rightarrow> c # collapse_loop False cs))"
  by pat_completeness auto
termination by (relation "measure (length \<circ> snd)") (auto dest: ws_length_pos)

declare collapse_loop.simps [simp del]

definition collapse_whitespace :: "string \<Rightarrow> string" where
  "collapse_whitespace s = collapse_loop False s"

fun truncate_chars :: "nat \<Rightarrow> string \<Rightarrow> string" where
  "truncate_chars n [] = []"
| "truncate_chars n (c # cs) =
     (if continuation c then c # truncate_chars n cs
      else case n of 0 \<Rightarrow> [] | Suc m \<Rightarrow> c # truncate_chars m cs)"

definition normalize_email :: "(string \<Rightarrow> string) \<Rightarrow> string \<Rightarrow> string" where
  "normalize_email lower s0 =
     (let s = lower (san_trim s0)
      in case split_once CHR ''@'' s of
           Some (local, domain) \<Rightarrow>
             (case split_once CHR ''+'' local of Some (base, _) \<Rightarrow> base | None \<Rightarrow> local) @ ''@'' @ domain
         | None \<Rightarrow> s)"

section \<open>HTML to text\<close>

datatype html_state = Normal | InsideTag | InsideEntity | InsideScript | InsideStyle

text \<open>\<^verbatim>\<open>split_whitespace().next()\<close>.\<close>

function take_word :: "string \<Rightarrow> string" where
  "take_word s =
     (case ws_length ws_chars s of Some _ \<Rightarrow> [] | None \<Rightarrow> (case s of [] \<Rightarrow> [] | c # cs \<Rightarrow> c # take_word cs))"
  by pat_completeness auto
termination by (relation "measure length") auto

declare take_word.simps [simp del]

definition tag_name :: "string \<Rightarrow> string" where
  "tag_name tag_buf = take_word (skip_ws ws_chars (map to_ascii_lowercase tag_buf))"

definition hex_value :: "char \<Rightarrow> nat option" where
  "hex_value c =
     (let n = of_char c :: nat
      in if 48 \<le> n \<and> n \<le> 57 then Some (n - 48)
         else if 97 \<le> n \<and> n \<le> 102 then Some (n - 87)
         else if 65 \<le> n \<and> n \<le> 70 then Some (n - 55) else None)"

fun hex_number :: "nat \<Rightarrow> string \<Rightarrow> nat option" where
  "hex_number acc [] = Some acc"
| "hex_number acc (c # cs) = Option.bind (hex_value c) (\<lambda>d. hex_number (16 * acc + d) cs)"

text \<open>\<^verbatim>\<open>from_str_radix\<close> and \<^verbatim>\<open>parse::<u32>\<close> on the characters an entity can have.\<close>

definition u32_of :: "(nat \<Rightarrow> string \<Rightarrow> nat option) \<Rightarrow> string \<Rightarrow> nat option" where
  "u32_of read s = (if s = [] then None else Option.bind (read 0 s) (\<lambda>n. if n < 2 ^ 32 then Some n else None))"

definition decode_entity :: "string \<Rightarrow> string option" where
  "decode_entity name =
     (if name = ''amp'' then Some ''&''
      else if name = ''lt'' then Some ''<''
      else if name = ''gt'' then Some ''>''
      else if name = ''quot'' then Some [CHR 0x22]
      else if name = ''#39'' \<or> name = ''apos'' then Some [CHR 0x27]
      else if starts_with ''#x'' name \<or> starts_with ''#X'' name then Option.bind (u32_of hex_number (drop 2 name)) char_from_u32
      else if starts_with ''#'' name then Option.bind (u32_of dec_value (drop 1 name)) char_from_u32
      else None)"

definition matches_closing_tag :: "string \<Rightarrow> string \<Rightarrow> bool" where
  "matches_closing_tag chars tag \<longleftrightarrow> map to_ascii_lowercase (take (length (''</'' @ tag @ ''>'')) chars) = ''</'' @ tag @ ''>''"

function html_loop :: "html_state \<Rightarrow> string \<Rightarrow> string \<Rightarrow> string \<Rightarrow> string \<Rightarrow> string" where
  "html_loop state tag_buf entity_buf output [] = (if state = InsideEntity then output @ ''&'' @ entity_buf else output)"
| "html_loop Normal tag_buf entity_buf output (ch # cs) =
     (if ch = CHR ''<'' then html_loop InsideTag [] entity_buf output cs
      else if ch = CHR ''&'' then html_loop InsideEntity tag_buf [] output cs
      else html_loop Normal tag_buf entity_buf (output @ [ch]) cs)"
| "html_loop InsideTag tag_buf entity_buf output (ch # cs) =
     (if ch = CHR ''>''
      then (if tag_name tag_buf = ''script'' then html_loop InsideScript tag_buf entity_buf output cs
            else if tag_name tag_buf = ''style'' then html_loop InsideStyle tag_buf entity_buf output cs
            else html_loop Normal tag_buf entity_buf (if output \<noteq> [] \<and> last output \<noteq> CHR '' '' then output @ '' '' else output) cs)
      else html_loop InsideTag (tag_buf @ [ch]) entity_buf output cs)"
| "html_loop InsideEntity tag_buf entity_buf output (ch # cs) =
     (if ch = CHR '';''
      then html_loop Normal tag_buf entity_buf
             (output @ (case decode_entity entity_buf of Some decoded \<Rightarrow> decoded | None \<Rightarrow> ''&'' @ entity_buf @ '';'')) cs
      else if is_ascii_alphanumeric ch \<or> ch = CHR ''#'' then html_loop InsideEntity tag_buf (entity_buf @ [ch]) output cs
      else html_loop Normal tag_buf entity_buf (output @ ''&'' @ entity_buf) (ch # cs))"
| "html_loop InsideScript tag_buf entity_buf output (ch # cs) =
     (if ch = CHR ''<'' \<and> matches_closing_tag (ch # cs) ''script''
      then html_loop Normal tag_buf entity_buf output (drop (length ''</script>'' - 1) cs)
      else html_loop InsideScript tag_buf entity_buf output cs)"
| "html_loop InsideStyle tag_buf entity_buf output (ch # cs) =
     (if ch = CHR ''<'' \<and> matches_closing_tag (ch # cs) ''style''
      then html_loop Normal tag_buf entity_buf output (drop (length ''</style>'' - 1) cs)
      else html_loop InsideStyle tag_buf entity_buf output cs)"
  by pat_completeness auto
termination
  by (relation "measure (\<lambda>(st, t, e, out, cs). 2 * length cs + (if st = InsideEntity then 1 else 0))") auto

text \<open>Leading white space is dropped, a trailing space is popped.\<close>

function collapse_trim_loop :: "bool \<Rightarrow> string \<Rightarrow> string \<Rightarrow> string" where
  "collapse_trim_loop prev_space result s =
     (case ws_length ws_chars s of
        Some n \<Rightarrow> collapse_trim_loop True (if \<not> prev_space \<and> result \<noteq> [] then result @ '' '' else result) (drop n s)
      | None \<Rightarrow> (case s of [] \<Rightarrow> result | c # cs \<Rightarrow> collapse_trim_loop False (result @ [c]) cs))"
  by pat_completeness auto
termination by (relation "measure (length \<circ> snd \<circ> snd)") (auto dest: ws_length_pos)

declare collapse_trim_loop.simps [simp del]

definition collapse_and_trim :: "string \<Rightarrow> string" where
  "collapse_and_trim s =
     (let result = collapse_trim_loop False [] s
      in if result \<noteq> [] \<and> last result = CHR '' '' then butlast result else result)"

definition html_to_text :: "string \<Rightarrow> string" where
  "html_to_text input = collapse_and_trim (html_loop Normal [] [] [] input)"

definition strip_html :: "string \<Rightarrow> string" where
  "strip_html s = html_to_text s"

section \<open>Validation\<close>

text \<open>A field validator is the errors recorded so far; each rule looks at the value and may add one.\<close>

definition push_unless :: "bool \<Rightarrow> string \<Rightarrow> string list \<Rightarrow> string list" where
  "push_unless ok message errors = (if ok then errors else errors @ [message])"

definition rule_required :: "string \<Rightarrow> string list \<Rightarrow> string list" where
  "rule_required v = push_unless (str_trim v \<noteq> []) ''is required''"

definition rule_min_length :: "nat \<Rightarrow> string \<Rightarrow> string list \<Rightarrow> string list" where
  "rule_min_length m v = push_unless (m \<le> char_count v) (''must be at least '' @ nat_dec m @ '' characters'')"

definition rule_max_length :: "nat \<Rightarrow> string \<Rightarrow> string list \<Rightarrow> string list" where
  "rule_max_length m v = push_unless (char_count v \<le> m) (''must be at most '' @ nat_dec m @ '' characters'')"

definition email_ok :: "string \<Rightarrow> bool" where
  "email_ok s =
     (case splitn 2 CHR ''@'' s of
        [local, domain] \<Rightarrow>
          local \<noteq> [] \<and> domain \<noteq> [] \<and> CHR ''.'' \<in> set domain \<and> hd domain \<noteq> CHR ''.'' \<and> last domain \<noteq> CHR ''.''
      | _ \<Rightarrow> False)"

definition rule_email :: "string \<Rightarrow> string list \<Rightarrow> string list" where
  "rule_email v = push_unless (email_ok v) ''must be a valid email address''"

definition rule_url :: "string \<Rightarrow> string list \<Rightarrow> string list" where
  "rule_url v = push_unless ((starts_with ''http://'' v \<or> starts_with ''https://'' v) \<and> CHR '' '' \<notin> set v) ''must be a valid URL''"

definition rule_one_of :: "string list \<Rightarrow> string \<Rightarrow> string list \<Rightarrow> string list" where
  "rule_one_of options v = push_unless (v \<in> set options) (''must be one of: '' @ join_with '', '' options)"

text \<open>\<open>regex\<close> compiles a pattern into its matcher.\<close>

definition rule_matches_regex :: "(string \<Rightarrow> (string \<Rightarrow> bool) option) \<Rightarrow> string \<Rightarrow> string \<Rightarrow> string list \<Rightarrow> string list" where
  "rule_matches_regex regex pattern v errors =
     (case regex pattern of
        Some re \<Rightarrow> push_unless (re v) (''must match pattern: '' @ pattern) errors
      | None \<Rightarrow> errors @ [''invalid regex pattern: '' @ pattern])"

definition rule_custom :: "(string \<Rightarrow> bool) \<Rightarrow> string \<Rightarrow> string \<Rightarrow> string list \<Rightarrow> string list" where
  "rule_custom pred message v = push_unless (pred v) message"

definition rule_range :: "('a :: ord \<Rightarrow> string) \<Rightarrow> 'a \<Rightarrow> 'a \<Rightarrow> 'a \<Rightarrow> string list \<Rightarrow> string list" where
  "rule_range display lo hi v = push_unless (\<not> (v < lo \<or> hi < v)) (''must be between '' @ display lo @ '' and '' @ display hi)"

type_synonym validator = "string \<rightharpoonup> string list"

definition validator_empty :: validator where
  "validator_empty = Map.empty"

definition validate_field_with :: "string \<Rightarrow> 'a \<Rightarrow> ('a \<Rightarrow> string list \<Rightarrow> string list) list \<Rightarrow> validator \<Rightarrow> validator" where
  "validate_field_with name value rules v =
     (let field_errors = fold (\<lambda>rule errors. rule value errors) rules []
      in if field_errors \<noteq> [] then v(name \<mapsto> (case v name of Some es \<Rightarrow> es | None \<Rightarrow> []) @ field_errors) else v)"

definition validator_check :: "validator \<Rightarrow> validator + unit" where
  "validator_check v = (if dom v = {} then Inr () else Inl v)"

definition field_errors :: "validator \<Rightarrow> string \<Rightarrow> string list" where
  "field_errors v name = (case v name of Some es \<Rightarrow> es | None \<Rightarrow> [])"

text \<open>\<open>fs\<close>: the map as a list, in the order of its iteration.\<close>

definition error_from_validation :: "(string \<times> string list) list \<Rightarrow> error" where
  "error_from_validation fs =
     with_details (JObject (map (\<lambda>(f, es). (f, JArray (map JString es))) fs)) (unprocessable_entity ''validation failed'')"

section \<open>Environment variables\<close>

function substitute_env_vars :: "(string \<Rightarrow> string option) \<Rightarrow> string \<Rightarrow> string result" where
  "substitute_env_vars env [] = Inr []"
| "substitute_env_vars env (ch # cs) =
     (if ch = CHR ''$'' \<and> cs \<noteq> [] \<and> hd cs = CHR ''{''
      then (case split_once CHR ''}'' (tl cs) of
              None \<Rightarrow> Inl (internal (''unclosed variable expression '' @ [CHR 0x27] @ ''${'' @ tl cs @ [CHR 0x27] @ '' in config''))
            | Some (var_expr, rest) \<Rightarrow>
                (let (var_name, default_val) =
                       (case split_once CHR '':'' var_expr of
                          Some (name, dflt) \<Rightarrow> (str_trim name, Some dflt)
                        | None \<Rightarrow> (str_trim var_expr, None))
                 in bind_res
                      (case env var_name of
                         Some val \<Rightarrow> Inr val
                       | None \<Rightarrow>
                           ok_or (internal (''required environment variable '' @ [CHR 0x27] @ var_name @ [CHR 0x27] @ '' is not set'')) default_val)
                      (\<lambda>val. bind_res (substitute_env_vars env rest) (\<lambda>r. Inr (val @ r)))))
      else bind_res (substitute_env_vars env cs) (\<lambda>r. Inr (ch # r)))"
  by pat_completeness auto
termination
proof (relation "measure (length \<circ> snd)", goal_cases)
  case (2 env ch cs p var_expr rest)
  then have "split_once CHR ''}'' (tl cs) = Some (var_expr, rest)" "cs \<noteq> []" by simp_all
  then have "tl cs = var_expr @ CHR ''}'' # rest" "cs \<noteq> []" by (simp_all add: split_once_Some)
  then show ?case by (cases cs) simp_all
qed auto

definition app_env :: "(string \<Rightarrow> string option) \<Rightarrow> string" where
  "app_env env = (case env ''APP_ENV'' of Some v \<Rightarrow> v | None \<Rightarrow> ''development'')"

definition is_dev :: "(string \<Rightarrow> string option) \<Rightarrow> bool" where
  "is_dev env \<longleftrightarrow> app_env env = ''development''"

definition is_prod :: "(string \<Rightarrow> string option) \<Rightarrow> bool" where
  "is_prod env \<longleftrightarrow> app_env env = ''production''"

definition is_test :: "(string \<Rightarrow> string option) \<Rightarrow> bool" where
  "is_test env \<longleftrightarrow> app_env env = ''test''"

text \<open>\<open>path_join\<close> and \<open>read_file\<close> are the file system's, \<open>yaml\<close> is serde's parser with its error.\<close>

definition config_load ::
  "(string \<Rightarrow> string option) \<Rightarrow> (string \<Rightarrow> string \<Rightarrow> string) \<Rightarrow> (string \<Rightarrow> string + string) \<Rightarrow> (string \<Rightarrow> 'c result) \<Rightarrow> string \<Rightarrow> 'c result" where
  "config_load env path_join read_file yaml config_dir =
     (let file_path = path_join config_dir (app_env env @ ''.yaml'')
      in bind_res (map_err (\<lambda>e. internal (''failed to read config file '' @ [CHR 0x27] @ file_path @ [CHR 0x27] @ '': '' @ e)) (read_file file_path)) (\<lambda>raw.
         bind_res (substitute_env_vars env raw) yaml))"

section \<open>Sanitizers keep their promises\<close>

lemma truncate_chars_prefix: "\<exists>rest. s = truncate_chars n s @ rest \<and> (rest = [] \<or> \<not> continuation (hd rest))"
  by (induction n s rule: truncate_chars.induct) (auto split: nat.splits)

lemma truncate_chars_count: "char_count (truncate_chars n s) = min n (char_count s)"
  by (induction n s rule: truncate_chars.induct) (auto simp: char_count_def split: nat.splits)

text \<open>Truncation counts characters and never cuts one: the result is the beginning of the text up to a character
  boundary, with as many characters as allowed, or all of them.\<close>

theorem truncate_whole_chars:
  "char_count (truncate_chars n s) = min n (char_count s) \<and>
   (\<exists>rest. s = truncate_chars n s @ rest \<and> (rest = [] \<or> \<not> continuation (hd rest)))"
  using truncate_chars_prefix truncate_chars_count by blast

text \<open>Without entities, no \<^verbatim>\<open><\<close> reaches the output.\<close>

lemma html_loop_no_tag:
  assumes "CHR ''&'' \<notin> set cs" "CHR ''<'' \<notin> set out" "state \<noteq> InsideEntity"
  shows "CHR ''<'' \<notin> set (html_loop state tag_buf entity_buf out cs)"
  using assms
proof (induction state tag_buf entity_buf out cs rule: html_loop.induct)
  case (5 t e o ch cs)
  have "CHR ''&'' \<notin> set (drop k cs)" for k using "5.prems"(1) by (auto dest: in_set_dropD)
  then show ?case using 5 by (auto simp del: drop_Cons_numeral drop.simps)
next
  case (6 t e o ch cs)
  have "CHR ''&'' \<notin> set (drop k cs)" for k using "6.prems"(1) by (auto dest: in_set_dropD)
  then show ?case using 6 by (auto simp del: drop_Cons_numeral drop.simps)
qed auto

lemma collapse_trim_set: "c \<in> set (collapse_trim_loop p r s) \<Longrightarrow> c \<in> set r \<or> c = CHR '' '' \<or> c \<in> set s"
proof (induction p r s rule: collapse_trim_loop.induct)
  case (1 p r s)
  show ?case
  proof (cases "ws_length ws_chars s")
    case None
    with "1.prems" have "c \<in> set (case s of [] \<Rightarrow> r | a # cs \<Rightarrow> collapse_trim_loop False (r @ [a]) cs)"
      by (subst (asm) collapse_trim_loop.simps) simp
    then show ?thesis using "1.IH"(1) [OF None] by (cases s) auto
  next
    case (Some n)
    with "1.prems" have "c \<in> set (collapse_trim_loop True (if \<not> p \<and> r \<noteq> [] then r @ '' '' else r) (drop n s))"
      by (subst (asm) collapse_trim_loop.simps) simp
    from "1.IH"(2) [OF Some this] show ?thesis by (auto dest: in_set_dropD split: if_splits)
  qed
qed

text \<open>Stripping HTML removes the tags: for an input without entities, the text has no \<^verbatim>\<open><\<close> at all, unterminated tags and the
  contents of scripts and styles included.\<close>

theorem strip_html_removes_tags:
  assumes "CHR ''&'' \<notin> set s"
  shows "CHR ''<'' \<notin> set (strip_html s)"
proof
  assume "CHR ''<'' \<in> set (strip_html s)"
  then have "CHR ''<'' \<in> set (collapse_trim_loop False [] (html_loop Normal [] [] [] s))"
    by (auto simp: strip_html_def html_to_text_def collapse_and_trim_def Let_def dest: in_set_butlastD split: if_splits)
  from collapse_trim_set [OF this] html_loop_no_tag [of s "[]" Normal "[]" "[]"] assms show False by auto
qed

theorem strip_html_removes_tags_witness: "CHR ''<'' \<notin> set (strip_html ''a<script>alert(1)</script><b>c</b><'')"
  by (rule strip_html_removes_tags) simp

text \<open>Entities are decoded after the tags are gone, so an escaped tag comes out as a tag.\<close>

lemma strip_html_makes_tags: "strip_html ''&lt;script&gt;'' = ''<script>''"
  by code_simp

section \<open>Validation\<close>

text \<open>An accepted email address has a local part, and a domain with an inner dot; the check looks at the first \<^verbatim>\<open>@\<close> only.\<close>

theorem email_rule:
  "rule_email v errors = errors \<longleftrightarrow>
     (\<exists>local domain. v = local @ ''@'' @ domain \<and> CHR ''@'' \<notin> set local \<and> local \<noteq> [] \<and>
        CHR ''.'' \<in> set domain \<and> hd domain \<noteq> CHR ''.'' \<and> last domain \<noteq> CHR ''.'')"
proof -
  have "email_ok v \<longleftrightarrow> (\<exists>local domain. v = local @ CHR ''@'' # domain \<and> CHR ''@'' \<notin> set local \<and> local \<noteq> [] \<and>
        CHR ''.'' \<in> set domain \<and> hd domain \<noteq> CHR ''.'' \<and> last domain \<noteq> CHR ''.'')"
  proof (cases "split_once CHR ''@'' v")
    case None
    then show ?thesis using split_once_None [of "CHR ''@''" v] by (auto simp: email_ok_def numeral_2_eq_2)
  next
    case (Some p)
    obtain l d where p: "p = (l, d)" by (cases p)
    with Some have v: "v = l @ CHR ''@'' # d" "CHR ''@'' \<notin> set l" by (auto simp: split_once_Some)
    have "email_ok v \<longleftrightarrow> l \<noteq> [] \<and> d \<noteq> [] \<and> CHR ''.'' \<in> set d \<and> hd d \<noteq> CHR ''.'' \<and> last d \<noteq> CHR ''.''"
      using Some p by (simp add: email_ok_def numeral_2_eq_2)
    moreover have "l' = l \<and> d' = d" if "v = l' @ CHR ''@'' # d'" "CHR ''@'' \<notin> set l'" for l' d'
      using that Some p split_once_Some [of "CHR ''@''" v l' d'] by auto
    moreover have "d \<noteq> []" if "CHR ''.'' \<in> set d" using that by auto
    ultimately show ?thesis using v by metis
  qed
  moreover have "rule_email v errors = errors \<longleftrightarrow> email_ok v" by (simp add: rule_email_def push_unless_def)
  ultimately show ?thesis by simp
qed

lemma two_ats_accepted: "rule_email ''a@b@c.d'' [] = []"
  by code_simp

section \<open>Substitution\<close>

text \<open>A configuration text as a sequence of texts and variables with their defaults.\<close>

datatype config_segment = CText string | CVar string "string option"

fun write_config :: "config_segment \<Rightarrow> string" where
  "write_config (CText s) = s"
| "write_config (CVar name dflt) = ''${'' @ name @ (case dflt of Some d \<Rightarrow> '':'' @ d | None \<Rightarrow> []) @ ''}''"

fun fill_config :: "(string \<Rightarrow> string option) \<Rightarrow> config_segment \<Rightarrow> string result" where
  "fill_config env (CText s) = Inr s"
| "fill_config env (CVar name dflt) =
     (case env name of
        Some v \<Rightarrow> Inr v
      | None \<Rightarrow> ok_or (internal (''required environment variable '' @ [CHR 0x27] @ name @ [CHR 0x27] @ '' is not set'')) dflt)"

fun plain_config :: "config_segment \<Rightarrow> bool" where
  "plain_config (CText s) \<longleftrightarrow> CHR ''$'' \<notin> set s"
| "plain_config (CVar name dflt) \<longleftrightarrow>
     CHR ''}'' \<notin> set name \<and> CHR '':'' \<notin> set name \<and> str_trim name = name \<and> (case dflt of Some d \<Rightarrow> CHR ''}'' \<notin> set d | None \<Rightarrow> True)"

lemma substitute_text:
  "CHR ''$'' \<notin> set s \<Longrightarrow> substitute_env_vars env (s @ t) = bind_res (substitute_env_vars env t) (\<lambda>r. Inr (s @ r))"
proof (induction s)
  case Nil
  then show ?case by (cases "substitute_env_vars env t") simp_all
next
  case (Cons c s)
  then show ?case by (cases "substitute_env_vars env t") auto
qed

lemma substitute_var:
  assumes "plain_config (CVar name dflt)"
  shows "substitute_env_vars env (write_config (CVar name dflt) @ t) =
     bind_res (fill_config env (CVar name dflt)) (\<lambda>v. bind_res (substitute_env_vars env t) (\<lambda>r. Inr (v @ r)))"
proof (cases dflt)
  case None
  then show ?thesis using assms split_once_None [of "CHR '':''" name] by (simp add: Let_def)
next
  case (Some d)
  have "split_once CHR ''}'' (name @ CHR '':'' # d @ CHR ''}'' # t) = Some (name @ CHR '':'' # d, t)"
    using assms Some by (simp add: split_once_Some)
  then show ?thesis using assms Some by (simp add: Let_def)
qed



end
