(* ===== verification/Oauth.thy ===== *)
theory Oauth
  imports Cookie_Session Text
begin

text \<open>
  OAuth 2.0 logins (\<^verbatim>\<open>src/src/auth/oauth\<close>): the signed cookie that carries the state nonce and the PKCE verifier over the
  redirect, the authorization requests of the two providers and the exchange of the callback's code for a profile.
  Signing cookies is the \<open>cookie_env\<close> of the sessions; parsing a cookie pair, the texts of JSON values, percent encoding, and the
  answers of the provider with their serde decoding are parameters, as are the random bytes.
\<close>

section \<open>Configuration and data\<close>

record oauth_provider_config =
  pc_client_id :: string
  pc_client_secret :: string
  pc_redirect_uri :: string
  pc_scopes :: "string list"

definition provider_config_new :: "string \<Rightarrow> string \<Rightarrow> string \<Rightarrow> oauth_provider_config" where
  "provider_config_new client_id client_secret redirect_uri =
     \<lparr>pc_client_id = client_id, pc_client_secret = client_secret, pc_redirect_uri = redirect_uri, pc_scopes = []\<rparr>"

record callback_params =
  cp_code :: string
  cp_state :: string

record user_profile =
  up_provider :: string
  up_provider_user_id :: string
  up_email :: string
  up_email_verified :: bool
  up_name :: "string option"
  up_avatar_url :: "string option"
  up_raw :: json

definition user_profile_new :: "string \<Rightarrow> string \<Rightarrow> string \<Rightarrow> user_profile" where
  "user_profile_new provider provider_user_id email =
     \<lparr>up_provider = provider, up_provider_user_id = provider_user_id, up_email = email, up_email_verified = False,
      up_name = None, up_avatar_url = None, up_raw = JNull\<rparr>"

record oauth_state =
  os_state_nonce :: string
  os_pkce_verifier :: string
  os_provider :: string

record authorization_request =
  ar_redirect_url :: string
  ar_set_cookie_header :: string

record github_email =
  ge_email :: string
  ge_primary :: bool
  ge_verified :: bool

text \<open>An answer of the provider: its status, and its body or the error of reading it.\<close>

record oauth_reply =
  or_status :: nat
  or_body :: "string + string"

record oauth_env =
  oe_cookies :: cookie_env
  oe_cookie_parse :: "string \<Rightarrow> (string \<times> string) option"
  oe_print :: "json \<Rightarrow> string"
  oe_parse :: "string \<Rightarrow> string + json"
  oe_urlencode :: "string \<Rightarrow> string"
  oe_status_text :: "nat \<Rightarrow> string"
  oe_token :: "string \<Rightarrow> string + string"
  oe_emails :: "string \<Rightarrow> string + github_email list"

text \<open>The HTTP client: a form posted to a URL, and a URL read with a bearer token, on the state of the world.\<close>

record 'w oauth_http =
  oh_post :: "string \<Rightarrow> (string \<times> string) list \<Rightarrow> 'w \<Rightarrow> (string + oauth_reply) \<times> 'w"
  oh_get :: "string \<Rightarrow> string \<Rightarrow> 'w \<Rightarrow> (string + oauth_reply) \<times> 'w"

section \<open>The state cookie\<close>

definition OAUTH_COOKIE_NAME :: string where
  "OAUTH_COOKIE_NAME = ''_oauth_state''"

definition OAUTH_COOKIE_MAX_AGE_SECS :: int where
  "OAUTH_COOKIE_MAX_AGE_SECS = 300"

text \<open>The jar keeps one cookie per name, the last one of the header.\<close>

definition cookie_jar :: "oauth_env \<Rightarrow> string \<Rightarrow> (string \<rightharpoonup> string)" where
  "cookie_jar env cookie_header =
     foldl (\<lambda>jar part. case oe_cookie_parse env (trim part) of Some (n, v) \<Rightarrow> jar(n \<mapsto> v) | None \<Rightarrow> jar)
       Map.empty (split_on CHR '';'' cookie_header)"

definition payload_str :: "json \<Rightarrow> string \<Rightarrow> string option" where
  "payload_str payload field = Option.bind (json_get payload field) json_as_str"

definition from_signed_cookie :: "oauth_env \<Rightarrow> string \<Rightarrow> string \<Rightarrow> oauth_state result" where
  "from_signed_cookie env cookie_header key =
     bind_res (ok_or (bad_request ''invalid or missing OAuth state cookie'')
                (Option.bind (cookie_jar env cookie_header OAUTH_COOKIE_NAME) (cke_verify (oe_cookies env) key OAUTH_COOKIE_NAME))) (\<lambda>verified.
     bind_res (map_err (\<lambda>e. bad_request (''invalid OAuth state: '' @ e)) (oe_parse env verified)) (\<lambda>payload.
     bind_res (ok_or (bad_request ''missing state nonce'') (payload_str payload ''state'')) (\<lambda>state_nonce.
     bind_res (ok_or (bad_request ''missing PKCE verifier'') (payload_str payload ''pkce_verifier'')) (\<lambda>pkce_verifier.
     bind_res (ok_or (bad_request ''missing provider'') (payload_str payload ''provider'')) (\<lambda>provider.
       Inr \<lparr>os_state_nonce = state_nonce, os_pkce_verifier = pkce_verifier, os_provider = provider\<rparr>)))))"

definition oauth_state_from_parts :: "oauth_env \<Rightarrow> string option \<Rightarrow> parts \<Rightarrow> oauth_state result" where
  "oauth_state_from_parts env registered_key parts =
     bind_res (ok_or (internal ''Key not registered in service registry'') registered_key) (\<lambda>key.
     bind_res (ok_or (bad_request ''missing OAuth state cookie'') (header_str parts ''cookie'')) (\<lambda>cookie_header.
       from_signed_cookie env cookie_header key))"

definition generate_random_string :: "u8 list \<Rightarrow> string" where
  "generate_random_string bytes = base64url_encode bytes"

definition oauth_payload :: "string \<Rightarrow> string \<Rightarrow> string \<Rightarrow> json" where
  "oauth_payload state_nonce pkce_verifier provider =
     JObject [(''state'', JString state_nonce), (''pkce_verifier'', JString pkce_verifier), (''provider'', JString provider)]"

text \<open>\<open>r32\<close> and \<open>r64\<close> are the random bytes.\<close>

definition build_oauth_cookie ::
  "oauth_env \<Rightarrow> u8 list \<Rightarrow> u8 list \<Rightarrow> string \<Rightarrow> string \<Rightarrow> cookie_config \<Rightarrow> string \<times> string \<times> string" where
  "build_oauth_cookie env r32 r64 provider key config =
     (let state_nonce = generate_random_string r32;
          pkce_verifier = generate_random_string r64;
          payload = oauth_payload state_nonce pkce_verifier provider;
          set_cookie_header = cke_render (oe_cookies env)
            \<lparr>sc_name = OAUTH_COOKIE_NAME, sc_value = cke_sign (oe_cookies env) key OAUTH_COOKIE_NAME (oe_print env payload),
             sc_path = ''/'', sc_secure = cc_secure config, sc_http_only = cc_http_only config,
             sc_same_site = same_site_of (cc_same_site config), sc_max_age = OAUTH_COOKIE_MAX_AGE_SECS\<rparr>
      in (set_cookie_header, state_nonce, pkce_verifier))"

definition pkce_challenge :: "oauth_env \<Rightarrow> string \<Rightarrow> string" where
  "pkce_challenge env verifier = base64url_encode (cke_digest (oe_cookies env) (as_bytes verifier))"

text \<open>The response: the status, the location and the \<^verbatim>\<open>Set-Cookie\<close> header.\<close>

definition authorization_response :: "authorization_request \<Rightarrow> nat \<times> string \<times> string option" where
  "authorization_response r =
     (303, ar_redirect_url r,
      if list_all header_value_byte (ar_set_cookie_header r) then Some (ar_set_cookie_header r) else None)"

section \<open>Requests to the provider\<close>

definition io_bind :: "('w \<Rightarrow> 'a result \<times> 'w) \<Rightarrow> ('a \<Rightarrow> 'w \<Rightarrow> 'b result \<times> 'w) \<Rightarrow> 'w \<Rightarrow> 'b result \<times> 'w" where
  "io_bind m f w = (case m w of (Inl e, w') \<Rightarrow> (Inl e, w') | (Inr x, w') \<Rightarrow> f x w')"

definition io_lift :: "'a result \<Rightarrow> 'w \<Rightarrow> 'a result \<times> 'w" where
  "io_lift r w = (r, w)"

definition body_or_default :: "oauth_reply \<Rightarrow> string" where
  "body_or_default resp = (case or_body resp of Inr b \<Rightarrow> b | Inl _ \<Rightarrow> [])"

definition reply_json :: "(string \<Rightarrow> string + 'a) \<Rightarrow> string \<Rightarrow> oauth_reply \<Rightarrow> 'a result" where
  "reply_json decode message resp =
     map_err (\<lambda>e. chain (SrcOther e) (internal message)) (case or_body resp of Inr b \<Rightarrow> decode b | Inl e \<Rightarrow> Inl e)"

definition post_form ::
  "oauth_env \<Rightarrow> (string \<Rightarrow> string + 'a) \<Rightarrow> 'w oauth_http \<Rightarrow> string \<Rightarrow> (string \<times> string) list \<Rightarrow> 'w \<Rightarrow> 'a result \<times> 'w" where
  "post_form env decode client url params w =
     (case oh_post client url params w of
        (Inl e, w') \<Rightarrow> (Inl (chain (SrcOther e) (internal ''OAuth token exchange failed'')), w')
      | (Inr resp, w') \<Rightarrow>
          (if \<not> (200 \<le> or_status resp \<and> or_status resp < 300)
           then Inl (internal (''OAuth token exchange failed ('' @ oe_status_text env (or_status resp) @ ''): '' @ body_or_default resp))
           else reply_json decode ''failed to parse OAuth token response'' resp, w'))"

definition get_json ::
  "oauth_env \<Rightarrow> (string \<Rightarrow> string + 'a) \<Rightarrow> 'w oauth_http \<Rightarrow> string \<Rightarrow> string \<Rightarrow> 'w \<Rightarrow> 'a result \<times> 'w" where
  "get_json env decode client url token w =
     (case oh_get client url token w of
        (Inl e, w') \<Rightarrow> (Inl (chain (SrcOther e) (internal ''OAuth API request failed'')), w')
      | (Inr resp, w') \<Rightarrow>
          (if \<not> (200 \<le> or_status resp \<and> or_status resp < 300)
           then Inl (internal (''OAuth API request failed ('' @ oe_status_text env (or_status resp) @ ''): '' @ body_or_default resp))
           else reply_json decode ''failed to parse OAuth API response'' resp, w'))"

section \<open>The providers\<close>

record oauth_client =
  oc_config :: oauth_provider_config
  oc_cookie_config :: cookie_config
  oc_key :: string

definition scopes_of :: "string list \<Rightarrow> oauth_provider_config \<Rightarrow> string" where
  "scopes_of default_scopes config =
     (if pc_scopes config = [] then join_with '' '' default_scopes else join_with '' '' (pc_scopes config))"

definition google_scopes :: "oauth_client \<Rightarrow> string" where
  "google_scopes p = scopes_of [''openid'', ''email'', ''profile''] (oc_config p)"

definition github_scopes :: "oauth_client \<Rightarrow> string" where
  "github_scopes p = scopes_of [''user:email'', ''read:user''] (oc_config p)"

definition authorize_query :: "oauth_env \<Rightarrow> oauth_provider_config \<Rightarrow> string \<Rightarrow> string \<Rightarrow> string \<Rightarrow> string" where
  "authorize_query env config scopes state_nonce challenge =
     ''?response_type=code&client_id='' @ oe_urlencode env (pc_client_id config) @
     ''&redirect_uri='' @ oe_urlencode env (pc_redirect_uri config) @
     ''&scope='' @ oe_urlencode env scopes @
     ''&state='' @ oe_urlencode env state_nonce @
     ''&code_challenge='' @ oe_urlencode env challenge @
     ''&code_challenge_method=S256''"

definition google_authorize_url :: "oauth_env \<Rightarrow> u8 list \<Rightarrow> u8 list \<Rightarrow> oauth_client \<Rightarrow> authorization_request result" where
  "google_authorize_url env r32 r64 p =
     (let (set_cookie_header, state_nonce, pkce_verifier) = build_oauth_cookie env r32 r64 ''google'' (oc_key p) (oc_cookie_config p);
          challenge = pkce_challenge env pkce_verifier
      in Inr \<lparr>ar_redirect_url = ''https://accounts.google.com/o/oauth2/v2/auth'' @
                authorize_query env (oc_config p) (google_scopes p) state_nonce challenge,
              ar_set_cookie_header = set_cookie_header\<rparr>)"

definition github_authorize_url :: "oauth_env \<Rightarrow> u8 list \<Rightarrow> u8 list \<Rightarrow> oauth_client \<Rightarrow> authorization_request result" where
  "github_authorize_url env r32 r64 p =
     (let (set_cookie_header, state_nonce, pkce_verifier) = build_oauth_cookie env r32 r64 ''github'' (oc_key p) (oc_cookie_config p);
          challenge = pkce_challenge env pkce_verifier
      in Inr \<lparr>ar_redirect_url = ''https://github.com/login/oauth/authorize'' @
                authorize_query env (oc_config p) (github_scopes p) state_nonce challenge,
              ar_set_cookie_header = set_cookie_header\<rparr>)"

fun json_as_bool :: "json \<Rightarrow> bool option" where
  "json_as_bool (JBool b) = Some b"
| "json_as_bool _ = None"

definition check_state :: "string \<Rightarrow> callback_params \<Rightarrow> oauth_state \<Rightarrow> unit result" where
  "check_state provider params state =
     (if os_provider state \<noteq> provider then Inl (bad_request ''OAuth state provider mismatch'')
      else if cp_state params \<noteq> os_state_nonce state then Inl (bad_request ''OAuth state nonce mismatch'')
      else Inr ())"

definition google_profile :: "json \<Rightarrow> user_profile result" where
  "google_profile raw =
     bind_res (ok_or (internal ''google: missing user id'') (payload_str raw ''id'')) (\<lambda>provider_user_id.
     bind_res (ok_or (internal ''google: missing email'') (payload_str raw ''email'')) (\<lambda>email.
       Inr \<lparr>up_provider = ''google'', up_provider_user_id = provider_user_id, up_email = email,
            up_email_verified = (case Option.bind (json_get raw ''verified_email'') json_as_bool of Some b \<Rightarrow> b | None \<Rightarrow> False),
            up_name = payload_str raw ''name'', up_avatar_url = payload_str raw ''picture'', up_raw = raw\<rparr>))"

definition google_token_form :: "oauth_client \<Rightarrow> callback_params \<Rightarrow> oauth_state \<Rightarrow> (string \<times> string) list" where
  "google_token_form p params state =
     [(''grant_type'', ''authorization_code''), (''code'', cp_code params), (''redirect_uri'', pc_redirect_uri (oc_config p)),
      (''client_id'', pc_client_id (oc_config p)), (''client_secret'', pc_client_secret (oc_config p)),
      (''code_verifier'', os_pkce_verifier state)]"

definition google_exchange ::
  "oauth_env \<Rightarrow> 'w oauth_http \<Rightarrow> oauth_client \<Rightarrow> callback_params \<Rightarrow> oauth_state \<Rightarrow> 'w \<Rightarrow> user_profile result \<times> 'w" where
  "google_exchange env client p params state =
     io_bind (io_lift (check_state ''google'' params state)) (\<lambda>_.
     io_bind (post_form env (oe_token env) client ''https://oauth2.googleapis.com/token'' (google_token_form p params state)) (\<lambda>access_token.
     io_bind (get_json env (oe_parse env) client ''https://www.googleapis.com/oauth2/v2/userinfo'' access_token) (\<lambda>raw.
       io_lift (google_profile raw))))"

definition github_user_id :: "json \<Rightarrow> string result" where
  "github_user_id raw =
     ok_or (internal ''github: missing user id'')
       (case Option.bind (json_get raw ''id'') json_as_u64 of
          Some n \<Rightarrow> Some (nat_dec n)
        | None \<Rightarrow> payload_str raw ''id'')"

definition github_token_form :: "oauth_client \<Rightarrow> callback_params \<Rightarrow> oauth_state \<Rightarrow> (string \<times> string) list" where
  "github_token_form p params state =
     [(''client_id'', pc_client_id (oc_config p)), (''client_secret'', pc_client_secret (oc_config p)), (''code'', cp_code params),
      (''redirect_uri'', pc_redirect_uri (oc_config p)), (''code_verifier'', os_pkce_verifier state)]"

definition github_exchange ::
  "oauth_env \<Rightarrow> 'w oauth_http \<Rightarrow> oauth_client \<Rightarrow> callback_params \<Rightarrow> oauth_state \<Rightarrow> 'w \<Rightarrow> user_profile result \<times> 'w" where
  "github_exchange env client p params state =
     io_bind (io_lift (check_state ''github'' params state)) (\<lambda>_.
     io_bind (post_form env (oe_token env) client ''https://github.com/login/oauth/access_token'' (github_token_form p params state)) (\<lambda>access_token.
     io_bind (get_json env (oe_parse env) client ''https://api.github.com/user'' access_token) (\<lambda>raw.
     io_bind (io_lift (github_user_id raw)) (\<lambda>provider_user_id.
     io_bind (get_json env (oe_emails env) client ''https://api.github.com/user/emails'' access_token) (\<lambda>emails.
     io_bind (io_lift (ok_or (internal ''github: no primary email'') (find ge_primary emails))) (\<lambda>primary.
       io_lift (Inr \<lparr>up_provider = ''github'', up_provider_user_id = provider_user_id, up_email = ge_email primary,
                     up_email_verified = ge_verified primary, up_name = payload_str raw ''name'',
                     up_avatar_url = payload_str raw ''avatar_url'', up_raw = raw\<rparr>)))))))"

section \<open>What a provider promises\<close>

lemma io_bind_Inr:
  "io_bind m f w = (Inr y, w') \<longleftrightarrow> (\<exists>x w1. m w = (Inr x, w1) \<and> f x w1 = (Inr y, w'))"
  by (auto simp: io_bind_def split: prod.splits sum.splits)

lemma io_lift_Inr: "io_lift r w = (Inr x, w') \<longleftrightarrow> r = Inr x \<and> w' = w"
  by (auto simp: io_lift_def)

lemma check_state_Inr: "check_state provider params st = Inr u \<longleftrightarrow> os_provider st = provider \<and> cp_state params = os_state_nonce st"
  by (auto simp: check_state_def)

lemma check_state_refuses:
  assumes "os_provider st \<noteq> provider \<or> cp_state params \<noteq> os_state_nonce st"
  shows "\<exists>e. io_bind (io_lift (check_state provider params st)) f w = (Inl e, w) \<and> err_status e = 400"
  using assms by (auto simp: io_bind_def io_lift_def check_state_def bad_request_def error_new_def)

text \<open>The trait: a callback that does not fit its cookie is refused before anything is sent, and a profile comes from the provider, for
  the code of the callback and the verifier of the cookie.\<close>

locale oauth_provider =
  fixes env :: oauth_env and http :: "'w oauth_http" and pname token_url :: string
    and form :: "callback_params \<Rightarrow> oauth_state \<Rightarrow> (string \<times> string) list"
    and exchange :: "callback_params \<Rightarrow> oauth_state \<Rightarrow> 'w \<Rightarrow> user_profile result \<times> 'w"
  assumes refuses: "os_provider st \<noteq> pname \<or> cp_state params \<noteq> os_state_nonce st \<Longrightarrow>
      \<exists>e. exchange params st w = (Inl e, w) \<and> err_status e = 400"
    and identifies: "exchange params st w = (Inr profile, w') \<Longrightarrow>
      up_provider profile = pname \<and> (\<exists>token w1. post_form env (oe_token env) http token_url (form params st) w = (Inr token, w1))"
    and proves_code: "(''code'', cp_code params) \<in> set (form params st) \<and> (''code_verifier'', os_pkce_verifier st) \<in> set (form params st)"
begin

lemma exchanged:
  assumes "exchange params st w = (Inr profile, w')"
  shows "os_provider st = pname \<and> cp_state params = os_state_nonce st \<and> up_provider profile = pname \<and>
     (\<exists>fields token w1. post_form env (oe_token env) http token_url fields w = (Inr token, w1) \<and>
        (''code'', cp_code params) \<in> set fields \<and> (''code_verifier'', os_pkce_verifier st) \<in> set fields)"
  using refuses [of st params w] identifies [OF assms] proves_code [of params st] assms by auto

end

interpretation google: oauth_provider env http "''google''" "''https://oauth2.googleapis.com/token''" "google_token_form p" "google_exchange env http p"
  for env :: oauth_env and http :: "'w oauth_http" and p :: oauth_client
proof unfold_locales
  show "\<exists>e. google_exchange env http p params st w = (Inl e, w) \<and> err_status e = 400"
    if "os_provider st \<noteq> ''google'' \<or> cp_state params \<noteq> os_state_nonce st" for st params w
    unfolding google_exchange_def by (rule check_state_refuses [OF that])
  show "up_provider profile = ''google'' \<and> (\<exists>token w1. post_form env (oe_token env) http ''https://oauth2.googleapis.com/token'' (google_token_form p params st) w = (Inr token, w1))"
    if "google_exchange env http p params st w = (Inr profile, w')" for params st w profile w'
    using that by (auto simp: google_exchange_def io_bind_Inr io_lift_Inr google_profile_def result_simps)
qed (simp add: google_token_form_def)

interpretation github: oauth_provider env http "''github''" "''https://github.com/login/oauth/access_token''" "github_token_form p" "github_exchange env http p"
  for env :: oauth_env and http :: "'w oauth_http" and p :: oauth_client
proof unfold_locales
  show "\<exists>e. github_exchange env http p params st w = (Inl e, w) \<and> err_status e = 400"
    if "os_provider st \<noteq> ''github'' \<or> cp_state params \<noteq> os_state_nonce st" for st params w
    unfolding github_exchange_def by (rule check_state_refuses [OF that])
  show "up_provider profile = ''github'' \<and> (\<exists>token w1. post_form env (oe_token env) http ''https://github.com/login/oauth/access_token'' (github_token_form p params st) w = (Inr token, w1))"
    if "github_exchange env http p params st w = (Inr profile, w')" for params st w profile w'
    using that by (auto simp: github_exchange_def io_bind_Inr io_lift_Inr)
qed (simp add: github_token_form_def)

section \<open>The login is tied to the browser that started it\<close>

text \<open>\<open>issued\<close>: the random bytes and providers of the authorization requests made so far. The cookie crate accepts only what was signed.\<close>

definition issued_payload :: "(u8 list \<times> u8 list \<times> string) \<Rightarrow> json" where
  "issued_payload i = (case i of (r32, r64, provider) \<Rightarrow> oauth_payload (generate_random_string r32) (generate_random_string r64) provider)"

definition cookies_issued :: "oauth_env \<Rightarrow> string \<Rightarrow> (u8 list \<times> u8 list \<times> string) set \<Rightarrow> bool" where
  "cookies_issued env key issued \<longleftrightarrow>
     (\<forall>v x. cke_verify (oe_cookies env) key OAUTH_COOKIE_NAME v = Some x \<longrightarrow> (\<exists>i \<in> issued. x = oe_print env (issued_payload i))) \<and>
     (\<forall>i \<in> issued. oe_parse env (oe_print env (issued_payload i)) = Inr (issued_payload i))"

lemma payload_fields:
  "payload_str (oauth_payload n v p) ''state'' = Some n"
  "payload_str (oauth_payload n v p) ''pkce_verifier'' = Some v"
  "payload_str (oauth_payload n v p) ''provider'' = Some p"
  by (simp_all add: payload_str_def oauth_payload_def)

lemma state_is_issued:
  assumes "cookies_issued env key issued" "oauth_state_from_parts env (Some key) parts = Inr st"
  shows "\<exists>r32 r64. (r32, r64, os_provider st) \<in> issued \<and> os_state_nonce st = generate_random_string r32 \<and>
     os_pkce_verifier st = generate_random_string r64"
proof -
  from assms(2) obtain h v x payload where v: "cke_verify (oe_cookies env) key OAUTH_COOKIE_NAME v = Some x"
    and pl: "oe_parse env x = Inr payload"
    and st: "payload_str payload ''state'' = Some (os_state_nonce st)" "payload_str payload ''pkce_verifier'' = Some (os_pkce_verifier st)"
      "payload_str payload ''provider'' = Some (os_provider st)"
    by (auto simp: oauth_state_from_parts_def from_signed_cookie_def result_simps bind_eq_Some_conv)
  from v assms(1) obtain i where i: "i \<in> issued" "x = oe_print env (issued_payload i)" "oe_parse env x = Inr (issued_payload i)"
    unfolding cookies_issued_def by blast
  obtain r32 r64 q where q: "i = (r32, r64, q)" by (cases i)
  have "payload = oauth_payload (generate_random_string r32) (generate_random_string r64) q"
    using pl i q by (simp add: issued_payload_def)
  then have "os_state_nonce st = generate_random_string r32" "os_pkce_verifier st = generate_random_string r64" "os_provider st = q"
    using st by (simp_all add: payload_fields)
  then show ?thesis using i(1) q by blast
qed

text \<open>A login is tied to the browser that started it: a profile is returned only to a request with the signed cookie of an
  authorization request for the same provider; the callback carries that request's nonce, and the code was redeemed with
  that request's verifier.\<close>

theorem oauth_login_authentic:
  assumes "cookies_issued env key issued" "oauth_state_from_parts env (Some key) parts = Inr st"
    "google_exchange env http p params st w = (Inr profile, w') \<or> github_exchange env http p params st w = (Inr profile, w')"
  shows "\<exists>r32 r64 fields url token w1. (r32, r64, up_provider profile) \<in> issued \<and>
     cp_state params = generate_random_string r32 \<and>
     post_form env (oe_token env) http url fields w = (Inr token, w1) \<and>
     (''code'', cp_code params) \<in> set fields \<and> (''code_verifier'', generate_random_string r64) \<in> set fields"
proof -
  obtain r32 r64 where r: "(r32, r64, os_provider st) \<in> issued" "os_state_nonce st = generate_random_string r32"
    "os_pkce_verifier st = generate_random_string r64" using state_is_issued [OF assms(1,2)] by blast
  obtain url fields token w1 where "os_provider st = up_provider profile" "cp_state params = os_state_nonce st"
    "post_form env (oe_token env) http url fields w = (Inr token, w1)"
    "(''code'', cp_code params) \<in> set fields" "(''code_verifier'', os_pkce_verifier st) \<in> set fields"
    using assms(3) google.exchanged github.exchanged by metis
  then show ?thesis using r by metis
qed

definition demo_oauth_env :: oauth_env where
  "demo_oauth_env =
     \<lparr>oe_cookies = \<lparr>cke_digest = id, cke_sign = (\<lambda>_ _ _. ''V''), cke_verify = (\<lambda>_ _ v. if v = ''V'' then Some ''J'' else None), cke_render = (\<lambda>_. [])\<rparr>,
      oe_cookie_parse = (\<lambda>s. Some (take 12 s, drop 13 s)), oe_print = (\<lambda>_. ''J''),
      oe_parse = (\<lambda>s. if s = ''J'' then Inr (issued_payload ([1], [2], ''google'')) else Inr (JObject [(''id'', JString ''7''), (''email'', JString ''a@b.c'')])),
      oe_urlencode = id, oe_status_text = (\<lambda>_. []), oe_token = Inr, oe_emails = (\<lambda>_. Inr [])\<rparr>"

definition demo_oauth_http :: "unit oauth_http" where
  "demo_oauth_http =
     \<lparr>oh_post = (\<lambda>_ _ w. (Inr \<lparr>or_status = 200, or_body = Inr ''t''\<rparr>, w)), oh_get = (\<lambda>_ _ w. (Inr \<lparr>or_status = 200, or_body = Inr ''u''\<rparr>, w))\<rparr>"

definition demo_oauth_client :: oauth_client where
  "demo_oauth_client = \<lparr>oc_config = provider_config_new ''id'' ''secret'' ''uri'',
     oc_cookie_config = \<lparr>cc_secret = [], cc_secure = True, cc_http_only = True, cc_same_site = ''lax''\<rparr>, oc_key = ''k''\<rparr>"

definition demo_callback :: callback_params where
  "demo_callback = \<lparr>cp_code = ''c'', cp_state = generate_random_string [1]\<rparr>"

definition demo_oauth_state :: oauth_state where
  "demo_oauth_state = \<lparr>os_state_nonce = generate_random_string [1], os_pkce_verifier = generate_random_string [2], os_provider = ''google''\<rparr>"

definition demo_profile :: user_profile where
  "demo_profile =
     \<lparr>up_provider = ''google'', up_provider_user_id = ''7'', up_email = ''a@b.c'', up_email_verified = False, up_name = None, up_avatar_url = None,
      up_raw = JObject [(''id'', JString ''7''), (''email'', JString ''a@b.c'')]\<rparr>"

theorem oauth_login_authentic_witness:
  "\<exists>r32 r64 fields url token w1. (r32, r64, ''google'') \<in> {([1], [2], ''google'')} \<and> cp_state demo_callback = generate_random_string r32 \<and>
     post_form demo_oauth_env (oe_token demo_oauth_env) demo_oauth_http url fields () = (Inr token, w1) \<and>
     (''code'', cp_code demo_callback) \<in> set fields \<and> (''code_verifier'', generate_random_string r64) \<in> set fields"
proof -
  have "cookies_issued demo_oauth_env ''k'' {([1], [2], ''google'')}"
    by (auto simp: cookies_issued_def demo_oauth_env_def split: if_splits)
  moreover have "oauth_state_from_parts demo_oauth_env (Some ''k'') \<lparr>p_headers = [(''cookie'', ''_oauth_state=V'')], p_query = None\<rparr> = Inr demo_oauth_state"
    by code_simp
  moreover have "google_exchange demo_oauth_env demo_oauth_http demo_oauth_client demo_callback demo_oauth_state () = (Inr demo_profile, ())"
    by code_simp
  moreover have "up_provider demo_profile = ''google''" by (simp add: demo_profile_def)
  ultimately show ?thesis using oauth_login_authentic by (metis (no_types, lifting))
qed

text \<open>The cookie crate gives back what it signed, and serde the value it printed.\<close>

definition cookie_carries :: "oauth_env \<Rightarrow> string \<Rightarrow> json \<Rightarrow> bool" where
  "cookie_carries env key payload \<longleftrightarrow>
     (let x = oe_print env payload; v = cke_sign (oe_cookies env) key OAUTH_COOKIE_NAME x
      in cke_verify (oe_cookies env) key OAUTH_COOKIE_NAME v = Some x \<and> oe_parse env x = Inr payload \<and> cookie_text v \<and>
         oe_cookie_parse env (OAUTH_COOKIE_NAME @ ''='' @ v) = Some (OAUTH_COOKIE_NAME, v))"

text \<open>The state survives the redirect: the cookie of an authorization request, sent back by the browser, gives the nonce, the
  verifier and the provider of the request, so the honest callback is accepted by the provider's own checks, while the
  other provider and every other nonce are refused without a request.\<close>

theorem oauth_state_roundtrip:
  assumes "build_oauth_cookie env r32 r64 ''google'' key config = (header, nonce, verifier)"
    "cookie_carries env key (oauth_payload nonce verifier ''google'')"
  shows "\<exists>st. oauth_state_from_parts env (Some key)
       \<lparr>p_headers = [(''cookie'', OAUTH_COOKIE_NAME @ ''='' @ cke_sign (oe_cookies env) key OAUTH_COOKIE_NAME (oe_print env (oauth_payload nonce verifier ''google'')))],
        p_query = q\<rparr> = Inr st \<and>
     os_pkce_verifier st = verifier \<and>
     (check_state ''google'' params st = Inr () \<longleftrightarrow> cp_state params = nonce) \<and>
     (cp_state params \<noteq> nonce \<longrightarrow> (\<exists>e. google_exchange env http p params st w = (Inl e, w) \<and> err_status e = 400)) \<and>
     (\<exists>e. github_exchange env http p params st w = (Inl e, w) \<and> err_status e = 400)"
proof -
  define v where "v = cke_sign (oe_cookies env) key OAUTH_COOKIE_NAME (oe_print env (oauth_payload nonce verifier ''google''))"
  define h where "h = OAUTH_COOKIE_NAME @ ''='' @ v"
  let ?st = "\<lparr>os_state_nonce = nonce, os_pkce_verifier = verifier, os_provider = ''google''\<rparr>"
  have c: "cke_verify (oe_cookies env) key OAUTH_COOKIE_NAME v = Some (oe_print env (oauth_payload nonce verifier ''google''))"
    "oe_parse env (oe_print env (oauth_payload nonce verifier ''google'')) = Inr (oauth_payload nonce verifier ''google'')"
    "cookie_text v" "oe_cookie_parse env h = Some (OAUTH_COOKIE_NAME, v)"
    using assms(2) unfolding cookie_carries_def Let_def v_def h_def by blast+
  have "cookie_text (OAUTH_COOKIE_NAME @ ''='')" by code_simp
  then have h: "cookie_text h" using c(3) unfolding cookie_text_def h_def by simp
  then have "header_to_str h = Some h" by (auto simp: cookie_text_def header_to_str_def list_all_iff)
  then have hs: "header_str \<lparr>p_headers = [(''cookie'', h)], p_query = q\<rparr> ''cookie'' = Some h"
    by (simp add: header_str_def header_get_def to_ascii_lowercase_def)
  have "split_on CHR '';'' h = [h]"
    using h by (intro split_on_single) (auto simp: cookie_text_def list_all_iff)
  then have "cookie_jar env h OAUTH_COOKIE_NAME = Some v" using trim_cookie_text [OF h] c(4) by (simp add: cookie_jar_def)
  then have "oauth_state_from_parts env (Some key) \<lparr>p_headers = [(''cookie'', h)], p_query = q\<rparr> = Inr ?st"
    using c(1,2) by (simp add: oauth_state_from_parts_def hs from_signed_cookie_def payload_fields)
  moreover have "\<exists>e. github_exchange env http p params ?st w = (Inl e, w) \<and> err_status e = 400"
    by (rule github.refuses) simp
  moreover have "\<exists>e. google_exchange env http p params ?st w = (Inl e, w) \<and> err_status e = 400" if "cp_state params \<noteq> nonce"
    by (rule google.refuses) (simp add: that)
  ultimately show ?thesis unfolding h_def v_def by (intro exI [of _ ?st]) (simp add: check_state_Inr)
qed

theorem oauth_state_roundtrip_witness:
  "\<exists>st. oauth_state_from_parts demo_oauth_env (Some ''k'') \<lparr>p_headers = [(''cookie'', ''_oauth_state=V'')], p_query = None\<rparr> = Inr st \<and>
     check_state ''google'' demo_callback st = Inr ()"
proof -
  have "cookie_carries demo_oauth_env ''k'' (oauth_payload (generate_random_string [1]) (generate_random_string [2]) ''google'')"
    by code_simp
  moreover have "build_oauth_cookie demo_oauth_env [1] [2] ''google'' ''k'' (oc_cookie_config demo_oauth_client) =
      ([], generate_random_string [1], generate_random_string [2])" by code_simp
  ultimately show ?thesis
    using oauth_state_roundtrip [of demo_oauth_env "[1]" "[2]" "''k''" "oc_cookie_config demo_oauth_client" "[]" "generate_random_string [1]" "generate_random_string [2]" None
        demo_callback demo_oauth_http demo_oauth_client "()"]
    by (auto simp: demo_callback_def demo_oauth_env_def OAUTH_COOKIE_NAME_def)
qed

end
