(* ===== verification/Middleware.thy ===== *)
theory Middleware
  imports Sanitize I18n Ids
begin

text \<open>
  The smaller middlewares (\<^verbatim>\<open>src/src/middleware\<close>): security headers, CORS, the error handler, the panic handler, request
  ids and the \<^verbatim>\<open>User-Agent\<close> sanitizer; and the extractors \<^verbatim>\<open>JsonRequest\<close>, \<^verbatim>\<open>FormRequest\<close> and \<^verbatim>\<open>Query\<close>
  (\<^verbatim>\<open>src/src/extractor\<close>). A response is its status, headers, body and the \<^verbatim>\<open>Error\<close> in its extensions. The layers of
  tower-http are outside: of CORS and of request ids, what is built for them is modelled.
\<close>

section \<open>Responses\<close>

datatype web_body = BEmpty | BJson json | BOther string

record web_response =
  rs_status :: nat
  rs_headers :: "(string \<times> string) list"
  rs_body :: web_body
  rs_error :: "error option"

text \<open>\<^verbatim>\<open>insert\<close> of a header map replaces all entries of the name.\<close>

definition headers_insert :: "string \<Rightarrow> string \<Rightarrow> (string \<times> string) list \<Rightarrow> (string \<times> string) list" where
  "headers_insert n v hs = List.filter (\<lambda>h. fst h \<noteq> n) hs @ [(n, v)]"

definition headers_remove :: "string \<Rightarrow> (string \<times> string) list \<Rightarrow> (string \<times> string) list" where
  "headers_remove n hs = List.filter (\<lambda>h. fst h \<noteq> n) hs"

lemma map_of_headers_insert [simp]: "map_of (headers_insert n v hs) k = (if k = n then Some v else map_of hs k)"
  unfolding headers_insert_def by (induction hs) auto

lemma map_of_headers_remove [simp]: "map_of (headers_remove n hs) k = (if k = n then None else map_of hs k)"
  unfolding headers_remove_def by (induction hs) auto

definition header_value :: "string \<Rightarrow> string \<Rightarrow> string result" where
  "header_value what s = (if list_all header_value_byte s then Inr s else Inl (unprocessable_entity (''invalid '' @ what @ '' value'')))"

section \<open>Security headers\<close>

record security_headers_config =
  shc_x_content_type_options :: bool
  shc_x_frame_options :: string
  shc_referrer_policy :: string
  shc_hsts_max_age :: "nat option"
  shc_content_security_policy :: "string option"
  shc_permissions_policy :: "string option"

definition security_headers_config_default :: security_headers_config where
  "security_headers_config_default =
     \<lparr>shc_x_content_type_options = True, shc_x_frame_options = ''DENY'', shc_referrer_policy = ''strict-origin-when-cross-origin'',
      shc_hsts_max_age = None, shc_content_security_policy = None, shc_permissions_policy = None\<rparr>"

definition optional_header :: "string \<Rightarrow> string \<Rightarrow> string option \<Rightarrow> (string \<times> string) list \<Rightarrow> (string \<times> string) list result" where
  "optional_header n what v hs =
     (case v of None \<Rightarrow> Inr hs | Some s \<Rightarrow> bind_res (header_value what s) (\<lambda>s'. Inr (hs @ [(n, s')])))"

definition security_headers :: "security_headers_config \<Rightarrow> (string \<times> string) list result" where
  "security_headers config =
     (let hs0 = (if shc_x_content_type_options config then [(''x-content-type-options'', ''nosniff'')] else [])
      in bind_res (header_value ''x-frame-options'' (shc_x_frame_options config)) (\<lambda>xfo.
         bind_res (header_value ''referrer-policy'' (shc_referrer_policy config)) (\<lambda>rp.
         bind_res (optional_header ''strict-transport-security'' ''hsts max-age''
                     (map_option (\<lambda>n. ''max-age='' @ nat_dec n) (shc_hsts_max_age config))
                     (hs0 @ [(''x-frame-options'', xfo), (''referrer-policy'', rp)])) (\<lambda>hs1.
         bind_res (optional_header ''content-security-policy'' ''content-security-policy'' (shc_content_security_policy config) hs1) (\<lambda>hs2.
           optional_header ''permissions-policy'' ''permissions-policy'' (shc_permissions_policy config) hs2)))))"

definition add_missing :: "(string \<times> string) list \<Rightarrow> (string \<times> string) list \<Rightarrow> (string \<times> string) list" where
  "add_missing layer_headers hs =
     foldl (\<lambda>hs (n, v). if map_of hs n = None then headers_insert n v hs else hs) hs layer_headers"

definition security_headers_call :: "(string \<times> string) list \<Rightarrow> ('req \<Rightarrow> 'e + web_response) \<Rightarrow> 'req \<Rightarrow> 'e + web_response" where
  "security_headers_call layer_headers inner request =
     (case inner request of
        Inl e \<Rightarrow> Inl e
      | Inr response \<Rightarrow> Inr (response\<lparr>rs_headers := add_missing layer_headers (rs_headers response)\<rparr>))"

section \<open>CORS\<close>

record cors_config =
  cors_origins :: "string list"
  cors_methods :: "string list"
  cors_headers :: "string list"
  cors_max_age_secs :: nat
  cors_allow_credentials :: bool

definition cors_config_default :: cors_config where
  "cors_config_default =
     \<lparr>cors_origins = [], cors_methods = [''GET'', ''POST'', ''PUT'', ''DELETE'', ''PATCH''],
      cors_headers = [''Content-Type'', ''Authorization''], cors_max_age_secs = 86400, cors_allow_credentials = True\<rparr>"

text \<open>What \<^verbatim>\<open>CorsLayer\<close> is built with.\<close>

datatype allow_origin = AnyOrigin | OriginList "string list" | OriginPredicate "string \<Rightarrow> bool"

record cors_layer =
  cl_origin :: allow_origin
  cl_methods :: "string list"
  cl_headers :: "string list"
  cl_max_age :: nat
  cl_credentials :: bool

text \<open>\<open>parse_method\<close> and \<open>parse_header\<close> are the http crate's; an origin is a header value.\<close>

definition cors ::
  "(string \<Rightarrow> string option) \<Rightarrow> (string \<Rightarrow> string option) \<Rightarrow> cors_config \<Rightarrow> cors_layer" where
  "cors parse_method parse_header config =
     (let origins = List.filter (list_all header_value_byte) (cors_origins config)
      in \<lparr>cl_origin = (if origins = [] then AnyOrigin else OriginList origins),
          cl_methods = List.map_filter parse_method (cors_methods config),
          cl_headers = List.map_filter parse_header (cors_headers config),
          cl_max_age = cors_max_age_secs config,
          cl_credentials = (origins \<noteq> [] \<and> cors_allow_credentials config)\<rparr>)"

definition cors_with ::
  "(string \<Rightarrow> string option) \<Rightarrow> (string \<Rightarrow> string option) \<Rightarrow> cors_config \<Rightarrow> (string \<Rightarrow> bool) \<Rightarrow> cors_layer" where
  "cors_with parse_method parse_header config predicate =
     \<lparr>cl_origin = OriginPredicate predicate,
      cl_methods = List.map_filter parse_method (cors_methods config),
      cl_headers = List.map_filter parse_header (cors_headers config),
      cl_max_age = cors_max_age_secs config,
      cl_credentials = cors_allow_credentials config\<rparr>"

definition cors_urls :: "string list \<Rightarrow> string \<Rightarrow> bool" where
  "cors_urls allowed origin =
     (case header_to_str origin of Some o' \<Rightarrow> list_ex (\<lambda>a. a = o') allowed | None \<Rightarrow> False)"

definition cors_subdomains :: "string \<Rightarrow> string \<Rightarrow> bool" where
  "cors_subdomains domain origin =
     (case header_to_str origin of
        Some o' \<Rightarrow>
          (case (case strip_prefix ''https://'' o' of Some h \<Rightarrow> Some h | None \<Rightarrow> strip_prefix ''http://'' o') of
             Some host \<Rightarrow> host = domain \<or> ends_with (''.'' @ domain) host
           | None \<Rightarrow> False)
      | None \<Rightarrow> False)"

section \<open>Errors and panics\<close>

text \<open>The response of an error, with its copy in the extensions.\<close>

definition error_web_response :: "error \<Rightarrow> web_response" where
  "error_web_response e =
     (let r = into_response e
      in \<lparr>rs_status = resp_status r, rs_headers = [(''content-type'', ''application/json'')], rs_body = BJson (resp_body r), rs_error = resp_error r\<rparr>)"

definition default_error_handler :: "error \<Rightarrow> translator option \<Rightarrow> web_response" where
  "default_error_handler err tr =
     (let status = err_status err;
          message = (case (err_locale_key err, tr) of (Some key, Some t) \<Rightarrow> translator_t t key [] | _ \<Rightarrow> err_message err)
      in \<lparr>rs_status = status, rs_headers = [(''content-type'', ''application/json'')],
          rs_body = BJson (render_error_body status message (err_details err)), rs_error = None\<rparr>)"

definition error_handler_call ::
  "(error \<Rightarrow> 'parts \<Rightarrow> web_response) \<Rightarrow> ('parts \<Rightarrow> 'e + web_response) \<Rightarrow> 'parts \<Rightarrow> 'e + web_response" where
  "error_handler_call handler inner parts =
     (case inner parts of
        Inl e \<Rightarrow> Inl e
      | Inr response \<Rightarrow>
          (case rs_error response of
             Some error \<Rightarrow> Inr (handler (error_clone error) parts)
           | None \<Rightarrow> Inr response))"

definition response_for_panic :: web_response where
  "response_for_panic =
     \<lparr>rs_status = 500, rs_headers = [], rs_body = BEmpty, rs_error = Some (internal ''internal server error'')\<rparr>"

text \<open>A service that may panic (\<^const>\<open>None\<close>), behind tower-http's layer.\<close>

definition catch_panic :: "('req \<Rightarrow> ('e + web_response) option) \<Rightarrow> 'req \<Rightarrow> 'e + web_response" where
  "catch_panic inner request = (case inner request of Some r \<Rightarrow> r | None \<Rightarrow> Inr response_for_panic)"

text \<open>The header value of a request id; \<^const>\<open>None\<close> is the panic of \<^verbatim>\<open>unwrap\<close>.\<close>

definition make_request_id :: "nat \<Rightarrow> u8 list \<Rightarrow> string option" where
  "make_request_id ms rnd = (let id = ulid ms rnd in if list_all header_value_byte id then Some id else None)"

section \<open>User agents\<close>

definition DEFAULT_MAX_LEN :: nat where
  "DEFAULT_MAX_LEN = 512"

definition is_char_boundary :: "string \<Rightarrow> nat \<Rightarrow> bool" where
  "is_char_boundary s i \<longleftrightarrow> i = 0 \<or> i = length s \<or> i < length s \<and> \<not> continuation (s ! i)"

fun boundary_end :: "string \<Rightarrow> nat \<Rightarrow> nat" where
  "boundary_end raw 0 = 0"
| "boundary_end raw (Suc n) = (if \<not> is_char_boundary raw (Suc n) then boundary_end raw n else Suc n)"

definition is_ascii_whitespace :: "char \<Rightarrow> bool" where
  "is_ascii_whitespace c \<longleftrightarrow> of_char c \<in> {9, 10, 12, 13, 32 :: nat}"

definition is_ascii_control :: "char \<Rightarrow> bool" where
  "is_ascii_control c \<longleftrightarrow> (of_char c :: nat) < 32 \<or> of_char c = (127 :: nat)"

fun user_agent_loop :: "bool \<Rightarrow> string \<Rightarrow> string" where
  "user_agent_loop prev_ws [] = []"
| "user_agent_loop prev_ws (c # cs) =
     (if is_ascii_whitespace c then (if prev_ws then [] else '' '') @ user_agent_loop True cs
      else if is_ascii_control c then user_agent_loop prev_ws cs
      else c # user_agent_loop False cs)"

definition sanitize_user_agent :: "string \<Rightarrow> nat \<Rightarrow> string option" where
  "sanitize_user_agent raw max_len =
     (let truncated = take (boundary_end raw (min (length raw) max_len)) raw;
          trimmed = str_trim (user_agent_loop False truncated)
      in if trimmed = [] then None else Some trimmed)"

text \<open>The request the inner service gets; \<^const>\<open>None\<close> is the panic of \<^verbatim>\<open>expect\<close>.\<close>

definition user_agent_request :: "nat \<Rightarrow> parts \<Rightarrow> parts option" where
  "user_agent_request max_len parts =
     (case header_str parts ''user-agent'' of
        Some raw \<Rightarrow>
          (case sanitize_user_agent raw max_len of
             Some clean \<Rightarrow>
               if list_all header_value_byte clean
               then Some (parts\<lparr>p_headers := headers_insert ''user-agent'' clean (p_headers parts)\<rparr>) else None
           | None \<Rightarrow> Some (parts\<lparr>p_headers := headers_remove ''user-agent'' (p_headers parts)\<rparr>))
      | None \<Rightarrow> Some parts)"

section \<open>Extractors\<close>

text \<open>axum's and serde's decoding, with the text of their errors, and the \<^verbatim>\<open>Sanitize\<close> code of the value are parameters.\<close>

definition json_request :: "('req \<Rightarrow> string + 'a) \<Rightarrow> ('a \<Rightarrow> 'a) \<Rightarrow> 'req \<Rightarrow> 'a result" where
  "json_request axum_json sanitize req =
     bind_res (map_err (\<lambda>e. bad_request (''invalid JSON: '' @ e)) (axum_json req)) (\<lambda>value. Inr (sanitize value))"

definition has_form_content_type :: "parts \<Rightarrow> bool" where
  "has_form_content_type parts =
     (case header_get parts ''content-type'' of
        None \<Rightarrow> False
      | Some value \<Rightarrow>
          (case header_to_str value of
             None \<Rightarrow> False
           | Some s \<Rightarrow> eq_ignore_ascii_case (trim (hd (split_on CHR '';'' s))) ''application/x-www-form-urlencoded''))"

definition form_request ::
  "('body \<Rightarrow> (nat \<times> string) + u8 list) \<Rightarrow> (u8 list \<Rightarrow> string + 'a) \<Rightarrow> ('a \<Rightarrow> 'a) \<Rightarrow> parts \<Rightarrow> 'body \<Rightarrow> 'a result" where
  "form_request axum_bytes qs_bytes sanitize parts body =
     (if \<not> has_form_content_type parts
      then Inl (bad_request ''expected `application/x-www-form-urlencoded` content type'')
      else
        bind_res (map_err (\<lambda>(status, e). error_new status (''failed to read body: '' @ e)) (axum_bytes body)) (\<lambda>bytes.
        bind_res (map_err (\<lambda>e. bad_request (''invalid form data: '' @ e)) (qs_bytes bytes)) (\<lambda>value.
          Inr (sanitize value))))"

definition query_request :: "(string \<Rightarrow> string + 'a) \<Rightarrow> ('a \<Rightarrow> 'a) \<Rightarrow> parts \<Rightarrow> 'a result" where
  "query_request qs_str sanitize parts =
     (let query = (case p_query parts of Some q \<Rightarrow> q | None \<Rightarrow> [])
      in bind_res (map_err (\<lambda>e. bad_request (''invalid query: '' @ e)) (qs_str query)) (\<lambda>value. Inr (sanitize value)))"

section \<open>Security headers reach every response\<close>

lemma map_of_add_missing:
  "map_of (add_missing layer_headers hs) n = (case map_of hs n of Some v \<Rightarrow> Some v | None \<Rightarrow> map_of layer_headers n)"
proof (induction layer_headers arbitrary: hs)
  case (Cons h ls)
  obtain k v where "h = (k, v)" by (cases h)
  then show ?case using Cons.IH by (auto simp: add_missing_def split: option.splits)
qed (simp add: add_missing_def split: option.splits)

lemma optional_header_Inr:
  "optional_header n what v hs = Inr hs' \<longleftrightarrow> hs' = hs @ (case v of None \<Rightarrow> [] | Some s \<Rightarrow> [(n, s)]) \<and> (\<forall>s. v = Some s \<longrightarrow> list_all header_value_byte s)"
  by (auto simp: optional_header_def header_value_def result_simps split: option.splits)

lemma security_headers_Inr:
  assumes "security_headers config = Inr layer_headers"
  shows "layer_headers =
     (if shc_x_content_type_options config then [(''x-content-type-options'', ''nosniff'')] else []) @
     [(''x-frame-options'', shc_x_frame_options config), (''referrer-policy'', shc_referrer_policy config)] @
     (case shc_hsts_max_age config of None \<Rightarrow> [] | Some n \<Rightarrow> [(''strict-transport-security'', ''max-age='' @ nat_dec n)]) @
     (case shc_content_security_policy config of None \<Rightarrow> [] | Some s \<Rightarrow> [(''content-security-policy'', s)]) @
     (case shc_permissions_policy config of None \<Rightarrow> [] | Some s \<Rightarrow> [(''permissions-policy'', s)])"
  using assms
  by (auto simp: security_headers_def Let_def bind_res_eq_Inr optional_header_Inr header_value_def split: if_splits option.splits)

text \<open>Every response has the configured security headers: a header the handler set is kept, a missing one is added with the
  configured value, and no other header changes.\<close>

theorem security_headers_present:
  assumes "security_headers config = Inr layer_headers" "inner request = Inr r0"
    "security_headers_call layer_headers inner request = Inr r"
  shows "rs_status r = rs_status r0 \<and> rs_body r = rs_body r0 \<and>
     map_of (rs_headers r) n =
       (case map_of (rs_headers r0) n of
          Some v \<Rightarrow> Some v
        | None \<Rightarrow>
            if n = ''x-content-type-options'' then (if shc_x_content_type_options config then Some ''nosniff'' else None)
            else if n = ''x-frame-options'' then Some (shc_x_frame_options config)
            else if n = ''referrer-policy'' then Some (shc_referrer_policy config)
            else if n = ''strict-transport-security'' then map_option (\<lambda>k. ''max-age='' @ nat_dec k) (shc_hsts_max_age config)
            else if n = ''content-security-policy'' then shc_content_security_policy config
            else if n = ''permissions-policy'' then shc_permissions_policy config
            else None)"
proof -
  have r: "r = r0\<lparr>rs_headers := add_missing layer_headers (rs_headers r0)\<rparr>"
    using assms(2,3) by (simp add: security_headers_call_def)
  have hs: "map_of (rs_headers r) n = (case map_of (rs_headers r0) n of Some v \<Rightarrow> Some v | None \<Rightarrow> map_of layer_headers n)"
    by (simp add: r map_of_add_missing)
  have l: "map_of layer_headers n =
            (if n = ''x-content-type-options'' then (if shc_x_content_type_options config then Some ''nosniff'' else None)
            else if n = ''x-frame-options'' then Some (shc_x_frame_options config)
            else if n = ''referrer-policy'' then Some (shc_referrer_policy config)
            else if n = ''strict-transport-security'' then map_option (\<lambda>k. ''max-age='' @ nat_dec k) (shc_hsts_max_age config)
            else if n = ''content-security-policy'' then shc_content_security_policy config
            else if n = ''permissions-policy'' then shc_permissions_policy config
            else None)"
    unfolding security_headers_Inr [OF assms(1)]
    by (cases "shc_x_content_type_options config"; cases "shc_hsts_max_age config"; cases "shc_content_security_policy config";
        cases "shc_permissions_policy config") simp_all
  show ?thesis unfolding hs l by (simp add: r)
qed

definition demo_response :: web_response where
  "demo_response = \<lparr>rs_status = 200, rs_headers = [(''x-frame-options'', ''SAMEORIGIN'')], rs_body = BOther ''ok'', rs_error = None\<rparr>"

definition demo_secured :: web_response where
  "demo_secured = \<lparr>rs_status = 200,
     rs_headers = [(''x-frame-options'', ''SAMEORIGIN''), (''x-content-type-options'', ''nosniff''), (''referrer-policy'', ''strict-origin-when-cross-origin'')],
     rs_body = BOther ''ok'', rs_error = None\<rparr>"

theorem security_headers_present_witness:
  "map_of (rs_headers demo_secured) ''x-frame-options'' = Some ''SAMEORIGIN'' \<and> map_of (rs_headers demo_secured) ''x-content-type-options'' = Some ''nosniff''"
proof -
  let ?l = "[(''x-content-type-options'', ''nosniff''), (''x-frame-options'', ''DENY''), (''referrer-policy'', ''strict-origin-when-cross-origin'')]"
  have l: "security_headers security_headers_config_default = Inr ?l" by code_simp
  have c: "security_headers_call ?l (\<lambda>u :: unit. Inr demo_response :: unit + web_response) () = Inr demo_secured" by code_simp
  from security_headers_present [OF l refl c, of "''x-frame-options''"] security_headers_present [OF l refl c, of "''x-content-type-options''"]
  show ?thesis by (simp add: demo_response_def security_headers_config_default_def)
qed

section \<open>CORS\<close>

text \<open>Credentials never go with a wildcard: whatever the configuration, a layer that allows any origin does not allow
  credentials; it allows any origin exactly when no configured origin is a header value, and otherwise the listed ones only.\<close>

theorem cors_wildcard_without_credentials:
  "(cl_origin (cors pm ph config) = AnyOrigin \<longleftrightarrow> (\<forall>or. or \<in> set (cors_origins config) \<longrightarrow> \<not> list_all header_value_byte or)) \<and>
   (cl_credentials (cors pm ph config) \<longrightarrow> (\<exists>os. cl_origin (cors pm ph config) = OriginList os \<and> os \<noteq> [] \<and> set os \<subseteq> set (cors_origins config))) \<and>
   cl_origin (cors_with pm ph config p) = OriginPredicate p"
  by (auto simp: cors_def cors_with_def filter_empty_conv)

lemma bad_origins_fall_open:
  "cl_origin (cors pm ph (cors_config_default\<lparr>cors_origins := [''https://a.com'' @ [CHR 0x0A]]\<rparr>)) = AnyOrigin"
  by (simp add: cors_def header_value_byte_def)

lemma subdomains_iff:
  "cors_subdomains d origin \<longleftrightarrow> list_all visible_ascii origin \<and>
     (\<exists>scheme sub. (scheme = ''https://'' \<or> scheme = ''http://'') \<and> origin = scheme @ sub @ d \<and> (sub = [] \<or> last sub = CHR ''.''))"
proof -
  have host: "host = d \<or> ends_with (''.'' @ d) host \<longleftrightarrow> (\<exists>sub. host = sub @ d \<and> (sub = [] \<or> last sub = CHR ''.''))" for host
  proof
    assume "host = d \<or> ends_with (''.'' @ d) host"
    then show "\<exists>sub. host = sub @ d \<and> (sub = [] \<or> last sub = CHR ''.'')"
      unfolding ends_with_iff by (metis append.assoc append_Nil last_snoc)
  next
    assume "\<exists>sub. host = sub @ d \<and> (sub = [] \<or> last sub = CHR ''.'')"
    then show "host = d \<or> ends_with (''.'' @ d) host"
      unfolding ends_with_iff by (metis append.assoc append_Nil append_butlast_last_id)
  qed
  have no: "\<not> starts_with ''https://'' (''http://'' @ t)" for t by (simp add: starts_with_def)
  let ?host = "case strip_prefix ''https://'' origin of Some h \<Rightarrow> Some h | None \<Rightarrow> strip_prefix ''http://'' origin"
  have scheme: "?host = Some h \<longleftrightarrow> origin = ''https://'' @ h \<or> origin = ''http://'' @ h" for h
  proof (cases "strip_prefix ''https://'' origin")
    case None
    then have "\<not> starts_with ''https://'' origin" using strip_prefix_iff(2) by blast
    then have "origin \<noteq> ''https://'' @ h" by (metis starts_with_iff)
    then show ?thesis using None by (simp only: strip_prefix_iff(1) option.case simp_thms)
  next
    case (Some t)
    then have "origin = ''https://'' @ t" by (simp only: strip_prefix_iff(1))
    then have "origin \<noteq> ''http://'' @ h" using no starts_with_iff by metis
    then show ?thesis using Some \<open>origin = ''https://'' @ t\<close> by auto
  qed
  have "cors_subdomains d origin \<longleftrightarrow> list_all visible_ascii origin \<and> (\<exists>h. ?host = Some h \<and> (h = d \<or> ends_with (''.'' @ d) h))"
    by (simp add: cors_subdomains_def header_to_str_def split: option.split)
  also have "\<dots> \<longleftrightarrow> list_all visible_ascii origin \<and>
     (\<exists>scheme sub. (scheme = ''https://'' \<or> scheme = ''http://'') \<and> origin = scheme @ sub @ d \<and> (sub = [] \<or> last sub = CHR ''.''))"
    unfolding scheme host by blast
  finally show ?thesis .
qed

section \<open>Error answers\<close>

text \<open>The error handler keeps an error's answer: for an error without a translation key (or a request without a
  translator) the default handler answers with the status and the JSON body that the error has by itself; with both, only the
  message is translated; a response without an error passes unchanged; and a panic is answered with the JSON of an internal
  error, with no text of the panic.\<close>

theorem error_answers:
  "error_handler_call (\<lambda>e _. default_error_handler e tr) (\<lambda>_. Inr (error_web_response e)) parts =
     (Inr ((error_web_response (case (err_locale_key e, tr) of (Some key, Some t) \<Rightarrow> e\<lparr>err_message := translator_t t key []\<rparr> | _ \<Rightarrow> e))\<lparr>rs_error := None\<rparr>) :: 'e + web_response) \<and>
   (rs_error r = None \<longrightarrow> error_handler_call h (\<lambda>_. Inr r) parts = (Inr r :: 'e + web_response)) \<and>
   error_handler_call (\<lambda>e _. default_error_handler e tr) (catch_panic (\<lambda>_. None)) parts =
     (Inr ((error_web_response (internal ''internal server error''))\<lparr>rs_error := None\<rparr>) :: 'e + web_response)"
  by (auto simp: error_handler_call_def default_error_handler_def error_web_response_def into_response_def error_clone_def
      catch_panic_def response_for_panic_def internal_def error_new_def Let_def split: option.splits)

theorem error_answers_witness:
  "error_handler_call (\<lambda>e _. default_error_handler e None) (\<lambda>_. Inr demo_response) () = (Inr demo_response :: unit + web_response)"
  by (rule error_answers [THEN conjunct2, THEN conjunct1, rule_format]) (simp add: demo_response_def)

text \<open>Outside the error handler the bare response of the panic handler is the answer.\<close>

lemma panic_outside: "catch_panic (\<lambda>p. map_option (\<lambda>r. error_handler_call h (\<lambda>_. r) p) None) parts = Inr response_for_panic"
  by (simp add: catch_panic_def)

text \<open>A request id is always a header value: \<^verbatim>\<open>unwrap\<close> does not panic.\<close>

lemma request_id_made: "make_request_id ms rnd = Some (ulid ms rnd)"
proof -
  have "list_all header_value_byte CROCKFORD" by code_simp
  then have "list_all header_value_byte (ulid ms rnd)" using ulid_chars [of ms rnd] by (auto simp: list_all_iff)
  then show ?thesis by (simp add: make_request_id_def)
qed

section \<open>User agents\<close>

definition printable :: "char \<Rightarrow> bool" where
  "printable c \<longleftrightarrow> 32 \<le> (of_char c :: nat) \<and> (of_char c :: nat) < 127"

definition double_space :: "string \<Rightarrow> bool" where
  "double_space s \<longleftrightarrow> (\<exists>a b. s = a @ ''  '' @ b)"

text \<open>What the services behind the layer see.\<close>

definition clean_agent :: "string \<Rightarrow> bool" where
  "clean_agent s \<longleftrightarrow> s \<noteq> [] \<and> hd s \<noteq> CHR '' '' \<and> last s \<noteq> CHR '' '' \<and> list_all printable s \<and> \<not> double_space s"

lemma double_space_Cons: "double_space (c # s) \<longleftrightarrow> c = CHR '' '' \<and> s \<noteq> [] \<and> hd s = CHR '' '' \<or> double_space s"
proof
  assume "double_space (c # s)"
  then obtain a b where ab: "c # s = a @ ''  '' @ b" by (auto simp: double_space_def)
  then show "c = CHR '' '' \<and> s \<noteq> [] \<and> hd s = CHR '' '' \<or> double_space s"
    by (cases a) (auto simp: double_space_def)
next
  assume "c = CHR '' '' \<and> s \<noteq> [] \<and> hd s = CHR '' '' \<or> double_space s"
  then show "double_space (c # s)"
  proof
    assume "c = CHR '' '' \<and> s \<noteq> [] \<and> hd s = CHR '' ''"
    then have "c # s = [] @ ''  '' @ tl s" by (cases s) auto
    then show ?thesis unfolding double_space_def by blast
  next
    assume "double_space s"
    then show ?thesis unfolding double_space_def by (metis append_Cons)
  qed
qed

lemma printable_cases:
  "visible_ascii c \<Longrightarrow> is_ascii_whitespace c \<or> printable c \<and> c \<noteq> CHR '' ''"
  "printable c \<Longrightarrow> \<not> is_ascii_control c" "printable c \<Longrightarrow> is_ascii_whitespace c \<longleftrightarrow> c = CHR '' ''"
  "printable c \<Longrightarrow> visible_ascii c \<and> header_value_byte c \<and> \<not> continuation c"
proof -
  have sp: "of_char c = (32 :: nat) \<longleftrightarrow> c = CHR '' ''" using of_char_eq_iff [where ?'a = nat, of c "CHR '' ''"] by simp
  show "visible_ascii c \<Longrightarrow> is_ascii_whitespace c \<or> printable c \<and> c \<noteq> CHR '' ''"
    using sp by (auto simp: visible_ascii_def is_ascii_whitespace_def printable_def Let_def)
  show "printable c \<Longrightarrow> is_ascii_whitespace c \<longleftrightarrow> c = CHR '' ''"
    using sp by (auto simp: printable_def is_ascii_whitespace_def)
qed (auto simp: printable_def is_ascii_control_def visible_ascii_def header_value_byte_def continuation_def Let_def)

lemma printable_space: "printable CHR '' ''"
  by code_simp

lemma user_agent_loop_clean:
  assumes "list_all visible_ascii cs"
  shows "list_all printable (user_agent_loop p cs) \<and> \<not> double_space (user_agent_loop p cs) \<and>
     (p \<longrightarrow> user_agent_loop p cs = [] \<or> hd (user_agent_loop p cs) \<noteq> CHR '' '') \<and> length (user_agent_loop p cs) \<le> length cs"
  using assms
proof (induction p cs rule: user_agent_loop.induct)
  case (1 p)
  then show ?case by (simp add: double_space_def)
next
  case (2 p c cs)
  then have vis: "visible_ascii c" "list_all visible_ascii cs" by simp_all
  show ?case
  proof (cases "is_ascii_whitespace c")
    case True
    then show ?thesis using "2.IH"(1) [OF True vis(2)] printable_space by (auto simp: double_space_Cons)
  next
    case False
    then have c: "printable c" "c \<noteq> CHR '' ''" "\<not> is_ascii_control c" using printable_cases(1) [OF vis(1)] printable_cases(2) by auto
    then show ?thesis using False "2.IH"(3) [OF False c(3) vis(2)] by (simp add: double_space_Cons)
  qed
qed

lemma user_agent_loop_id:
  "list_all printable s \<Longrightarrow> \<not> double_space s \<Longrightarrow> \<not> (p \<and> s \<noteq> [] \<and> hd s = CHR '' '') \<Longrightarrow> user_agent_loop p s = s"
  by (induction p s rule: user_agent_loop.induct) (auto simp: double_space_Cons printable_cases(2,3))

text \<open>On printable text, trimming removes spaces.\<close>

lemma find_SomeD: "find P xs = Some x \<Longrightarrow> x \<in> set xs \<and> P x"
  by (auto simp: find_Some_iff)

lemma skip_ws_printable:
  assumes "\<forall>w \<in> set ws. w = '' '' \<or> w \<noteq> [] \<and> \<not> printable (hd w)" "'' '' \<in> set ws" "list_all printable s"
  shows "skip_ws ws s = dropWhile (\<lambda>c. c = CHR '' '') s"
  using assms(3)
proof (induction s)
  case Nil
  have "ws_length ws [] = None" by (auto simp: ws_length_def find_None_iff)
  then show ?case by (simp add: skip_ws.simps)
next
  case (Cons c s)
  have hd: "hd w = c" if "take (length w) (c # s) = w" "w \<noteq> []" for w
    using that by (metis hd_take length_greater_0_conv list.sel(1))
  show ?case
  proof (cases "c = CHR '' ''")
    case True
    have "w = '' ''" if "w \<in> set ws" "take (length w) (c # s) = w" "w \<noteq> []" for w
      using hd [OF that(2,3)] assms(1) that(1) True printable_space by metis
    note only = this
    have "take (length '' '') (c # s) = '' '' \<and> '' '' \<noteq> []" using True by simp
    with assms(2) have "find (\<lambda>w. take (length w) (c # s) = w \<and> w \<noteq> []) ws \<noteq> None" unfolding find_None_iff by blast
    then obtain w where w: "find (\<lambda>w. take (length w) (c # s) = w \<and> w \<noteq> []) ws = Some w" by blast
    from find_SomeD [OF this] only have "w = '' ''" by blast
    with w have "find (\<lambda>w. take (length w) (c # s) = w \<and> w \<noteq> []) ws = Some '' ''" by simp
    then have "ws_length ws (c # s) = Some 1" by (simp add: ws_length_def)
    then have "skip_ws ws (c # s) = skip_ws ws s" by (subst skip_ws.simps) simp
    then show ?thesis using Cons True by simp
  next
    case False
    have "\<not> (take (length w) (c # s) = w \<and> w \<noteq> [])" if "w \<in> set ws" for w
      using hd [of w] assms(1) that False Cons.prems by (metis list.pred_inject(2) list.sel(1))
    then have "find (\<lambda>w. take (length w) (c # s) = w \<and> w \<noteq> []) ws = None" unfolding find_None_iff by blast
    then show ?thesis using False by (simp add: skip_ws.simps [of ws "c # s"] ws_length_def)
  qed
qed

lemma str_trim_printable:
  assumes "list_all printable s"
  shows "str_trim s = rev (dropWhile (\<lambda>c. c = CHR '' '') (rev (dropWhile (\<lambda>c. c = CHR '' '') s)))"
proof -
  have "\<forall>w \<in> set ws_chars. w = '' '' \<or> w \<noteq> [] \<and> \<not> printable (hd w)" "'' '' \<in> set ws_chars" by code_simp+
  then have 1: "skip_ws ws_chars s = dropWhile (\<lambda>c. c = CHR '' '') s" using assms by (rule skip_ws_printable)
  have "\<forall>w \<in> set (map rev ws_chars). w = '' '' \<or> w \<noteq> [] \<and> \<not> printable (hd w)" "'' '' \<in> set (map rev ws_chars)" by code_simp+
  moreover have "list_all printable (rev (dropWhile (\<lambda>c. c = CHR '' '') s))"
    using assms by (auto simp: list_all_iff dest: set_dropWhileD)
  ultimately show ?thesis by (simp only: str_trim_def 1 skip_ws_printable)
qed

lemma str_trim_middle:
  assumes "list_all printable s"
  shows "\<exists>x y. s = x @ str_trim s @ y" "str_trim s = [] \<or> hd (str_trim s) \<noteq> CHR '' '' \<and> last (str_trim s) \<noteq> CHR '' ''"
proof -
  let ?d = "dropWhile (\<lambda>c. c = CHR '' '') s"
  have t: "str_trim s = rev (dropWhile (\<lambda>c. c = CHR '' '') (rev ?d))" by (rule str_trim_printable [OF assms])
  have d: "?d = str_trim s @ rev (takeWhile (\<lambda>c. c = CHR '' '') (rev ?d))"
    unfolding t by (metis rev_append rev_rev_ident takeWhile_dropWhile_id)
  then show "\<exists>x y. s = x @ str_trim s @ y" by (metis takeWhile_dropWhile_id)
  show "str_trim s = [] \<or> hd (str_trim s) \<noteq> CHR '' '' \<and> last (str_trim s) \<noteq> CHR '' ''"
  proof (cases "str_trim s = []")
    case False
    let ?e = "dropWhile (\<lambda>c. c = CHR '' '') (rev ?d)"
    have e: "?e \<noteq> []" using False unfolding t by simp
    then have "last (str_trim s) = hd ?e" unfolding t by (simp add: last_rev)
    moreover have "hd ?e \<noteq> CHR '' ''" using hd_dropWhile [OF e] .
    moreover have "?d \<noteq> []"
    proof
      assume "?d = []"
      then have "?e = []" by (simp only: rev.simps dropWhile.simps)
      with e show False ..
    qed
    from hd_dropWhile [OF this] have "hd ?d \<noteq> CHR '' ''" .
    moreover have "hd ?d = hd (str_trim s)" using arg_cong [OF d, of hd] hd_append2 [OF False] by (rule trans)
    ultimately show ?thesis by simp
  qed simp
qed

lemma boundary_end_ascii: "list_all visible_ascii raw \<Longrightarrow> n \<le> length raw \<Longrightarrow> boundary_end raw n = n"
proof (cases n)
  case (Suc m)
  assume "list_all visible_ascii raw" "n \<le> length raw"
  then have "\<not> continuation (raw ! n)" if "n < length raw"
    using that by (fastforce simp: list_all_length visible_ascii_def continuation_def Let_def)
  then have "is_char_boundary raw n" using \<open>n \<le> length raw\<close> by (cases "n = length raw") (auto simp: is_char_boundary_def)
  then show ?thesis using Suc by simp
qed simp

lemma printable_visible: "list_all printable s \<Longrightarrow> list_all visible_ascii s \<and> list_all header_value_byte s"
  by (auto simp: list_all_iff printable_cases(4))

lemma sanitized_clean:
  assumes "list_all visible_ascii raw" "sanitize_user_agent raw max_len = Some ua"
  shows "clean_agent ua \<and> length ua \<le> max_len"
proof -
  define u where "u = user_agent_loop False (take (min (length raw) max_len) raw)"
  have "list_all visible_ascii (take (min (length raw) max_len) raw)" using assms(1) by (auto simp: list_all_iff dest: in_set_takeD)
  from user_agent_loop_clean [OF this, of False] have u: "list_all printable u" "\<not> double_space u" "length u \<le> max_len"
    by (auto simp: u_def)
  have ua: "ua = str_trim u" "ua \<noteq> []" using assms by (auto simp: sanitize_user_agent_def Let_def boundary_end_ascii u_def split: if_splits)
  obtain x y where xy: "u = x @ ua @ y" using str_trim_middle(1) [OF u(1)] ua(1) by blast
  have "\<not> double_space ua"
  proof
    assume "double_space ua"
    then obtain a b where "ua = a @ ''  '' @ b" by (auto simp: double_space_def)
    then have "u = (x @ a) @ ''  '' @ (b @ y)" using xy by simp
    with u(2) show False unfolding double_space_def by blast
  qed
  moreover have "list_all printable ua" "length ua \<le> max_len" using u xy by simp_all
  moreover have "hd ua \<noteq> CHR '' ''" "last ua \<noteq> CHR '' ''" using str_trim_middle(2) [OF u(1)] ua by simp_all
  ultimately show ?thesis using ua(2) by (simp add: clean_agent_def)
qed

lemma sanitize_clean_id:
  assumes "clean_agent ua" "length ua \<le> max_len"
  shows "sanitize_user_agent ua max_len = Some ua"
proof -
  have p: "list_all printable ua" "\<not> double_space ua" "ua \<noteq> []" "hd ua \<noteq> CHR '' ''" "last ua \<noteq> CHR '' ''"
    using assms(1) by (auto simp: clean_agent_def)
  have "user_agent_loop False ua = ua" using p by (intro user_agent_loop_id) auto
  moreover have "dropWhile (\<lambda>c. c = CHR '' '') ua = ua" using p(3,4) by (cases ua) auto
  moreover have "dropWhile (\<lambda>c. c = CHR '' '') (rev ua) = rev ua"
    using p(3,5) by (cases "rev ua") (auto simp: hd_rev [symmetric])
  ultimately show ?thesis
    using p assms(2) printable_visible [OF p(1)] by (simp add: sanitize_user_agent_def Let_def boundary_end_ascii str_trim_printable)
qed

text \<open>Behind the layer every readable \<^verbatim>\<open>User-Agent\<close> is clean: the layer never panics, what a service reads is not empty, at
  most as long as configured, of printable characters, without spaces at its ends or two in a row; other headers are
  not touched, and a second pass changes nothing.\<close>

theorem user_agent_clean:
  "\<exists>parts'. user_agent_request max_len parts = Some parts' \<and>
     (\<forall>ua. header_str parts' ''user-agent'' = Some ua \<longrightarrow> clean_agent ua \<and> length ua \<le> max_len) \<and>
     (\<forall>n. n \<noteq> ''user-agent'' \<longrightarrow> map_of (p_headers parts') n = map_of (p_headers parts) n) \<and>
     user_agent_request max_len parts' = Some parts'"
proof (cases "header_str parts ''user-agent''")
  case None
  then show ?thesis by (auto simp: user_agent_request_def)
next
  case (Some raw)
  have get: "header_get q ''user-agent'' = map_of (p_headers q) ''user-agent''" for q :: parts
    by (simp add: header_get_def to_ascii_lowercase_def)
  from Some have vis: "list_all visible_ascii raw" by (auto simp: header_str_def header_to_str_def bind_eq_Some_conv split: if_splits)
  show ?thesis
  proof (cases "sanitize_user_agent raw max_len")
    case None
    let ?p = "parts\<lparr>p_headers := headers_remove ''user-agent'' (p_headers parts)\<rparr>"
    have "header_str ?p ''user-agent'' = None" by (simp add: header_str_def get)
    then have "user_agent_request max_len ?p = Some ?p" by (simp add: user_agent_request_def)
    then show ?thesis using Some None \<open>header_str ?p ''user-agent'' = None\<close> by (intro exI [of _ ?p]) (simp add: user_agent_request_def)
  next
    case (Some ua)
    let ?p = "parts\<lparr>p_headers := headers_insert ''user-agent'' ua (p_headers parts)\<rparr>"
    have c: "clean_agent ua" "length ua \<le> max_len" using sanitized_clean [OF vis Some] by auto
    then have v: "list_all visible_ascii ua" "list_all header_value_byte ua" using printable_visible by (auto simp: clean_agent_def)
    then have h: "header_str ?p ''user-agent'' = Some ua" by (simp add: header_str_def get header_to_str_def)
    have "headers_insert ''user-agent'' ua (headers_insert ''user-agent'' ua (p_headers parts)) = headers_insert ''user-agent'' ua (p_headers parts)"
      by (simp add: headers_insert_def)
    then have "user_agent_request max_len ?p = Some ?p"
      using h sanitize_clean_id [OF c] v(2) by (simp add: user_agent_request_def)
    then show ?thesis using \<open>header_str parts ''user-agent'' = Some raw\<close> Some v(2) h c
      by (intro exI [of _ ?p]) (simp add: user_agent_request_def)
  qed
qed

theorem user_agent_clean_witness:
  "clean_agent ''Mozilla 5.0'' \<and> user_agent_request 512 \<lparr>p_headers = [(''user-agent'', ''  Mozilla   5.0 '')], p_query = None\<rparr> =
     Some \<lparr>p_headers = [(''user-agent'', ''Mozilla 5.0'')], p_query = None\<rparr>"
proof -
  have r: "user_agent_request 512 \<lparr>p_headers = [(''user-agent'', ''  Mozilla   5.0 '')], p_query = None\<rparr> =
     Some \<lparr>p_headers = [(''user-agent'', ''Mozilla 5.0'')], p_query = None\<rparr>" by code_simp
  moreover have "header_str \<lparr>p_headers = [(''user-agent'', ''Mozilla 5.0'')], p_query = None\<rparr> ''user-agent'' = Some ''Mozilla 5.0''" by code_simp
  ultimately show ?thesis using user_agent_clean [of 512 "\<lparr>p_headers = [(''user-agent'', ''  Mozilla   5.0 '')], p_query = None\<rparr>"] by auto
qed

end
