(* ===== verification/Email.thy ===== *)
theory Email
  imports Sanitize Template_Cache
begin

text \<open>
  Emails (\<^verbatim>\<open>src/src/email\<close>): substitution of variables, frontmatter, one-time-password codes, buttons, the conversion of Markdown
  to HTML and text, layouts, rendering and sending. The Markdown parser and its HTML writer (pulldown-cmark), YAML, the
  CSS inliner, the file system and lettre (addresses, messages, transport) are parameters; of the regular
  expression the sources use one pattern only, whose matching is \<open>match_var\<close>.
\<close>

section \<open>Variables\<close>

definition ident_start :: "char \<Rightarrow> bool" where
  "ident_start c \<longleftrightarrow> is_ascii_alphanumeric c \<and> \<not> is_ascii_digit c \<or> c = CHR ''_''"

definition ident_char :: "char \<Rightarrow> bool" where
  "ident_char c \<longleftrightarrow> is_ascii_alphanumeric c \<or> c = CHR ''_''"

text \<open>The match of the pattern at the beginning of the text: the name and the text after the match.\<close>

definition match_var :: "string \<Rightarrow> (string \<times> string) option" where
  "match_var s =
     (case strip_prefix ''{{'' s of
        None \<Rightarrow> None
      | Some t \<Rightarrow>
          (let name = takeWhile ident_char t; rest = dropWhile ident_char t
           in if name \<noteq> [] \<and> ident_start (hd name)
              then map_option (\<lambda>r. (name, r)) (strip_prefix ''}}'' rest) else None))"

lemma match_var_length: "match_var s = Some (name, rest) \<Longrightarrow> length rest < length s"
proof -
  assume "match_var s = Some (name, rest)"
  then obtain t where t: "s = ''{{'' @ t" "dropWhile ident_char t = ''}}'' @ rest"
    by (auto simp: match_var_def strip_prefix_iff(1) Let_def split: option.splits if_splits)
  moreover have "length (dropWhile ident_char t) \<le> length t" by (rule length_dropWhile_le)
  ultimately show ?thesis by simp
qed

function substitute :: "(string \<rightharpoonup> string) \<Rightarrow> string \<Rightarrow> string" where
  "substitute vars s =
     (case match_var s of
        Some (name, rest) \<Rightarrow> (case vars name of Some v \<Rightarrow> v | None \<Rightarrow> []) @ substitute vars rest
      | None \<Rightarrow> (case s of [] \<Rightarrow> [] | c # cs \<Rightarrow> c # substitute vars cs))"
  by pat_completeness auto
termination by (relation "measure (length \<circ> snd)") (auto dest: match_var_length)

declare substitute.simps [simp del]

definition replace_char :: "char \<Rightarrow> string \<Rightarrow> string \<Rightarrow> string" where
  "replace_char c r s = concat (map (\<lambda>x. if x = c then r else [x]) s)"

definition escape_html :: "string \<Rightarrow> string" where
  "escape_html s =
     replace_char CHR 0x22 ''&quot;'' (replace_char CHR ''>'' ''&gt;'' (replace_char CHR ''<'' ''&lt;'' (replace_char CHR ''&'' ''&amp;'' s)))"

definition inline_css_pass :: "(string \<Rightarrow> string + string) \<Rightarrow> string \<Rightarrow> string result" where
  "inline_css_pass inliner html = map_err (\<lambda>e. chain (SrcOther e) (internal (''css inline failed: '' @ e))) (inliner html)"

section \<open>Frontmatter\<close>

record frontmatter =
  fm_subject :: string
  fm_layout :: string

definition default_layout :: string where
  "default_layout = ''base''"

fun crlf_to_lf :: "string \<Rightarrow> string" where
  "crlf_to_lf (a # b # s) = (if a = CHR 0x0D \<and> b = CHR 0x0A then CHR 0x0A # crlf_to_lf s else a # crlf_to_lf (b # s))"
| "crlf_to_lf s = s"

definition strip_newline :: "string \<Rightarrow> string" where
  "strip_newline s = (case strip_prefix [CHR 0x0A] s of Some t \<Rightarrow> t | None \<Rightarrow> s)"

text \<open>\<open>yaml\<close> reads the subject and the optional layout.\<close>

definition parse_frontmatter ::
  "(string \<Rightarrow> string + string \<times> string option) \<Rightarrow> string \<Rightarrow> (frontmatter \<times> string) result" where
  "parse_frontmatter yaml template =
     (let trimmed = skip_ws ws_chars (crlf_to_lf template)
      in if \<not> starts_with ''---'' trimmed
         then Inl (bad_request (''email template missing frontmatter delimiter '' @ [CHR 0x27] @ ''---'' @ [CHR 0x27]))
         else
           bind_res (ok_or (bad_request (''email template missing closing frontmatter delimiter '' @ [CHR 0x27] @ ''---'' @ [CHR 0x27]))
                      (split_str ([CHR 0x0A] @ ''---'') (strip_newline (drop 3 trimmed)))) (\<lambda>(yaml_text, body).
           bind_res (map_err (\<lambda>e. internal (''failed to parse email frontmatter: '' @ e)) (yaml yaml_text)) (\<lambda>(subject, layout).
           if subject = [] then Inl (bad_request (''email template missing required field '' @ [CHR 0x27] @ ''subject'' @ [CHR 0x27]))
           else Inr (\<lparr>fm_subject = subject, fm_layout = (case layout of Some l \<Rightarrow> l | None \<Rightarrow> default_layout)\<rparr>, strip_newline body))))"

section \<open>Codes and buttons\<close>

definition is_valid_code :: "string \<Rightarrow> bool" where
  "is_valid_code s \<longleftrightarrow> 1 \<le> length s \<and> length s \<le> 32 \<and> list_all (\<lambda>b. is_ascii_alphanumeric b \<or> b = CHR ''-'') s"

definition render_otp_html :: "string \<Rightarrow> string" where
  "render_otp_html code =
     (let escaped = escape_html code
      in ''<table role='' @ [CHR 0x22] @ ''presentation'' @ [CHR 0x22] @ '' border='' @ [CHR 0x22] @ ''0'' @ [CHR 0x22] @ '' cellpadding='' @
     [CHR 0x22] @ ''0'' @ [CHR 0x22] @ '' cellspacing='' @ [CHR 0x22] @ ''0'' @ [CHR 0x22] @ '' style='' @ [CHR 0x22] @
     ''margin:8px 0 24px 0;'' @ [CHR 0x22] @ ''><tr><td class='' @ [CHR 0x22] @ ''email-otp-bg'' @ [CHR 0x22] @ '' style='' @ [CHR 0x22] @
     ''font-family:ui-monospace,SFMono-Regular,Menlo,Monaco,Consolas,monospace;font-size:22px;font-weight:700;letter-spacing:4px;color:#18181b;background-color:#f4f4f5;padding:12px 16px;border-radius:8px;'' @
     [CHR 0x22] @ ''>'' @ escaped @ ''</td></tr></table>'')"

definition render_otp_text :: "string \<Rightarrow> string" where
  "render_otp_text code = [CHR 0x0A, CHR 0x0A] @ code @ [CHR 0x0A, CHR 0x0A]"

datatype button_type = BtnPrimary | BtnDanger | BtnWarning | BtnInfo | BtnSuccess

fun button_colors :: "button_type \<Rightarrow> string option \<Rightarrow> string \<times> string" where
  "button_colors BtnPrimary brand_color = ((case brand_color of Some c \<Rightarrow> c | None \<Rightarrow> ''#2563eb''), ''#ffffff'')"
| "button_colors BtnDanger brand_color = (''#dc2626'', ''#ffffff'')"
| "button_colors BtnWarning brand_color = (''#d97706'', ''#ffffff'')"
| "button_colors BtnInfo brand_color = (''#0891b2'', ''#ffffff'')"
| "button_colors BtnSuccess brand_color = (''#16a34a'', ''#ffffff'')"

definition button_of :: "string \<Rightarrow> button_type option" where
  "button_of s =
     (if s = ''primary'' then Some BtnPrimary else if s = ''danger'' then Some BtnDanger
      else if s = ''warning'' then Some BtnWarning else if s = ''info'' then Some BtnInfo
      else if s = ''success'' then Some BtnSuccess else None)"

definition parse_button :: "string \<Rightarrow> (button_type \<times> string) option" where
  "parse_button s =
     Option.bind (strip_prefix ''button'' s) (\<lambda>rest.
       case strip_prefix ''|'' rest of
         Some r \<Rightarrow> if r = [] then None else Some (BtnPrimary, r)
       | None \<Rightarrow>
           (case strip_prefix '':'' rest of
              Some r \<Rightarrow>
                Option.bind (split_once CHR ''|'' r) (\<lambda>(type_str, label).
                  if label = [] then None else map_option (\<lambda>b. (b, label)) (button_of type_str))
            | None \<Rightarrow> None))"

definition render_button_html :: "string \<Rightarrow> string \<Rightarrow> button_type \<Rightarrow> string option \<Rightarrow> string" where
  "render_button_html label0 url0 btn_type brand_color =
     (let (bg, fg) = button_colors btn_type brand_color; label = escape_html label0; url = escape_html url0
      in ''<table role='' @ [CHR 0x22] @ ''presentation'' @ [CHR 0x22] @ '' cellpadding='' @ [CHR 0x22] @ ''0'' @ [CHR 0x22] @ '' cellspacing='' @
     [CHR 0x22] @ ''0'' @ [CHR 0x22] @ '' style='' @ [CHR 0x22] @ ''margin: 16px 0;'' @ [CHR 0x22] @ ''><tr><td style='' @ [CHR 0x22] @
     ''background-color: '' @ bg @ ''; border-radius: 6px; padding: 12px 24px;'' @ [CHR 0x22] @ ''><a href='' @ [CHR 0x22] @ url @ [CHR 0x22] @
     '' style='' @ [CHR 0x22] @ ''color: '' @ fg @ ''; text-decoration: none; font-weight: 600; display: inline-block;'' @ [CHR 0x22] @ ''>'' @
     label @ ''</a></td></tr></table>'')"

definition render_button_text :: "string \<Rightarrow> string \<Rightarrow> string" where
  "render_button_text label url = label @ '': '' @ url"

section \<open>Markdown\<close>

datatype scan_ctx = ScanText | CodeSpan nat | Fence char nat

definition leading_run :: "char \<Rightarrow> string \<Rightarrow> nat" where
  "leading_run c s = length (takeWhile (\<lambda>b. b = c) s)"

text \<open>The length of the line with its newline.\<close>

definition line_length :: "string \<Rightarrow> nat" where
  "line_length s = (if CHR 0x0A \<in> set s then Suc (length (takeWhile (\<lambda>c. c \<noteq> CHR 0x0A) s)) else length s)"

definition fence_open :: "string \<Rightarrow> (char \<times> nat) option" where
  "fence_open line =
     (case dropWhile (\<lambda>c. c = CHR '' '') line of
        [] \<Rightarrow> None
      | ch # cs \<Rightarrow>
          if (ch = CHR ''`'' \<or> ch = CHR ''~'') \<and> 3 \<le> leading_run ch (ch # cs) then Some (ch, leading_run ch (ch # cs)) else None)"

definition fence_close :: "char \<Rightarrow> nat \<Rightarrow> string \<Rightarrow> bool" where
  "fence_close fence_char opening_len line \<longleftrightarrow>
     (let trimmed = dropWhile (\<lambda>c. c = CHR '' '') line;
          run_len = leading_run fence_char trimmed
      in opening_len \<le> run_len \<and> list_all (\<lambda>b. b = CHR '' '') (takeWhile (\<lambda>b. b \<noteq> CHR 0x0A) (drop run_len trimmed)))"

definition otp_at :: "string \<Rightarrow> (string \<times> string) option" where
  "otp_at s =
     (case strip_prefix ''[otp|'' s of
        None \<Rightarrow> None
      | Some rest \<Rightarrow>
          (case split_once CHR '']'' rest of
             Some (code, rest') \<Rightarrow> if is_valid_code code then Some (code, rest') else None
           | None \<Rightarrow> None))"

lemma line_length_bounds: "s \<noteq> [] \<Longrightarrow> 0 < line_length s \<and> line_length s \<le> length s"
proof -
  assume "s \<noteq> []"
  moreover have "Suc (length (takeWhile (\<lambda>c. c \<noteq> CHR 0x0A) s)) \<le> length s" if "CHR 0x0A \<in> set s"
  proof -
    have "dropWhile (\<lambda>c. c \<noteq> CHR 0x0A) s \<noteq> []" using that by (auto simp: dropWhile_eq_Nil_conv)
    then have "0 < length (dropWhile (\<lambda>c. c \<noteq> CHR 0x0A) s)" by blast
    moreover have "length s = length (takeWhile (\<lambda>c. c \<noteq> CHR 0x0A) s) + length (dropWhile (\<lambda>c. c \<noteq> CHR 0x0A) s)"
      by (metis length_append takeWhile_dropWhile_id)
    ultimately show ?thesis by linarith
  qed
  ultimately show ?thesis by (simp add: line_length_def)
qed

lemma otp_at_length: "otp_at s = Some (code, rest) \<Longrightarrow> s = ''[otp|'' @ code @ '']'' @ rest"
  by (auto simp: otp_at_def strip_prefix_iff(1) split_once_Some split: option.splits if_splits)

lemma leading_run_pos: "leading_run c (c # s) = Suc (leading_run c s)"
  by (simp add: leading_run_def)

lemma leading_run_le: "leading_run c s \<le> length s"
  by (simp add: leading_run_def length_takeWhile_le)

text \<open>The scanner; every character is one byte here: the bytes of a longer character are copied one by one.\<close>

function transform_otp :: "(string \<Rightarrow> string) \<Rightarrow> scan_ctx \<Rightarrow> bool \<Rightarrow> string \<Rightarrow> string" where
  "transform_otp replace ctx at_line_start [] = []"
| "transform_otp replace ScanText at_line_start (b # bs) =
     (let line = b # bs
      in case (if at_line_start then fence_open line else None) of
           Some (ch, run_len) \<Rightarrow>
             take (line_length line) line @ transform_otp replace (Fence ch run_len) True (drop (line_length line) line)
         | None \<Rightarrow>
             if b = CHR 0x5C \<and> bs \<noteq> [] \<and> hd bs = CHR ''['' then [CHR 0x5C, CHR ''[''] @ transform_otp replace ScanText False (tl bs)
             else if b = CHR ''`''
             then (let ticks = leading_run CHR ''`'' line
                   in take ticks line @ transform_otp replace (CodeSpan ticks) False (drop ticks line))
             else (case otp_at line of
                     Some (code, rest) \<Rightarrow> replace code @ transform_otp replace ScanText False rest
                   | None \<Rightarrow> b # transform_otp replace ScanText (b = CHR 0x0A) bs))"
| "transform_otp replace (CodeSpan ticks) at_line_start (b # bs) =
     (if b = CHR ''`''
      then (let run = leading_run CHR ''`'' (b # bs)
            in take run (b # bs) @
               transform_otp replace (if run = ticks then ScanText else CodeSpan ticks) at_line_start (drop run (b # bs)))
      else b # transform_otp replace (CodeSpan ticks) (b = CHR 0x0A) bs)"
| "transform_otp replace (Fence fence_char opening_len) at_line_start (b # bs) =
     (let line = b # bs
      in if at_line_start \<and> fence_close fence_char opening_len line
         then take (line_length line) line @ transform_otp replace ScanText True (drop (line_length line) line)
         else b # transform_otp replace (Fence fence_char opening_len) (b = CHR 0x0A) bs)"
  by pat_completeness auto
termination
  by (relation "measure (\<lambda>(r, c, a, s). length s)") (auto simp: leading_run_pos line_length_bounds dest!: otp_at_length)

declare transform_otp.simps [simp del]
declare transform_otp.simps(1) [simp]

text \<open>The events of the Markdown parser that the sources tell apart; \<open>EOther\<close> is any other event.\<close>

datatype md_event =
    EStartLink string string | EEndLink | EStartHeading string | EEndHeading string | EStartItem | EEndItem
  | EStartParagraph | EEndParagraph | EText string | ECode string | ESoftBreak | EHardBreak | EOther string

fun event_text :: "md_event \<Rightarrow> string option" where
  "event_text (EText t) = Some t"
| "event_text (ECode t) = Some t"
| "event_text _ = None"

text \<open>\<open>push_html\<close> is the HTML that the writer makes of a sequence of events.\<close>

fun html_events ::
  "(md_event list \<Rightarrow> string) \<Rightarrow> string option \<Rightarrow> (string \<times> string) option \<Rightarrow> md_event list \<Rightarrow> string \<Rightarrow> md_event list \<Rightarrow> string" where
  "html_events push_html brand link link_events html [] = html"
| "html_events push_html brand (Some (url, title)) link_events html (e # es) =
     (if e = EEndLink
      then (let full_text = concat (List.map_filter event_text link_events);
                html' = html @ (case parse_button full_text of
                   Some (btn_type, label) \<Rightarrow> render_button_html label url btn_type brand
                 | None \<Rightarrow> push_html (EStartLink url title # link_events @ [EEndLink]))
            in html_events push_html brand None [] html' es)
      else html_events push_html brand (Some (url, title)) (link_events @ [e]) html es)"
| "html_events push_html brand None link_events html (e # es) =
     (case e of
        EStartLink url title \<Rightarrow> html_events push_html brand (Some (url, title)) [] html es
      | _ \<Rightarrow> html_events push_html brand None link_events (html @ push_html [e]) es)"

definition markdown_to_html ::
  "(string \<Rightarrow> md_event list) \<Rightarrow> (md_event list \<Rightarrow> string) \<Rightarrow> string \<Rightarrow> string option \<Rightarrow> string" where
  "markdown_to_html parser push_html markdown brand_color =
     html_events push_html brand_color None [] [] (parser (transform_otp render_otp_html ScanText True markdown))"

definition ends_in_newline :: "string \<Rightarrow> bool" where
  "ends_in_newline s \<longleftrightarrow> s \<noteq> [] \<and> last s = CHR 0x0A"

definition nl :: string where
  "nl = [CHR 0x0A]"

fun text_events :: "string option \<Rightarrow> string \<Rightarrow> string \<Rightarrow> md_event list \<Rightarrow> string" where
  "text_events in_link link_text txt [] = txt"
| "text_events in_link link_text txt (e # es) =
     (case e of
        EStartHeading _ \<Rightarrow> text_events in_link link_text ((if txt \<noteq> [] \<and> \<not> ends_in_newline txt then txt @ nl else txt) @ nl) es
      | EEndHeading _ \<Rightarrow> text_events in_link link_text (txt @ nl) es
      | EStartLink url _ \<Rightarrow> text_events (Some url) [] txt es
      | EText t \<Rightarrow>
          if in_link \<noteq> None then text_events in_link (link_text @ t) txt es else text_events in_link link_text (txt @ t) es
      | ECode t \<Rightarrow>
          if in_link \<noteq> None then text_events in_link (link_text @ t) txt es else text_events in_link link_text (txt @ t) es
      | EEndLink \<Rightarrow>
          (case in_link of
             Some url \<Rightarrow>
               text_events None []
                 (txt @ (case parse_button link_text of
                    Some (_, label) \<Rightarrow> render_button_text label url
                  | None \<Rightarrow> link_text @ '' ('' @ url @ '')'')) es
           | None \<Rightarrow> text_events in_link link_text txt es)
      | EStartItem \<Rightarrow> text_events in_link link_text (txt @ ''- '') es
      | EEndItem \<Rightarrow> text_events in_link link_text (if \<not> ends_in_newline txt then txt @ nl else txt) es
      | EStartParagraph \<Rightarrow> text_events in_link link_text txt es
      | EEndParagraph \<Rightarrow> text_events in_link link_text (txt @ nl @ nl) es
      | ESoftBreak \<Rightarrow> text_events in_link link_text (txt @ nl) es
      | EHardBreak \<Rightarrow> text_events in_link link_text (txt @ nl) es
      | EOther _ \<Rightarrow> text_events in_link link_text txt es)"

definition markdown_to_text :: "(string \<Rightarrow> md_event list) \<Rightarrow> string \<Rightarrow> string" where
  "markdown_to_text parser markdown =
     str_trim (text_events None [] [] (parser (transform_otp render_otp_text ScanText True markdown)))"

section \<open>Layouts\<close>

definition base_layout_head :: string where
  "base_layout_head =
     ''<!DOCTYPE html PUBLIC '' @ [CHR 0x22] @ ''-//W3C//DTD XHTML 1.0 Transitional//EN'' @ [CHR 0x22] @ '' '' @ [CHR 0x22] @
     ''http://www.w3.org/TR/xhtml1/DTD/xhtml1-transitional.dtd'' @ [CHR 0x22] @ ''>'' @ [CHR 0x0A] @ ''<html xmlns='' @ [CHR 0x22] @
     ''http://www.w3.org/1999/xhtml'' @ [CHR 0x22] @ '' lang='' @ [CHR 0x22] @ ''en'' @ [CHR 0x22] @ ''>'' @ [CHR 0x0A] @ ''<head>'' @
     [CHR 0x0A] @ ''<meta http-equiv='' @ [CHR 0x22] @ ''Content-Type'' @ [CHR 0x22] @ '' content='' @ [CHR 0x22] @
     ''text/html; charset=UTF-8'' @ [CHR 0x22] @ '' />'' @ [CHR 0x0A] @ ''<meta name='' @ [CHR 0x22] @ ''viewport'' @ [CHR 0x22] @
     '' content='' @ [CHR 0x22] @ ''width=device-width, initial-scale=1.0'' @ [CHR 0x22] @ '' />'' @ [CHR 0x0A] @ ''<meta http-equiv='' @
     [CHR 0x22] @ ''X-UA-Compatible'' @ [CHR 0x22] @ '' content='' @ [CHR 0x22] @ ''IE=edge'' @ [CHR 0x22] @ '' />'' @ [CHR 0x0A] @
     ''<meta name='' @ [CHR 0x22] @ ''color-scheme'' @ [CHR 0x22] @ '' content='' @ [CHR 0x22] @ ''light dark'' @ [CHR 0x22] @ '' />'' @
     [CHR 0x0A] @ ''<meta name='' @ [CHR 0x22] @ ''supported-color-schemes'' @ [CHR 0x22] @ '' content='' @ [CHR 0x22] @ ''light dark'' @
     [CHR 0x22] @ '' />'' @ [CHR 0x0A] @ ''<style type='' @ [CHR 0x22] @ ''text/css'' @ [CHR 0x22] @ ''>'' @ [CHR 0x0A] @
     ''body, table, td, a { -webkit-text-size-adjust: 100%; -ms-text-size-adjust: 100%; }'' @ [CHR 0x0A] @
     ''table, td { mso-table-lspace: 0pt; mso-table-rspace: 0pt; }'' @ [CHR 0x0A] @
     ''img { -ms-interpolation-mode: bicubic; max-width: 100%; }'' @ [CHR 0x0A] @
     ''body { margin: 0 !important; padding: 0 !important; width: 100% !important; }'' @ [CHR 0x0A] @ ''@media (prefers-color-scheme: dark) '' @
     [CHR 0x7B, CHR 0x0A] @ ''  .email-body { background-color: #1a1a1a !important; }'' @ [CHR 0x0A] @
     ''  .email-card { background-color: #1a1a1a !important; }'' @ [CHR 0x0A] @
     ''  .email-content, .email-content * { color: #e4e4e7 !important; }'' @ [CHR 0x0A] @ ''  .email-footer { color: #a1a1aa !important; }'' @
     [CHR 0x0A] @ ''  .email-divider { border-color: #3f3f46 !important; }'' @ [CHR 0x0A] @
     ''  .email-otp-bg { background-color: #27272a !important; color: #e4e4e7 !important; }'' @ [CHR 0x0A] @ ''}'' @ [CHR 0x0A] @
     ''@media only screen and (max-width: 620px) '' @ [CHR 0x7B, CHR 0x0A] @ ''  .email-outer { padding: 16px 8px !important; }'' @ [CHR 0x0A] @
     ''  .email-card { padding: 24px 16px !important; }'' @ [CHR 0x0A] @ ''}'' @ [CHR 0x0A] @ ''</style>'' @ [CHR 0x0A] @ ''</head>'' @
     [CHR 0x0A]"

definition base_layout_open :: string where
  "base_layout_open =
     ''<body class='' @ [CHR 0x22] @ ''email-body'' @ [CHR 0x22] @ '' style='' @ [CHR 0x22] @
     ''margin:0;padding:0;width:100%;background-color:#ffffff;-webkit-font-smoothing:antialiased;'' @ [CHR 0x22] @ ''>'' @ [CHR 0x0A] @
     ''<table role='' @ [CHR 0x22] @ ''presentation'' @ [CHR 0x22] @ '' border='' @ [CHR 0x22] @ ''0'' @ [CHR 0x22] @ '' cellpadding='' @
     [CHR 0x22] @ ''0'' @ [CHR 0x22] @ '' cellspacing='' @ [CHR 0x22] @ ''0'' @ [CHR 0x22] @ '' width='' @ [CHR 0x22] @ ''100%'' @ [CHR 0x22] @
     '' class='' @ [CHR 0x22] @ ''email-body'' @ [CHR 0x22] @ '' style='' @ [CHR 0x22] @ ''background-color:#ffffff;'' @ [CHR 0x22] @ ''>'' @
     [CHR 0x0A] @ ''<tr>'' @ [CHR 0x0A] @ ''<td class='' @ [CHR 0x22] @ ''email-outer'' @ [CHR 0x22] @ '' align='' @ [CHR 0x22] @ ''center'' @
     [CHR 0x22] @ '' style='' @ [CHR 0x22] @ ''padding:24px 16px;'' @ [CHR 0x22] @ ''>'' @ [CHR 0x0A] @ ''<!--[if mso]><table role='' @
     [CHR 0x22] @ ''presentation'' @ [CHR 0x22] @ '' width='' @ [CHR 0x22] @ ''600'' @ [CHR 0x22] @ '' cellpadding='' @ [CHR 0x22] @ ''0'' @
     [CHR 0x22] @ '' cellspacing='' @ [CHR 0x22] @ ''0'' @ [CHR 0x22] @ ''><tr><td><![endif]-->'' @ [CHR 0x0A] @ ''<table role='' @ [CHR 0x22] @
     ''presentation'' @ [CHR 0x22] @ '' border='' @ [CHR 0x22] @ ''0'' @ [CHR 0x22] @ '' cellpadding='' @ [CHR 0x22] @ ''0'' @ [CHR 0x22] @
     '' cellspacing='' @ [CHR 0x22] @ ''0'' @ [CHR 0x22] @ '' width='' @ [CHR 0x22] @ ''100%'' @ [CHR 0x22] @ '' style='' @ [CHR 0x22] @
     ''width:100%;max-width:600px;'' @ [CHR 0x22] @ ''>'' @ [CHR 0x0A] @ ''<tr>'' @ [CHR 0x0A] @ ''<td class='' @ [CHR 0x22] @
     ''email-card email-content'' @ [CHR 0x22] @ '' style='' @ [CHR 0x22] @
     ''background-color:#ffffff;padding:32px;font-family:-apple-system,BlinkMacSystemFont,'' @ [CHR 0x27] @ ''Segoe UI'' @ [CHR 0x27] @
     '',Roboto,Helvetica,Arial,sans-serif;font-size:16px;line-height:1.6;color:#18181b;'' @ [CHR 0x22] @ ''>'' @ [CHR 0x0A] @ ''<table role='' @
     [CHR 0x22] @ ''presentation'' @ [CHR 0x22] @ '' border='' @ [CHR 0x22] @ ''0'' @ [CHR 0x22] @ '' cellpadding='' @ [CHR 0x22] @ ''0'' @
     [CHR 0x22] @ '' cellspacing='' @ [CHR 0x22] @ ''0'' @ [CHR 0x22] @ '' width='' @ [CHR 0x22] @ ''100%'' @ [CHR 0x22] @ ''>'' @ [CHR 0x0A]"

definition base_layout_close :: string where
  "base_layout_close =
     [CHR 0x0A] @ ''</table>'' @ [CHR 0x0A] @ ''</td>'' @ [CHR 0x0A] @ ''</tr>'' @ [CHR 0x0A] @ ''</table>'' @ [CHR 0x0A] @
     ''<!--[if mso]></td></tr></table><![endif]-->'' @ [CHR 0x0A] @ ''</td>'' @ [CHR 0x0A] @ ''</tr>'' @ [CHR 0x0A] @ ''</table>'' @ [CHR 0x0A] @
     ''</body>'' @ [CHR 0x0A] @ ''</html>''"

definition BASE_LAYOUT :: string where
  "BASE_LAYOUT =
     base_layout_head @ base_layout_open @ ''{{logo_section}}'' @ [CHR 0x0A] @ ''<tr><td>'' @ ''{{content}}'' @ ''</td></tr>'' @ [CHR 0x0A] @
     ''{{footer_section}}'' @ base_layout_close"

definition LOGO_SECTION_BARE :: string where
  "LOGO_SECTION_BARE =
     ''<tr><td align='' @ [CHR 0x22] @ ''left'' @ [CHR 0x22] @ '' style='' @ [CHR 0x22] @ ''padding-bottom:24px;'' @ [CHR 0x22] @
     ''><img src='' @ [CHR 0x22] @ ''{{logo_url}}'' @ [CHR 0x22] @ '' alt='' @ [CHR 0x22, CHR 0x22] @ '' style='' @ [CHR 0x22] @
     ''max-width:96px;max-height:48px;height:auto;width:auto;display:block;border:0;'' @ [CHR 0x22] @ '' /></td></tr>''"

definition LOGO_SECTION_LINKED :: string where
  "LOGO_SECTION_LINKED =
     ''<tr><td align='' @ [CHR 0x22] @ ''left'' @ [CHR 0x22] @ '' style='' @ [CHR 0x22] @ ''padding-bottom:24px;'' @ [CHR 0x22] @ ''><a href='' @
     [CHR 0x22] @ ''{{app_url}}'' @ [CHR 0x22] @ '' style='' @ [CHR 0x22] @ ''text-decoration:none;border:0;'' @ [CHR 0x22] @ ''><img src='' @
     [CHR 0x22] @ ''{{logo_url}}'' @ [CHR 0x22] @ '' alt='' @ [CHR 0x22, CHR 0x22] @ '' style='' @ [CHR 0x22] @
     ''max-width:96px;max-height:48px;height:auto;width:auto;display:block;border:0;'' @ [CHR 0x22] @ '' /></a></td></tr>''"

definition FOOTER_SECTION :: string where
  "FOOTER_SECTION =
     ''<tr><td style='' @ [CHR 0x22] @ ''padding-top:40px;font-size:0;line-height:0;'' @ [CHR 0x22] @ ''>&nbsp;</td></tr><tr><td class='' @
     [CHR 0x22] @ ''email-footer email-divider'' @ [CHR 0x22] @ '' align='' @ [CHR 0x22] @ ''left'' @ [CHR 0x22] @ '' style='' @ [CHR 0x22] @
     ''border-top:1px solid #e4e4e7;padding-top:8px;font-family:-apple-system,BlinkMacSystemFont,'' @ [CHR 0x27] @ ''Segoe UI'' @ [CHR 0x27] @
     '',Roboto,Helvetica,Arial,sans-serif;font-size:13px;color:#71717a;'' @ [CHR 0x22] @ ''>{{footer_text}}</td></tr>''"

text \<open>An entry of the directory: its displayed path, its stem when it is an HTML file with a stem that is text, and its content.\<close>

record layout_entry =
  le_display :: string
  le_html_stem :: "string option"
  le_read :: "string + string"

fun load_layout_entries :: "(string + layout_entry) list \<Rightarrow> (string \<rightharpoonup> string) \<Rightarrow> (string \<rightharpoonup> string) result" where
  "load_layout_entries [] layouts = Inr layouts"
| "load_layout_entries (x # xs) layouts =
     (case x of
        Inl e \<Rightarrow> Inl (internal (''failed to read layout entry: '' @ e))
      | Inr entry \<Rightarrow>
          (case le_html_stem entry of
             Some name \<Rightarrow>
               (case le_read entry of
                  Inl e \<Rightarrow> Inl (internal (''failed to read layout '' @ [CHR 0x27] @ le_display entry @ [CHR 0x27] @ '': '' @ e))
                | Inr content \<Rightarrow> load_layout_entries xs (layouts(name \<mapsto> content)))
           | None \<Rightarrow> load_layout_entries xs layouts))"

text \<open>\<open>read_dir\<close>: \<^const>\<open>None\<close> when the path does not exist.\<close>

definition load_layouts :: "(string + (string + layout_entry) list) option \<Rightarrow> (string \<rightharpoonup> string) result" where
  "load_layouts read_dir =
     (case read_dir of
        None \<Rightarrow> Inr Map.empty
      | Some (Inl e) \<Rightarrow> Inl (internal (''failed to read layouts directory: '' @ e))
      | Some (Inr entries) \<Rightarrow> load_layout_entries entries Map.empty)"

definition logo_section :: "(string \<rightharpoonup> string) \<Rightarrow> string" where
  "logo_section vars =
     (if vars ''logo_url'' \<noteq> None
      then substitute vars (if vars ''app_url'' \<noteq> None then LOGO_SECTION_LINKED else LOGO_SECTION_BARE) else [])"

definition footer_section :: "(string \<rightharpoonup> string) \<Rightarrow> string" where
  "footer_section vars = (if vars ''footer_text'' \<noteq> None then substitute vars FOOTER_SECTION else [])"

definition apply_layout :: "string \<Rightarrow> string \<Rightarrow> (string \<rightharpoonup> string) \<Rightarrow> string" where
  "apply_layout layout_html content vars =
     substitute (vars(''content'' \<mapsto> content, ''logo_section'' \<mapsto> logo_section vars, ''footer_section'' \<mapsto> footer_section vars)) layout_html"

definition resolve_layout :: "string \<Rightarrow> (string \<rightharpoonup> string) \<Rightarrow> string result" where
  "resolve_layout name custom_layouts =
     (if name = ''base'' then Inr BASE_LAYOUT
      else ok_or (not_found (''email layout '' @ [CHR 0x27] @ name @ [CHR 0x27] @ '' not found'')) (custom_layouts name))"

section \<open>Messages and configuration\<close>

record rendered_email =
  re_subject :: string
  re_html :: string
  re_text :: string

record sender_profile =
  sp_from_name :: string
  sp_from_email :: string
  sp_reply_to :: "string option"

record send_email =
  em_template :: string
  em_to :: "string list"
  em_cc :: "string list"
  em_bcc :: "string list"
  em_locale :: "string option"
  em_vars :: "string \<rightharpoonup> string"
  em_sender :: "sender_profile option"

definition send_email_new :: "string \<Rightarrow> string \<Rightarrow> send_email" where
  "send_email_new template addr =
     \<lparr>em_template = template, em_to = [addr], em_cc = [], em_bcc = [], em_locale = None, em_vars = Map.empty, em_sender = None\<rparr>"

definition email_to :: "string \<Rightarrow> send_email \<Rightarrow> send_email" where
  "email_to addr e = e\<lparr>em_to := em_to e @ [addr]\<rparr>"

definition email_cc :: "string \<Rightarrow> send_email \<Rightarrow> send_email" where
  "email_cc addr e = e\<lparr>em_cc := em_cc e @ [addr]\<rparr>"

definition email_bcc :: "string \<Rightarrow> send_email \<Rightarrow> send_email" where
  "email_bcc addr e = e\<lparr>em_bcc := em_bcc e @ [addr]\<rparr>"

definition email_locale :: "string \<Rightarrow> send_email \<Rightarrow> send_email" where
  "email_locale l e = e\<lparr>em_locale := Some l\<rparr>"

definition email_var :: "string \<Rightarrow> string \<Rightarrow> send_email \<Rightarrow> send_email" where
  "email_var key value e = e\<lparr>em_vars := (em_vars e)(key \<mapsto> value)\<rparr>"

definition email_sender :: "sender_profile \<Rightarrow> send_email \<Rightarrow> send_email" where
  "email_sender profile e = e\<lparr>em_sender := Some profile\<rparr>"

datatype smtp_security = StartTls | Tls | NoTls

record smtp_config =
  smtp_host :: string
  smtp_port :: nat
  smtp_username :: "string option"
  smtp_password :: "string option"
  smtp_sec :: smtp_security

definition smtp_config_default :: smtp_config where
  "smtp_config_default =
     \<lparr>smtp_host = ''localhost'', smtp_port = 587, smtp_username = None, smtp_password = None, smtp_sec = StartTls\<rparr>"

record email_config =
  ec_templates_path :: string
  ec_layouts_path :: string
  ec_default_from_name :: string
  ec_default_from_email :: string
  ec_default_reply_to :: "string option"
  ec_default_locale :: string
  ec_cache_templates :: bool
  ec_template_cache_size :: nat
  ec_inline_css :: bool
  ec_smtp :: smtp_config

definition email_config_default :: email_config where
  "email_config_default =
     \<lparr>ec_templates_path = ''emails'', ec_layouts_path = ''emails/layouts'', ec_default_from_name = [], ec_default_from_email = [],
      ec_default_reply_to = None, ec_default_locale = ''en'', ec_cache_templates = True, ec_template_cache_size = 100,
      ec_inline_css = True, ec_smtp = smtp_config_default\<rparr>"

section \<open>Mailer\<close>

text \<open>What lettre's transport is built with; \<open>relay\<close> is its check of the host, with the text of the error.\<close>

record smtp_transport =
  tr_host :: string
  tr_security :: smtp_security
  tr_port :: nat
  tr_credentials :: "(string \<times> string) option"

definition build_smtp_transport :: "(smtp_security \<Rightarrow> string \<Rightarrow> string option) \<Rightarrow> email_config \<Rightarrow> smtp_transport result" where
  "build_smtp_transport relay config =
     (let smtp = ec_smtp config; transport = \<lparr>tr_host = smtp_host smtp, tr_security = smtp_sec smtp, tr_port = smtp_port smtp,
            tr_credentials = (case (smtp_username smtp, smtp_password smtp) of (Some u, Some p) \<Rightarrow> Some (u, p) | _ \<Rightarrow> None)\<rparr>
      in if (smtp_username smtp = None) \<noteq> (smtp_password smtp = None)
         then Inl (bad_request ''SMTP username and password must both be set or both be empty'')
         else case smtp_sec smtp of
           Tls \<Rightarrow> (case relay Tls (smtp_host smtp) of Some e \<Rightarrow> Inl (internal (''SMTP relay error: '' @ e)) | None \<Rightarrow> Inr transport)
         | StartTls \<Rightarrow> (case relay StartTls (smtp_host smtp) of Some e \<Rightarrow> Inl (internal (''SMTP STARTTLS error: '' @ e)) | None \<Rightarrow> Inr transport)
         | NoTls \<Rightarrow> Inr transport)"

record mailer =
  ml_source :: template_source
  ml_transport :: smtp_transport
  ml_config :: email_config
  ml_layouts :: "string \<rightharpoonup> string"

definition mailer_with_source ::
  "(smtp_security \<Rightarrow> string \<Rightarrow> string option) \<Rightarrow> (string \<Rightarrow> (string + (string + layout_entry) list) option) \<Rightarrow> email_config \<Rightarrow>
   template_source \<Rightarrow> mailer result" where
  "mailer_with_source relay read_dir config source =
     bind_res (build_smtp_transport relay config) (\<lambda>transport.
     bind_res (load_layouts (read_dir (ec_layouts_path config))) (\<lambda>layouts.
       Inr \<lparr>ml_source = source, ml_transport = transport, ml_config = config, ml_layouts = layouts\<rparr>))"

record 'mb email_env =
  ee_yaml :: "string \<Rightarrow> string + string \<times> string option"
  ee_parser :: "string \<Rightarrow> md_event list"
  ee_push_html :: "md_event list \<Rightarrow> string"
  ee_inliner :: "string \<Rightarrow> string + string"
  ee_mailbox :: "string \<Rightarrow> string + 'mb"

definition mailer_render :: "'mb email_env \<Rightarrow> mailer \<Rightarrow> send_email \<Rightarrow> rendered_email result" where
  "mailer_render env m email =
     (let config = ml_config m;
          locale' = (case em_locale email of Some l \<Rightarrow> l | None \<Rightarrow> ec_default_locale config)
      in bind_res (ml_source m (em_template email) locale' (ec_default_locale config)) (\<lambda>raw.
         bind_res (parse_frontmatter (ee_yaml env) (substitute (em_vars email) raw)) (\<lambda>(fm, body).
         let html_body = markdown_to_html (ee_parser env) (ee_push_html env) body (em_vars email ''brand_color'')
         in bind_res (resolve_layout (fm_layout fm) (ml_layouts m)) (\<lambda>layout_html.
            let html = apply_layout layout_html html_body (em_vars email)
            in bind_res (if ec_inline_css config then inline_css_pass (ee_inliner env) html else Inr html) (\<lambda>html'.
               Inr \<lparr>re_subject = fm_subject fm, re_html = html', re_text = markdown_to_text (ee_parser env) body\<rparr>)))))"

text \<open>The message as lettre's builder gets it.\<close>

record 'mb email_message =
  msg_from :: 'mb
  msg_subject :: string
  msg_to :: "'mb list"
  msg_cc :: "'mb list"
  msg_bcc :: "'mb list"
  msg_reply_to :: "'mb option"
  msg_text :: string
  msg_html :: string

definition mail_address :: "'mb email_env \<Rightarrow> string \<Rightarrow> string \<Rightarrow> 'mb result" where
  "mail_address env what addr =
     map_err (\<lambda>e. bad_request (''invalid '' @ what @ '' address '' @ [CHR 0x27] @ addr @ [CHR 0x27] @ '': '' @ e)) (ee_mailbox env addr)"

definition build_message :: "'mb email_env \<Rightarrow> mailer \<Rightarrow> send_email \<Rightarrow> rendered_email \<Rightarrow> 'mb email_message result" where
  "build_message env m email rendered =
     (let config = ml_config m;
          from_name = (case em_sender email of Some s \<Rightarrow> sp_from_name s | None \<Rightarrow> ec_default_from_name config);
          from_email = (case em_sender email of Some s \<Rightarrow> sp_from_email s | None \<Rightarrow> ec_default_from_email config);
          reply_to = (case Option.bind (em_sender email) sp_reply_to of Some r \<Rightarrow> Some r | None \<Rightarrow> ec_default_reply_to config)
      in bind_res (map_err (\<lambda>e. bad_request (''invalid from address: '' @ e))
                    (ee_mailbox env (if from_name = [] then from_email else from_name @ '' <'' @ from_email @ ''>''))) (\<lambda>from_mb.
         bind_res (collect_res (mail_address env ''to'') (em_to email)) (\<lambda>tos.
         bind_res (collect_res (mail_address env ''cc'') (em_cc email)) (\<lambda>ccs.
         bind_res (collect_res (mail_address env ''bcc'') (em_bcc email)) (\<lambda>bccs.
         bind_res (case reply_to of
                     None \<Rightarrow> Inr None
                   | Some r \<Rightarrow> bind_res (map_err (\<lambda>e. bad_request (''invalid reply-to address: '' @ e)) (ee_mailbox env r)) (\<lambda>mb. Inr (Some mb))) (\<lambda>rt.
           Inr \<lparr>msg_from = from_mb, msg_subject = re_subject rendered, msg_to = tos, msg_cc = ccs, msg_bcc = bccs,
                msg_reply_to = rt, msg_text = re_text rendered, msg_html = re_html rendered\<rparr>))))))"

text \<open>\<open>multipart\<close> builds the message and \<open>deliver\<close> is the transport.\<close>

definition mailer_send ::
  "'mb email_env \<Rightarrow> ('mb email_message \<Rightarrow> string + 'msg) \<Rightarrow> ('msg \<Rightarrow> 'w \<Rightarrow> (string + unit) \<times> 'w) \<Rightarrow> mailer \<Rightarrow> send_email \<Rightarrow> 'w \<Rightarrow> unit result \<times> 'w" where
  "mailer_send env multipart deliver m email w =
     (if em_to email = [] then (Inl (bad_request ''email has no recipients''), w)
      else
        case bind_res (mailer_render env m email) (\<lambda>rendered.
             bind_res (build_message env m email rendered) (\<lambda>parts.
               map_err (\<lambda>e. internal (''failed to build email message: '' @ e)) (multipart parts))) of
          Inl e \<Rightarrow> (Inl e, w)
        | Inr message \<Rightarrow>
            (case deliver message w of (r, w') \<Rightarrow> (map_err (\<lambda>e. internal (''failed to send email: '' @ e)) r, w')))"

section \<open>Substitution\<close>

text \<open>A template as texts and variables; a text has no two opening braces in a row and does not end with one.\<close>

datatype mail_segment = MText string | MVar string

fun write_mail :: "mail_segment \<Rightarrow> string" where
  "write_mail (MText s) = s"
| "write_mail (MVar name) = ''{{'' @ name @ ''}}''"

fun fill_mail :: "(string \<rightharpoonup> string) \<Rightarrow> mail_segment \<Rightarrow> string" where
  "fill_mail vars (MText s) = s"
| "fill_mail vars (MVar name) = (case vars name of Some v \<Rightarrow> v | None \<Rightarrow> [])"

fun single_braces :: "string \<Rightarrow> bool" where
  "single_braces (a # b # s) \<longleftrightarrow> \<not> (a = CHR ''{'' \<and> b = CHR ''{'') \<and> single_braces (b # s)"
| "single_braces [a] \<longleftrightarrow> a \<noteq> CHR ''{''"
| "single_braces [] \<longleftrightarrow> True"

fun plain_mail :: "mail_segment \<Rightarrow> bool" where
  "plain_mail (MText s) \<longleftrightarrow> single_braces s"
| "plain_mail (MVar name) \<longleftrightarrow> name \<noteq> [] \<and> ident_start (hd name) \<and> list_all ident_char name"

lemma match_var_single: "\<not> (a = CHR ''{'' \<and> s \<noteq> [] \<and> hd s = CHR ''{'') \<Longrightarrow> match_var (a # s) = None"
  by (cases s) (auto simp: match_var_def strip_prefix_def)

lemma mail_substitute_text: "single_braces s \<Longrightarrow> substitute vars (s @ t) = s @ substitute vars t"
proof (induction s rule: single_braces.induct)
  case (1 a b s)
  then have "match_var (a # (b # s) @ t) = None" by (intro match_var_single) auto
  then show ?case using 1 by (subst substitute.simps) simp
next
  case (2 a)
  then have "match_var (a # t) = None" by (intro match_var_single) auto
  then show ?case by (subst substitute.simps) simp
qed simp

lemma takeWhile_all: "list_all P n \<Longrightarrow> \<not> P c \<Longrightarrow> takeWhile P (n @ c # r) = n \<and> dropWhile P (n @ c # r) = c # r"
  by (induction n) auto

lemma mail_substitute_var:
  assumes "plain_mail (MVar name)"
  shows "substitute vars (write_mail (MVar name) @ t) = fill_mail vars (MVar name) @ substitute vars t"
proof -
  have "\<not> ident_char CHR ''}''" by code_simp
  then have "takeWhile ident_char (name @ CHR ''}'' # CHR ''}'' # t) = name"
    "dropWhile ident_char (name @ CHR ''}'' # CHR ''}'' # t) = CHR ''}'' # CHR ''}'' # t"
    using takeWhile_all [of ident_char name "CHR ''}''" "CHR ''}'' # t"] assms by simp_all
  then have "match_var (''{{'' @ name @ ''}}'' @ t) = Some (name, t)"
    using assms by (simp add: match_var_def strip_prefix_def)
  then show ?thesis by (subst substitute.simps) simp
qed

lemma substitute_segments:
  "list_all plain_mail segs \<Longrightarrow> substitute vars (concat (map write_mail segs)) = concat (map (fill_mail vars) segs)"
proof (induction segs)
  case Nil
  then show ?case by (simp add: substitute.simps match_var_def strip_prefix_def)
next
  case (Cons seg segs)
  then show ?case using mail_substitute_text mail_substitute_var by (cases seg) simp_all
qed

text \<open>Substitution fills in the variables and nothing else: texts are kept, a variable becomes its value, word for word and not
  looked into again, and a variable without a value becomes the empty text.\<close>

theorem mail_substitution_fills:
  assumes "list_all plain_mail segs"
  shows "substitute vars (concat (map write_mail segs)) = concat (map (fill_mail vars) segs)"
  using substitute_segments [OF assms] .

theorem mail_substitution_fills_witness:
  "substitute [''a'' \<mapsto> ''{{b}}'', ''b'' \<mapsto> ''x''] ''p {} {{a}}-{{b}}{{c}}'' = ''p {} {{b}}-x''"
proof -
  have "list_all plain_mail [MText ''p {} '', MVar ''a'', MText ''-'', MVar ''b'', MVar ''c'']" by code_simp
  from mail_substitution_fills [OF this, of "[''a'' \<mapsto> ''{{b}}'', ''b'' \<mapsto> ''x'']"] show ?thesis by simp
qed

lemma single_braces_append: "single_braces s \<Longrightarrow> single_braces t \<Longrightarrow> single_braces (s @ t)"
proof (induction s rule: single_braces.induct)
  case (2 a)
  then show ?case by (cases t) auto
qed auto

lemma base_layout_plain: "single_braces base_layout_head" "single_braces base_layout_open" "single_braces base_layout_close"
  unfolding base_layout_head_def base_layout_open_def base_layout_close_def by (((intro single_braces_append)?, code_simp+)+)

text \<open>The built-in layout shows the body once, unchanged: the rendered body is put between the layout's fixed parts,
  after the logo and before the footer, and placeholders in the body are not filled in again.\<close>

theorem base_layout_content:
  "apply_layout BASE_LAYOUT content vars =
     base_layout_head @ base_layout_open @ logo_section vars @ [CHR 0x0A] @ ''<tr><td>'' @ content @ ''</td></tr>'' @ [CHR 0x0A] @
     footer_section vars @ base_layout_close"
proof -
  have "list_all plain_mail
     [MText (base_layout_head @ base_layout_open), MVar ''logo_section'', MText ([CHR 0x0A] @ ''<tr><td>''), MVar ''content'',
      MText (''</td></tr>'' @ [CHR 0x0A]), MVar ''footer_section'', MText base_layout_close]"
    using base_layout_plain by (simp add: single_braces_append ident_start_def ident_char_def is_ascii_alphanumeric_def is_ascii_digit_def)
  from substitute_segments [OF this] show ?thesis unfolding apply_layout_def BASE_LAYOUT_def by simp
qed

section \<open>Escaping\<close>

definition escape_byte :: "char \<Rightarrow> string" where
  "escape_byte c =
     (if c = CHR ''&'' then ''&amp;'' else if c = CHR ''<'' then ''&lt;'' else if c = CHR ''>'' then ''&gt;''
      else if c = CHR 0x22 then ''&quot;'' else [c])"

lemma escape_html_bytes: "escape_html s = concat (map escape_byte s)"
proof (induction s)
  case (Cons c s)
  have app: "replace_char x r (s @ t) = replace_char x r s @ replace_char x r t" for x r s t by (simp add: replace_char_def)
  have "escape_html (c # s) = escape_html [c] @ escape_html s"
    unfolding escape_html_def app [symmetric] by simp
  moreover have "escape_html [c] = escape_byte c"
    by (simp add: escape_html_def replace_char_def escape_byte_def)
  ultimately show ?case using Cons by simp
qed (simp add: escape_html_def replace_char_def)

lemma html_loop_escaped: "html_loop Normal t e out (escape_byte c @ s) = html_loop Normal t (if c \<in> set [CHR ''&'', CHR ''<'', CHR ''>'', CHR 0x22] then butlast (tl (escape_byte c)) else e) (out @ [c]) s"
  by (simp add: escape_byte_def decode_entity_def is_ascii_alphanumeric_def)

text \<open>Escaping is safe and loses nothing: the escaped text has no angle bracket and no double quote, and the HTML reader of the
  sanitizers gives the text back.\<close>

theorem escape_html_roundtrip:
  "CHR ''<'' \<notin> set (escape_html s) \<and> CHR ''>'' \<notin> set (escape_html s) \<and> CHR 0x22 \<notin> set (escape_html s) \<and>
   html_loop Normal t e out (escape_html s) = out @ s"
proof -
  have "CHR ''<'' \<notin> set (escape_byte c) \<and> CHR ''>'' \<notin> set (escape_byte c) \<and> CHR 0x22 \<notin> set (escape_byte c)" for c
    by (simp add: escape_byte_def)
  moreover have "html_loop Normal t e out (concat (map escape_byte s)) = out @ s"
    by (induction s arbitrary: e out) (simp_all add: html_loop_escaped)
  ultimately show ?thesis unfolding escape_html_bytes by auto
qed

section \<open>Frontmatter\<close>

lemma crlf_id: "CHR 0x0D \<notin> set s \<Longrightarrow> crlf_to_lf s = s"
  by (induction s rule: crlf_to_lf.induct) auto

lemma parse_written_frontmatter:
  assumes "CHR 0x0D \<notin> set (y @ body)" "split_str (nl @ ''---'') (y @ nl @ ''---'' @ nl @ body) = Some (y, nl @ body)"
    "yaml y = Inr (subject, layout)" "subject \<noteq> []"
  shows "parse_frontmatter yaml (''---'' @ nl @ y @ nl @ ''---'' @ nl @ body) =
     Inr (\<lparr>fm_subject = subject, fm_layout = (case layout of Some l \<Rightarrow> l | None \<Rightarrow> ''base'')\<rparr>, body)"
proof -
  have "CHR 0x0D \<notin> set (''---'' @ nl @ y @ nl @ ''---'' @ nl @ body)" using assms(1) by (simp add: nl_def)
  from crlf_id [OF this] have c: "crlf_to_lf (''---'' @ nl @ y @ nl @ ''---'' @ nl @ body) = ''---'' @ nl @ y @ nl @ ''---'' @ nl @ body" .
  have "find (\<lambda>w. take (length w) (CHR ''-'' # t) = w \<and> w \<noteq> []) ws_chars = None" for t by (simp add: ws_chars_def)
  then have s: "skip_ws ws_chars (''---'' @ t) = ''---'' @ t" for t by (subst skip_ws.simps) (simp add: ws_length_def)
  have n: "strip_newline (nl @ t) = t" for t by (simp add: strip_newline_def nl_def strip_prefix_def)
  show ?thesis
    unfolding parse_frontmatter_def c s Let_def using assms(2-4)
    by (cases layout) (simp_all add: starts_with_def n default_layout_def nl_def [symmetric])
qed

text \<open>Variables are filled in before the frontmatter is read: a value with line breaks ends the frontmatter or adds to it, and
  the rest of it is the beginning of the body.\<close>

lemma var_ends_frontmatter:
  "parse_frontmatter (\<lambda>y. Inr (drop 9 y, None))
     (substitute [''name'' \<mapsto> ''x'' @ nl @ ''---'' @ nl @ ''<b>injected</b>''] (''---'' @ nl @ ''subject: {{name}}'' @ nl @ ''---'' @ nl @ ''Hi'')) =
   Inr (\<lparr>fm_subject = ''x'', fm_layout = ''base''\<rparr>, ''<b>injected</b>'' @ nl @ ''---'' @ nl @ ''Hi'')"
  by code_simp

section \<open>Codes\<close>

text \<open>A text as plain pieces and codes.\<close>

fun otp_piece :: "(string \<Rightarrow> string) \<Rightarrow> string + string \<Rightarrow> string" where
  "otp_piece r (Inl s) = s"
| "otp_piece r (Inr code) = r code"

definition otp_markup :: "string \<Rightarrow> string" where
  "otp_markup code = ''[otp|'' @ code @ '']''"

definition otp_pieces :: "scan_ctx \<Rightarrow> bool \<Rightarrow> string \<Rightarrow> (string + string) list \<Rightarrow> bool" where
  "otp_pieces ctx at_line_start s ps \<longleftrightarrow>
     list_all (\<lambda>p. case p of Inr code \<Rightarrow> is_valid_code code | Inl _ \<Rightarrow> True) ps \<and> s = concat (map (otp_piece otp_markup) ps) \<and>
     (\<forall>r. transform_otp r ctx at_line_start s = concat (map (otp_piece r) ps))"

lemma otp_pieces_text:
  assumes "\<And>r. transform_otp r ctx al s = x @ transform_otp r ctx' al' s'" "s = x @ s'" "\<exists>ps. otp_pieces ctx' al' s' ps"
  shows "\<exists>ps. otp_pieces ctx al s ps"
proof -
  obtain ps where "otp_pieces ctx' al' s' ps" using assms(3) by blast
  then have "otp_pieces ctx al s (Inl x # ps)" unfolding otp_pieces_def using assms(1,2) by auto
  then show ?thesis by blast
qed

lemma otp_pieces_code:
  assumes "\<And>r. transform_otp r ctx al s = r code @ transform_otp r ctx' al' s'" "s = otp_markup code @ s'" "is_valid_code code"
    "\<exists>ps. otp_pieces ctx' al' s' ps"
  shows "\<exists>ps. otp_pieces ctx al s ps"
proof -
  obtain ps where "otp_pieces ctx' al' s' ps" using assms(4) by blast
  then have "otp_pieces ctx al s (Inr code # ps)" unfolding otp_pieces_def using assms(1-3) by auto
  then show ?thesis by blast
qed

lemma otp_at_valid: "otp_at s = Some (code, rest) \<Longrightarrow> is_valid_code code"
  by (auto simp: otp_at_def split: option.splits if_splits)

lemma otp_pieces_exist: "\<exists>ps. otp_pieces ctx al s ps"
proof (induction "length s" arbitrary: ctx al s rule: less_induct)
  case less
  show ?case
  proof (cases s)
    case Nil
    then show ?thesis by (intro exI [of _ "[]"]) (simp add: otp_pieces_def)
  next
    case (Cons b bs)
    let ?l = "line_length (b # bs)"
    let ?t = "leading_run CHR ''`'' (b # bs)"
    have l: "length (drop ?l (b # bs)) < length s" using line_length_bounds [of "b # bs"] Cons by simp
    have t: "length (drop ?t (b # bs)) < length s" if "b = CHR ''`''" using that Cons by (simp add: leading_run_pos)
    show ?thesis
    proof (cases ctx)
      case ScanText
      consider (fence) p where "(if al then fence_open (b # bs) else None) = Some p"
        | (esc) "(if al then fence_open (b # bs) else None) = None" "b = CHR 0x5C \<and> bs \<noteq> [] \<and> hd bs = CHR ''[''"
        | (tick) "(if al then fence_open (b # bs) else None) = None" "b = CHR ''`''"
        | (code) code rest where "(if al then fence_open (b # bs) else None) = None" "\<not> (b = CHR 0x5C \<and> bs \<noteq> [] \<and> hd bs = CHR ''['')" "b \<noteq> CHR ''`''"
            "otp_at (b # bs) = Some (code, rest)"
        | (char) "(if al then fence_open (b # bs) else None) = None" "\<not> (b = CHR 0x5C \<and> bs \<noteq> [] \<and> hd bs = CHR ''['')" "b \<noteq> CHR ''`''" "otp_at (b # bs) = None"
        by (cases "if al then fence_open (b # bs) else None"; cases "otp_at (b # bs)") auto
      then show ?thesis
      proof cases
        case (fence p)
        obtain ch n where p: "p = (ch, n)" by (cases p)
        have "transform_otp r ctx al s = take ?l s @ transform_otp r (Fence ch n) True (drop ?l s)" for r
          unfolding ScanText Cons by (subst transform_otp.simps(2)) (use fence p in \<open>simp add: Let_def\<close>)
        from otp_pieces_text [OF this _ less.hyps] show ?thesis using l Cons by simp
      next
        case esc
        then have b: "bs = CHR ''['' # tl bs" by (cases bs) auto
        have "transform_otp r ctx al s = [CHR 0x5C, CHR ''[''] @ transform_otp r ScanText False (tl bs)" for r
          unfolding ScanText Cons by (subst transform_otp.simps(2), simp only: Let_def esc(1) option.case) (use esc(2-) in simp)
        from otp_pieces_text [OF this _ less.hyps] show ?thesis using b esc Cons by simp
      next
        case tick
        have "transform_otp r ctx al s = take ?t s @ transform_otp r (CodeSpan ?t) False (drop ?t s)" for r
          unfolding ScanText Cons by (subst transform_otp.simps(2), simp only: Let_def tick(1) option.case) (use tick(2-) in simp)
        from otp_pieces_text [OF this _ less.hyps] show ?thesis using t tick Cons by simp
      next
        case (code code rest)
        have s: "s = otp_markup code @ rest" using otp_at_length [OF code(4)] Cons by (simp add: otp_markup_def)
        have "transform_otp r ctx al s = r code @ transform_otp r ScanText False rest" for r
          unfolding ScanText Cons by (subst transform_otp.simps(2), simp only: Let_def code(1) option.case) (use code(2-) in auto)
        from otp_pieces_code [OF this s otp_at_valid [OF code(4)] less.hyps] show ?thesis using s by (simp add: otp_markup_def)
      next
        case char
        have "transform_otp r ctx al s = [b] @ transform_otp r ScanText (b = CHR 0x0A) bs" for r
          unfolding ScanText Cons by (subst transform_otp.simps(2), simp only: Let_def char(1) option.case) (use char(2-) in auto)
        from otp_pieces_text [OF this _ less.hyps] show ?thesis using Cons by simp
      qed
    next
      case (CodeSpan n)
      show ?thesis
      proof (cases "b = CHR ''`''")
        case True
        have "transform_otp r ctx al s = take ?t s @ transform_otp r (if ?t = n then ScanText else CodeSpan n) al (drop ?t s)" for r
          unfolding CodeSpan Cons by (subst transform_otp.simps(3)) (use True in \<open>simp add: Let_def\<close>)
        from otp_pieces_text [OF this _ less.hyps] show ?thesis using t True Cons by simp
      next
        case False
        have "transform_otp r ctx al s = [b] @ transform_otp r (CodeSpan n) (b = CHR 0x0A) bs" for r
          unfolding CodeSpan Cons by (subst transform_otp.simps(3)) (use False in simp)
        from otp_pieces_text [OF this _ less.hyps] show ?thesis using Cons by simp
      qed
    next
      case (Fence ch n)
      show ?thesis
      proof (cases "al \<and> fence_close ch n (b # bs)")
        case True
        have "transform_otp r ctx al s = take ?l s @ transform_otp r ScanText True (drop ?l s)" for r
          unfolding Fence Cons by (subst transform_otp.simps(4)) (use True in \<open>simp add: Let_def\<close>)
        from otp_pieces_text [OF this _ less.hyps] show ?thesis using l Cons by simp
      next
        case False
        have "transform_otp r ctx al s = [b] @ transform_otp r (Fence ch n) (b = CHR 0x0A) bs" for r
          unfolding Fence Cons by (subst transform_otp.simps(4)) (use False in \<open>auto simp: Let_def\<close>)
        from otp_pieces_text [OF this _ less.hyps] show ?thesis using Cons by simp
      qed
    qed
  qed
qed

text \<open>Codes are replaced and nothing else, the same ones for HTML and for text: every text is a sequence of pieces and valid codes,
  and whatever a code is replaced by, the pieces are kept byte for byte and in order.\<close>

theorem otp_only_codes:
  "\<exists>ps. list_all (\<lambda>p. case p of Inr code \<Rightarrow> is_valid_code code | Inl _ \<Rightarrow> True) ps \<and> s = concat (map (otp_piece otp_markup) ps) \<and>
     (\<forall>r. transform_otp r ctx at_line_start s = concat (map (otp_piece r) ps))"
  using otp_pieces_exist [of ctx at_line_start s] unfolding otp_pieces_def .

text \<open>A single backtick opens a code span that nothing has to close: codes after it are not replaced.\<close>

lemma lone_backtick_hides_codes:
  "transform_otp render_otp_text ScanText True ''5` tall: [otp|1234]'' = ''5` tall: [otp|1234]''"
  "transform_otp render_otp_text ScanText True ''5 tall: [otp|1234]'' = ''5 tall: '' @ nl @ nl @ ''1234'' @ nl @ nl"
  by code_simp+

section \<open>Buttons and events\<close>

lemma parse_written_button: "label \<noteq> [] \<Longrightarrow> CHR ''|'' \<notin> set t \<Longrightarrow> parse_button (''button:'' @ t @ ''|'' @ label) = map_option (\<lambda>b. (b, label)) (button_of t)"
  by (simp add: parse_button_def strip_prefix_def)

text \<open>Outside links, the HTML writer is called for every event alone, with no state of the events before.\<close>

lemma events_one_by_one:
  "list_all (\<lambda>e. case e of EStartLink _ _ \<Rightarrow> False | _ \<Rightarrow> True) es \<Longrightarrow>
   html_events push_html brand None les html es = html @ concat (map (\<lambda>e. push_html [e]) es)"
proof (induction es arbitrary: html)
  case (Cons e es)
  then show ?case by (cases e) simp_all
qed simp

section \<open>Sending\<close>

text \<open>A message is sent only when all of it is in order: without recipients, or when the template, an address or the message is
  bad, the transport is not used; otherwise the message has exactly the parsed addresses of the email, in order, and the
  rendered subject, text and HTML.\<close>

theorem mailer_send_complete:
  assumes "mailer_send env multipart deliver m email w = (r, w')"
  shows "w' = w \<and> (\<exists>e. r = Inl e) \<or>
     em_to email \<noteq> [] \<and>
     (\<exists>rendered msg out. mailer_render env m email = Inr rendered \<and> multipart msg = Inr out \<and> snd (deliver out w) = w' \<and>
        (r = Inr () \<longleftrightarrow> fst (deliver out w) = Inr ()) \<and>
        list_all2 (\<lambda>a mb. ee_mailbox env a = Inr mb) (em_to email) (msg_to msg) \<and>
        list_all2 (\<lambda>a mb. ee_mailbox env a = Inr mb) (em_cc email) (msg_cc msg) \<and>
        list_all2 (\<lambda>a mb. ee_mailbox env a = Inr mb) (em_bcc email) (msg_bcc msg) \<and>
        msg_subject msg = re_subject rendered \<and> msg_text msg = re_text rendered \<and> msg_html msg = re_html rendered)"
proof (cases "em_to email = []")
  case True
  then show ?thesis using assms by (auto simp: mailer_send_def)
next
  case False
  let ?prep = "bind_res (mailer_render env m email) (\<lambda>rendered. bind_res (build_message env m email rendered) (\<lambda>parts.
               map_err (\<lambda>e. internal (''failed to build email message: '' @ e)) (multipart parts)))"
  show ?thesis
  proof (cases ?prep)
    case (Inl e)
    then show ?thesis using assms False by (auto simp: mailer_send_def)
  next
    case (Inr out)
    then obtain rendered msg where rm: "mailer_render env m email = Inr rendered" "build_message env m email rendered = Inr msg" "multipart msg = Inr out"
      by (auto simp: result_simps)
    have addr: "mail_address env what a = Inr mb \<longleftrightarrow> ee_mailbox env a = Inr mb" for what a mb by (simp add: mail_address_def map_err_eq_Inr)
    have msg: "list_all2 (\<lambda>a mb. ee_mailbox env a = Inr mb) (em_to email) (msg_to msg)"
      "list_all2 (\<lambda>a mb. ee_mailbox env a = Inr mb) (em_cc email) (msg_cc msg)"
      "list_all2 (\<lambda>a mb. ee_mailbox env a = Inr mb) (em_bcc email) (msg_bcc msg)"
      "msg_subject msg = re_subject rendered" "msg_text msg = re_text rendered" "msg_html msg = re_html rendered"
      using rm(2) by (auto simp: build_message_def Let_def bind_res_eq_Inr collect_res_Inr_iff addr)
    have "r = map_err (\<lambda>e. internal (''failed to send email: '' @ e)) (fst (deliver out w))" "w' = snd (deliver out w)"
      using assms False Inr by (auto simp: mailer_send_def split: prod.splits)
    then have "snd (deliver out w) = w'" "r = Inr () \<longleftrightarrow> fst (deliver out w) = Inr ()" by (simp_all add: map_err_eq_Inr)
    then show ?thesis using False rm msg by blast
  qed
qed

definition demo_mail_env :: "string email_env" where
  "demo_mail_env =
     \<lparr>ee_yaml = (\<lambda>y. Inr (drop 9 y, Some ''plain'')), ee_parser = (\<lambda>s. [EText s]), ee_push_html = (\<lambda>es. concat (List.map_filter event_text es)),
      ee_inliner = Inr, ee_mailbox = (\<lambda>a. if CHR ''@'' \<in> set a then Inr a else Inl ''bad'')\<rparr>"

definition demo_mailer :: mailer where
  "demo_mailer =
     \<lparr>ml_source = (\<lambda>_ _ _. Inr (''---'' @ nl @ ''subject: Hi {{name}}'' @ nl @ ''---'' @ nl @ ''Code: [otp|42]'')),
      ml_transport = \<lparr>tr_host = ''h'', tr_security = NoTls, tr_port = 25, tr_credentials = None\<rparr>,
      ml_config = email_config_default\<lparr>ec_default_from_email := ''app@x.y''\<rparr>, ml_layouts = [''plain'' \<mapsto> ''<p>{{content}}</p>'']\<rparr>"

definition demo_send :: "send_email \<Rightarrow> unit result \<times> string email_message list" where
  "demo_send email = mailer_send demo_mail_env Inr (\<lambda>msg w. (Inr (), w @ [msg])) demo_mailer email []"

definition demo_mail :: send_email where
  "demo_mail = email_var ''name'' ''Ann'' (send_email_new ''login'' ''a@b.c'')"

theorem mailer_send_complete_witness:
  "fst (demo_send demo_mail) = Inr () \<and> map msg_to (snd (demo_send demo_mail)) = [[''a@b.c'']] \<and>
   map msg_subject (snd (demo_send demo_mail)) = [''Hi Ann'']"
proof -
  have r: "fst (demo_send demo_mail) = Inr ()" "map msg_subject (snd (demo_send demo_mail)) = [''Hi Ann'']" by code_simp+
  have "mailer_send demo_mail_env Inr (\<lambda>msg w. (Inr (), w @ [msg])) demo_mailer demo_mail [] = (Inr (), snd (demo_send demo_mail))"
    using r(1) unfolding demo_send_def by (metis prod.collapse)
  from mailer_send_complete [OF this] obtain msg where m: "snd (demo_send demo_mail) = [msg]"
    "list_all2 (\<lambda>a mb. ee_mailbox demo_mail_env a = Inr mb) (em_to demo_mail) (msg_to msg)" by (auto; metis)
  then have "list_all2 (\<lambda>a mb. (if CHR ''@'' \<in> set a then Inr a else Inl ''bad'') = Inr mb) [''a@b.c''] (msg_to msg)"
    by (simp add: demo_mail_env_def demo_mail_def email_var_def send_email_new_def)
  then have "msg_to msg = [''a@b.c'']" by (auto simp: list_all2_Cons1)
  then show ?thesis using r m(1) by simp
qed

end
