(* ===== verification/Migrations.thy ===== *)
theory Migrations
  imports Database Encoding "HOL-Library.List_Lexorder" "HOL-Library.Char_ord" "HOL-Library.Sublist"
begin

text \<open>
  Schema migrations (\<^verbatim>\<open>src/src/db/migrate.rs\<close>). A connection has the data, the table \<^verbatim>\<open>_migrations\<close> and, inside a
  transaction, the contents to go back to. The effect of a migration's SQL is a parameter \<open>batch\<close>: the error of the first
  statement that fails, and the data as the statements before it left them. As in the other database theories any
  statement can fail, by the list of faults.
\<close>

section \<open>Connections\<close>

record 'd mconn =
  mc_data :: 'd
  mc_applied :: "(string \<times> string) list"
  mc_begin :: "('d \<times> (string \<times> string) list) option"
  mc_faults :: "libsql_error option list"

definition mc_run :: "('d mconn \<Rightarrow> (libsql_error + 'a) \<times> 'd mconn) \<Rightarrow> 'd mconn \<Rightarrow> (libsql_error + 'a) \<times> 'd mconn" where
  "mc_run stmt c =
     (let c' = c\<lparr>mc_faults := tl (mc_faults c)\<rparr>
      in case mc_faults c of Some e # _ \<Rightarrow> (Inl e, c') | _ \<Rightarrow> stmt c')"

definition tx_error :: libsql_error where
  "tx_error = SqliteFailure 1 ''transaction''"

definition tx_begin :: "'d mconn \<Rightarrow> (libsql_error + unit) \<times> 'd mconn" where
  "tx_begin c =
     (case mc_begin c of
        None \<Rightarrow> (Inr (), c\<lparr>mc_begin := Some (mc_data c, mc_applied c)\<rparr>)
      | Some _ \<Rightarrow> (Inl tx_error, c))"

definition tx_commit :: "'d mconn \<Rightarrow> (libsql_error + unit) \<times> 'd mconn" where
  "tx_commit c = (case mc_begin c of Some _ \<Rightarrow> (Inr (), c\<lparr>mc_begin := None\<rparr>) | None \<Rightarrow> (Inl tx_error, c))"

definition tx_rollback :: "'d mconn \<Rightarrow> (libsql_error + unit) \<times> 'd mconn" where
  "tx_rollback c =
     (case mc_begin c of
        Some (d, l) \<Rightarrow> (Inr (), c\<lparr>mc_data := d, mc_applied := l, mc_begin := None\<rparr>)
      | None \<Rightarrow> (Inl tx_error, c))"

definition run_batch :: "(string \<Rightarrow> 'd \<Rightarrow> libsql_error option \<times> 'd) \<Rightarrow> string \<Rightarrow> 'd mconn \<Rightarrow> (libsql_error + unit) \<times> 'd mconn" where
  "run_batch batch sql c =
     (case batch sql (mc_data c) of (err, d) \<Rightarrow> ((case err of Some e \<Rightarrow> Inl e | None \<Rightarrow> Inr ()), c\<lparr>mc_data := d\<rparr>))"

definition insert_migration :: "string \<Rightarrow> string \<Rightarrow> 'd mconn \<Rightarrow> (libsql_error + unit) \<times> 'd mconn" where
  "insert_migration name checksum c =
     (if name \<in> fst ` set (mc_applied c) then (Inl (SqliteFailure 1555 ''UNIQUE constraint failed: _migrations.name''), c)
      else (Inr (), c\<lparr>mc_applied := mc_applied c @ [(name, checksum)]\<rparr>))"

definition select_checksum :: "string \<Rightarrow> 'd mconn \<Rightarrow> (libsql_error + string option) \<times> 'd mconn" where
  "select_checksum name c = (Inr (map_of (mc_applied c) name), c)"

section \<open>Checksums\<close>

definition fnv1a :: "u8 list \<Rightarrow> u64" where
  "fnv1a data = foldl (\<lambda>hash byte. (hash XOR ucast byte) * 0x100000001b3) 0xcbf29ce484222325 data"

definition fnv1a_hex :: "u8 list \<Rightarrow> string" where
  "fnv1a_hex data = hex_encode (rev (map (\<lambda>i. ucast (drop_bit (8 * i) (fnv1a data))) [0..<8]))"

section \<open>Files\<close>

record mig_entry =
  me_name :: string
  me_sql_ext :: bool
  me_read :: "string + string"

text \<open>The directory: absent, not readable, or its entries; an entry that cannot be read is skipped.\<close>

definition read_migrations :: "string \<Rightarrow> (string + (string + mig_entry) list) option \<Rightarrow> (string \<times> string) list result" where
  "read_migrations dir listing =
     (case listing of
        None \<Rightarrow> Inr []
      | Some (Inl e) \<Rightarrow> Inl (chain (SrcOther e) (internal (''failed to read migrations directory: '' @ dir)))
      | Some (Inr xs) \<Rightarrow>
          collect_res (\<lambda>m. map_err (\<lambda>e. chain (SrcOther e) (internal (''failed to read migration file: '' @ me_name m)))
                             (map_sum id (Pair (me_name m)) (me_read m)))
            (sort_key me_name (List.filter me_sql_ext (List.map_filter (\<lambda>x. case x of Inr m \<Rightarrow> Some m | Inl _ \<Rightarrow> None) xs))))"

section \<open>Applying\<close>

definition apply_migration ::
  "(string \<Rightarrow> 'd \<Rightarrow> libsql_error option \<times> 'd) \<Rightarrow> string \<Rightarrow> string \<Rightarrow> string \<Rightarrow> 'd mconn \<Rightarrow> unit result \<times> 'd mconn" where
  "apply_migration batch name sql checksum c =
     (case mc_run (run_batch batch sql) c of
        (Inl e, c1) \<Rightarrow> (Inl (chain (SrcOther (libsql_text e)) (internal (''failed to apply migration '' @ [CHR 0x27] @ name @ [CHR 0x27]))), c1)
      | (Inr _, c1) \<Rightarrow>
          (case mc_run (insert_migration name checksum) c1 of
             (Inl e, c2) \<Rightarrow> (Inl (error_from_libsql e), c2)
           | (Inr _, c2) \<Rightarrow>
               (case mc_run tx_commit c2 of (r, c3) \<Rightarrow> (map_err error_from_libsql r, c3))))"

definition checksum_mismatch :: "string \<Rightarrow> string \<Rightarrow> string \<Rightarrow> error" where
  "checksum_mismatch name existing checksum =
     internal (''migration '' @ [CHR 0x27] @ name @ [CHR 0x27] @ '' checksum mismatch '' @ [CHR 0xE2, CHR 0x80, CHR 0x94] @
       '' file was modified after applying (expected '' @ existing @ '', got '' @ checksum @ '')'')"

fun migrate_files ::
  "(string \<Rightarrow> 'd \<Rightarrow> libsql_error option \<times> 'd) \<Rightarrow> (string \<times> string) list \<Rightarrow> 'd mconn \<Rightarrow> unit result \<times> 'd mconn" where
  "migrate_files batch [] c = (Inr (), c)"
| "migrate_files batch ((name, sql) # files) c =
     (let checksum = fnv1a_hex (as_bytes sql)
      in case mc_run (select_checksum name) c of
           (Inl e, c1) \<Rightarrow> (Inl (error_from_libsql e), c1)
         | (Inr (Some existing), c1) \<Rightarrow>
             if existing \<noteq> checksum then (Inl (checksum_mismatch name existing checksum), c1) else migrate_files batch files c1
         | (Inr None, c1) \<Rightarrow>
             (case mc_run tx_begin c1 of
                (Inl e, c2) \<Rightarrow> (Inl (error_from_libsql e), c2)
              | (Inr _, c2) \<Rightarrow>
                  (case apply_migration batch name sql checksum c2 of
                     (Inl e, c3) \<Rightarrow> (Inl e, snd (mc_run tx_rollback c3))
                   | (Inr _, c3) \<Rightarrow> migrate_files batch files c3)))"

text \<open>The tracking table exists from the start: \<^verbatim>\<open>CREATE TABLE IF NOT EXISTS\<close> can only fail or do nothing more.\<close>

definition migrate ::
  "(string \<Rightarrow> 'd \<Rightarrow> libsql_error option \<times> 'd) \<Rightarrow> (string \<Rightarrow> (string + (string + mig_entry) list) option) \<Rightarrow> string \<Rightarrow> 'd mconn \<Rightarrow>
   unit result \<times> 'd mconn" where
  "migrate batch read_dir dir c =
     (case mc_run (\<lambda>c. (Inr (), c)) c of
        (Inl e, c1) \<Rightarrow> (Inl (error_from_libsql e), c1)
      | (Inr _, c1) \<Rightarrow>
          (case read_migrations dir (read_dir dir) of
             Inl e \<Rightarrow> (Inl e, c1)
           | Inr files \<Rightarrow> migrate_files batch files c1))"

section \<open>Migrations are applied once, in order, all or nothing\<close>

text \<open>What other connections see, and what a crash leaves.\<close>

definition committed :: "'d mconn \<Rightarrow> 'd \<times> (string \<times> string) list" where
  "committed c = (case mc_begin c of Some s \<Rightarrow> s | None \<Rightarrow> (mc_data c, mc_applied c))"

definition ledger :: "(string \<times> string) list \<Rightarrow> (string \<times> string) list" where
  "ledger files = map (\<lambda>(name, sql). (name, fnv1a_hex (as_bytes sql))) files"

definition apply_all :: "(string \<Rightarrow> 'd \<Rightarrow> libsql_error option \<times> 'd) \<Rightarrow> (string \<times> string) list \<Rightarrow> 'd \<Rightarrow> 'd" where
  "apply_all batch files d = foldl (\<lambda>d (name, sql). snd (batch sql d)) d files"

definition pending :: "(string \<times> string) list \<Rightarrow> (string \<times> string) list \<Rightarrow> (string \<times> string) list" where
  "pending applied files = List.filter (\<lambda>f. fst f \<notin> fst ` set applied) files"

lemma committed_select: "mc_run (select_checksum name) c = (r, c1) \<Longrightarrow> committed c1 = committed c \<and> mc_begin c1 = mc_begin c \<and> mc_applied c1 = mc_applied c"
  by (auto simp: mc_run_def select_checksum_def committed_def Let_def split: list.splits option.splits)

lemma rollback_committed: "mc_begin c \<noteq> None \<Longrightarrow> committed (snd (mc_run tx_rollback c)) = committed c"
  by (auto simp: mc_run_def tx_rollback_def committed_def Let_def split: list.splits option.splits)

lemma apply_migration_committed:
  assumes "apply_migration batch name sql checksum c = (r, c')" "mc_begin c = Some (d, l)" "mc_data c = d" "mc_applied c = l"
  shows "case r of
      Inl e \<Rightarrow> mc_begin c' \<noteq> None \<and> committed c' = committed c
    | Inr _ \<Rightarrow> mc_begin c' = None \<and> committed c' = (snd (batch sql d), l @ [(name, checksum)]) \<and> fst (batch sql d) = None"
  using assms
  by (auto simp: apply_migration_def mc_run_def run_batch_def insert_migration_def tx_commit_def committed_def Let_def
      split: prod.splits sum.splits list.splits option.splits if_splits)

lemma begin_Inr: "mc_run tx_begin c = (Inr u, c') \<Longrightarrow> mc_begin c = None \<Longrightarrow>
    mc_begin c' = Some (mc_data c, mc_applied c) \<and> mc_data c' = mc_data c \<and> mc_applied c' = mc_applied c"
  by (auto simp: mc_run_def tx_begin_def Let_def split: list.splits option.splits)

lemma begin_Inl: "mc_run tx_begin c = (Inl e, c') \<Longrightarrow> mc_begin c = None \<Longrightarrow> committed c' = committed c"
  by (auto simp: mc_run_def tx_begin_def committed_def Let_def split: list.splits option.splits)

lemma select_Inr: "mc_run (select_checksum name) c = (Inr x, c') \<Longrightarrow> x = map_of (mc_applied c) name \<and> mc_data c' = mc_data c"
  by (auto simp: mc_run_def select_checksum_def Let_def split: list.splits option.splits)

lemma pending_snoc: "name \<notin> fst ` set files \<Longrightarrow> pending (applied @ [(name, x)]) files = pending applied files"
  by (auto simp: pending_def intro: filter_cong)

definition checked :: "(string \<times> string) list \<Rightarrow> (string \<times> string) list \<Rightarrow> bool" where
  "checked applied files \<longleftrightarrow> list_all (\<lambda>(name, sql). map_of applied name \<in> {None, Some (fnv1a_hex (as_bytes sql))}) files"

definition migrated ::
  "(string \<Rightarrow> 'd \<Rightarrow> libsql_error option \<times> 'd) \<Rightarrow> (string \<times> string) list \<Rightarrow> 'd mconn \<Rightarrow> unit result \<Rightarrow> 'd mconn \<Rightarrow> bool" where
  "migrated batch files c r c' \<longleftrightarrow>
     (\<exists>done. prefix done (pending (mc_applied c) files) \<and>
        committed c' = (apply_all batch done (mc_data c), mc_applied c @ ledger done) \<and>
        (r = Inr () \<longrightarrow> done = pending (mc_applied c) files \<and> mc_begin c' = None \<and> checked (mc_applied c) files))"

lemma migrated_stop: "committed c' = committed c \<Longrightarrow> mc_begin c = None \<Longrightarrow> migrated batch files c (Inl e) c'"
  by (auto simp: migrated_def committed_def apply_all_def ledger_def intro!: exI [of _ "[]"])

text \<open>One file: the run stops with nothing changed, the file was applied before, or it is applied now.\<close>

lemma migrate_one_file:
  assumes "migrate_files batch ((name, sql) # files) c = (r, c')" "mc_begin c = None"
  shows "(\<exists>e. r = Inl e) \<and> committed c' = committed c \<or>
     (\<exists>c1. migrate_files batch files c1 = (r, c') \<and> mc_begin c1 = None \<and> mc_data c1 = mc_data c \<and> mc_applied c1 = mc_applied c \<and>
        map_of (mc_applied c) name = Some (fnv1a_hex (as_bytes sql))) \<or>
     (\<exists>c1. migrate_files batch files c1 = (r, c') \<and> mc_begin c1 = None \<and> mc_data c1 = snd (batch sql (mc_data c)) \<and>
        mc_applied c1 = mc_applied c @ [(name, fnv1a_hex (as_bytes sql))] \<and> map_of (mc_applied c) name = None)"
proof -
  let ?cs = "fnv1a_hex (as_bytes sql)"
  obtain x c1 where sel: "mc_run (select_checksum name) c = (x, c1)" by (cases "mc_run (select_checksum name) c")
  have c1: "committed c1 = committed c" "mc_begin c1 = None" "mc_applied c1 = mc_applied c" using committed_select [OF sel] assms(2) by simp_all
  consider (fault) e where "x = Inl e" | (known) ex where "x = Inr (Some ex)" | (new) "x = Inr None" by (metis not_Some_eq sum.exhaust)
  then show ?thesis
  proof cases
    case fault
    then show ?thesis using assms sel c1(1) by auto
  next
    case (known ex)
    then have ex: "map_of (mc_applied c) name = Some ex" "mc_data c1 = mc_data c" using select_Inr sel by metis+
    then show ?thesis using assms sel known c1 by (cases "ex = ?cs") auto
  next
    case new
    then have ex: "map_of (mc_applied c) name = None" "mc_data c1 = mc_data c" using select_Inr sel by metis+
    obtain y c2 where beg: "mc_run tx_begin c1 = (y, c2)" by (cases "mc_run tx_begin c1")
    obtain z c3 where ap: "apply_migration batch name sql ?cs c2 = (z, c3)" by (cases "apply_migration batch name sql ?cs c2")
    show ?thesis
    proof (cases y)
      case (Inl e)
      then have "committed c2 = committed c" using begin_Inl beg c1 by metis
      then show ?thesis using assms sel new beg Inl by auto
    next
      case (Inr u)
      have c2: "mc_begin c2 = Some (mc_data c, mc_applied c)" "mc_data c2 = mc_data c" "mc_applied c2 = mc_applied c"
        using begin_Inr [of c1 u c2] beg Inr c1 ex(2) by simp_all
      have "(case z of Inl e \<Rightarrow> (Inl e, snd (mc_run tx_rollback c3)) | Inr _ \<Rightarrow> migrate_files batch files c3) = (r, c')"
        using assms(1) sel new beg Inr ap by simp
      moreover have "committed c2 = committed c" using c2(1) assms(2) by (simp add: committed_def)
      ultimately show ?thesis
        using apply_migration_committed [OF ap c2] rollback_committed [of c3] ex(1) by (cases z) (auto simp: committed_def)
    qed
  qed
qed

lemma checked_snoc:
  "name \<notin> fst ` set files \<Longrightarrow> checked (applied @ [(name, x)]) files \<longleftrightarrow> checked applied files"
  by (auto simp: checked_def list_all_iff map_add_def split: option.splits if_splits) force+

lemma migrate_files_migrated:
  assumes "migrate_files batch files c = (r, c')" "mc_begin c = None" "distinct (map fst files)"
  shows "migrated batch files c r c'"
  using assms
proof (induction files arbitrary: c)
  case Nil
  then show ?case by (auto simp: migrated_def committed_def pending_def apply_all_def ledger_def checked_def)
next
  case (Cons f files)
  obtain name sql where f: "f = (name, sql)" by (cases f)
  have new: "name \<notin> fst ` set files" "distinct (map fst files)" using Cons.prems(3) f by auto
  from migrate_one_file [OF Cons.prems(1) [unfolded f] Cons.prems(2)] consider
    (stop) e where "r = Inl e" "committed c' = committed c"
    | (known) c1 where "migrate_files batch files c1 = (r, c')" "mc_begin c1 = None" "mc_data c1 = mc_data c" "mc_applied c1 = mc_applied c"
        "map_of (mc_applied c) name = Some (fnv1a_hex (as_bytes sql))"
    | (run) c1 where "migrate_files batch files c1 = (r, c')" "mc_begin c1 = None" "mc_data c1 = snd (batch sql (mc_data c))"
        "mc_applied c1 = mc_applied c @ [(name, fnv1a_hex (as_bytes sql))]" "map_of (mc_applied c) name = None"
    by blast
  then show ?case
  proof cases
    case stop
    then show ?thesis using Cons.prems(2) by (simp add: migrated_stop)
  next
    case known
    then have "name \<in> fst ` set (mc_applied c)" by (metis domI dom_map_of_conv_image_fst)
    then show ?thesis
      using Cons.IH [OF known(1,2) new(2)] known f by (simp add: migrated_def pending_def checked_def)
  next
    case run
    then have app: "pending (mc_applied c) (f # files) = f # pending (mc_applied c) files" using f by (simp add: pending_def map_of_eq_None_iff)
    from Cons.IH [OF run(1,2) new(2)] obtain d where d: "prefix d (pending (mc_applied c) files)"
      "committed c' = (apply_all batch d (mc_data c1), mc_applied c1 @ ledger d)"
      "r = Inr () \<longrightarrow> d = pending (mc_applied c) files \<and> mc_begin c' = None \<and> checked (mc_applied c) files"
      using new(1) run(4) by (auto simp: migrated_def pending_snoc checked_snoc)
    then have "prefix (f # d) (pending (mc_applied c) (f # files))"
      "committed c' = (apply_all batch (f # d) (mc_data c), mc_applied c @ ledger (f # d))"
      "r = Inr () \<longrightarrow> f # d = pending (mc_applied c) (f # files) \<and> mc_begin c' = None \<and> checked (mc_applied c) (f # files)"
      using run f app by (auto simp: apply_all_def ledger_def checked_def)
    then show ?thesis unfolding migrated_def by blast
  qed
qed

lemma read_sorted: "read_migrations dir listing = Inr files \<Longrightarrow> sorted (map fst files)"
proof (cases listing)
  case (Some x)
  assume r: "read_migrations dir listing = Inr files"
  then obtain xs where x: "x = Inr xs" using Some by (cases x) (auto simp: read_migrations_def)
  let ?ms = "sort_key me_name (List.filter me_sql_ext (List.map_filter (\<lambda>x. case x of Inr m \<Rightarrow> Some m | Inl _ \<Rightarrow> None) xs))"
  from r x Some have "list_all2 (\<lambda>m f. map_err (\<lambda>e. chain (SrcOther e) (internal (''failed to read migration file: '' @ me_name m)))
        (map_sum id (Pair (me_name m)) (me_read m)) = Inr f) ?ms files"
    by (simp add: read_migrations_def collect_res_Inr_iff)
  then have "list_all2 (\<lambda>m f. me_name m = fst f) ?ms files"
  proof (rule list_all2_mono)
    fix m f
    assume "map_err (\<lambda>e. chain (SrcOther e) (internal (''failed to read migration file: '' @ me_name m))) (map_sum id (Pair (me_name m)) (me_read m)) = Inr f"
    then show "me_name m = fst f" by (cases "me_read m") auto
  qed
  then have "map me_name ?ms = map fst files" by (simp add: list_all2_conv_all_nth list_eq_iff_nth_eq)
  then show ?thesis by (metis sorted_sort_key)
qed (simp add: read_migrations_def)

lemma migrate_run:
  assumes "migrate batch read_dir dir c = (r, c')" "read_migrations dir (read_dir dir) = Inr files" "mc_begin c = None" "distinct (map fst files)"
  shows "migrated batch files c r c'"
proof (cases "mc_faults c")
  case Nil
  then have "migrate_files batch files (c\<lparr>mc_faults := []\<rparr>) = (r, c')" using assms(1,2) by (simp add: migrate_def mc_run_def)
  from migrate_files_migrated [OF this] show ?thesis using assms(3,4) by (simp add: migrated_def)
next
  case (Cons f fs)
  show ?thesis
  proof (cases f)
    case None
    then have "migrate_files batch files (c\<lparr>mc_faults := fs\<rparr>) = (r, c')" using assms(1,2) Cons by (simp add: migrate_def mc_run_def)
    from migrate_files_migrated [OF this] show ?thesis using assms(3,4) by (simp add: migrated_def)
  next
    case (Some e)
    then have "r = Inl (error_from_libsql e)" "committed c' = committed c" using assms(1,3) Cons by (auto simp: migrate_def mc_run_def committed_def)
    then show ?thesis using assms(3) by (simp add: migrated_stop)
  qed
qed

text \<open>Migrations are all or nothing, each at most once, in the order of their names: whatever fails, what is committed is the old
  data with a prefix of the pending files applied in order and exactly those files recorded with their checksums; and a
  run that returns Ok has applied them all and found the recorded checksums of the others unchanged.\<close>

theorem migrations_all_or_nothing:
  assumes "migrate batch read_dir dir c = (r, c')" "read_migrations dir (read_dir dir) = Inr files" "mc_begin c = None" "distinct (map fst files)"
  shows "sorted (map fst files) \<and>
     (\<exists>done. prefix done (pending (mc_applied c) files) \<and>
        committed c' = (apply_all batch done (mc_data c), mc_applied c @ ledger done) \<and>
        (r = Inr () \<longrightarrow> done = pending (mc_applied c) files \<and> mc_begin c' = None \<and> checked (mc_applied c) files))"
  using migrate_run [OF assms] read_sorted [OF assms(2)] by (simp add: migrated_def)

definition demo_listing :: "(string + (string + mig_entry) list) option" where
  "demo_listing = Some (Inr [Inr \<lparr>me_name = ''2.sql'', me_sql_ext = True, me_read = Inr ''bad''\<rparr>, Inl ''x'',
     Inr \<lparr>me_name = ''1.sql'', me_sql_ext = True, me_read = Inr ''a''\<rparr>, Inr \<lparr>me_name = ''n.txt'', me_sql_ext = False, me_read = Inl ''y''\<rparr>])"

definition demo_batch :: "string \<Rightarrow> string list \<Rightarrow> libsql_error option \<times> string list" where
  "demo_batch sql d = (if sql = ''bad'' then (Some QueryReturnedNoRows, d @ [''partial'']) else (None, d @ [sql]))"

definition demo_conn :: "string list mconn" where
  "demo_conn = \<lparr>mc_data = [], mc_applied = [], mc_begin = None, mc_faults = []\<rparr>"

theorem migrations_all_or_nothing_witness:
  "\<exists>done. prefix done [(''1.sql'', ''a''), (''2.sql'', ''bad'')] \<and>
     committed (snd (migrate demo_batch (\<lambda>_. demo_listing) ''m'' demo_conn)) = (apply_all demo_batch done [], ledger done)"
proof -
  have r: "read_migrations ''m'' demo_listing = Inr [(''1.sql'', ''a''), (''2.sql'', ''bad'')]" by code_simp
  have "pending (mc_applied demo_conn) [(''1.sql'', ''a''), (''2.sql'', ''bad'')] = [(''1.sql'', ''a''), (''2.sql'', ''bad'')]" by code_simp
  then show ?thesis
    using migrations_all_or_nothing [of demo_batch "\<lambda>_. demo_listing" "''m''" demo_conn "fst (migrate demo_batch (\<lambda>_. demo_listing) ''m'' demo_conn)"
        "snd (migrate demo_batch (\<lambda>_. demo_listing) ''m'' demo_conn)", OF _ r]
    by (auto simp: demo_conn_def)
qed

lemma demo_migration_rolled_back: "snd (migrate demo_batch (\<lambda>_. demo_listing) ''m'' demo_conn) = demo_conn\<lparr>mc_data := [''a''], mc_applied := ledger [(''1.sql'', ''a'')]\<rparr>"
  by code_simp

lemma migrate_files_skip:
  assumes "list_all (\<lambda>(name, sql). map_of (mc_applied c) name = Some (fnv1a_hex (as_bytes sql))) files" "mc_faults c = []"
  shows "migrate_files batch files c = (Inr (), c)"
  using assms(1)
proof (induction files)
  case (Cons f files)
  obtain name sql where f: "f = (name, sql)" by (cases f)
  have "c\<lparr>mc_faults := []\<rparr> = c" using assms(2) by (metis mconn.surjective mconn.update_convs(4))
  then have "mc_run (select_checksum name) c = (Inr (map_of (mc_applied c) name), c)" using assms(2) by (simp add: mc_run_def select_checksum_def)
  then show ?case using Cons f by simp
qed simp

text \<open>Running the migrations again does nothing: after a run that returned Ok, another one without faults returns Ok and executes no
  SQL of the files, whatever it would do.\<close>

theorem migrate_again_does_nothing:
  assumes "migrate batch read_dir dir c = (Inr (), c')" "read_migrations dir (read_dir dir) = Inr files" "mc_begin c = None" "distinct (map fst files)"
    "distinct (map fst (mc_applied c))" "mc_faults c' = []"
  shows "migrate batch2 read_dir dir c' = (Inr (), c')"
proof -
  let ?p = "pending (mc_applied c) files"
  from migrate_run [OF assms(1-4)] have c': "mc_applied c' = mc_applied c @ ledger ?p" "checked (mc_applied c) files"
    by (auto simp: migrated_def committed_def)
  have "map_of (mc_applied c') name = Some (fnv1a_hex (as_bytes sql))" if "(name, sql) \<in> set files" for name sql
  proof (cases "map_of (mc_applied c) name")
    case None
    then have "(name, sql) \<in> set ?p" using that by (simp add: pending_def map_of_eq_None_iff)
    moreover have "distinct (map fst (ledger ?p))"
      using assms(4) by (simp add: ledger_def pending_def split_def comp_def distinct_map_filter)
    ultimately have "map_of (ledger ?p) name = Some (fnv1a_hex (as_bytes sql))" by (force simp: ledger_def intro: map_of_is_SomeI)
    then show ?thesis using None c'(1) by (simp add: map_add_def)
  next
    case (Some x)
    then have "x = fnv1a_hex (as_bytes sql)" using c'(2) that by (fastforce simp: checked_def list_all_iff)
    moreover have "name \<notin> fst ` set (ledger ?p)"
      using Some by (auto simp: ledger_def pending_def) (metis domI dom_map_of_conv_image_fst fst_conv image_eqI)
    ultimately show ?thesis using Some c'(1) by (simp add: map_add_def map_of_eq_None_iff [THEN iffD2])
  qed
  then have "migrate_files batch2 files c' = (Inr (), c')" using assms(6) by (intro migrate_files_skip) (auto simp: list_all_iff)
  moreover have "mc_run (\<lambda>c. (Inr (), c)) c' = (Inr (), c')" using assms(6) by (cases c') (simp add: mc_run_def)
  ultimately show ?thesis using assms(2) by (simp add: migrate_def)
qed

theorem migrate_again_does_nothing_witness:
  "migrate (\<lambda>_ _. (None, [])) (\<lambda>_. Some (Inr [Inr \<lparr>me_name = ''1.sql'', me_sql_ext = True, me_read = Inr ''a''\<rparr>])) ''m''
     (demo_conn\<lparr>mc_data := [''a''], mc_applied := ledger [(''1.sql'', ''a'')]\<rparr>) =
   (Inr (), demo_conn\<lparr>mc_data := [''a''], mc_applied := ledger [(''1.sql'', ''a'')]\<rparr>)"
proof (rule migrate_again_does_nothing)
  show "migrate demo_batch (\<lambda>_. Some (Inr [Inr \<lparr>me_name = ''1.sql'', me_sql_ext = True, me_read = Inr ''a''\<rparr>])) ''m'' demo_conn =
     (Inr (), demo_conn\<lparr>mc_data := [''a''], mc_applied := ledger [(''1.sql'', ''a'')]\<rparr>)" by code_simp
  show "read_migrations ''m'' (Some (Inr [Inr \<lparr>me_name = ''1.sql'', me_sql_ext = True, me_read = Inr ''a''\<rparr>])) = Inr [(''1.sql'', ''a'')]" by code_simp
qed (simp_all add: demo_conn_def)

text \<open>A second connection that looked before the first one committed cannot apply the file: the record exists by then, and its own run
  fails. Two concurrent first runs are not both successful.\<close>

lemma late_apply_fails:
  assumes "name \<in> fst ` set (mc_applied c)"
  shows "\<exists>e. fst (apply_migration batch name sql checksum c) = Inl e"
  using assms
  by (auto simp: apply_migration_def mc_run_def run_batch_def insert_migration_def Let_def
      split: prod.splits sum.splits list.splits option.splits if_splits)

end
