(* ===== verification/Pool.thy ===== *)
theory Pool
  imports Migrations Text
begin

text \<open>
  Opening databases: configuration (\<^verbatim>\<open>src/src/db/config.rs\<close>), \<^verbatim>\<open>connect\<close> (\<^verbatim>\<open>src/src/db/connect.rs\<close>) and the pool of shard databases
  (\<^verbatim>\<open>src/src/db/pool.rs\<close>). The pool looks a shard up, opens it without holding a lock, and then stores it, so calls can
  interleave; the step relation \<open>pool_step\<close> has one step for each of the three. libsql, directories and the hash
  function are parameters.
\<close>

section \<open>Configuration\<close>

datatype journal_mode = JWal | JDelete | JTruncate | JMemory | JOff

fun journal_mode_str :: "journal_mode \<Rightarrow> string" where
  "journal_mode_str JWal = ''WAL''"
| "journal_mode_str JDelete = ''DELETE''"
| "journal_mode_str JTruncate = ''TRUNCATE''"
| "journal_mode_str JMemory = ''MEMORY''"
| "journal_mode_str JOff = ''OFF''"

datatype synchronous_mode = SyncOff | SyncNormal | SyncFull | SyncExtra

fun synchronous_mode_str :: "synchronous_mode \<Rightarrow> string" where
  "synchronous_mode_str SyncOff = ''OFF''"
| "synchronous_mode_str SyncNormal = ''NORMAL''"
| "synchronous_mode_str SyncFull = ''FULL''"
| "synchronous_mode_str SyncExtra = ''EXTRA''"

datatype temp_store = TempDefault | TempFile | TempMemory

fun temp_store_str :: "temp_store \<Rightarrow> string" where
  "temp_store_str TempDefault = ''DEFAULT''"
| "temp_store_str TempFile = ''FILE''"
| "temp_store_str TempMemory = ''MEMORY''"

record pool_config =
  pl_base_path :: string
  pl_lock_shards :: nat

definition pool_config_default :: pool_config where
  "pool_config_default = \<lparr>pl_base_path = ''data/shards'', pl_lock_shards = 16\<rparr>"

record db_config =
  dc_path :: string
  dc_migrations :: "string option"
  dc_busy_timeout :: nat
  dc_cache_size :: int
  dc_mmap_size :: nat
  dc_journal_mode :: journal_mode
  dc_synchronous :: synchronous_mode
  dc_foreign_keys :: bool
  dc_temp_store :: temp_store
  dc_pool :: "pool_config option"

definition db_config_default :: db_config where
  "db_config_default =
     \<lparr>dc_path = ''data/app.db'', dc_migrations = None, dc_busy_timeout = 5000, dc_cache_size = 16384, dc_mmap_size = 268435456,
      dc_journal_mode = JWal, dc_synchronous = SyncNormal, dc_foreign_keys = True, dc_temp_store = TempMemory, dc_pool = None\<rparr>"

section \<open>Connecting\<close>

definition connect_pragmas :: "db_config \<Rightarrow> string list" where
  "connect_pragmas config =
     [''PRAGMA journal_mode='' @ journal_mode_str (dc_journal_mode config),
      ''PRAGMA synchronous='' @ synchronous_mode_str (dc_synchronous config),
      ''PRAGMA busy_timeout='' @ nat_dec (dc_busy_timeout config),
      ''PRAGMA cache_size=-'' @ int_dec (dc_cache_size config),
      ''PRAGMA mmap_size='' @ nat_dec (dc_mmap_size config),
      ''PRAGMA foreign_keys='' @ (if dc_foreign_keys config then ''ON'' else ''OFF''),
      ''PRAGMA temp_store='' @ temp_store_str (dc_temp_store config)]"

text \<open>The outside world of \<open>connect\<close>: the parent of a path, making its directory (with the text of the error), opening the file,
  running a pragma and the migrations on the new connection.\<close>

record ('c, 'w) connect_env =
  ce_parent :: "string \<Rightarrow> string option"
  ce_mkdir :: "string \<Rightarrow> 'w \<Rightarrow> (string + unit) \<times> 'w"
  ce_open :: "string \<Rightarrow> 'w \<Rightarrow> (libsql_error + 'c) \<times> 'w"
  ce_query :: "'c \<Rightarrow> string \<Rightarrow> 'w \<Rightarrow> (libsql_error + unit) \<times> 'w"
  ce_migrate :: "'c \<Rightarrow> string \<Rightarrow> 'w \<Rightarrow> unit result \<times> 'w"

fun run_pragmas :: "('c, 'w) connect_env \<Rightarrow> 'c \<Rightarrow> string list \<Rightarrow> 'w \<Rightarrow> unit result \<times> 'w" where
  "run_pragmas env c [] w = (Inr (), w)"
| "run_pragmas env c (p # ps) w =
     (case ce_query env c p w of
        (Inl e, w') \<Rightarrow> (Inl (error_from_libsql e), w')
      | (Inr _, w') \<Rightarrow> run_pragmas env c ps w')"

definition make_parent :: "('c, 'w) connect_env \<Rightarrow> string \<Rightarrow> 'w \<Rightarrow> unit result \<times> 'w" where
  "make_parent env path w =
     (case ce_parent env path of
        Some parent \<Rightarrow>
          if parent \<noteq> []
          then (case ce_mkdir env parent w of
                  (r, w') \<Rightarrow> (map_err (\<lambda>e. chain (SrcOther e) (internal (''failed to create database directory: '' @ [CHR 0x22] @ parent @ [CHR 0x22]))) r, w'))
          else (Inr (), w)
      | None \<Rightarrow> (Inr (), w))"

definition connect :: "('c, 'w) connect_env \<Rightarrow> db_config \<Rightarrow> 'w \<Rightarrow> 'c result \<times> 'w" where
  "connect env config w =
     (case make_parent env (dc_path config) w of
        (Inl e, w1) \<Rightarrow> (Inl e, w1)
      | (Inr _, w1) \<Rightarrow>
          (case ce_open env (dc_path config) w1 of
             (Inl e, w2) \<Rightarrow> (Inl (error_from_libsql e), w2)
           | (Inr conn, w2) \<Rightarrow>
               (case run_pragmas env conn (connect_pragmas config) w2 of
                  (Inl e, w3) \<Rightarrow> (Inl e, w3)
                | (Inr _, w3) \<Rightarrow>
                    (case dc_migrations config of
                       None \<Rightarrow> (Inr conn, w3)
                     | Some dir \<Rightarrow>
                         (case ce_migrate env conn dir w3 of
                            (Inl e, w4) \<Rightarrow> (Inl e, w4)
                          | (Inr _, w4) \<Rightarrow> (Inr conn, w4))))))"

section \<open>The sharded map\<close>

type_synonym 'v sharded_map = "(string \<rightharpoonup> 'v) list"

definition pool_sharded_new :: "nat \<Rightarrow> 'v sharded_map" where
  "pool_sharded_new num_shards = replicate num_shards Map.empty"

definition pool_shard_index :: "(string \<Rightarrow> nat) \<Rightarrow> 'v sharded_map \<Rightarrow> string \<Rightarrow> nat" where
  "pool_shard_index hash shards key = hash key mod length shards"

definition sharded_get :: "(string \<Rightarrow> nat) \<Rightarrow> string \<Rightarrow> 'v sharded_map \<Rightarrow> 'v option" where
  "sharded_get hash key shards = (shards ! pool_shard_index hash shards key) key"

definition sharded_insert :: "(string \<Rightarrow> nat) \<Rightarrow> string \<Rightarrow> 'v \<Rightarrow> 'v sharded_map \<Rightarrow> 'v sharded_map" where
  "sharded_insert hash key v shards =
     (let idx = pool_shard_index hash shards key in shards[idx := (shards ! idx)(key \<mapsto> v)])"

text \<open>What the pool relies on: a map.\<close>

locale key_store =
  fixes wf :: "'m \<Rightarrow> bool" and get :: "string \<Rightarrow> 'm \<Rightarrow> 'v option" and ins :: "string \<Rightarrow> 'v \<Rightarrow> 'm \<Rightarrow> 'm"
  assumes wf_ins: "wf m \<Longrightarrow> wf (ins k v m)"
    and get_ins: "wf m \<Longrightarrow> get j (ins k v m) = (if j = k then Some v else get j m)"
begin

lemma get_fold:
  assumes "wf m"
  shows "get j (foldl (\<lambda>m (k, v). ins k v m) m kvs) = (case map_of (rev kvs) j of Some v \<Rightarrow> Some v | None \<Rightarrow> get j m)"
  using assms
proof (induction kvs arbitrary: m)
  case (Cons kv kvs)
  obtain k v where "kv = (k, v)" by (cases kv)
  then show ?case using Cons.IH [of "ins k v m"] Cons.prems by (auto simp: wf_ins get_ins map_add_def split: option.splits)
qed simp

end

interpretation sharded: key_store "\<lambda>m. m \<noteq> []" "sharded_get hash" "sharded_insert hash" for hash
proof unfold_locales
  fix m :: "'v sharded_map" and k :: string and v :: 'v
  assume "m \<noteq> []"
  then show "sharded_insert hash k v m \<noteq> []" by (simp add: sharded_insert_def Let_def)
next
  fix m :: "'v sharded_map" and j k :: string and v :: 'v
  assume "m \<noteq> []"
  then have "pool_shard_index hash m j < length m" for j by (simp add: pool_shard_index_def)
  then show "sharded_get hash j (sharded_insert hash k v m) = (if j = k then Some v else sharded_get hash j m)"
    by (auto simp: sharded_get_def sharded_insert_def pool_shard_index_def Let_def nth_list_update)
qed

section \<open>The pool\<close>

text \<open>\<^verbatim>\<open>Path::join\<close>.\<close>

definition path_join :: "string \<Rightarrow> string \<Rightarrow> string" where
  "path_join base f =
     (if starts_with ''/'' f then f else if base = [] \<or> last base = CHR ''/'' then base @ f else base @ ''/'' @ f)"

definition shard_name_ok :: "string \<Rightarrow> bool" where
  "shard_name_ok name \<longleftrightarrow>
     \<not> (name = [] \<or> starts_with ''.'' name \<or> CHR ''/'' \<in> set name \<or> CHR 0x5C \<in> set name \<or> CHR 0x00 \<in> set name)"

definition shard_path :: "pool_config \<Rightarrow> string \<Rightarrow> string" where
  "shard_path pc name =
     (if pl_base_path pc = '':memory:'' then '':memory:'' else path_join (pl_base_path pc) (name @ ''.db''))"

definition shard_config :: "db_config \<Rightarrow> pool_config \<Rightarrow> string \<Rightarrow> db_config" where
  "shard_config config pc name = config\<lparr>dc_path := shard_path pc name, dc_pool := None\<rparr>"

record 'c database_pool =
  dp_default :: 'c
  dp_config :: db_config
  dp_pool_config :: pool_config
  dp_shards :: "'c sharded_map"

definition database_pool_new :: "('c, 'w) connect_env \<Rightarrow> db_config \<Rightarrow> 'w \<Rightarrow> 'c database_pool result \<times> 'w" where
  "database_pool_new env config w =
     (case dc_pool config of
        None \<Rightarrow> (Inl (internal ''database pool config is required''), w)
      | Some pc \<Rightarrow>
          if pl_lock_shards pc = 0 then (Inl (internal ''pool lock_shards must be greater than 0''), w)
          else (case connect env config w of
                  (Inl e, w') \<Rightarrow> (Inl e, w')
                | (Inr c, w') \<Rightarrow>
                    (Inr \<lparr>dp_default = c, dp_config = config, dp_pool_config = pc, dp_shards = pool_sharded_new (pl_lock_shards pc)\<rparr>, w')))"

text \<open>A call with no other one in between; \<open>debug\<close> prints a string the way \<^verbatim>\<open>{:?}\<close> does.\<close>

definition pool_conn ::
  "(string \<Rightarrow> nat) \<Rightarrow> (string \<Rightarrow> string) \<Rightarrow> ('c, 'w) connect_env \<Rightarrow> string option \<Rightarrow> 'c database_pool \<Rightarrow> 'w \<Rightarrow> 'c result \<times> 'c database_pool \<times> 'w" where
  "pool_conn hash debug env shard pool w =
     (case shard of
        None \<Rightarrow> (Inr (dp_default pool), pool, w)
      | Some name \<Rightarrow>
          if \<not> shard_name_ok name then (Inl (bad_request (''invalid shard name: '' @ debug name)), pool, w)
          else (case sharded_get hash name (dp_shards pool) of
                  Some db \<Rightarrow> (Inr db, pool, w)
                | None \<Rightarrow>
                    (case connect env (shard_config (dp_config pool) (dp_pool_config pool) name) w of
                       (Inl e, w') \<Rightarrow> (Inl (chain (SrcOther (err_message e)) (internal (''failed to open shard database: '' @ name))), pool, w')
                     | (Inr db, w') \<Rightarrow> (Inr db, pool\<lparr>dp_shards := sharded_insert hash name db (dp_shards pool)\<rparr>, w'))))"

section \<open>Concurrent calls\<close>

text \<open>A handle is the path it was opened with and its number; databases in memory are private to their handle.\<close>

record handle =
  h_path :: string
  h_id :: nat

definition storage_of :: "handle \<Rightarrow> nat + string" where
  "storage_of h = (if h_path h = '':memory:'' then Inl (h_id h) else Inr (h_path h))"

datatype pool_call = Opening string | Opened string handle

record pool_state =
  ps_shards :: "handle sharded_map"
  ps_calls :: "pool_call list"
  ps_opened :: nat
  ps_returned :: "(string \<times> handle) list"

definition pool_start :: "pool_config \<Rightarrow> pool_state" where
  "pool_start pc = \<lparr>ps_shards = pool_sharded_new (pl_lock_shards pc), ps_calls = [], ps_opened = 0, ps_returned = []\<rparr>"

inductive pool_step :: "(string \<Rightarrow> nat) \<Rightarrow> pool_config \<Rightarrow> pool_state \<Rightarrow> pool_state \<Rightarrow> bool" for hash pc where
  hit: "shard_name_ok name \<Longrightarrow> sharded_get hash name (ps_shards s) = Some h \<Longrightarrow>
      pool_step hash pc s (s\<lparr>ps_returned := (name, h) # ps_returned s\<rparr>)"
| miss: "shard_name_ok name \<Longrightarrow> sharded_get hash name (ps_shards s) = None \<Longrightarrow>
      pool_step hash pc s (s\<lparr>ps_calls := Opening name # ps_calls s\<rparr>)"
| opens: "ps_calls s = xs @ Opening name # ys \<Longrightarrow>
      pool_step hash pc s (s\<lparr>ps_calls := xs @ Opened name \<lparr>h_path = shard_path pc name, h_id = ps_opened s\<rparr> # ys, ps_opened := Suc (ps_opened s)\<rparr>)"
| fails: "ps_calls s = xs @ Opening name # ys \<Longrightarrow> pool_step hash pc s (s\<lparr>ps_calls := xs @ ys\<rparr>)"
| stores: "ps_calls s = xs @ Opened name h # ys \<Longrightarrow>
      pool_step hash pc s (s\<lparr>ps_calls := xs @ ys, ps_shards := sharded_insert hash name h (ps_shards s), ps_returned := (name, h) # ps_returned s\<rparr>)"

fun call_ok :: "pool_config \<Rightarrow> pool_call \<Rightarrow> bool" where
  "call_ok pc (Opening name) \<longleftrightarrow> shard_name_ok name"
| "call_ok pc (Opened name h) \<longleftrightarrow> shard_name_ok name \<and> h_path h = shard_path pc name"

definition pool_inv :: "(string \<Rightarrow> nat) \<Rightarrow> pool_config \<Rightarrow> pool_state \<Rightarrow> bool" where
  "pool_inv hash pc s \<longleftrightarrow>
     ps_shards s \<noteq> [] \<and> list_all (call_ok pc) (ps_calls s) \<and>
     (\<forall>name h. sharded_get hash name (ps_shards s) = Some h \<longrightarrow> h_path h = shard_path pc name) \<and>
     (\<forall>name h. (name, h) \<in> set (ps_returned s) \<longrightarrow> shard_name_ok name \<and> h_path h = shard_path pc name)"

lemma pool_step_inv: "pool_step hash pc s s' \<Longrightarrow> pool_inv hash pc s \<Longrightarrow> pool_inv hash pc s'"
proof (induction rule: pool_step.induct)
  case (stores s xs name h ys)
  then show ?case by (auto simp: pool_inv_def sharded.wf_ins sharded.get_ins)
qed (auto simp: pool_inv_def)

lemma pool_start_inv: "0 < pl_lock_shards pc \<Longrightarrow> pool_inv hash pc (pool_start pc)"
  by (simp add: pool_inv_def pool_start_def pool_sharded_new_def sharded_get_def pool_shard_index_def)

lemma pool_reach_inv: "(pool_step hash pc)\<^sup>*\<^sup>* (pool_start pc) s \<Longrightarrow> 0 < pl_lock_shards pc \<Longrightarrow> pool_inv hash pc s"
  by (induction rule: rtranclp_induct) (simp_all add: pool_start_inv pool_step_inv)

lemma shard_path_file:
  assumes "shard_name_ok name" "pl_base_path pc \<noteq> '':memory:''"
  shows "shard_path pc name = (if pl_base_path pc = [] \<or> last (pl_base_path pc) = CHR ''/'' then pl_base_path pc else pl_base_path pc @ ''/'') @ name @ ''.db''"
proof -
  have "\<not> starts_with ''/'' (name @ ''.db'')" using assms(1) by (cases name) (auto simp: shard_name_ok_def starts_with_def)
  then show ?thesis using assms(2) by (simp add: shard_path_def path_join_def)
qed

text \<open>A shard is one file: however calls interleave, every handle returned for a shard name is opened on the file of that name
  directly in the base directory, so handles share their data exactly when they were asked for by the same name.\<close>

theorem pool_one_database_per_shard:
  assumes "(pool_step hash pc)\<^sup>*\<^sup>* (pool_start pc) s" "0 < pl_lock_shards pc" "pl_base_path pc \<noteq> '':memory:''"
    "(n1, h1) \<in> set (ps_returned s)" "(n2, h2) \<in> set (ps_returned s)"
  shows "(storage_of h1 = storage_of h2 \<longleftrightarrow> n1 = n2) \<and> CHR ''/'' \<notin> set n1 \<and>
     (\<exists>dir. storage_of h1 = Inr (dir @ n1 @ ''.db'') \<and> (dir = pl_base_path pc \<or> dir = pl_base_path pc @ ''/''))"
proof -
  have ok: "shard_name_ok n1" "h_path h1 = shard_path pc n1" "shard_name_ok n2" "h_path h2 = shard_path pc n2"
    using pool_reach_inv [OF assms(1,2)] assms(4,5) unfolding pool_inv_def by blast+
  let ?dir = "if pl_base_path pc = [] \<or> last (pl_base_path pc) = CHR ''/'' then pl_base_path pc else pl_base_path pc @ ''/''"
  have p: "h_path h1 = ?dir @ n1 @ ''.db''" "h_path h2 = ?dir @ n2 @ ''.db''" using ok shard_path_file assms(3) by metis+
  have "x @ ''.db'' \<noteq> '':memory:''" for x :: string
  proof
    assume "x @ ''.db'' = '':memory:''"
    then have "last (x @ ''.db'') = last '':memory:''" by simp
    then show False by simp
  qed
  then have "storage_of h1 = Inr (?dir @ n1 @ ''.db'')" "storage_of h2 = Inr (?dir @ n2 @ ''.db'')"
    unfolding storage_of_def p append.assoc [symmetric] by simp_all
  then show ?thesis using ok(1) by (auto simp: shard_name_ok_def)
qed

definition demo_pool :: pool_config where
  "demo_pool = \<lparr>pl_base_path = ''d'', pl_lock_shards = 1\<rparr>"

definition race_state :: "pool_config \<Rightarrow> pool_state" where
  "race_state pc = (pool_start pc)
     \<lparr>ps_opened := 2, ps_shards := sharded_insert (\<lambda>_. 0) ''a'' \<lparr>h_path = shard_path pc ''a'', h_id = 1\<rparr>
         (sharded_insert (\<lambda>_. 0) ''a'' \<lparr>h_path = shard_path pc ''a'', h_id = 0\<rparr> (ps_shards (pool_start pc))),
      ps_returned := [(''a'', \<lparr>h_path = shard_path pc ''a'', h_id = 1\<rparr>), (''a'', \<lparr>h_path = shard_path pc ''a'', h_id = 0\<rparr>)]\<rparr>"

text \<open>Two calls look the shard up before either has stored it.\<close>

lemma race_reachable:
  assumes "pl_lock_shards pc = 1"
  shows "(pool_step (\<lambda>_. 0) pc)\<^sup>*\<^sup>* (pool_start pc) (race_state pc)"
proof -
  let ?s0 = "pool_start pc" and ?p = "shard_path pc ''a''"
  let ?s1 = "?s0\<lparr>ps_calls := [Opening ''a'']\<rparr>"
  let ?s2 = "?s0\<lparr>ps_calls := [Opening ''a'', Opening ''a'']\<rparr>"
  let ?s3 = "?s0\<lparr>ps_calls := [Opened ''a'' \<lparr>h_path = ?p, h_id = 0\<rparr>, Opening ''a''], ps_opened := 1\<rparr>"
  let ?s4 = "?s0\<lparr>ps_calls := [Opened ''a'' \<lparr>h_path = ?p, h_id = 0\<rparr>, Opened ''a'' \<lparr>h_path = ?p, h_id = 1\<rparr>], ps_opened := 2\<rparr>"
  let ?s5 = "?s0\<lparr>ps_calls := [Opened ''a'' \<lparr>h_path = ?p, h_id = 1\<rparr>], ps_opened := 2,
      ps_shards := sharded_insert (\<lambda>_. 0) ''a'' \<lparr>h_path = ?p, h_id = 0\<rparr> (ps_shards ?s0), ps_returned := [(''a'', \<lparr>h_path = ?p, h_id = 0\<rparr>)]\<rparr>"
  have ok: "shard_name_ok ''a''" by code_simp
  have none: "sharded_get (\<lambda>_. 0) ''a'' (ps_shards ?s0) = None"
    using assms by (simp add: pool_start_def pool_sharded_new_def sharded_get_def pool_shard_index_def)
  have "pool_step (\<lambda>_. 0) pc ?s0 ?s1" using pool_step.miss [OF ok none] by (simp add: pool_start_def)
  moreover have "pool_step (\<lambda>_. 0) pc ?s1 ?s2" using pool_step.miss [OF ok, of "\<lambda>_. 0" ?s1] none by (simp add: pool_start_def)
  moreover have "pool_step (\<lambda>_. 0) pc ?s2 ?s3" using pool_step.opens [of ?s2 "[]" "''a''" "[Opening ''a'']"] by (simp add: pool_start_def)
  moreover have "pool_step (\<lambda>_. 0) pc ?s3 ?s4"
    using pool_step.opens [of ?s3 "[Opened ''a'' \<lparr>h_path = ?p, h_id = 0\<rparr>]" "''a''" "[]"] by (simp add: pool_start_def numeral_2_eq_2)
  moreover have "pool_step (\<lambda>_. 0) pc ?s4 ?s5"
    using pool_step.stores [of ?s4 "[]" "''a''" "\<lparr>h_path = ?p, h_id = 0\<rparr>" "[Opened ''a'' \<lparr>h_path = ?p, h_id = 1\<rparr>]"] by (simp add: pool_start_def)
  moreover have "pool_step (\<lambda>_. 0) pc ?s5 (race_state pc)"
    using pool_step.stores [of ?s5 "[]" "''a''" "\<lparr>h_path = ?p, h_id = 1\<rparr>" "[]"] by (simp add: pool_start_def race_state_def)
  ultimately show ?thesis by (meson converse_rtranclp_into_rtranclp rtranclp.rtrancl_refl)
qed

theorem pool_one_database_per_shard_witness:
  "storage_of \<lparr>h_path = shard_path demo_pool ''a'', h_id = 1\<rparr> = storage_of \<lparr>h_path = shard_path demo_pool ''a'', h_id = 0\<rparr>"
  using pool_one_database_per_shard [OF race_reachable [of demo_pool], of "''a''" "\<lparr>h_path = shard_path demo_pool ''a'', h_id = 1\<rparr>" "''a''"
      "\<lparr>h_path = shard_path demo_pool ''a'', h_id = 0\<rparr>"]
  by (simp add: demo_pool_def race_state_def)

text \<open>In memory the same interleaving gives two callers different databases under one name.\<close>

lemma memory_shards_diverge:
  "\<exists>s h1 h2. (pool_step (\<lambda>_. 0) \<lparr>pl_base_path = '':memory:'', pl_lock_shards = 1\<rparr>)\<^sup>*\<^sup>* (pool_start \<lparr>pl_base_path = '':memory:'', pl_lock_shards = 1\<rparr>) s \<and>
     (''a'', h1) \<in> set (ps_returned s) \<and> (''a'', h2) \<in> set (ps_returned s) \<and> storage_of h1 \<noteq> storage_of h2"
proof (intro exI conjI)
  let ?pc = "\<lparr>pl_base_path = '':memory:'', pl_lock_shards = 1\<rparr>"
  show "(pool_step (\<lambda>_. 0) ?pc)\<^sup>*\<^sup>* (pool_start ?pc) (race_state ?pc)" by (rule race_reachable) simp
  show "(''a'', \<lparr>h_path = '':memory:'', h_id = 1\<rparr>) \<in> set (ps_returned (race_state ?pc))" by (simp add: race_state_def shard_path_def)
  show "(''a'', \<lparr>h_path = '':memory:'', h_id = 0\<rparr>) \<in> set (ps_returned (race_state ?pc))" by (simp add: race_state_def shard_path_def)
qed (simp add: storage_of_def)

end
