(* ===== verification/Templates.thy ===== *)
theory Templates
  imports Guards Csrf_Flash Middleware
begin

text \<open>
  HTML templates (\<^verbatim>\<open>src/src/template\<close>): the context that the layer builds for a request, its merging with a handler's values, the renderer
  and its choice between page and partial, and static files with their versioned URLs. minijinja is a parameter: finding a template
  and rendering it, and the values that handlers pass. A directory is a finite tree of files.
\<close>

section \<open>Configuration and context\<close>

record template_config =
  tc_templates_path :: string
  tc_static_path :: string
  tc_static_url_prefix :: string

definition template_config_default :: template_config where
  "template_config_default = \<lparr>tc_templates_path = ''templates'', tc_static_path = ''static'', tc_static_url_prefix = ''/assets''\<rparr>"

text \<open>The values of a context: texts, flags, the functions the layer installs, and the values of handlers.\<close>

datatype 'h tvalue =
    TStr string | TBool bool | TFlashMessages flash_state | TTierHas tier_info | TTierEnabled tier_info | TTierLimit tier_info | THandler 'h

type_synonym 'h template_context = "string \<rightharpoonup> 'h tvalue"

definition ctx_set :: "string \<Rightarrow> 'h tvalue \<Rightarrow> 'h template_context \<Rightarrow> 'h template_context" where
  "ctx_set key value ctx = ctx(key \<mapsto> value)"

definition ctx_get :: "string \<Rightarrow> 'h template_context \<Rightarrow> 'h tvalue option" where
  "ctx_get key ctx = ctx key"

text \<open>A handler's value: the keys it iterates over, if it can be iterated, and its attributes.\<close>

record 'h handler_value =
  hv_keys :: "string list option"
  hv_attr :: "string \<Rightarrow> 'h option"

definition ctx_merge :: "'h template_context \<Rightarrow> 'h handler_value \<Rightarrow> 'h template_context" where
  "ctx_merge ctx h =
     (case hv_keys h of
        Some keys \<Rightarrow> foldl (\<lambda>merged key. case hv_attr h key of Some val \<Rightarrow> merged(key \<mapsto> THandler val) | None \<Rightarrow> merged) ctx keys
      | None \<Rightarrow> ctx)"

section \<open>The layer\<close>

record template_request =
  tq_uri :: string
  tq_parts :: parts
  tq_translator :: "translator option"
  tq_csrf :: "string option"
  tq_flash :: "flash_state option"
  tq_tier :: "tier_info option"

definition is_htmx_request :: "parts \<Rightarrow> bool" where
  "is_htmx_request parts \<longleftrightarrow> header_str parts ''hx-request'' = Some ''true''"

definition request_context :: "template_request \<Rightarrow> 'h template_context" where
  "request_context r =
     (let ctx1 = ctx_set ''is_htmx'' (TBool (is_htmx_request (tq_parts r))) (ctx_set ''current_url'' (TStr (tq_uri r)) Map.empty);
          ctx2 = (case header_str (tq_parts r) ''x-request-id'' of Some req_id \<Rightarrow> ctx_set ''request_id'' (TStr req_id) ctx1 | None \<Rightarrow> ctx1);
          ctx3 = (case tq_translator r of Some tr \<Rightarrow> ctx_set ''locale'' (TStr (tr_locale tr)) ctx2 | None \<Rightarrow> ctx2);
          ctx4 = (case tq_csrf r of Some token \<Rightarrow> ctx_set ''csrf_token'' (TStr token) ctx3 | None \<Rightarrow> ctx3);
          ctx5 = (case tq_flash r of Some st \<Rightarrow> ctx_set ''flash_messages'' (TFlashMessages st) ctx4 | None \<Rightarrow> ctx4)
      in case tq_tier r of
           Some ti \<Rightarrow>
             ctx_set ''tier_limit'' (TTierLimit ti) (ctx_set ''tier_enabled'' (TTierEnabled ti)
               (ctx_set ''tier_has'' (TTierHas ti) (ctx_set ''tier_name'' (TStr (ti_name ti)) ctx5)))
         | None \<Rightarrow> ctx5)"

text \<open>The functions, called from a template.\<close>

definition call_flash_messages :: "flash_state \<Rightarrow> (string \<times> string) list \<times> flash_state" where
  "call_flash_messages st = (incoming_as_template_value st, mark_read st)"

fun call_tier :: "'h tvalue \<Rightarrow> string \<Rightarrow> (bool + nat option) option" where
  "call_tier (TTierHas ti) name = Some (Inl (has_feature ti name))"
| "call_tier (TTierEnabled ti) name = Some (Inl (tier_is_enabled ti name))"
| "call_tier (TTierLimit ti) name = Some (Inr (tier_limit ti name))"
| "call_tier _ name = None"

section \<open>Rendering\<close>

record ('t, 'h) template_engine =
  te_get :: "string \<Rightarrow> string + 't"
  te_render :: "'t \<Rightarrow> 'h template_context \<Rightarrow> string + string"

definition engine_render :: "('t, 'h) template_engine \<Rightarrow> string \<Rightarrow> 'h template_context \<Rightarrow> string result" where
  "engine_render en name ctx =
     bind_res (map_err (\<lambda>e. internal (''Template '' @ [CHR 0x27] @ name @ [CHR 0x27] @ '' not found: '' @ e)) (te_get en name)) (\<lambda>t.
       map_err (\<lambda>e. internal (''Render error in '' @ [CHR 0x27] @ name @ [CHR 0x27] @ '': '' @ e)) (te_render en t ctx))"

record ('t, 'h) renderer =
  rd_engine :: "('t, 'h) template_engine"
  rd_context :: "'h template_context"
  rd_is_htmx :: bool

definition render_html :: "('t, 'h) renderer \<Rightarrow> string \<Rightarrow> 'h handler_value \<Rightarrow> string result" where
  "render_html r name h = engine_render (rd_engine r) name (ctx_merge (rd_context r) h)"

definition html_partial :: "('t, 'h) renderer \<Rightarrow> string \<Rightarrow> string \<Rightarrow> 'h handler_value \<Rightarrow> string result" where
  "html_partial r page partial h = render_html r (if rd_is_htmx r then partial else page) h"

definition render_string :: "('t, 'h) renderer \<Rightarrow> string \<Rightarrow> 'h handler_value \<Rightarrow> string result" where
  "render_string r name h = engine_render (rd_engine r) name (ctx_merge (rd_context r) h)"

text \<open>\<open>truthy\<close> is minijinja's on the values of handlers.\<close>

fun value_is_true :: "('h \<Rightarrow> bool) \<Rightarrow> 'h tvalue \<Rightarrow> bool" where
  "value_is_true truthy (TStr s) \<longleftrightarrow> s \<noteq> []"
| "value_is_true truthy (TBool b) \<longleftrightarrow> b"
| "value_is_true truthy (THandler h) \<longleftrightarrow> truthy h"
| "value_is_true truthy _ \<longleftrightarrow> True"

definition renderer_from_parts ::
  "('h \<Rightarrow> bool) \<Rightarrow> ('t, 'h) template_engine option \<Rightarrow> 'h template_context option \<Rightarrow> ('t, 'h) renderer result" where
  "renderer_from_parts truthy registered ext =
     bind_res (ok_or (internal ''Renderer requires Engine in service registry'') registered) (\<lambda>en.
     bind_res (ok_or (internal ''Renderer requires TemplateContextLayer middleware'') ext) (\<lambda>ctx.
       Inr \<lparr>rd_engine = en, rd_context = ctx,
            rd_is_htmx = (case ctx_get ''is_htmx'' ctx of Some v \<Rightarrow> value_is_true truthy v | None \<Rightarrow> False)\<rparr>))"

section \<open>Static files\<close>

datatype fs_node = FsFile "u8 list" | FsDir "(string \<times> fs_node) list"

definition short_hash :: "(u8 list \<Rightarrow> u8 list) \<Rightarrow> u8 list \<Rightarrow> string" where
  "short_hash digest content = take 8 (hex_sha256 digest content)"

text \<open>\<open>rel\<close>: the directory's path below the base, empty or ending in a slash.\<close>

fun walk_dir :: "(u8 list \<Rightarrow> u8 list) \<Rightarrow> string \<Rightarrow> fs_node \<Rightarrow> (string \<rightharpoonup> string) \<Rightarrow> (string \<rightharpoonup> string)"
  and walk_entries :: "(u8 list \<Rightarrow> u8 list) \<Rightarrow> string \<Rightarrow> (string \<times> fs_node) list \<Rightarrow> (string \<rightharpoonup> string) \<Rightarrow> (string \<rightharpoonup> string)" where
  "walk_dir digest path (FsFile content) hashes = hashes(path \<mapsto> short_hash digest content)"
| "walk_dir digest path (FsDir es) hashes = walk_entries digest (if path = [] then [] else path @ ''/'') es hashes"
| "walk_entries digest rel [] hashes = hashes"
| "walk_entries digest rel ((name, node) # es) hashes = walk_entries digest rel es (walk_dir digest (rel @ name) node hashes)"

definition compute_hashes :: "(u8 list \<Rightarrow> u8 list) \<Rightarrow> (string \<times> fs_node) list option \<Rightarrow> (string \<rightharpoonup> string)" where
  "compute_hashes digest static_dir = (case static_dir of Some es \<Rightarrow> walk_entries digest [] es Map.empty | None \<Rightarrow> Map.empty)"

definition build_static_url :: "string \<Rightarrow> (string \<rightharpoonup> string) \<Rightarrow> string \<Rightarrow> string" where
  "build_static_url prefix hashes path =
     (case hashes path of Some hash \<Rightarrow> prefix @ ''/'' @ path @ ''?v='' @ hash | None \<Rightarrow> prefix @ ''/'' @ path)"

definition cache_control_call :: "string \<Rightarrow> ('req \<Rightarrow> web_response) \<Rightarrow> 'req \<Rightarrow> web_response" where
  "cache_control_call value service req =
     (let resp = service req
      in if map_of (rs_headers resp) ''cache-control'' = None
         then resp\<lparr>rs_headers := headers_insert ''cache-control'' value (rs_headers resp)\<rparr> else resp)"

definition no_cache_middleware :: "('req \<Rightarrow> web_response) \<Rightarrow> 'req \<Rightarrow> web_response" where
  "no_cache_middleware = cache_control_call ''no-cache''"

definition immutable_cache_middleware :: "('req \<Rightarrow> web_response) \<Rightarrow> 'req \<Rightarrow> web_response" where
  "immutable_cache_middleware = cache_control_call ''public, max-age=31536000, immutable''"

section \<open>The context of a request\<close>

lemma ctx_merge_get:
  "ctx_merge ctx h k = (if hv_keys h \<noteq> None \<and> k \<in> set (the (hv_keys h)) \<and> hv_attr h k \<noteq> None then map_option THandler (hv_attr h k) else ctx k)"
proof (cases "hv_keys h")
  case (Some keys)
  have "foldl (\<lambda>merged key. case hv_attr h key of Some val \<Rightarrow> merged(key \<mapsto> THandler val) | None \<Rightarrow> merged) ctx keys k =
     (if k \<in> set keys \<and> hv_attr h k \<noteq> None then map_option THandler (hv_attr h k) else ctx k)"
    by (induction keys arbitrary: ctx) (auto split: option.splits)
  then show ?thesis using Some by (simp add: ctx_merge_def)
qed (simp add: ctx_merge_def)

text \<open>Partials are for htmx requests only, and handlers see the request: behind the layer, \<^verbatim>\<open>html_partial\<close> renders the partial exactly when
  the request has the header \<^verbatim>\<open>HX-Request: true\<close>, whatever the handler's values are; the context it renders with has the
  handler's value for each of its keys and the layer's value for every other key.\<close>

theorem partial_for_htmx:
  fixes r :: "('t, 'h) renderer"
  assumes "renderer_from_parts truthy (Some en) (Some (request_context req)) = Inr r"
  shows "html_partial r page partial h =
       engine_render en (if header_str (tq_parts req) ''hx-request'' = Some ''true'' then partial else page) (ctx_merge (request_context req) h) \<and>
     ctx_merge (request_context req) h k =
       (if hv_keys h \<noteq> None \<and> k \<in> set (the (hv_keys h)) \<and> hv_attr h k \<noteq> None then map_option THandler (hv_attr h k) else request_context req k)"
proof -
  have "(request_context req :: 'h template_context) ''is_htmx'' = Some (TBool (is_htmx_request (tq_parts req)))"
    by (simp add: request_context_def ctx_set_def Let_def split: option.split)
  then have "r = \<lparr>rd_engine = en, rd_context = request_context req, rd_is_htmx = is_htmx_request (tq_parts req)\<rparr>"
    using assms by (auto simp: renderer_from_parts_def ctx_get_def)
  then show ?thesis by (simp add: html_partial_def render_html_def is_htmx_request_def ctx_merge_get)
qed

definition demo_engine :: "(string, unit) template_engine" where
  "demo_engine = \<lparr>te_get = Inr, te_render = (\<lambda>t _. Inr t)\<rparr>"

definition demo_template_request :: template_request where
  "demo_template_request = \<lparr>tq_uri = ''/'', tq_parts = \<lparr>p_headers = [(''hx-request'', ''true'')], p_query = None\<rparr>, tq_translator = None,
     tq_csrf = None, tq_flash = None, tq_tier = None\<rparr>"

definition demo_renderer :: "(string, unit) renderer" where
  "demo_renderer = \<lparr>rd_engine = demo_engine, rd_context = request_context demo_template_request, rd_is_htmx = True\<rparr>"

theorem partial_for_htmx_witness:
  "html_partial demo_renderer ''page.html'' ''part.html'' \<lparr>hv_keys = Some [''is_htmx''], hv_attr = (\<lambda>_. Some ())\<rparr> = Inr ''part.html''"
proof -
  have h: "header_str (tq_parts demo_template_request) ''hx-request'' = Some ''true''" by code_simp
  have "request_context demo_template_request ''is_htmx'' = Some (TBool True :: unit tvalue)"
    by (simp add: request_context_def ctx_set_def Let_def is_htmx_request_def h demo_template_request_def header_str_def header_get_def
        to_ascii_lowercase_def header_to_str_def visible_ascii_def)
  then have r: "renderer_from_parts (\<lambda>_. True) (Some demo_engine) (Some (request_context demo_template_request)) = Inr demo_renderer"
    by (simp add: renderer_from_parts_def demo_renderer_def ctx_get_def)
  have "engine_render demo_engine ''part.html'' ctx = Inr ''part.html''" for ctx by (simp add: engine_render_def demo_engine_def)
  then show ?thesis using partial_for_htmx [OF r] h by simp
qed

section \<open>Versioned URLs\<close>

text \<open>The file under a path of names.\<close>

fun file_at :: "(string \<times> fs_node) list \<Rightarrow> string list \<Rightarrow> u8 list option" where
  "file_at es [] = None"
| "file_at es (n # ns) =
     (case map_of es n of
        None \<Rightarrow> None
      | Some (FsFile content) \<Rightarrow> if ns = [] then Some content else None
      | Some (FsDir sub) \<Rightarrow> file_at sub ns)"

fun tree_ok :: "fs_node \<Rightarrow> bool" and entries_ok :: "(string \<times> fs_node) list \<Rightarrow> bool" where
  "tree_ok (FsFile _) \<longleftrightarrow> True"
| "tree_ok (FsDir es) \<longleftrightarrow> entries_ok es"
| "entries_ok [] \<longleftrightarrow> True"
| "entries_ok ((name, node) # es) \<longleftrightarrow> name \<noteq> [] \<and> CHR ''/'' \<notin> set name \<and> name \<notin> fst ` set es \<and> tree_ok node \<and> entries_ok es"

definition found :: "string \<Rightarrow> (string \<times> fs_node) list \<Rightarrow> string \<Rightarrow> u8 list option" where
  "found rel es path = (if starts_with rel path then file_at es (split_on CHR ''/'' (drop (length rel) path)) else None)"

fun node_found :: "string \<Rightarrow> fs_node \<Rightarrow> string \<Rightarrow> u8 list option" where
  "node_found p (FsFile content) path = (if path = p then Some content else None)"
| "node_found p (FsDir es) path = found (p @ ''/'') es path"

lemma split_on_slash: "split_on c s = (if c \<in> set s then takeWhile (\<lambda>x. x \<noteq> c) s # split_on c (tl (dropWhile (\<lambda>x. x \<noteq> c) s)) else [s])"
proof (cases "split_once c s")
  case None
  then have "c \<notin> set s" by (simp add: split_once_None)
  then show ?thesis using None by (subst split_on.simps) simp
next
  case (Some p)
  obtain a b where p: "p = (a, b)" by (cases p)
  then have s: "s = a @ c # b" "c \<notin> set a" using Some split_once_Some by auto
  then have "takeWhile (\<lambda>x. x \<noteq> c) s = a" "dropWhile (\<lambda>x. x \<noteq> c) s = c # b" by (auto simp: takeWhile_append dropWhile_append)
  then show ?thesis using Some p s(1) by (subst split_on.simps) simp
qed

lemma split_on_Cons_iff:
  assumes "c \<notin> set n"
  shows "split_on c s = n # ns \<longleftrightarrow> s = n \<and> ns = [] \<or> (\<exists>r. s = n @ c # r \<and> ns = split_on c r)"
proof -
  have "\<exists>r. s = n @ c # r \<and> split_on c (tl (dropWhile (\<lambda>x. x \<noteq> c) s)) = split_on c r" if "c \<in> set s" "takeWhile (\<lambda>x. x \<noteq> c) s = n"
  proof -
    have "dropWhile (\<lambda>x. x \<noteq> c) s \<noteq> []" "hd (dropWhile (\<lambda>x. x \<noteq> c) s) = c"
      using that(1) hd_dropWhile [of "\<lambda>x. x \<noteq> c" s] by (auto simp: dropWhile_eq_Nil_conv)
    then have "s = n @ c # tl (dropWhile (\<lambda>x. x \<noteq> c) s)" using that(2) takeWhile_dropWhile_id [of "\<lambda>x. x \<noteq> c" s] by (metis list.collapse)
    then show ?thesis by blast
  qed
  moreover have "takeWhile (\<lambda>x. x \<noteq> c) (n @ c # r) = n" "dropWhile (\<lambda>x. x \<noteq> c) (n @ c # r) = c # r" for r
    using assms by (auto simp: takeWhile_append dropWhile_append)
  ultimately show ?thesis using assms unfolding split_on_slash [of c s] by auto
qed

lemma found_Cons:
  assumes "entries_ok ((name, node) # es)"
  shows "found rel ((name, node) # es) path = (case node_found (rel @ name) node path of Some c \<Rightarrow> Some c | None \<Rightarrow> found rel es path)"
    and "node_found (rel @ name) node path \<noteq> None \<Longrightarrow> found rel es path = None"
proof -
  have ok: "CHR ''/'' \<notin> set name" "map_of es name = None" using assms by (auto simp: map_of_eq_None_iff)
  have nf: "node_found (rel @ name) node path = (case split_on CHR ''/'' rest of n # ns \<Rightarrow> if n = name then file_at [(name, node)] (n # ns) else None | [] \<Rightarrow> None)"
    if "path = rel @ rest" for rest
  proof (cases "\<exists>ns. split_on CHR ''/'' rest = name # ns")
    case True
    then obtain ns where ns: "split_on CHR ''/'' rest = name # ns" by blast
    then consider "rest = name" "ns = []" | r where "rest = name @ CHR ''/'' # r" "ns = split_on CHR ''/'' r"
      using split_on_Cons_iff [OF ok(1)] by blast
    then show ?thesis
    proof cases
      case 1
      then show ?thesis using ns that by (cases node) (simp_all add: found_def starts_with_def)
    next
      case 2
      then have "ns \<noteq> []" by (metis list.distinct(1) split_on_slash)
      then show ?thesis using ns that 2 by (cases node) (simp_all add: found_def starts_with_def)
    qed
  next
    case False
    then have "rest \<noteq> name" "\<not> starts_with (name @ ''/'') rest"
      using split_on_Cons_iff [OF ok(1), of rest] by (auto simp: starts_with_iff)
    then have "node_found (rel @ name) node path = None" using that by (cases node) (auto simp: found_def starts_with_def)
    then show ?thesis using False by (auto split: list.split)
  qed
  have none: "node_found (rel @ name) node path = None" if "\<not> starts_with rel path"
    using that by (cases node) (auto simp: found_def starts_with_iff)
  show "found rel ((name, node) # es) path = (case node_found (rel @ name) node path of Some c \<Rightarrow> Some c | None \<Rightarrow> found rel es path)"
  proof (cases "starts_with rel path")
    case True
    then obtain rest where rest: "path = rel @ rest" by (auto simp: starts_with_iff)
    then show ?thesis using nf [OF rest] ok(2) by (auto simp: found_def starts_with_def split: list.splits option.splits fs_node.splits)
  qed (simp add: none found_def)
  show "node_found (rel @ name) node path \<noteq> None \<Longrightarrow> found rel es path = None"
  proof (cases "starts_with rel path")
    case True
    assume nn: "node_found (rel @ name) node path \<noteq> None"
    from True obtain rest where rest: "path = rel @ rest" by (auto simp: starts_with_iff)
    then show ?thesis using nf [OF rest] nn ok(2) by (auto simp: found_def starts_with_def split: list.splits if_splits)
  qed (simp add: none)
qed

lemma walk_found:
  "tree_ok node \<Longrightarrow> p \<noteq> [] \<Longrightarrow> walk_dir digest p node hashes path = (case node_found p node path of Some c \<Rightarrow> Some (short_hash digest c) | None \<Rightarrow> hashes path)"
  "entries_ok es \<Longrightarrow> walk_entries digest rel es hashes path = (case found rel es path of Some c \<Rightarrow> Some (short_hash digest c) | None \<Rightarrow> hashes path)"
proof (induction digest p node hashes and digest rel es hashes rule: walk_dir_walk_entries.induct)
  case (3 digest rel hashes)
  have "file_at [] ns = None" for ns by (cases ns) simp_all
  then show ?case by (simp add: found_def)
next
  case (4 digest rel name node es hashes)
  then have ok: "tree_ok node" "entries_ok es" "rel @ name \<noteq> []" by auto
  have "walk_entries digest rel ((name, node) # es) hashes path = (case found rel es path of Some c \<Rightarrow> Some (short_hash digest c)
      | None \<Rightarrow> (case node_found (rel @ name) node path of Some c \<Rightarrow> Some (short_hash digest c) | None \<Rightarrow> hashes path))"
    using "4.IH"(2) [OF ok(2)] "4.IH"(1) [OF ok(1,3)] by (simp split: option.split)
  then show ?case using found_Cons [OF "4.prems", of rel path] by (auto split: option.splits)
qed auto

text \<open>A static URL has the version of its file: the URL of a path that leads to a file of the static directory ends in the first
  eight digits of the hash of the file's content, for every depth of directories, and any other path gets no version.\<close>

theorem static_url_versioned:
  assumes "entries_ok es"
  shows "build_static_url prefix (compute_hashes digest (Some es)) path =
     prefix @ ''/'' @ path @ (case file_at es (split_on CHR ''/'' path) of Some content \<Rightarrow> ''?v='' @ take 8 (hex_sha256 digest content) | None \<Rightarrow> [])"
  using walk_found(2) [OF assms, of digest "[]" Map.empty path]
  by (simp add: build_static_url_def compute_hashes_def found_def starts_with_def short_hash_def split: option.split)

theorem static_url_versioned_witness:
  "build_static_url ''/assets'' (compute_hashes (\<lambda>_. [0xAB, 0xCD, 0xEF, 0x01, 0x23]) (Some [(''css'', FsDir [(''a.css'', FsFile [1])])])) ''css/a.css'' =
     ''/assets/css/a.css?v=abcdef01''"
proof -
  have ok: "entries_ok [(''css'', FsDir [(''a.css'', FsFile [1])])]" by code_simp
  have "file_at [(''css'', FsDir [(''a.css'', FsFile [1])])] (split_on CHR ''/'' ''css/a.css'') = Some [1]"
    "take 8 (hex_sha256 (\<lambda>_. [0xAB, 0xCD, 0xEF, 0x01, 0x23]) [1]) = ''abcdef01''" by code_simp+
  then show ?thesis using static_url_versioned [OF ok, of "''/assets''" "\<lambda>_. [0xAB, 0xCD, 0xEF, 0x01, 0x23]" "''css/a.css''"] by simp
qed

end
