(* ===== verification/Embed.thy ===== *)
theory Embed
  imports S3
begin

text \<open>
  Text embeddings (\<^verbatim>\<open>src/src/embed\<close>): the blobs vectors are stored as, the configurations, the four
  backends and the provider in front of them. An \<^verbatim>\<open>f32\<close> is its 32 bits. The HTTP client is a function
  from the request to a failure or a response; decoding a response's JSON is part of it, because the
  decoders are derived by serde, so a response carries both readings of its body: as text, which can
  fail, and as the vectors of its data, which can fail too.
\<close>

unbundle bit_operations_syntax

section \<open>Blobs\<close>

text \<open>\<^verbatim>\<open>f32::to_le_bytes\<close> and \<^verbatim>\<open>f32::from_le_bytes\<close> on the bits of the number.\<close>

definition to_le_bytes :: "u32 \<Rightarrow> u8 list" where
  "to_le_bytes f = [ucast f, ucast (drop_bit 8 f), ucast (drop_bit 16 f), ucast (drop_bit 24 f)]"

definition from_le_bytes :: "u8 list \<Rightarrow> u32" where
  "from_le_bytes c =
     ucast (c ! 0) OR push_bit 8 (ucast (c ! 1)) OR push_bit 16 (ucast (c ! 2)) OR push_bit 24 (ucast (c ! 3))"

fun extend_le :: "u8 list \<Rightarrow> u32 list \<Rightarrow> u8 list" where
  "extend_le buf [] = buf"
| "extend_le buf (f # fs) = extend_le (buf @ to_le_bytes f) fs"

definition to_f32_blob :: "u32 list \<Rightarrow> u8 list" where
  "to_f32_blob v = extend_le [] v"

definition from_f32_blob :: "u8 list \<Rightarrow> u32 list result" where
  "from_f32_blob blob =
     (if length blob mod 4 \<noteq> 0 then Inl (bad_request ''f32 blob length must be a multiple of 4'')
      else Inr (map from_le_bytes (full_chunks 4 blob)))"

section \<open>Configurations\<close>

record openai_config =
  oc_api_key :: string
  oc_model :: string
  oc_dimensions :: nat
  oc_base_url :: "string option"

definition default_openai_model :: string where
  "default_openai_model = ''text-embedding-3-small''"

definition default_openai_dimensions :: nat where
  "default_openai_dimensions = 1536"

definition openai_config_default :: openai_config where
  "openai_config_default =
     \<lparr>oc_api_key = [], oc_model = ''text-embedding-3-small'', oc_dimensions = 1536, oc_base_url = None\<rparr>"

definition openai_validate :: "openai_config \<Rightarrow> unit result" where
  "openai_validate cfg =
     (if oc_api_key cfg = [] then Inl (bad_request ''openai api_key must not be empty'')
      else if oc_model cfg = [] then Inl (bad_request ''openai model must not be empty'')
      else if oc_dimensions cfg = 0 then Inl (bad_request ''openai dimensions must be greater than 0'')
      else Inr ())"

record gemini_config =
  gc_api_key :: string
  gc_model :: string
  gc_dimensions :: nat

definition default_gemini_model :: string where
  "default_gemini_model = ''gemini-embedding-001''"

definition default_gemini_dimensions :: nat where
  "default_gemini_dimensions = 768"

definition gemini_config_default :: gemini_config where
  "gemini_config_default = \<lparr>gc_api_key = [], gc_model = ''gemini-embedding-001'', gc_dimensions = 768\<rparr>"

definition gemini_validate :: "gemini_config \<Rightarrow> unit result" where
  "gemini_validate cfg =
     (if gc_api_key cfg = [] then Inl (bad_request ''gemini api_key must not be empty'')
      else if gc_model cfg = [] then Inl (bad_request ''gemini model must not be empty'')
      else if gc_dimensions cfg = 0 then Inl (bad_request ''gemini dimensions must be greater than 0'')
      else Inr ())"

record mistral_config =
  mc_api_key :: string
  mc_model :: string

definition default_mistral_model :: string where
  "default_mistral_model = ''mistral-embed''"

definition mistral_config_default :: mistral_config where
  "mistral_config_default = \<lparr>mc_api_key = [], mc_model = ''mistral-embed''\<rparr>"

definition mistral_validate :: "mistral_config \<Rightarrow> unit result" where
  "mistral_validate cfg =
     (if mc_api_key cfg = [] then Inl (bad_request ''mistral api_key must not be empty'')
      else if mc_model cfg = [] then Inl (bad_request ''mistral model must not be empty'')
      else Inr ())"

record voyage_config =
  vc_api_key :: string
  vc_model :: string
  vc_dimensions :: nat

definition default_voyage_model :: string where
  "default_voyage_model = ''voyage-4''"

definition default_voyage_dimensions :: nat where
  "default_voyage_dimensions = 1024"

definition voyage_config_default :: voyage_config where
  "voyage_config_default = \<lparr>vc_api_key = [], vc_model = ''voyage-4'', vc_dimensions = 1024\<rparr>"

definition voyage_validate :: "voyage_config \<Rightarrow> unit result" where
  "voyage_validate cfg =
     (if vc_api_key cfg = [] then Inl (bad_request ''voyage api_key must not be empty'')
      else if vc_model cfg = [] then Inl (bad_request ''voyage model must not be empty'')
      else if vc_dimensions cfg = 0 then Inl (bad_request ''voyage dimensions must be greater than 0'')
      else Inr ())"

section \<open>The HTTP client\<close>

text \<open>
  A request has one authorization header; \<^verbatim>\<open>bearer_auth\<close> sets \<^verbatim>\<open>authorization: Bearer key\<close>. The body is
  the JSON value the request struct serializes to. \<open>ers_display\<close> is the status as
  \<^verbatim>\<open>StatusCode\<close> prints it.
\<close>

record embed_request =
  erq_url :: string
  erq_header :: "string \<times> string"
  erq_body :: json

record 'd embed_response =
  ers_status :: nat
  ers_display :: string
  ers_text :: "string option"
  ers_json :: "string + 'd"

type_synonym 'd embed_client = "embed_request \<Rightarrow> string + 'd embed_response"

definition bearer_auth :: "string \<Rightarrow> string \<times> string" where
  "bearer_auth key = (''authorization'', ''Bearer '' @ key)"

section \<open>The backends\<close>

record openai_embedding =
  oe_api_key :: string
  oe_model :: string
  oe_dimensions :: nat
  oe_base_url :: string

definition DEFAULT_BASE_URL :: string where
  "DEFAULT_BASE_URL = ''https://api.openai.com''"

text \<open>\<^verbatim>\<open>trim_end_matches('/')\<close>.\<close>

definition trim_slashes :: "string \<Rightarrow> string" where
  "trim_slashes s = rev (dropWhile (\<lambda>c. c = CHR 0x2F) (rev s))"

definition openai_new :: "openai_config \<Rightarrow> openai_embedding result" where
  "openai_new cfg =
     bind_res (openai_validate cfg) (\<lambda>_.
     Inr \<lparr>oe_api_key = oc_api_key cfg, oe_model = oc_model cfg, oe_dimensions = oc_dimensions cfg,
          oe_base_url = trim_slashes (case oc_base_url cfg of None \<Rightarrow> DEFAULT_BASE_URL | Some u \<Rightarrow> u)\<rparr>)"

definition openai_embed :: "u32 list list embed_client \<Rightarrow> openai_embedding \<Rightarrow> string \<Rightarrow> u8 list result" where
  "openai_embed client be input =
     (let url = oe_base_url be @ ''/v1/embeddings'';
          body = JObject [(''input'', JString input), (''model'', JString (oe_model be)),
                          (''dimensions'', JNumber (int (oe_dimensions be)))]
      in case client \<lparr>erq_url = url, erq_header = bearer_auth (oe_api_key be), erq_body = body\<rparr> of
           Inl e \<Rightarrow> Inl (chain (SrcOther e) (internal ''openai embeddings request failed''))
         | Inr resp \<Rightarrow>
             if \<not> is_success (ers_status resp)
             then Inl (internal (''openai embedding error: '' @ ers_display resp @ '': '' @
                         (case ers_text resp of None \<Rightarrow> [] | Some t \<Rightarrow> t)))
             else case ers_json resp of
                    Inl e \<Rightarrow> Inl (chain (SrcOther e) (internal ''failed to parse openai embedding response''))
                  | Inr [] \<Rightarrow> Inl (internal ''openai returned empty embedding data'')
                  | Inr (values # _) \<Rightarrow> Inr (to_f32_blob values))"

record gemini_embedding =
  ge_api_key :: string
  ge_model :: string
  ge_dimensions :: nat

definition GEMINI_BASE_URL :: string where
  "GEMINI_BASE_URL = ''https://generativelanguage.googleapis.com/v1beta''"

definition gemini_new :: "gemini_config \<Rightarrow> gemini_embedding result" where
  "gemini_new cfg =
     bind_res (gemini_validate cfg) (\<lambda>_.
     Inr \<lparr>ge_api_key = gc_api_key cfg, ge_model = gc_model cfg, ge_dimensions = gc_dimensions cfg\<rparr>)"

definition gemini_embed :: "u32 list embed_client \<Rightarrow> gemini_embedding \<Rightarrow> string \<Rightarrow> u8 list result" where
  "gemini_embed client be input =
     (let url = GEMINI_BASE_URL @ ''/models/'' @ ge_model be @ '':embedContent'';
          body = JObject [(''content'', JObject [(''parts'', JArray [JObject [(''text'', JString input)]])]),
                          (''outputDimensionality'', JNumber (int (ge_dimensions be)))]
      in case client \<lparr>erq_url = url, erq_header = (''x-goog-api-key'', ge_api_key be), erq_body = body\<rparr> of
           Inl e \<Rightarrow> Inl (chain (SrcOther e) (internal ''gemini embeddings request failed''))
         | Inr resp \<Rightarrow>
             if \<not> is_success (ers_status resp)
             then Inl (internal (''gemini embedding error: '' @ ers_display resp @ '': '' @
                         (case ers_text resp of None \<Rightarrow> [] | Some t \<Rightarrow> t)))
             else case ers_json resp of
                    Inl e \<Rightarrow> Inl (chain (SrcOther e) (internal ''failed to parse gemini embedding response''))
                  | Inr values \<Rightarrow> Inr (to_f32_blob values))"

record mistral_embedding =
  me_api_key :: string
  me_model :: string

definition MISTRAL_DIMENSIONS :: nat where
  "MISTRAL_DIMENSIONS = 1024"

definition mistral_new :: "mistral_config \<Rightarrow> mistral_embedding result" where
  "mistral_new cfg =
     bind_res (mistral_validate cfg) (\<lambda>_. Inr \<lparr>me_api_key = mc_api_key cfg, me_model = mc_model cfg\<rparr>)"

definition mistral_embed :: "u32 list list embed_client \<Rightarrow> mistral_embedding \<Rightarrow> string \<Rightarrow> u8 list result" where
  "mistral_embed client be input =
     (let body = JObject [(''input'', JString input), (''model'', JString (me_model be))]
      in case client \<lparr>erq_url = ''https://api.mistral.ai'' @ ''/v1/embeddings'',
                       erq_header = bearer_auth (me_api_key be), erq_body = body\<rparr> of
           Inl e \<Rightarrow> Inl (chain (SrcOther e) (internal ''mistral embeddings request failed''))
         | Inr resp \<Rightarrow>
             if \<not> is_success (ers_status resp)
             then Inl (internal (''mistral embedding error: '' @ ers_display resp @ '': '' @
                         (case ers_text resp of None \<Rightarrow> [] | Some t \<Rightarrow> t)))
             else case ers_json resp of
                    Inl e \<Rightarrow> Inl (chain (SrcOther e) (internal ''failed to parse mistral embedding response''))
                  | Inr [] \<Rightarrow> Inl (internal ''mistral returned empty embedding data'')
                  | Inr (values # _) \<Rightarrow> Inr (to_f32_blob values))"

record voyage_embedding =
  ve_api_key :: string
  ve_model :: string
  ve_dimensions :: nat

definition voyage_new :: "voyage_config \<Rightarrow> voyage_embedding result" where
  "voyage_new cfg =
     bind_res (voyage_validate cfg) (\<lambda>_.
     Inr \<lparr>ve_api_key = vc_api_key cfg, ve_model = vc_model cfg, ve_dimensions = vc_dimensions cfg\<rparr>)"

definition voyage_embed :: "u32 list list embed_client \<Rightarrow> voyage_embedding \<Rightarrow> string \<Rightarrow> u8 list result" where
  "voyage_embed client be input =
     (let body = JObject [(''input'', JString input), (''model'', JString (ve_model be)),
                          (''output_dimension'', JNumber (int (ve_dimensions be)))]
      in case client \<lparr>erq_url = ''https://api.voyageai.com'' @ ''/v1/embeddings'',
                       erq_header = bearer_auth (ve_api_key be), erq_body = body\<rparr> of
           Inl e \<Rightarrow> Inl (chain (SrcOther e) (internal ''voyage embeddings request failed''))
         | Inr resp \<Rightarrow>
             if \<not> is_success (ers_status resp)
             then Inl (internal (''voyage embedding error: '' @ ers_display resp @ '': '' @
                         (case ers_text resp of None \<Rightarrow> [] | Some t \<Rightarrow> t)))
             else case ers_json resp of
                    Inl e \<Rightarrow> Inl (chain (SrcOther e) (internal ''failed to parse voyage embedding response''))
                  | Inr [] \<Rightarrow> Inl (internal ''voyage returned empty embedding data'')
                  | Inr (values # _) \<Rightarrow> Inr (to_f32_blob values))"

section \<open>The provider\<close>

text \<open>A backend is its \<^verbatim>\<open>embed\<close>, its \<^verbatim>\<open>dimensions\<close> and its \<^verbatim>\<open>model_name\<close>.\<close>

record embedding_backend =
  eb_embed :: "string \<Rightarrow> u8 list result"
  eb_dimensions :: nat
  eb_model_name :: string

definition provider_embed :: "embedding_backend \<Rightarrow> string \<Rightarrow> u8 list result" where
  "provider_embed be input =
     (if input = [] then Inl (bad_request ''embedding input must not be empty'') else eb_embed be input)"

definition openai_backend :: "u32 list list embed_client \<Rightarrow> openai_embedding \<Rightarrow> embedding_backend" where
  "openai_backend client be =
     \<lparr>eb_embed = openai_embed client be, eb_dimensions = oe_dimensions be, eb_model_name = oe_model be\<rparr>"

definition gemini_backend :: "u32 list embed_client \<Rightarrow> gemini_embedding \<Rightarrow> embedding_backend" where
  "gemini_backend client be =
     \<lparr>eb_embed = gemini_embed client be, eb_dimensions = ge_dimensions be, eb_model_name = ge_model be\<rparr>"

definition mistral_backend :: "u32 list list embed_client \<Rightarrow> mistral_embedding \<Rightarrow> embedding_backend" where
  "mistral_backend client be =
     \<lparr>eb_embed = mistral_embed client be, eb_dimensions = MISTRAL_DIMENSIONS, eb_model_name = me_model be\<rparr>"

definition voyage_backend :: "u32 list list embed_client \<Rightarrow> voyage_embedding \<Rightarrow> embedding_backend" where
  "voyage_backend client be =
     \<lparr>eb_embed = voyage_embed client be, eb_dimensions = ve_dimensions be, eb_model_name = ve_model be\<rparr>"

section \<open>Blobs: lemmas\<close>

lemma length_to_le_bytes [simp]: "length (to_le_bytes f) = 4"
  by (simp add: to_le_bytes_def)

lemma from_to_le_bytes [simp]: "from_le_bytes (to_le_bytes f) = f"
proof (rule bit_word_eqI)
  fix n
  assume n: "n < LENGTH(32)"
  then consider "n < 8" | "8 \<le> n" "n < 16" | "16 \<le> n" "n < 24" | "24 \<le> n" by linarith
  then show "bit (from_le_bytes (to_le_bytes f)) n = bit f n"
    by cases (use n in \<open>auto simp: from_le_bytes_def to_le_bytes_def bit_simps\<close>)
qed

lemma to_from_le_bytes:
  assumes "length c = 4"
  shows "to_le_bytes (from_le_bytes c) = c"
proof -
  obtain a b d e where c: "c = [a, b, d, e]"
    using assms by (auto simp: numeral_eq_Suc length_Suc_conv)
  have "ucast (from_le_bytes c) = a" "ucast (drop_bit 8 (from_le_bytes c)) = b"
    "ucast (drop_bit 16 (from_le_bytes c)) = d" "ucast (drop_bit 24 (from_le_bytes c)) = e"
    unfolding c by (rule bit_word_eqI, auto simp: from_le_bytes_def bit_simps dest: bit_imp_le_length)+
  then show ?thesis by (simp add: to_le_bytes_def c)
qed

lemma extend_le: "extend_le buf v = buf @ concat (map to_le_bytes v)"
  by (induction v arbitrary: buf) auto

lemma to_f32_blob: "to_f32_blob v = concat (map to_le_bytes v)"
  by (simp add: to_f32_blob_def extend_le)

lemma length_f32_blob [simp]: "length (to_f32_blob v) = 4 * length v"
  by (simp add: to_f32_blob) (induction v; simp)

lemma from_f32_blob_to [simp]: "from_f32_blob (to_f32_blob v) = Inr v"
  using full_chunks_concat [of 4 "map to_le_bytes v" "[]"]
  by (simp add: from_f32_blob_def to_f32_blob comp_def) (simp add: length_f32_blob [unfolded to_f32_blob])

lemma from_f32_blob_Inr: "from_f32_blob b = Inr v \<Longrightarrow> to_f32_blob v = b"
proof -
  assume v: "from_f32_blob b = Inr v"
  then have len: "length b mod 4 = 0" and "v = map from_le_bytes (full_chunks 4 b)"
    by (auto simp: from_f32_blob_def split: if_splits)
  moreover have "map (to_le_bytes \<circ> from_le_bytes) (full_chunks 4 b) = full_chunks 4 b"
    by (rule map_idI) (simp add: to_from_le_bytes full_chunks_length)
  moreover have "chunk_rest 4 b = []" using length_chunk_rest [of 4 b] len by simp
  then have "concat (full_chunks 4 b) = b" using concat_full_chunks [of 4 b] by simp
  ultimately show ?thesis by (simp add: to_f32_blob)
qed

section \<open>The contract of a backend\<close>

text \<open>
  What the provider relies on: a backend answers either with a server error or with the blob of a
  vector.
\<close>

locale embedding =
  fixes backend :: embedding_backend
  assumes embed_blob: "eb_embed backend input = Inr b \<Longrightarrow> \<exists>v. b = to_f32_blob v"
    and embed_err: "eb_embed backend input = Inl e \<Longrightarrow> err_status e = 500"
begin

lemma provider_answer:
  "case provider_embed backend input of
     Inl e \<Rightarrow> err_status e = (if input = [] then 400 else 500)
   | Inr b \<Rightarrow> input \<noteq> [] \<and> (\<exists>v. from_f32_blob b = Inr v \<and> to_f32_blob v = b)"
  using embed_blob [of input] embed_err [of input]
  by (auto simp: provider_embed_def bad_request_def error_new_def split: sum.splits if_splits)

end

lemmas embed_defs = Let_def chain_def internal_def error_new_def

interpretation openai: embedding "openai_backend client be" for client be
  by unfold_locales
    (auto simp: openai_backend_def openai_embed_def embed_defs split: sum.splits if_splits list.splits)

interpretation gemini: embedding "gemini_backend client be" for client be
  by unfold_locales
    (auto simp: gemini_backend_def gemini_embed_def embed_defs split: sum.splits if_splits)

interpretation mistral: embedding "mistral_backend client be" for client be
  by unfold_locales
    (auto simp: mistral_backend_def mistral_embed_def embed_defs split: sum.splits if_splits list.splits)

interpretation voyage: embedding "voyage_backend client be" for client be
  by unfold_locales
    (auto simp: voyage_backend_def voyage_embed_def embed_defs split: sum.splits if_splits list.splits)

section \<open>Properties\<close>

text \<open>
  The blob a vector is stored as has four bytes per number and reads back as the vector, and every
  blob that can be read is the blob of what was read; reading fails exactly for the lengths that are
  not a multiple of four.
\<close>

theorem f32_blob_roundtrip:
  "from_f32_blob (to_f32_blob v) = Inr v \<and> length (to_f32_blob v) = 4 * length v \<and>
   (from_f32_blob b = Inr w \<longleftrightarrow> b = to_f32_blob w) \<and>
   ((\<exists>e. from_f32_blob b = Inl e) \<longleftrightarrow> length b mod 4 \<noteq> 0)"
proof -
  have "(\<exists>e. from_f32_blob b = Inl e) \<longleftrightarrow> length b mod 4 \<noteq> 0" by (simp add: from_f32_blob_def)
  then show ?thesis by (auto dest: from_f32_blob_Inr)
qed

text \<open>
  The provider answers, over each of the four backends, 400 for an empty input and 500 for any
  failure of the service; an answer is a blob that reads back as a vector.
\<close>

theorem provider_answers:
  fixes ol vl ml :: "u32 list list embed_client" and gl :: "u32 list embed_client"
  assumes "be \<in> {openai_backend ol ob, gemini_backend gl gb, mistral_backend ml mb, voyage_backend vl vb}"
  shows "case provider_embed be input of
           Inl e \<Rightarrow> err_status e = (if input = [] then 400 else 500)
         | Inr b \<Rightarrow> input \<noteq> [] \<and> (\<exists>v. from_f32_blob b = Inr v \<and> to_f32_blob v = b)"
  using assms openai.provider_answer gemini.provider_answer mistral.provider_answer voyage.provider_answer
  by (elim insertE emptyE; simp only:)

theorem provider_answers_witness:
  "case provider_embed (mistral_backend (\<lambda>_. Inr \<lparr>ers_status = 200, ers_display = [], ers_text = None, ers_json = Inr [[1]]\<rparr>)
          \<lparr>me_api_key = ''k'', me_model = ''m''\<rparr>) ''x'' of
     Inl e \<Rightarrow> err_status e = 500
   | Inr b \<Rightarrow> ''x'' \<noteq> [] \<and> (\<exists>v. from_f32_blob b = Inr v \<and> to_f32_blob v = b)"
  using provider_answers [where input = "''x''" and
      ml = "\<lambda>_. Inr \<lparr>ers_status = 200, ers_display = [], ers_text = None, ers_json = Inr [[1]]\<rparr>" and
      mb = "\<lparr>me_api_key = ''k'', me_model = ''m''\<rparr>" and
      be = "mistral_backend (\<lambda>_. Inr \<lparr>ers_status = 200, ers_display = [], ers_text = None, ers_json = Inr [[1]]\<rparr>)
              \<lparr>me_api_key = ''k'', me_model = ''m''\<rparr>"]
  by (simp split: sum.splits)

text \<open>
  A backend does not compare the length of the vector it received with the dimensions it was
  configured with: the service decides how long the blob is.
\<close>

lemma embed_length_unchecked:
  assumes "openai_new cfg = Inr be"
  shows "\<exists>client b. openai_embed client be input = Inr b \<and> length b = 4 * n"
proof -
  let ?client = "\<lambda>_. Inr \<lparr>ers_status = 200, ers_display = ''200 OK'', ers_text = None, ers_json = Inr [replicate n 0]\<rparr>"
  have "openai_embed ?client be input = Inr (to_f32_blob (replicate n 0))"
    by (simp add: openai_embed_def is_success_def)
  then show ?thesis by (metis length_f32_blob length_replicate)
qed

text \<open>
  A backend is built exactly from a configuration with a key, a model and a positive number of
  dimensions; the defaults lack only the key. The address of the service ends in no slash.
\<close>

theorem openai_built:
  "(\<exists>be. openai_new cfg = Inr be) \<longleftrightarrow> oc_api_key cfg \<noteq> [] \<and> oc_model cfg \<noteq> [] \<and> oc_dimensions cfg \<noteq> 0"
  "openai_new cfg = Inr be \<Longrightarrow> oe_base_url be = [] \<or> last (oe_base_url be) \<noteq> CHR 0x2F"
proof -
  show "(\<exists>be. openai_new cfg = Inr be) \<longleftrightarrow> oc_api_key cfg \<noteq> [] \<and> oc_model cfg \<noteq> [] \<and> oc_dimensions cfg \<noteq> 0"
    by (simp add: openai_new_def openai_validate_def bind_res_def)
next
  assume "openai_new cfg = Inr be"
  then obtain u where u: "oe_base_url be = trim_slashes u"
    by (auto simp: openai_new_def bind_res_def split: sum.splits)
  show "oe_base_url be = [] \<or> last (oe_base_url be) \<noteq> CHR 0x2F"
    using hd_dropWhile [of "\<lambda>c. c = CHR 0x2F" "rev u"] unfolding u trim_slashes_def by (auto simp: last_rev)
qed

end
