(* ===== verification/Spec2Isabelle.thy ===== *)
theory Spec2Isabelle
  imports Encoding Template_Cache Session_Store Jwt_Session Job_Queue Rate_Limit Api_Key Guards Hosts Domains Webhook Totp Csrf_Flash Query S3 Storage I18n Sse Cron Sanitize Oauth Middleware Email Pool Templates Embed
begin

text \<open>
  A verification library for modo, a web framework in Rust. Work in progress: the theories
  imported here open with what they model.
\<close>

end
